(* ===== verification/Prelude.thy ===== *)
theory Prelude
  imports Main "HOL-Library.Word"
begin

text \<open>
  What every component of the development shares: the result-state computations
  in which the precompile methods are written, the checked and saturating
  arithmetic of the fixed-width unsigned integers, the machine types of the
  source as type synonyms, and the collections of rules with which the
  component proofs are automated.

  A method \<open>fn f(&mut self, ..) -> Result<T>\<close> of the source is a
  function from a state to either an error (\<^term>\<open>Inl e\<close>) or a value
  with the new state (\<^term>\<open>Inr (x, s)\<close>). A method with \<open>&self\<close> is
  a function of the state into a plain result. The state after an error is not
  kept: the call frame that receives the error reverts.
\<close>

section \<open>Machine types\<close>

type_synonym address = "160 word"
type_synonym b256 = "256 word"
type_synonym u256 = nat
type_synonym u128 = nat
type_synonym u96 = nat
type_synonym u64 = nat
type_synonym u32 = nat
type_synonym u16 = nat
type_synonym u8 = nat
type_synonym i16 = int

section \<open>Rule collections\<close>

named_theorems runs \<open>inversion of successful runs of result-state computations\<close>
named_theorems frame \<open>computations that leave an observation of the state unchanged\<close>
named_theorems keeping \<open>computations that keep a predicate of the state\<close>

section \<open>Checked and saturating arithmetic\<close>

text \<open>The width \<open>n\<close> is the number of bits of the unsigned type: 256 for \<open>U256\<close>,
  128, 64 and 32 for the primitive types.\<close>

definition umax :: "nat \<Rightarrow> nat" where
  "umax n = 2 ^ n - 1"

definition checked_add :: "nat \<Rightarrow> nat \<Rightarrow> nat \<Rightarrow> nat option" where
  "checked_add n a b = (if a + b < 2 ^ n then Some (a + b) else None)"

definition checked_sub :: "nat \<Rightarrow> nat \<Rightarrow> nat option" where
  "checked_sub a b = (if b \<le> a then Some (a - b) else None)"

definition checked_mul :: "nat \<Rightarrow> nat \<Rightarrow> nat \<Rightarrow> nat option" where
  "checked_mul n a b = (if a * b < 2 ^ n then Some (a * b) else None)"

definition checked_div :: "nat \<Rightarrow> nat \<Rightarrow> nat option" where
  "checked_div a b = (if b = 0 then None else Some (a div b))"

definition saturating_add :: "nat \<Rightarrow> nat \<Rightarrow> nat \<Rightarrow> nat" where
  "saturating_add n a b = min (a + b) (umax n)"

definition saturating_sub :: "nat \<Rightarrow> nat \<Rightarrow> nat" where
  "saturating_sub a b = a - b"

definition saturating_mul :: "nat \<Rightarrow> nat \<Rightarrow> nat \<Rightarrow> nat" where
  "saturating_mul n a b = min (a * b) (umax n)"

definition saturating_to :: "nat \<Rightarrow> nat \<Rightarrow> nat" where
  "saturating_to n a = min a (umax n)"

definition try_into :: "nat \<Rightarrow> nat \<Rightarrow> nat option" where
  "try_into n a = (if a < 2 ^ n then Some a else None)"

definition div_ceil :: "nat \<Rightarrow> nat \<Rightarrow> nat" where
  "div_ceil a b = (a + b - 1) div b"

lemma checked_add_Some [simp]:
  "checked_add n a b = Some c \<longleftrightarrow> c = a + b \<and> a + b < 2 ^ n"
  by (auto simp: checked_add_def)

lemma checked_add_None [simp]: "checked_add n a b = None \<longleftrightarrow> 2 ^ n \<le> a + b"
  by (auto simp: checked_add_def)

lemma checked_sub_Some [simp]: "checked_sub a b = Some c \<longleftrightarrow> c = a - b \<and> b \<le> a"
  by (auto simp: checked_sub_def)

lemma checked_sub_None [simp]: "checked_sub a b = None \<longleftrightarrow> a < b"
  by (auto simp: checked_sub_def)

lemma checked_mul_Some [simp]:
  "checked_mul n a b = Some c \<longleftrightarrow> c = a * b \<and> a * b < 2 ^ n"
  by (auto simp: checked_mul_def)

lemma checked_mul_None [simp]: "checked_mul n a b = None \<longleftrightarrow> 2 ^ n \<le> a * b"
  by (auto simp: checked_mul_def)

lemma checked_div_Some [simp]: "checked_div a b = Some c \<longleftrightarrow> c = a div b \<and> b \<noteq> 0"
  by (auto simp: checked_div_def)

lemma checked_div_None [simp]: "checked_div a b = None \<longleftrightarrow> b = 0"
  by (auto simp: checked_div_def)

lemma try_into_Some [simp]: "try_into n a = Some b \<longleftrightarrow> b = a \<and> a < 2 ^ n"
  by (auto simp: try_into_def)

lemma try_into_None [simp]: "try_into n a = None \<longleftrightarrow> 2 ^ n \<le> a"
  by (auto simp: try_into_def)

lemma saturating_to_le: "saturating_to n a \<le> a"
  by (simp add: saturating_to_def)

lemma saturating_to_mono: "a \<le> b \<Longrightarrow> saturating_to n a \<le> saturating_to n b"
  by (auto simp: saturating_to_def)

lemma saturating_add_ge: "a \<le> umax n \<Longrightarrow> a \<le> saturating_add n a b"
  by (simp add: saturating_add_def)

text \<open>Rounding up is the least multiple above.\<close>

lemma div_ceil_le_iff:
  assumes "0 < b"
  shows "div_ceil a b \<le> k \<longleftrightarrow> a \<le> k * b"
proof -
  have "div_ceil a b \<le> k \<longleftrightarrow> (a + b - 1) div b < Suc k"
    by (simp add: div_ceil_def less_Suc_eq_le)
  also have "\<dots> \<longleftrightarrow> a + b - 1 < Suc k * b"
    using assms by (simp add: div_less_iff_less_mult)
  also have "\<dots> \<longleftrightarrow> a \<le> k * b"
    using assms by auto
  finally show ?thesis .
qed

lemma div_ceil_mult_ge: "0 < b \<Longrightarrow> a \<le> div_ceil a b * b"
  using div_ceil_le_iff [of b a "div_ceil a b"] by simp

lemma div_le_div_ceil: "0 < b \<Longrightarrow> a div b \<le> div_ceil a b"
  by (simp add: div_ceil_def div_le_mono)

lemma div_ceil_le_Suc_div:
  assumes "0 < b"
  shows "div_ceil a b \<le> a div b + 1"
proof -
  have "a < (a div b + 1) * b"
    using dividend_less_div_times [OF assms, of a] by (simp add: algebra_simps)
  then show ?thesis
    using assms by (simp add: div_ceil_le_iff)
qed

section \<open>Result-state computations\<close>

type_synonym ('s, 'e, 'a) rm = "'s \<Rightarrow> 'e + 'a \<times> 's"

definition ok :: "'a \<Rightarrow> ('s, 'e, 'a) rm" where
  "ok x = (\<lambda>s. Inr (x, s))"

definition err :: "'e \<Rightarrow> ('s, 'e, 'a) rm" where
  "err e = (\<lambda>s. Inl e)"

definition rbind :: "('s, 'e, 'a) rm \<Rightarrow> ('a \<Rightarrow> ('s, 'e, 'b) rm) \<Rightarrow> ('s, 'e, 'b) rm" where
  "rbind m f = (\<lambda>s. case m s of Inl e \<Rightarrow> Inl e | Inr (x, s') \<Rightarrow> f x s')"

definition rseq :: "('s, 'e, unit) rm \<Rightarrow> ('s, 'e, 'b) rm \<Rightarrow> ('s, 'e, 'b) rm" where
  "rseq m n = rbind m (\<lambda>_. n)"

definition gets :: "('s \<Rightarrow> 'a) \<Rightarrow> ('s, 'e, 'a) rm" where
  "gets f = (\<lambda>s. Inr (f s, s))"

definition modify :: "('s \<Rightarrow> 's) \<Rightarrow> ('s, 'e, unit) rm" where
  "modify f = (\<lambda>s. Inr ((), f s))"

definition ensure :: "bool \<Rightarrow> 'e \<Rightarrow> ('s, 'e, unit) rm" where
  "ensure b e = (if b then ok () else err e)"

definition ok_or :: "'a option \<Rightarrow> 'e \<Rightarrow> ('s, 'e, 'a) rm" where
  "ok_or v e = (case v of None \<Rightarrow> err e | Some x \<Rightarrow> ok x)"

definition only_if :: "bool \<Rightarrow> ('s, 'e, unit) rm \<Rightarrow> ('s, 'e, unit) rm" where
  "only_if b m = (if b then m else ok ())"

text \<open>A call of a \<open>&self\<close> method from a \<open>&mut self\<close> method, and a result
  that does not depend on the state.\<close>

definition rd :: "('s \<Rightarrow> 'e + 'a) \<Rightarrow> ('s, 'e, 'a) rm" where
  "rd f = (\<lambda>s. case f s of Inl e \<Rightarrow> Inl e | Inr x \<Rightarrow> Inr (x, s))"

definition map_err :: "('e \<Rightarrow> 'e) \<Rightarrow> ('s, 'e, 'a) rm \<Rightarrow> ('s, 'e, 'a) rm" where
  "map_err g m = (\<lambda>s. case m s of Inl e \<Rightarrow> Inl (g e) | Inr r \<Rightarrow> Inr r)"

text \<open>Plain results: the \<open>?\<close> operator of \<open>&self\<close> methods.\<close>

definition ebind :: "'e + 'a \<Rightarrow> ('a \<Rightarrow> 'e + 'b) \<Rightarrow> 'e + 'b" where
  "ebind r f = (case r of Inl e \<Rightarrow> Inl e | Inr x \<Rightarrow> f x)"

definition eok_or :: "'a option \<Rightarrow> 'e \<Rightarrow> 'e + 'a" where
  "eok_or v e = (case v of None \<Rightarrow> Inl e | Some x \<Rightarrow> Inr x)"

text \<open>A loop \<open>for x in xs { body(x)? }\<close>.\<close>

primrec for_each :: "'x list \<Rightarrow> ('x \<Rightarrow> ('s, 'e, unit) rm) \<Rightarrow> ('s, 'e, unit) rm" where
  "for_each [] f = ok ()"
| "for_each (x # xs) f = rseq (f x) (for_each xs f)"

subsection \<open>Evaluation\<close>

lemma ok_run [simp]: "ok x s = Inr (x, s)"
  by (simp add: ok_def)

lemma err_run [simp]: "err e s = Inl e"
  by (simp add: err_def)

lemma gets_run [simp]: "gets f s = Inr (f s, s)"
  by (simp add: gets_def)

lemma modify_run [simp]: "modify f s = Inr ((), f s)"
  by (simp add: modify_def)

lemma ensure_run: "ensure b e s = (if b then Inr ((), s) else Inl e)"
  by (simp add: ensure_def)

lemma ensure_True [simp]: "ensure True e = ok ()"
  by (simp add: ensure_def)

lemma ensure_False [simp]: "ensure False e = err e"
  by (simp add: ensure_def)

lemma only_if_True [simp]: "only_if True m = m"
  by (simp add: only_if_def)

lemma only_if_False [simp]: "only_if False m = ok ()"
  by (simp add: only_if_def)

lemma ok_or_Some [simp]: "ok_or (Some x) e = ok x"
  by (simp add: ok_or_def)

lemma ok_or_None [simp]: "ok_or None e = err e"
  by (simp add: ok_or_def)

lemma rbind_Inl [simp]: "m s = Inl e \<Longrightarrow> rbind m f s = Inl e"
  by (simp add: rbind_def)

lemma rbind_Inr [simp]: "m s = Inr (x, s') \<Longrightarrow> rbind m f s = f x s'"
  by (simp add: rbind_def)

lemma rseq_Inl [simp]: "m s = Inl e \<Longrightarrow> rseq m n s = Inl e"
  by (simp add: rseq_def)

lemma rseq_Inr [simp]: "m s = Inr (x, s') \<Longrightarrow> rseq m n s = n s'"
  by (simp add: rseq_def)

lemma rd_Inl [simp]: "f s = Inl e \<Longrightarrow> rd f s = Inl e"
  by (simp add: rd_def)

lemma rd_Inr [simp]: "f s = Inr x \<Longrightarrow> rd f s = Inr (x, s)"
  by (simp add: rd_def)

lemma ebind_simps [simp]: "ebind (Inl e) g = Inl e" "ebind (Inr x) g = g x"
  by (simp_all add: ebind_def)

lemma eok_or_simps [simp]: "eok_or None e = Inl e" "eok_or (Some x) e = Inr x"
  by (simp_all add: eok_or_def)

text \<open>Unfolding a computation into nested case distinctions on the state.\<close>

lemmas run_defs = rbind_def rseq_def ensure_run only_if_def ok_or_def rd_def Let_def

subsection \<open>Inversion of successful runs\<close>

lemma rbind_eq_Inr [runs]:
  "rbind m f s = Inr r \<longleftrightarrow> (\<exists>x s'. m s = Inr (x, s') \<and> f x s' = Inr r)"
  by (auto simp: rbind_def split: sum.splits)

lemma rseq_eq_Inr [runs]:
  "rseq m n s = Inr r \<longleftrightarrow> (\<exists>s'. m s = Inr ((), s') \<and> n s' = Inr r)"
  by (auto simp: rseq_def rbind_eq_Inr)

lemma ensure_eq_Inr [runs]: "ensure b e s = Inr r \<longleftrightarrow> b \<and> r = ((), s)"
  by (auto simp: ensure_run)

lemma only_if_eq_Inr [runs]:
  "only_if b m s = Inr r \<longleftrightarrow> (if b then m s = Inr r else r = ((), s))"
  by (auto simp: only_if_def)

lemma ok_or_eq_Inr [runs]: "ok_or v e s = Inr r \<longleftrightarrow> (\<exists>x. v = Some x \<and> r = (x, s))"
  by (auto simp: ok_or_def split: option.splits)

lemma rd_eq_Inr [runs]: "rd f s = Inr r \<longleftrightarrow> (\<exists>x. f s = Inr x \<and> r = (x, s))"
  by (auto simp: rd_def split: sum.splits)

lemma map_err_eq_Inr [runs]: "map_err g m s = Inr r \<longleftrightarrow> m s = Inr r"
  by (auto simp: map_err_def split: sum.splits)

lemma ebind_eq_Inr [runs]: "ebind r f = Inr y \<longleftrightarrow> (\<exists>x. r = Inr x \<and> f x = Inr y)"
  by (auto simp: ebind_def split: sum.splits)

lemma eok_or_eq_Inr [runs]: "eok_or v e = Inr x \<longleftrightarrow> v = Some x"
  by (auto simp: eok_or_def split: option.splits)

lemma rbind_eq_Inl:
  "rbind m f s = Inl e \<longleftrightarrow> m s = Inl e \<or> (\<exists>x s'. m s = Inr (x, s') \<and> f x s' = Inl e)"
  by (auto simp: rbind_def split: sum.splits)

lemma rseq_eq_Inl:
  "rseq m n s = Inl e \<longleftrightarrow> m s = Inl e \<or> (\<exists>s'. m s = Inr ((), s') \<and> n s' = Inl e)"
  by (auto simp: rseq_def rbind_eq_Inl)

subsection \<open>Relations between the states before and after\<close>

text \<open>\<open>steps R m\<close>: a successful run of \<open>m\<close> relates the state before to the state after by \<open>R\<close>.\<close>

definition steps :: "('s \<Rightarrow> 's \<Rightarrow> bool) \<Rightarrow> ('s, 'e, 'a) rm \<Rightarrow> bool" where
  "steps R m \<longleftrightarrow> (\<forall>s x s'. m s = Inr (x, s') \<longrightarrow> R s s')"

lemma stepsD: "steps R m \<Longrightarrow> m s = Inr (x, s') \<Longrightarrow> R s s'"
  by (auto simp: steps_def)

lemma stepsI: "(\<And>s x s'. m s = Inr (x, s') \<Longrightarrow> R s s') \<Longrightarrow> steps R m"
  by (auto simp: steps_def)

text \<open>A relation that is reflexive and transitive is shown of a method step by step.\<close>

locale step_relation =
  fixes R :: "'s \<Rightarrow> 's \<Rightarrow> bool"
  assumes refl: "R s s"
    and trans: "R s t \<Longrightarrow> R t u \<Longrightarrow> R s u"
begin

lemma basic:
  "steps R (ok x)" "steps R (err e)" "steps R (gets g)" "steps R (ensure b e)" "steps R (ok_or v e)" "steps R (rd h)"
  using refl by (auto simp: steps_def runs)

lemma bind: "steps R m \<Longrightarrow> (\<And>x. steps R (k x)) \<Longrightarrow> steps R (rbind m k)"
  unfolding steps_def rbind_eq_Inr using trans by blast

lemma seq: "steps R m \<Longrightarrow> steps R n \<Longrightarrow> steps R (rseq m n)"
  by (simp add: rseq_def bind)

lemma guarded: "(b \<Longrightarrow> steps R m) \<Longrightarrow> steps R (only_if b m)"
  using basic by (cases b) auto

lemma mapped: "steps R m \<Longrightarrow> steps R (map_err g m)"
  by (auto simp: steps_def runs)

lemma branch: "(b \<Longrightarrow> steps R m) \<Longrightarrow> (\<not> b \<Longrightarrow> steps R n) \<Longrightarrow> steps R (if b then m else n)"
  by simp

lemma option_case:
  "(x = None \<Longrightarrow> steps R m) \<Longrightarrow> (\<And>y. x = Some y \<Longrightarrow> steps R (n y)) \<Longrightarrow> steps R (case x of None \<Rightarrow> m | Some y \<Rightarrow> n y)"
  by (cases x) auto

lemma sum_case:
  "(\<And>e. x = Inl e \<Longrightarrow> steps R (m e)) \<Longrightarrow> (\<And>y. x = Inr y \<Longrightarrow> steps R (n y)) \<Longrightarrow>
    steps R (case x of Inl e \<Rightarrow> m e | Inr y \<Rightarrow> n y)"
  by (cases x) auto

lemma prod_case: "(\<And>a b. x = (a, b) \<Longrightarrow> steps R (m a b)) \<Longrightarrow> steps R (case x of (a, b) \<Rightarrow> m a b)"
  by (cases x) auto

lemma let_in: "(\<And>y. y = x \<Longrightarrow> steps R (m y)) \<Longrightarrow> steps R (Let x m)"
  by simp

lemma loop: "(\<And>x. x \<in> set xs \<Longrightarrow> steps R (body x)) \<Longrightarrow> steps R (for_each xs body)"
  by (induction xs) (auto intro: basic seq)

lemmas compose = basic bind seq guarded mapped branch option_case sum_case prod_case let_in loop

end

subsection \<open>Frames and invariants\<close>

text \<open>\<open>preserves f m\<close>: a successful run of \<open>m\<close> leaves the observation \<open>f\<close> of the state
  unchanged. \<open>keeps I m\<close>: a successful run of \<open>m\<close> from a state with \<open>I\<close> ends in one.\<close>

definition preserves :: "('s \<Rightarrow> 'b) \<Rightarrow> ('s, 'e, 'a) rm \<Rightarrow> bool" where
  "preserves f m \<longleftrightarrow> (\<forall>s x s'. m s = Inr (x, s') \<longrightarrow> f s' = f s)"

definition keeps :: "('s \<Rightarrow> bool) \<Rightarrow> ('s, 'e, 'a) rm \<Rightarrow> bool" where
  "keeps I m \<longleftrightarrow> (\<forall>s x s'. I s \<longrightarrow> m s = Inr (x, s') \<longrightarrow> I s')"

lemma preserves_steps: "steps (\<lambda>s s'. f s' = f s) m \<longleftrightarrow> preserves f m"
  by (auto simp: preserves_def steps_def)

lemma keeps_steps: "steps (\<lambda>s s'. I s \<longrightarrow> I s') m \<longleftrightarrow> keeps I m"
  by (auto simp: keeps_def steps_def)

interpretation unchanged: step_relation "\<lambda>s s'. f s' = f s" for f
  by unfold_locales auto

interpretation kept: step_relation "\<lambda>s s'. I s \<longrightarrow> I s'" for I
  by unfold_locales auto

lemma preservesD: "preserves f m \<Longrightarrow> m s = Inr (x, s') \<Longrightarrow> f s' = f s"
  by (auto simp: preserves_def)

lemma keepsD: "keeps I m \<Longrightarrow> m s = Inr (x, s') \<Longrightarrow> I s \<Longrightarrow> I s'"
  by (auto simp: keeps_def)

lemma preserves_keeps: "preserves f m \<Longrightarrow> keeps (\<lambda>s. P (f s)) m"
  by (simp add: preserves_def keeps_def)

lemma preserves_modify: "(\<And>s. f (g s) = f s) \<Longrightarrow> preserves f (modify g)"
  by (simp add: preserves_def)

lemmas preserves_basic [frame, intro!, simp] = unchanged.basic [unfolded preserves_steps]
lemmas preserves_rbind [frame, intro] = unchanged.bind [unfolded preserves_steps]
lemmas preserves_rseq [frame, intro] = unchanged.seq [unfolded preserves_steps]
lemmas preserves_only_if [frame, intro] = unchanged.guarded [unfolded preserves_steps]
lemmas preserves_map_err [frame, intro] = unchanged.mapped [unfolded preserves_steps]
lemmas preserves_if [frame, intro] = unchanged.branch [unfolded preserves_steps]
lemmas preserves_for_each [frame, intro] = unchanged.loop [unfolded preserves_steps]
lemmas preserves_cases [frame] =
  unchanged.option_case [unfolded preserves_steps] unchanged.sum_case [unfolded preserves_steps]
  unchanged.prod_case [unfolded preserves_steps] unchanged.let_in [unfolded preserves_steps]

lemmas keeps_basic [keeping, intro!, simp] = kept.basic [unfolded keeps_steps]
lemmas keeps_rbind [keeping, intro] = kept.bind [unfolded keeps_steps]
lemmas keeps_rseq [keeping, intro] = kept.seq [unfolded keeps_steps]
lemmas keeps_only_if [keeping, intro] = kept.guarded [unfolded keeps_steps]
lemmas keeps_map_err [keeping, intro] = kept.mapped [unfolded keeps_steps]
lemmas keeps_if [keeping, intro] = kept.branch [unfolded keeps_steps]
lemmas keeps_for_each [keeping, intro] = kept.loop [unfolded keeps_steps]
lemmas keeps_cases [keeping] =
  kept.option_case [unfolded keeps_steps] kept.sum_case [unfolded keeps_steps]
  kept.prod_case [unfolded keeps_steps] kept.let_in [unfolded keeps_steps]

lemma keeps_rbind_post:
  assumes "keeps I m" "\<And>s x s'. m s = Inr (x, s') \<Longrightarrow> Q x" "\<And>x. Q x \<Longrightarrow> keeps I (k x)"
  shows "keeps I (rbind m k)"
  using assms unfolding keeps_def rbind_eq_Inr by metis

lemma keeps_rd_pure: "(h = Inr () \<Longrightarrow> keeps I n) \<Longrightarrow> keeps I (rseq (rd (\<lambda>_. h)) n)"
  by (cases h) (auto simp: keeps_def runs)

lemma rseq_ok_right: "rseq m (ok ()) = m"
  by (auto simp: rseq_def rbind_def fun_eq_iff split: sum.splits)

lemma rseq_assoc: "rseq (rseq a b) c = rseq a (rseq b c)"
  by (auto simp: rseq_def rbind_def fun_eq_iff split: sum.splits)

section \<open>Duplicates\<close>

text \<open>The source tests a list for duplicates by sorting it and comparing neighbours.\<close>

fun has_equal_neighbours :: "'a list \<Rightarrow> bool" where
  "has_equal_neighbours (x # y # zs) = (x = y \<or> has_equal_neighbours (y # zs))"
| "has_equal_neighbours _ = False"

definition has_duplicates :: "'a::linorder list \<Rightarrow> bool" where
  "has_duplicates xs = has_equal_neighbours (sort xs)"

lemma sorted_neighbours: "sorted xs \<Longrightarrow> has_equal_neighbours xs \<longleftrightarrow> \<not> distinct xs"
proof (induction xs rule: has_equal_neighbours.induct)
  case (1 x y zs)
  then have "x \<in> set zs \<Longrightarrow> x = y"
    by (auto intro: antisym)
  then show ?case
    using 1 by auto
qed auto

lemma has_duplicates_iff: "has_duplicates xs \<longleftrightarrow> \<not> distinct xs"
  by (simp add: has_duplicates_def sorted_neighbours)

section \<open>Sequences of operations\<close>

text \<open>A history is a list of calls; a call that fails reverts and leaves the state as it was.\<close>

fun run_ops :: "('op \<Rightarrow> ('s, 'e, 'a) rm) \<Rightarrow> 'op list \<Rightarrow> 's \<Rightarrow> 's" where
  "run_ops step [] s = s"
| "run_ops step (c # cs) s =
    (case step c s of Inl e \<Rightarrow> run_ops step cs s | Inr (x, s') \<Rightarrow> run_ops step cs s')"

lemma run_ops_keeps: "(\<And>c. c \<in> set cs \<Longrightarrow> keeps I (step c)) \<Longrightarrow> I s \<Longrightarrow> I (run_ops step cs s)"
proof (induction cs arbitrary: s)
  case (Cons c cs)
  have "keeps I (step c)"
    by (simp add: Cons.prems)
  then have "I s'" if "step c s = Inr (x, s')" for x s'
    using that Cons.prems(2) by (auto dest: keepsD)
  then show ?case
    using Cons by (auto split: sum.split)
qed simp

text \<open>The interface of a state machine with an invariant: what the clients of a component rely on
  when other calls happen between two of their own.\<close>

locale invariant_machine =
  fixes step :: "'op \<Rightarrow> ('s, 'e, 'a) rm"
    and inv :: "'s \<Rightarrow> bool"
  assumes step_keeps: "keeps inv (step c)"
begin

lemma run_ops_inv: "inv s \<Longrightarrow> inv (run_ops step cs s)"
proof (induction cs arbitrary: s)
  case (Cons c cs)
  then show ?case
    using step_keeps [of c] by (auto simp: keeps_def split: sum.splits)
qed simp

lemma run_ops_prefix: "run_ops step (as @ bs) s = run_ops step bs (run_ops step as s)"
  by (induction as arbitrary: s) (auto split: sum.splits)

end

section \<open>Sums over finitely many accounts\<close>

lemma sum_upd:
  fixes f :: "'k::finite \<Rightarrow> nat"
  shows "(\<Sum>a\<in>UNIV. (f(k := v)) a) + f k = (\<Sum>a\<in>UNIV. f a) + v"
proof -
  have "(\<Sum>a\<in>UNIV. (f(k := v)) a) = v + (\<Sum>a\<in>UNIV - {k}. f a)"
    by (subst sum.remove [of _ k]) (auto intro!: sum.cong)
  moreover have "(\<Sum>a\<in>UNIV. f a) = f k + (\<Sum>a\<in>UNIV - {k}. f a)"
    by (subst sum.remove [of _ k]) auto
  ultimately show ?thesis by simp
qed

lemma sum_upd_add:
  fixes f :: "'k::finite \<Rightarrow> nat"
  shows "(\<Sum>a\<in>UNIV. (f(k := f k + v)) a) = (\<Sum>a\<in>UNIV. f a) + v"
  using sum_upd [of f k "f k + v"] by simp

lemma sum_upd_sub:
  fixes f :: "'k::finite \<Rightarrow> nat"
  assumes "v \<le> f k"
  shows "(\<Sum>a\<in>UNIV. (f(k := f k - v)) a) + v = (\<Sum>a\<in>UNIV. f a)"
  using sum_upd [of f k "f k - v"] assms by simp

lemma member_le_UNIV_sum:
  fixes f :: "'k::finite \<Rightarrow> nat"
  shows "f k \<le> (\<Sum>a\<in>UNIV. f a)"
  by (rule member_le_sum) auto

lemma pair_le_UNIV_sum:
  fixes f :: "'k::finite \<Rightarrow> nat"
  assumes "a \<noteq> b"
  shows "f a + f b \<le> (\<Sum>x\<in>UNIV. f x)"
proof -
  have "f a + f b = (\<Sum>x\<in>{a, b}. f x)"
    using assms by simp
  also have "\<dots> \<le> (\<Sum>x\<in>UNIV. f x)"
    by (rule sum_mono2) auto
  finally show ?thesis .
qed

end
