(* ===== verification/Chain.thy ===== *)
theory Chain
  imports Prelude
begin

unbundle bit_operations_syntax

text \<open>
  The chain-level vocabulary: the network upgrades (\<open>hardfork/src/lib.rs\<close>), the fixed
  precompile addresses (\<open>contracts/src/precompiles/mod.rs\<close>) and the address formats
  (\<open>primitives/src/address.rs\<close>): TIP-20 token prefix, zone portal prefix, and the TIP-1022
  virtual addresses with their encoding and decoding.
\<close>

section \<open>Hardforks\<close>

datatype hardfork =
  Genesis | T0 | T1 | T1A | T1B | T1C | T2 | T3 | T4 | T5 | T6 | T7 | T8 | T9 | T10 | T11 | T12 | T13 | T14

primrec fork_index :: "hardfork \<Rightarrow> nat" where
  "fork_index Genesis = 0" | "fork_index T0 = 1" | "fork_index T1 = 2" | "fork_index T1A = 3"
| "fork_index T1B = 4" | "fork_index T1C = 5" | "fork_index T2 = 6" | "fork_index T3 = 7"
| "fork_index T4 = 8" | "fork_index T5 = 9" | "fork_index T6 = 10" | "fork_index T7 = 11"
| "fork_index T8 = 12" | "fork_index T9 = 13" | "fork_index T10 = 14" | "fork_index T11 = 15"
| "fork_index T12 = 16" | "fork_index T13 = 17" | "fork_index T14 = 18"

lemma fork_index_inj: "fork_index a = fork_index b \<Longrightarrow> a = b"
  by (cases a; cases b; simp)

text \<open>The source derives the order from the position of the variants, and \<open>is_tX\<close> is \<open>self >= TX\<close>.\<close>

instantiation hardfork :: linorder
begin

definition less_eq_hardfork :: "hardfork \<Rightarrow> hardfork \<Rightarrow> bool" where
  "less_eq_hardfork a b = (fork_index a \<le> fork_index b)"

definition less_hardfork :: "hardfork \<Rightarrow> hardfork \<Rightarrow> bool" where
  "less_hardfork a b = (fork_index a < fork_index b)"

instance
  by standard (auto simp: less_eq_hardfork_def less_hardfork_def dest: fork_index_inj)

end

lemmas fork_order = less_eq_hardfork_def less_hardfork_def

definition is_active :: "hardfork \<Rightarrow> hardfork \<Rightarrow> bool" where
  "is_active spec f = (f \<le> spec)"

definition expiring_nonce_set_capacity :: "hardfork \<Rightarrow> u32" where
  "expiring_nonce_set_capacity spec = (if T11 \<le> spec then 3000000 else 300000)"

definition expiring_nonce_max_expiry_secs :: "hardfork \<Rightarrow> u64" where
  "expiring_nonce_max_expiry_secs spec = (if T11 \<le> spec then 300 else 30)"

section \<open>Fixed addresses\<close>

definition ZERO_ADDRESS :: address where
  "ZERO_ADDRESS = 0"

definition PATH_USD_ADDRESS :: address where
  "PATH_USD_ADDRESS = 0x20C0000000000000000000000000000000000000"

definition TIP_FEE_MANAGER_ADDRESS :: address where
  "TIP_FEE_MANAGER_ADDRESS = 0xfeec000000000000000000000000000000000000"

definition DEFAULT_FEE_TOKEN :: address where
  "DEFAULT_FEE_TOKEN = PATH_USD_ADDRESS"

definition TIP403_REGISTRY_ADDRESS :: address where
  "TIP403_REGISTRY_ADDRESS = 0x403C000000000000000000000000000000000000"

definition TIP20_FACTORY_ADDRESS :: address where
  "TIP20_FACTORY_ADDRESS = 0x20FC000000000000000000000000000000000000"

definition STABLECOIN_DEX_ADDRESS :: address where
  "STABLECOIN_DEX_ADDRESS = 0xdec0000000000000000000000000000000000000"

definition NONCE_PRECOMPILE_ADDRESS :: address where
  "NONCE_PRECOMPILE_ADDRESS = 0x4E4F4E4345000000000000000000000000000000"

definition VALIDATOR_CONFIG_ADDRESS :: address where
  "VALIDATOR_CONFIG_ADDRESS = 0xCCCCCCCC00000000000000000000000000000000"

definition ACCOUNT_KEYCHAIN_ADDRESS :: address where
  "ACCOUNT_KEYCHAIN_ADDRESS = 0xAAAAAAAA00000000000000000000000000000000"

definition VALIDATOR_CONFIG_V2_ADDRESS :: address where
  "VALIDATOR_CONFIG_V2_ADDRESS = 0xCCCCCCCC00000000000000000000000000000001"

definition ADDRESS_REGISTRY_ADDRESS :: address where
  "ADDRESS_REGISTRY_ADDRESS = 0xFDC0000000000000000000000000000000000000"

definition SIGNATURE_VERIFIER_ADDRESS :: address where
  "SIGNATURE_VERIFIER_ADDRESS = 0x5165300000000000000000000000000000000000"

definition TIP20_CHANNEL_RESERVE_ADDRESS :: address where
  "TIP20_CHANNEL_RESERVE_ADDRESS = 0x4D50500000000000000000000000000000000000"

definition RECEIVE_POLICY_GUARD_ADDRESS :: address where
  "RECEIVE_POLICY_GUARD_ADDRESS = 0xB10C000000000000000000000000000000000000"

definition STORAGE_CREDITS_ADDRESS :: address where
  "STORAGE_CREDITS_ADDRESS = 0x1060000000000000000000000000000000000000"

definition CURRENT_COMMITTEE_ADDRESS :: address where
  "CURRENT_COMMITTEE_ADDRESS = 0xC077E00000000000000000000000000000000000"

definition ZONE_FACTORY_ADDRESS :: address where
  "ZONE_FACTORY_ADDRESS = 0x5AF2000000000000000000000000000000000000"

definition ZONE_VERIFIER_ADDRESS :: address where
  "ZONE_VERIFIER_ADDRESS = 0x5A56000000000000000000000000000000000000"

lemmas address_defs =
  ZERO_ADDRESS_def PATH_USD_ADDRESS_def TIP_FEE_MANAGER_ADDRESS_def DEFAULT_FEE_TOKEN_def
  TIP403_REGISTRY_ADDRESS_def TIP20_FACTORY_ADDRESS_def STABLECOIN_DEX_ADDRESS_def
  NONCE_PRECOMPILE_ADDRESS_def VALIDATOR_CONFIG_ADDRESS_def ACCOUNT_KEYCHAIN_ADDRESS_def
  VALIDATOR_CONFIG_V2_ADDRESS_def ADDRESS_REGISTRY_ADDRESS_def SIGNATURE_VERIFIER_ADDRESS_def
  TIP20_CHANNEL_RESERVE_ADDRESS_def RECEIVE_POLICY_GUARD_ADDRESS_def STORAGE_CREDITS_ADDRESS_def
  CURRENT_COMMITTEE_ADDRESS_def ZONE_FACTORY_ADDRESS_def ZONE_VERIFIER_ADDRESS_def

definition SYSTEM_PRECOMPILES :: "(address \<times> hardfork) list" where
  "SYSTEM_PRECOMPILES =
    [(TIP403_REGISTRY_ADDRESS, Genesis), (TIP_FEE_MANAGER_ADDRESS, Genesis),
     (STABLECOIN_DEX_ADDRESS, Genesis), (NONCE_PRECOMPILE_ADDRESS, Genesis),
     (ACCOUNT_KEYCHAIN_ADDRESS, Genesis), (VALIDATOR_CONFIG_ADDRESS, Genesis),
     (VALIDATOR_CONFIG_V2_ADDRESS, Genesis), (TIP20_FACTORY_ADDRESS, Genesis),
     (ADDRESS_REGISTRY_ADDRESS, T3), (SIGNATURE_VERIFIER_ADDRESS, T3),
     (TIP20_CHANNEL_RESERVE_ADDRESS, T5), (RECEIVE_POLICY_GUARD_ADDRESS, T6),
     (STORAGE_CREDITS_ADDRESS, T7), (CURRENT_COMMITTEE_ADDRESS, T8),
     (ZONE_FACTORY_ADDRESS, T10), (ZONE_VERIFIER_ADDRESS, T13)]"

section \<open>Address formats\<close>

type_synonym master_id = "32 word"
type_synonym user_tag = "48 word"

text \<open>The 20 bytes of an address are big-endian: byte \<open>i\<close> holds the bits from
  \<open>8 * (19 - i)\<close> on, so the first twelve bytes are \<open>drop_bit 64\<close> and the bytes
  \<open>[4:14]\<close> are the 80 bits from bit 48.\<close>

definition TIP20_TOKEN_PREFIX :: address where
  "TIP20_TOKEN_PREFIX = 0x20C000000000000000000000"

definition ZONE_PORTAL_PREFIX :: address where
  "ZONE_PORTAL_PREFIX = 0x5AD000000000000000000000"

definition VIRTUAL_MAGIC :: address where
  "VIRTUAL_MAGIC = 0xFDFDFDFDFDFDFDFDFDFD"

definition is_tip20_prefix :: "address \<Rightarrow> bool" where
  "is_tip20_prefix a = (drop_bit 64 a = TIP20_TOKEN_PREFIX)"

definition tip20_id :: "address \<Rightarrow> u64 option" where
  "tip20_id a = (if is_tip20_prefix a then Some (unat (take_bit 64 a)) else None)"

definition new_tip20 :: "u64 \<Rightarrow> address" where
  "new_tip20 i = push_bit 64 TIP20_TOKEN_PREFIX OR take_bit 64 (of_nat i)"

definition zone_portal_id :: "address \<Rightarrow> u64 option" where
  "zone_portal_id a =
    (if drop_bit 64 a \<noteq> ZONE_PORTAL_PREFIX then None
     else let zone_id = unat (take_bit 64 a) in if zone_id \<noteq> 0 then Some zone_id else None)"

definition is_virtual :: "address \<Rightarrow> bool" where
  "is_virtual a = (take_bit 80 (drop_bit 48 a) = VIRTUAL_MAGIC)"

definition is_valid_master :: "address \<Rightarrow> bool" where
  "is_valid_master a = (a \<noteq> 0 \<and> \<not> is_virtual a \<and> \<not> is_tip20_prefix a)"

definition decode_virtual :: "address \<Rightarrow> (master_id \<times> user_tag) option" where
  "decode_virtual a =
    (if \<not> is_virtual a then None else Some (ucast (drop_bit 128 a), ucast a))"

definition new_virtual :: "master_id \<Rightarrow> user_tag \<Rightarrow> address" where
  "new_virtual m t = push_bit 128 (ucast m) OR push_bit 48 VIRTUAL_MAGIC OR ucast t"

definition is_precompile :: "address \<Rightarrow> hardfork \<Rightarrow> bool" where
  "is_precompile a spec =
    (is_tip20_prefix a \<or> list_ex (\<lambda>(p, activated). p = a \<and> activated \<le> spec) SYSTEM_PRECOMPILES)"

subsection \<open>Layout lemmas\<close>

lemma magic_bits: "take_bit 80 VIRTUAL_MAGIC = VIRTUAL_MAGIC"
  by (simp add: VIRTUAL_MAGIC_def take_bit_eq_mask mask_eq_exp_minus_1)

lemma magic_bit_high: "80 \<le> n \<Longrightarrow> \<not> bit VIRTUAL_MAGIC n"
  by (metis bit_take_bit_iff magic_bits not_le)

lemma bit_new_virtual:
  assumes "n < 160"
  shows "bit (new_virtual m t) n \<longleftrightarrow>
    (if n < 48 then bit t n else if n < 128 then bit VIRTUAL_MAGIC (n - 48) else bit m (n - 128))"
  using assms magic_bit_high [of "n - 48"] bit_imp_le_length [of t n]
  by (auto simp: new_virtual_def bit_or_iff bit_push_bit_iff bit_ucast_iff)

lemma is_virtual_new_virtual: "is_virtual (new_virtual m t)"
  unfolding is_virtual_def
proof (rule bit_word_eqI)
  fix n
  assume "n < LENGTH(160)"
  then show "bit (take_bit 80 (drop_bit 48 (new_virtual m t))) n = bit VIRTUAL_MAGIC n"
    using magic_bit_high [of n]
    by (cases "n < 80") (auto simp: bit_take_bit_iff bit_drop_bit_eq bit_new_virtual)
qed

lemma decode_new_virtual: "decode_virtual (new_virtual m t) = Some (m, t)"
proof -
  have "ucast (drop_bit 128 (new_virtual m t)) = m"
    by (rule bit_word_eqI) (simp add: bit_ucast_iff bit_drop_bit_eq bit_new_virtual)
  moreover have "ucast (new_virtual m t) = t"
    by (rule bit_word_eqI) (simp add: bit_ucast_iff bit_new_virtual)
  ultimately show ?thesis
    by (simp add: decode_virtual_def is_virtual_new_virtual)
qed

lemma is_virtual_bit:
  assumes "is_virtual a" "48 \<le> n" "n < 128"
  shows "bit a n \<longleftrightarrow> bit VIRTUAL_MAGIC (n - 48)"
proof -
  have "bit VIRTUAL_MAGIC (n - 48) \<longleftrightarrow> bit (take_bit 80 (drop_bit 48 a)) (n - 48)"
    using assms(1) by (simp add: is_virtual_def)
  then show ?thesis
    using assms by (auto simp: bit_take_bit_iff bit_drop_bit_eq)
qed

lemma new_decode_virtual:
  assumes "decode_virtual a = Some (m, t)"
  shows "new_virtual m t = a"
proof (rule bit_word_eqI)
  fix n
  assume "n < LENGTH(160)"
  moreover have "is_virtual a" "m = ucast (drop_bit 128 a)" "t = ucast a"
    using assms by (auto simp: decode_virtual_def split: if_splits)
  ultimately show "bit (new_virtual m t) n = bit a n"
    by (auto simp: bit_new_virtual bit_ucast_iff bit_drop_bit_eq is_virtual_bit)
qed

lemma decode_virtual_iff: "decode_virtual a = Some (m, t) \<longleftrightarrow> a = new_virtual m t"
  using decode_new_virtual new_decode_virtual by metis

lemma bit_new_tip20:
  assumes "n < 160"
  shows "bit (new_tip20 i) n \<longleftrightarrow>
    (if n < 64 then bit (of_nat i :: address) n else bit TIP20_TOKEN_PREFIX (n - 64))"
  using assms by (auto simp: new_tip20_def bit_or_iff bit_push_bit_iff bit_take_bit_iff)

lemma prefix_bit_high: "96 \<le> n \<Longrightarrow> \<not> bit TIP20_TOKEN_PREFIX n"
proof -
  have "take_bit 96 TIP20_TOKEN_PREFIX = TIP20_TOKEN_PREFIX"
    by (simp add: TIP20_TOKEN_PREFIX_def take_bit_eq_mask mask_eq_exp_minus_1)
  then show "96 \<le> n \<Longrightarrow> \<not> bit TIP20_TOKEN_PREFIX n"
    by (metis bit_take_bit_iff not_le)
qed

lemma new_tip20_prefix: "is_tip20_prefix (new_tip20 i)"
  unfolding is_tip20_prefix_def
proof (rule bit_word_eqI)
  fix n
  assume "n < LENGTH(160)"
  then show "bit (drop_bit 64 (new_tip20 i)) n = bit TIP20_TOKEN_PREFIX n"
    using prefix_bit_high [of n] bit_imp_le_length [of "new_tip20 i" "64 + n"]
    by (cases "n < 96") (auto simp: bit_drop_bit_eq bit_new_tip20)
qed

lemma tip20_id_new_tip20:
  assumes "i < 2 ^ 64"
  shows "tip20_id (new_tip20 i) = Some i"
proof -
  have "take_bit 64 (new_tip20 i) = take_bit 64 (of_nat i :: address)"
    by (rule bit_word_eqI) (auto simp: bit_take_bit_iff bit_new_tip20)
  moreover have "unat (take_bit 64 (of_nat i :: address)) = i"
    using assms by (simp add: unsigned_take_bit_eq unsigned_of_nat take_bit_nat_eq_self)
  ultimately show ?thesis
    by (simp add: tip20_id_def new_tip20_prefix)
qed

lemma path_usd_prefix [simp]: "is_tip20_prefix PATH_USD_ADDRESS"
  by (simp add: is_tip20_prefix_def PATH_USD_ADDRESS_def TIP20_TOKEN_PREFIX_def drop_bit_eq_div)

end
