(* ===== verification/Storage_Set.thy ===== *)
theory Storage_Set
  imports Prelude
begin

text \<open>
  The enumerable set of the storage layer (\<open>precompiles/src/storage/types/set.rs\<close>): a vector
  of values with a mapping from each value to its position, counted from one so that zero means
  absent. Removal swaps the last value into the gap. The interface a client relies on is a
  locale over the denoted set; it is interpreted on these operations.
\<close>

section \<open>Operations\<close>

record 'a enum_set =
  es_values :: "'a list"
  es_positions :: "'a \<Rightarrow> u32"

definition es_empty :: "'a enum_set" where
  "es_empty = \<lparr>es_values = [], es_positions = \<lambda>_. 0\<rparr>"

definition checked_position :: "nat \<Rightarrow> u32 option" where
  "checked_position i = (case try_into 32 i of None \<Rightarrow> None | Some j \<Rightarrow> checked_add 32 j 1)"

definition es_contains :: "'a enum_set \<Rightarrow> 'a \<Rightarrow> bool" where
  "es_contains s x = (es_positions s x \<noteq> 0)"

text \<open>\<^term>\<open>None\<close> is the overflow error of the position counter.\<close>

definition es_insert :: "'a \<Rightarrow> 'a enum_set \<Rightarrow> (bool \<times> 'a enum_set) option" where
  "es_insert x s =
    (if es_contains s x then Some (False, s)
     else case checked_position (length (es_values s)) of
       None \<Rightarrow> None
     | Some pos \<Rightarrow> Some (True, \<lparr>es_values = es_values s @ [x], es_positions = (es_positions s)(x := pos)\<rparr>))"

definition es_remove :: "'a \<Rightarrow> 'a enum_set \<Rightarrow> bool \<times> 'a enum_set" where
  "es_remove x s =
    (let position = es_positions s x in
     if position = 0 then (False, s)
     else
       let last_index = length (es_values s) - 1;
           index = position - 1;
           s1 = (if index \<noteq> last_index then
                   let last_value = es_values s ! last_index in
                   s\<lparr>es_positions := (es_positions s)(last_value := position),
                     es_values := (es_values s)[index := last_value]\<rparr>
                 else s)
       in (True, s1\<lparr>es_values := take last_index (es_values s1), es_positions := (es_positions s1)(x := 0)\<rparr>))"

definition es_at :: "'a enum_set \<Rightarrow> nat \<Rightarrow> 'a option" where
  "es_at s i = (if i \<ge> length (es_values s) then None else Some (es_values s ! i))"

definition es_read_range :: "'a enum_set \<Rightarrow> nat \<Rightarrow> nat \<Rightarrow> 'a list" where
  "es_read_range s start stop =
    (let len = length (es_values s); e = min stop len; b = min start e in
     map (\<lambda>i. es_values s ! i) [b..<e])"

definition es_clear_positions :: "'a list \<Rightarrow> ('a \<Rightarrow> u32) \<Rightarrow> 'a \<Rightarrow> u32" where
  "es_clear_positions vs pos = fold (\<lambda>v p. p(v := 0)) vs pos"

fun es_write_positions :: "'a list \<Rightarrow> nat \<Rightarrow> ('a \<Rightarrow> u32) \<Rightarrow> ('a \<Rightarrow> u32) option" where
  "es_write_positions [] i pos = Some pos"
| "es_write_positions (v # vs) i pos =
    (case checked_position i of
       None \<Rightarrow> None
     | Some p \<Rightarrow> es_write_positions vs (Suc i) (pos(v := p)))"

definition es_write :: "'a list \<Rightarrow> 'a enum_set \<Rightarrow> 'a enum_set option" where
  "es_write vs s =
    (case es_write_positions vs 0 (es_clear_positions (es_values s) (es_positions s)) of
       None \<Rightarrow> None
     | Some pos \<Rightarrow> Some \<lparr>es_values = vs, es_positions = pos\<rparr>)"

definition es_delete :: "'a enum_set \<Rightarrow> 'a enum_set" where
  "es_delete s = \<lparr>es_values = [], es_positions = es_clear_positions (es_values s) (es_positions s)\<rparr>"

text \<open>\<open>Set::from\<close> a vector: duplicates are dropped, first occurrences keep their order.\<close>

fun dedup :: "'a set \<Rightarrow> 'a list \<Rightarrow> 'a list" where
  "dedup seen [] = []"
| "dedup seen (x # xs) = (if x \<in> seen then dedup seen xs else x # dedup (insert x seen) xs)"

definition es_from_list :: "'a list \<Rightarrow> 'a list" where
  "es_from_list xs = dedup {} xs"

section \<open>The representation invariant\<close>

text \<open>The position of a value is one more than its index, and zero for every other value.\<close>

definition es_ok :: "'a enum_set \<Rightarrow> bool" where
  "es_ok s =
    (distinct (es_values s) \<and> length (es_values s) < 2 ^ 32
     \<and> (\<forall>i < length (es_values s). es_positions s (es_values s ! i) = Suc i)
     \<and> (\<forall>x. x \<notin> set (es_values s) \<longrightarrow> es_positions s x = 0))"

lemma es_contains_iff: "es_ok s \<Longrightarrow> es_contains s x \<longleftrightarrow> x \<in> set (es_values s)"
  unfolding es_ok_def es_contains_def by (metis in_set_conv_nth Suc_not_Zero)

lemma es_position_nth:
  assumes "es_ok s" "x \<in> set (es_values s)"
  obtains i where "i < length (es_values s)" "es_values s ! i = x" "es_positions s x = Suc i"
  using assms unfolding es_ok_def by (metis in_set_conv_nth)

lemma checked_position_Some [simp]: "checked_position i = Some p \<longleftrightarrow> p = Suc i \<and> Suc i < 2 ^ 32"
  by (auto simp: checked_position_def split: option.splits)

lemma checked_position_None: "checked_position i = None \<longleftrightarrow> 2 ^ 32 \<le> Suc i"
proof -
  have "checked_position i = None \<longleftrightarrow> \<not> Suc i < 2 ^ 32"
    using checked_position_Some [of i "Suc i"] by (cases "checked_position i") auto
  then show ?thesis
    by linarith
qed

lemma es_empty_ok: "es_ok es_empty"
  by (simp add: es_ok_def es_empty_def)

lemma es_insert_ok:
  assumes "es_ok s" "es_insert x s = Some (b, s')"
  shows "es_ok s' \<and> set (es_values s') = insert x (set (es_values s)) \<and> (b \<longleftrightarrow> x \<notin> set (es_values s))"
  using assms es_contains_iff [OF assms(1), of x]
  by (auto simp: es_insert_def es_ok_def nth_append less_Suc_eq split: if_splits option.splits)

lemma es_insert_total:
  "es_ok s \<Longrightarrow> length (es_values s) < 2 ^ 32 - 1 \<Longrightarrow> es_insert x s \<noteq> None"
  by (auto simp: es_insert_def checked_position_None split: option.splits)

text \<open>After a removal the value at index \<open>j\<close> is the old last value if \<open>j\<close> is the gap, and the old
  value at \<open>j\<close> otherwise.\<close>

lemma es_remove_present:
  assumes ok: "es_ok s" and i: "i < length (es_values s)" "es_values s ! i = x"
  defines "n \<equiv> length (es_values s) - 1"
  defines "src \<equiv> \<lambda>j. if j = i then n else j"
  shows "\<exists>s'. es_remove x s = (True, s') \<and> length (es_values s') = n
    \<and> (\<forall>j<n. es_values s' ! j = es_values s ! src j)
    \<and> (\<forall>j<n. es_positions s' (es_values s ! src j) = Suc j)
    \<and> es_positions s' x = 0
    \<and> (\<forall>y. y \<notin> set (es_values s) \<longrightarrow> es_positions s' y = 0)"
proof -
  let ?vs = "es_values s"
  have pos: "es_positions s (?vs ! j) = Suc j" if "j < length ?vs" for j
    using ok that by (auto simp: es_ok_def)
  have inj: "?vs ! j = ?vs ! k \<longleftrightarrow> j = k" if "j < length ?vs" "k < length ?vs" for j k
    using ok that by (auto simp: es_ok_def nth_eq_iff_index_eq)
  have n: "n < length ?vs" "Suc n = length ?vs"
    using i by (auto simp: n_def)
  have x: "es_positions s x = Suc i"
    using pos i by metis
  have absent: "es_positions s y = 0" if "y \<notin> set ?vs" for y
    using ok that by (auto simp: es_ok_def)
  show ?thesis
  proof (cases "i = n")
    case True
    then show ?thesis
      using x n i pos inj absent
      by (auto simp: es_remove_def Let_def src_def n_def [symmetric])
  next
    case False
    then have "i < n"
      using i n by linarith
    then show ?thesis
      using False x n i pos inj absent
      by (auto simp: es_remove_def Let_def src_def n_def [symmetric] nth_list_update)
  qed
qed

lemma es_remove_ok:
  assumes ok: "es_ok s"
  shows "es_ok (snd (es_remove x s)) \<and> set (es_values (snd (es_remove x s))) = set (es_values s) - {x}
    \<and> (fst (es_remove x s) \<longleftrightarrow> x \<in> set (es_values s))"
proof (cases "x \<in> set (es_values s)")
  case False
  then show ?thesis
    using ok by (simp add: es_remove_def es_ok_def)
next
  case True
  let ?vs = "es_values s"
  obtain i where i: "i < length ?vs" "?vs ! i = x"
    using es_position_nth [OF ok True] by blast
  define n where "n = length ?vs - 1"
  define src where "src j = (if j = i then n else j)" for j
  obtain s' where s': "es_remove x s = (True, s')" "length (es_values s') = n"
      "\<And>j. j < n \<Longrightarrow> es_values s' ! j = ?vs ! src j"
      "\<And>j. j < n \<Longrightarrow> es_positions s' (?vs ! src j) = Suc j"
      "es_positions s' x = 0" "\<And>y. y \<notin> set ?vs \<Longrightarrow> es_positions s' y = 0"
    using es_remove_present [OF ok i] unfolding n_def src_def by blast
  have dist: "distinct ?vs" "length ?vs < 2 ^ 32"
    using ok by (simp_all add: es_ok_def)
  have src: "src j < length ?vs" "src j \<noteq> i" if "j < n" for j
    using that i by (auto simp: src_def n_def)
  have src_inj: "src j = src k \<longleftrightarrow> j = k" if "j < n" "k < n" for j k
    using that by (auto simp: src_def)
  have mem: "y \<in> set (es_values s') \<longleftrightarrow> y \<in> set ?vs \<and> y \<noteq> x" for y
  proof
    assume "y \<in> set (es_values s')"
    then obtain j where "j < n" "y = ?vs ! src j"
      using s' by (metis in_set_conv_nth)
    then show "y \<in> set ?vs \<and> y \<noteq> x"
      using src i dist by (auto simp: nth_eq_iff_index_eq)
  next
    assume "y \<in> set ?vs \<and> y \<noteq> x"
    then obtain k where k: "k < length ?vs" "?vs ! k = y" "k \<noteq> i"
      using i by (metis in_set_conv_nth)
    then have "\<exists>j<n. src j = k"
      by (intro exI [of _ "if k = n then i else k"]) (use i in \<open>auto simp: src_def n_def\<close>)
    then show "y \<in> set (es_values s')"
      using s' k by (metis nth_mem)
  qed
  have "distinct (es_values s')"
    using s' src src_inj dist by (auto simp: distinct_conv_nth)
  moreover have "es_positions s' y = 0" if "y \<notin> set (es_values s')" for y
    using that mem s'(5,6) by auto
  moreover have "n < 2 ^ 32"
    using dist(2) by (simp add: n_def)
  ultimately have "es_ok s'"
    using s' by (simp add: es_ok_def)
  then show ?thesis
    using s' mem True by auto
qed

lemma es_clear_positions_apply:
  "es_clear_positions vs pos x = (if x \<in> set vs then 0 else pos x)"
  unfolding es_clear_positions_def by (induction vs arbitrary: pos) auto

lemma es_write_positions_spec:
  assumes "es_write_positions vs i pos = Some pos'" "distinct vs"
  shows "(\<forall>j<length vs. pos' (vs ! j) = Suc (i + j)) \<and> (\<forall>x. x \<notin> set vs \<longrightarrow> pos' x = pos x)
    \<and> (vs \<noteq> [] \<longrightarrow> i + length vs < 2 ^ 32)"
  using assms
proof (induction vs arbitrary: i pos)
  case (Cons v vs)
  then have rec: "es_write_positions vs (Suc i) (pos(v := Suc i)) = Some pos'" "Suc i < 2 ^ 32"
    by (auto split: option.splits)
  show ?case
    using Cons.IH [OF rec(1)] Cons.prems(2) rec(2) by (auto simp: nth_Cons split: nat.splits)
qed simp

lemma es_write_ok:
  assumes "es_ok s" "distinct vs" "es_write vs s = Some s'"
  shows "es_ok s' \<and> es_values s' = vs"
proof -
  obtain pos where pos: "es_write_positions vs 0 (es_clear_positions (es_values s) (es_positions s)) = Some pos"
    and s': "s' = \<lparr>es_values = vs, es_positions = pos\<rparr>"
    using assms(3) by (auto simp: es_write_def split: option.splits)
  show ?thesis
    using es_write_positions_spec [OF pos assms(2)] assms(1,2)
    by (cases "vs = []") (auto simp: s' es_ok_def es_clear_positions_apply)
qed

lemma es_delete_ok: "es_ok s \<Longrightarrow> es_ok (es_delete s) \<and> es_values (es_delete s) = []"
  by (auto simp: es_ok_def es_delete_def es_clear_positions_apply)

lemma es_at_read: "es_at s i = (if i < length (es_values s) then Some (es_values s ! i) else None)"
  by (simp add: es_at_def)

lemma es_read_range_eq: "es_read_range s start stop = drop start (take stop (es_values s))"
  by (rule nth_equalityI) (auto simp: es_read_range_def Let_def min_def)

lemma dedup_spec: "set (dedup seen xs) = set xs - seen \<and> distinct (dedup seen xs)"
  by (induction seen xs rule: dedup.induct) auto

lemma es_from_list_spec: "set (es_from_list xs) = set xs \<and> distinct (es_from_list xs)"
  by (simp add: es_from_list_def dedup_spec)

section \<open>The interface\<close>

text \<open>What a client of a stored set relies on, over the set it denotes. Insertion may fail when the
  representation is full.\<close>

locale stored_set =
  fixes ok :: "'s \<Rightarrow> bool"
    and elems :: "'s \<Rightarrow> 'a set"
    and member :: "'s \<Rightarrow> 'a \<Rightarrow> bool"
    and ins :: "'a \<Rightarrow> 's \<Rightarrow> (bool \<times> 's) option"
    and rem :: "'a \<Rightarrow> 's \<Rightarrow> bool \<times> 's"
  assumes member_iff: "ok s \<Longrightarrow> member s x \<longleftrightarrow> x \<in> elems s"
    and ins_ok: "ok s \<Longrightarrow> ins x s = Some (b, s') \<Longrightarrow> ok s' \<and> elems s' = insert x (elems s)"
    and ins_new: "ok s \<Longrightarrow> ins x s = Some (b, s') \<Longrightarrow> b \<longleftrightarrow> x \<notin> elems s"
    and rem_ok: "ok s \<Longrightarrow> ok (snd (rem x s)) \<and> elems (snd (rem x s)) = elems s - {x}"
    and rem_found: "ok s \<Longrightarrow> fst (rem x s) \<longleftrightarrow> x \<in> elems s"
begin

lemma member_after_insert:
  "ok s \<Longrightarrow> ins x s = Some (b, s') \<Longrightarrow> member s' y \<longleftrightarrow> y = x \<or> member s y"
  using ins_ok [of s x b s'] by (auto simp: member_iff)

lemma member_after_remove: "ok s \<Longrightarrow> member (snd (rem x s)) y \<longleftrightarrow> y \<noteq> x \<and> member s y"
  using rem_ok [of s x] by (auto simp: member_iff)

lemma remove_insert_elems:
  assumes "ok s" "ins x s = Some (b, s')" "\<not> member s x"
  shows "elems (snd (rem x s')) = elems s"
  using assms ins_ok [OF assms(1,2)] rem_ok [of s' x] by (auto simp: member_iff)

end

interpretation es: stored_set es_ok "\<lambda>s. set (es_values s)" es_contains es_insert es_remove
  by unfold_locales
    (auto simp: es_contains_iff es_remove_ok dest: es_insert_ok)

section \<open>Histories\<close>

datatype 'a set_op = SetInsert 'a | SetRemove 'a

fun es_run :: "'a set_op list \<Rightarrow> 'a enum_set \<Rightarrow> 'a enum_set option" where
  "es_run [] s = Some s"
| "es_run (SetInsert x # ops) s = (case es_insert x s of None \<Rightarrow> None | Some (b, s') \<Rightarrow> es_run ops s')"
| "es_run (SetRemove x # ops) s = es_run ops (snd (es_remove x s))"

fun set_run :: "'a set_op list \<Rightarrow> 'a set \<Rightarrow> 'a set" where
  "set_run [] A = A"
| "set_run (SetInsert x # ops) A = set_run ops (insert x A)"
| "set_run (SetRemove x # ops) A = set_run ops (A - {x})"

lemma es_length_card: "es_ok s \<Longrightarrow> length (es_values s) = card (set (es_values s))"
  by (simp add: es_ok_def distinct_card)

lemma es_remove_length: "es_ok s \<Longrightarrow> length (es_values (snd (es_remove x s))) \<le> length (es_values s)"
  using es_remove_ok [of s x] by (simp add: es_length_card card_Diff_subset card_mono)

lemma es_insert_length:
  "es_insert x s = Some (b, s') \<Longrightarrow> length (es_values s') \<le> Suc (length (es_values s))"
  by (auto simp: es_insert_def split: if_splits option.splits)

lemma es_run_refines:
  assumes "es_ok s" "length (es_values s) + length ops < 2 ^ 32"
  shows "\<exists>s'. es_run ops s = Some s' \<and> es_ok s' \<and> set (es_values s') = set_run ops (set (es_values s))"
  using assms
proof (induction ops arbitrary: s)
  case (Cons op ops)
  show ?case
  proof (cases op)
    case (SetInsert x)
    obtain b s' where s': "es_insert x s = Some (b, s')"
      using es_insert_total [OF Cons.prems(1), of x] Cons.prems(2) by auto
    show ?thesis
      using Cons.IH [of s'] Cons.prems es_insert_ok [OF Cons.prems(1) s'] es_insert_length [OF s'] s'
      by (simp add: SetInsert)
  next
    case (SetRemove x)
    then show ?thesis
      using Cons.IH [of "snd (es_remove x s)"] Cons.prems es_remove_ok [OF Cons.prems(1), of x]
        es_remove_length [OF Cons.prems(1), of x]
      by simp
  qed
qed simp

section \<open>Properties\<close>

text \<open>C21: The stored set implements a mathematical set. Any sequence of insertions and removals that
  fits the position counter succeeds, keeps the position mapping consistent with the value vector,
  and leaves exactly the elements of the abstract set; membership is answered accordingly and no value
  is stored twice.\<close>

theorem enum_set_refines_set:
  assumes "es_ok s" "length (es_values s) + length ops < 2 ^ 32"
  shows "\<exists>s'. es_run ops s = Some s' \<and> es_ok s' \<and> distinct (es_values s')
    \<and> set (es_values s') = set_run ops (set (es_values s))
    \<and> (es_contains s' x \<longleftrightarrow> x \<in> set_run ops (set (es_values s)))"
  using es_run_refines [OF assms] es_contains_iff unfolding es_ok_def by metis

theorem enum_set_refines_set_witness:
  "\<exists>s'. es_run [SetInsert 1, SetInsert 2, SetInsert (3::nat), SetRemove 1] es_empty = Some s'
    \<and> set (es_values s') = {2, 3}"
proof -
  let ?ops = "[SetInsert 1, SetInsert 2, SetInsert (3::nat), SetRemove 1]"
  have "set_run ?ops (set (es_values (es_empty :: nat enum_set))) = {2, 3}"
    by (auto simp: es_empty_def)
  then show ?thesis
    using enum_set_refines_set [OF es_empty_ok, of ?ops 2] by (auto simp: es_empty_def simp del: es_run.simps)
qed

end
