(* ===== verification/Storage_Vec.thy ===== *)
theory Storage_Vec
  imports Prelude
begin

text \<open>
  The vector of the storage layer (\<open>precompiles/src/storage/types/vec.rs\<close>): a length and the slots of the
  elements. Access by index is unchecked, as in the source: it reaches the slot whatever the length is. The
  refinement lemmas give the list that a vector denotes.
\<close>

section \<open>Operations\<close>

record 'a svec =
  sv_len :: nat
  sv_at :: "nat \<Rightarrow> 'a"

definition sv_empty :: "'a \<Rightarrow> 'a svec" where
  "sv_empty z = \<lparr>sv_len = 0, sv_at = \<lambda>_. z\<rparr>"

definition sv_get :: "'a svec \<Rightarrow> nat \<Rightarrow> 'a option" where
  "sv_get v i = (if i \<ge> sv_len v then None else Some (sv_at v i))"

definition sv_set :: "nat \<Rightarrow> 'a \<Rightarrow> 'a svec \<Rightarrow> 'a svec" where
  "sv_set i x v = v\<lparr>sv_at := (sv_at v)(i := x)\<rparr>"

text \<open>The capacity depends on the size of an element; \<^term>\<open>None\<close> is the error of a full vector.\<close>

definition sv_push :: "nat \<Rightarrow> 'a \<Rightarrow> 'a svec \<Rightarrow> 'a svec option" where
  "sv_push max_index x v =
    (if sv_len v \<ge> max_index then None
     else Some (v\<lparr>sv_at := (sv_at v)(sv_len v := x), sv_len := sv_len v + 1\<rparr>))"

definition sv_pop :: "'a \<Rightarrow> 'a svec \<Rightarrow> 'a option \<times> 'a svec" where
  "sv_pop z v =
    (if sv_len v = 0 then (None, v)
     else
       let last_index = sv_len v - 1 in
       (Some (sv_at v last_index), v\<lparr>sv_at := (sv_at v)(last_index := z), sv_len := last_index\<rparr>))"

section \<open>The list of a vector\<close>

definition sv_list :: "'a svec \<Rightarrow> 'a list" where
  "sv_list v = map (sv_at v) [0..<sv_len v]"

lemma sv_list_length [simp]: "length (sv_list v) = sv_len v"
  by (simp add: sv_list_def)

lemma sv_list_nth [simp]: "i < sv_len v \<Longrightarrow> sv_list v ! i = sv_at v i"
  by (simp add: sv_list_def)

lemma sv_list_empty [simp]: "sv_list (sv_empty z) = []" "sv_len (sv_empty z) = 0"
  by (simp_all add: sv_list_def sv_empty_def)

lemma sv_list_set: "i < sv_len v \<Longrightarrow> sv_list (sv_set i x v) = (sv_list v)[i := x]"
  by (auto simp: sv_list_def sv_set_def list_eq_iff_nth_eq nth_list_update)

lemma sv_list_push:
  assumes "sv_push m x v = Some v'"
  shows "sv_list v' = sv_list v @ [x]"
  using assms by (auto simp: sv_list_def sv_push_def split: if_splits)

lemma sv_list_pop: "sv_list (snd (sv_pop z v)) = butlast (sv_list v)"
proof (cases "sv_len v")
  case (Suc n)
  then show ?thesis
    by (simp add: sv_list_def sv_pop_def Let_def)
qed (simp add: sv_list_def sv_pop_def)

lemma sv_set_fields [simp]: "sv_len (sv_set i x v) = sv_len v" "sv_at (sv_set i x v) = (sv_at v)(i := x)"
  by (simp_all add: sv_set_def)

end
