(* ===== verification/World.thy ===== *)
theory World
  imports Chain Storage_Set Storage_Vec
begin

text \<open>
  The state the precompiles share: one record per contract, with the fields of its storage
  struct, collected in \<open>world\<close> together with the block environment. A storage mapping
  is a total function, because a slot never written reads as zero. The errors are the
  enums of \<open>contracts/src/precompiles\<close> joined by \<open>TempoPrecompileError\<close>
  (\<open>precompiles/src/error.rs\<close>); the emitted logs are values of \<open>event\<close>.

  The hash function, the recovery of a signer, Ed25519 and the list of Ethereum precompiles are code outside
  the repository. They are fields of the state and so arguments of every definition that uses them; a hash is taken of a
  \<open>preimage\<close>, whose constructors stand for the byte encodings that the callers build.
\<close>

section \<open>Errors\<close>

datatype (plugins only: code size) tip20_error =
    InsufficientBalance u256 u256 address
  | InsufficientAllowance
  | SupplyCapExceeded
  | InvalidSupplyCap
  | InvalidPayload
  | PolicyForbids
  | InvalidRecipient
  | ContractPaused
  | InvalidCurrency
  | InvalidQuoteToken
  | InvalidAmount
  | NoOptedInSupply
  | Tip20Unauthorized
  | ProtectedAddress
  | InvalidToken
  | Uninitialized
  | InvalidTransferPolicyId
  | PermitExpired
  | InvalidSignature
  | LogoURITooLong
  | InvalidLogoURI
  | RootKeyRetired address

datatype (plugins only: code size) roles_error = RolesUnauthorized

datatype (plugins only: code size) factory_error =
    AddressReserved | AddressNotReserved | FactoryInvalidQuoteToken | TokenAlreadyExists address

datatype (plugins only: code size) addr_registry_error =
    MasterIdCollision address | InvalidMasterAddress | ProofOfWorkFailed | VirtualAddressUnregistered

datatype (plugins only: code size) tip403_error =
    Tip403Unauthorized | PolicyNotFound | PolicyNotSimple | InvalidPolicyType
  | IncompatiblePolicyType | VirtualAddressNotAllowed | InvalidReceivePolicyType
  | InvalidRecoveryAuthority

datatype (plugins only: code size) fee_manager_error =
    FeeInvalidToken | InsufficientFeeTokenBalance | CannotChangeWithinBlock

datatype (plugins only: code size) fee_amm_error =
    IdenticalAddresses | AmmInvalidToken | AmmInsufficientLiquidity | InsufficientReserves
  | AmmInvalidAmount | DivisionByZero | InvalidSwapCalculation

datatype (plugins only: code size) nonce_error =
    ProtocolNonceNotSupported | InvalidNonceKey | NonceOverflow
  | ExpiringNonceReplay | ExpiringNonceSetFull | InvalidExpiringNonceExpiry

datatype (plugins only: code size) keychain_error =
    UnauthorizedCaller | KeyAlreadyExists | KeyNotFound | KeyExpired | SpendingLimitExceeded
  | InvalidSpendingLimit | InvalidSignatureType | ZeroPublicKey | ExpiryInPast
  | KeyAlreadyRevoked | SignatureTypeMismatch u8 u8 | CallNotAllowed | InvalidCallScope
  | InvalidKeyId | InvalidKeyAuthorizationWitness | KeyAuthorizationWitnessAlreadyBurned

datatype (plugins only: code size) guard_error =
    InvalidReceipt | InvalidClaimAddress | UnauthorizedClaimer | GuardAddressReserved

datatype (plugins only: code size) dex_error =
    DexUnauthorized | PairDoesNotExist | PairAlreadyExists | OrderDoesNotExist | IdenticalTokens
  | DexInvalidToken | TickOutOfBounds i16 | InvalidTick | InvalidFlipTick | DexInsufficientBalance
  | DexInsufficientLiquidity | InsufficientOutput | MaxInputExceeded
  | BelowMinimumOrderSize u128 | InvalidBaseToken | OrderNotStale | IndexAlreadySet

datatype (plugins only: code size) reserve_error =
    ChannelAlreadyExists | ChannelNotFound | NotPayer | NotPayeeOrOperator | InvalidPayee | ZeroDeposit
  | ExpiringNonceHashNotSet | VoucherInvalidSignature | AmountExceedsDeposit | AmountNotIncreasing
  | CaptureAmountInvalid | CloseNotReady | DepositOverflow | VoucherRootKeyRetired address

datatype (plugins only: code size) validator_config_error =
    VcUnauthorized | ValidatorAlreadyExists | VcValidatorNotFound | VcInvalidPublicKey
  | NotHostPort string string string | VcNotIpPort string string string

datatype (plugins only: code size) validator_config_v2_error =
    AlreadyInitialized | IngressAlreadyExists string | EmptyV1ValidatorSet | InvalidMigrationIndex | InvalidOwner
  | InvalidPublicKey | V2InvalidSignature | InvalidSignatureFormat | InvalidValidatorAddress | MigrationNotComplete
  | NotInitialized | NotIp string string | NotIpPort string string | PublicKeyAlreadyExists | V2Unauthorized
  | AddressAlreadyHasValidator | ValidatorAlreadyDeactivated | ValidatorNotFound

datatype (plugins only: code size) panic_kind = UnderOverflow | ArrayOutOfBounds | EnumConversion

text \<open>The errors of a call. \<open>RustPanic\<close> stands for a panic of the Rust program, with its text; all others are the
  variants of \<open>TempoPrecompileError\<close>.\<close>

datatype (plugins only: code size) tempo_error =
    StablecoinDEX dex_error
  | TIP20 tip20_error
  | TIP20Factory factory_error
  | RolesAuthError roles_error
  | AddrRegistryError addr_registry_error
  | TIP403RegistryError tip403_error
  | FeeManagerError fee_manager_error
  | TIPFeeAMMError fee_amm_error
  | NonceError nonce_error
  | Panic panic_kind
  | StorageDeltaUnderflow u256
  | OutOfGas
  | UnknownFunctionSelector
  | AccountKeychainError keychain_error
  | ReceivePolicyGuardError guard_error
  | TIP20ChannelReserveError reserve_error
  | ValidatorConfigError validator_config_error
  | ValidatorConfigV2Error validator_config_v2_error
  | Fatal string
  | RustPanic string

abbreviation under_overflow :: tempo_error where
  "under_overflow \<equiv> Panic UnderOverflow"

section \<open>Policies\<close>

datatype (plugins only: code size) policy_type = WHITELIST | BLACKLIST | COMPOUND

datatype (plugins only: code size) auth_role = AuthTransfer | AuthSender | AuthRecipient | AuthMintRecipient

datatype (plugins only: code size) recovery_mode = Originator | Receiver | ThirdParty

datatype (plugins only: code size) blocked_reason = RECEIVE_POLICY | TOKEN_FILTER

datatype (plugins only: code size) inbound_kind = TRANSFER | MINT

record policy_data =
  pd_policy_type :: u8
  pd_admin :: address

record compound_policy_data =
  sender_policy_id :: u64
  recipient_policy_id :: u64
  mint_recipient_policy_id :: u64

record policy_record =
  base :: policy_data
  compound :: compound_policy_data

record receive_policy_config =
  has_receive_policy :: bool
  rp_sender_policy_id :: u64
  rp_sender_policy_type :: u8
  rp_token_filter_id :: u64
  rp_token_filter_type :: u8
  rp_recovery_mode :: recovery_mode

record receive_policy_entry =
  rp_config :: receive_policy_config
  rp_recovery_address :: address

record token_transfer_policy =
  ttp_policy_id :: u64
  ttp_is_set :: bool

record tip403_storage =
  policy_id_counter_slot :: u64
  policy_records :: "u64 \<Rightarrow> policy_record"
  policy_set :: "u64 \<Rightarrow> address \<Rightarrow> bool"
  receive_policies :: "address \<Rightarrow> receive_policy_entry"
  token_transfer_policies :: "address \<Rightarrow> token_transfer_policy"

section \<open>Address registry, nonce manager, receive guard\<close>

record registry_data =
  master_address_slot :: address
  rd_reserved :: nat
  rd_ty :: u8

record nonce_storage =
  nonces :: "address \<Rightarrow> u256 \<Rightarrow> u64"
  expiring_nonce_seen :: "b256 \<Rightarrow> u64"
  expiring_nonce_ring :: "u32 \<Rightarrow> b256"
  expiring_nonce_ring_ptr :: u32

record claim_receipt =
  rc_version :: u8
  rc_token :: address
  rc_recovery_authority :: address
  rc_originator :: address
  rc_recipient :: address
  rc_blocked_at :: u64
  rc_blocked_nonce :: u64
  rc_blocked_reason :: u8
  rc_kind :: inbound_kind
  rc_memo :: b256

record guard_storage =
  guard_nonce :: u64
  guard_balances :: "b256 \<Rightarrow> u256"

section \<open>Account keychain\<close>

datatype (plugins only: code size) stored_signature_type = Secp256k1 | P256 | WebAuthn | ConfigurableAccount

record authorized_key =
  key_signature_type :: stored_signature_type
  key_expiry :: u64
  key_enforce_limits :: bool
  key_is_revoked :: bool
  key_is_admin :: bool

record spending_limit_state =
  sl_remaining :: u256
  sl_max :: u128
  sl_period :: u64
  sl_period_end :: u64

type_synonym selector = "32 word"

record selector_scope =
  ss_recipients :: "address enum_set"

record target_scope =
  ts_selectors :: "selector enum_set"
  ts_selector_scopes :: "selector \<Rightarrow> selector_scope"

record key_scope =
  is_scoped :: bool
  ks_targets :: "address enum_set"
  ks_target_scopes :: "address \<Rightarrow> target_scope"

record keychain_storage =
  kc_keys :: "address \<Rightarrow> address \<Rightarrow> authorized_key"
  spending_limits :: "b256 \<Rightarrow> address \<Rightarrow> spending_limit_state"
  key_scopes :: "b256 \<Rightarrow> key_scope"
  key_authorization_witnesses :: "address \<Rightarrow> b256 \<Rightarrow> bool"
  transaction_key :: address
  tx_origin :: address

section \<open>TIP-20 tokens\<close>

record user_reward_info =
  reward_recipient :: address
  reward_per_token :: u256
  reward_balance :: u256

record tip20_storage =
  roles :: "address \<Rightarrow> b256 \<Rightarrow> bool"
  role_admins :: "b256 \<Rightarrow> b256"
  tk_name :: string
  tk_symbol :: string
  currency :: string
  logo_uri :: string
  quote_token :: address
  next_quote_token :: address
  transfer_policy_id_slot :: u64
  total_supply :: u256
  balances :: "address \<Rightarrow> u256"
  allowances :: "address \<Rightarrow> address \<Rightarrow> u256"
  permit_nonces :: "address \<Rightarrow> u256"
  paused :: bool
  supply_cap :: u256
  global_reward_per_token :: u256
  opted_in_supply :: u128
  user_reward_info_of :: "address \<Rightarrow> user_reward_info"

section \<open>Fee manager\<close>

record pool =
  reserve_user_token :: u128
  reserve_validator_token :: u128

record fee_manager_storage =
  validator_tokens :: "address \<Rightarrow> address"
  user_tokens :: "address \<Rightarrow> address"
  collected_fees :: "address \<Rightarrow> address \<Rightarrow> u256"
  pools :: "b256 \<Rightarrow> pool"
  lp_total_supply :: "b256 \<Rightarrow> u256"
  liquidity_balances :: "b256 \<Rightarrow> address \<Rightarrow> u256"
  pending_fee_swap_reservation :: "b256 \<Rightarrow> u128"
  two_hop_intermediate :: address

section \<open>Stablecoin exchange\<close>

record order =
  ord_id :: u128
  ord_maker :: address
  ord_book_key :: b256
  ord_is_bid :: bool
  ord_tick :: i16
  ord_amount :: u128
  ord_remaining :: u128
  ord_prev :: u128
  ord_next :: u128
  ord_is_flip :: bool
  ord_flip_tick :: i16

record compact_order =
  co_maker :: address
  co_metadata :: "8 word"
  co_tick :: i16
  co_flip_tick :: i16
  co_amount :: u128
  co_remaining :: u128
  co_prev :: u128
  co_next :: u128

datatype (plugins only: code size) stored_order =
    LegacyOrder order
  | V1Order compact_order b256
  | V2Order compact_order u32

record tick_level =
  tl_head :: u128
  tl_tail :: u128
  tl_total_liquidity :: u128

record orderbook =
  book_base :: address
  book_quote :: address
  bids :: "i16 \<Rightarrow> tick_level"
  asks :: "i16 \<Rightarrow> tick_level"
  best_bid_tick :: i16
  best_ask_tick :: i16
  book_id :: u32
  bid_bitmap :: "i16 \<Rightarrow> b256"
  ask_bitmap :: "i16 \<Rightarrow> b256"

record dex_storage =
  books :: "b256 \<Rightarrow> orderbook"
  orders :: "u128 \<Rightarrow> stored_order"
  dex_balances :: "address \<Rightarrow> address \<Rightarrow> u128"
  next_order_id_slot :: u128
  book_keys :: "b256 list"

section \<open>Channel reserve\<close>

record channel_descriptor =
  cd_payer :: address
  cd_payee :: address
  cd_operator :: address
  cd_token :: address
  cd_salt :: b256
  cd_authorized_signer :: address
  cd_expiring_nonce_hash :: b256

record channel_state =
  ch_settled :: u96
  ch_deposit :: u96
  ch_close_requested_at :: u32
  ch_logical_sender :: bool

record reserve_storage =
  channel_states :: "b256 \<Rightarrow> channel_state"
  opened_this_tx :: "b256 \<Rightarrow> bool"
  channel_open_context_hash :: b256

section \<open>Validator configuration\<close>

record v1_validator =
  v1_public_key :: b256
  v1_active :: bool
  v1_index :: u64
  v1_validator_address :: address
  v1_inbound_address :: string
  v1_outbound_address :: string

record validator_config_storage =
  v1_owner :: address
  v1_validators_array :: "address svec"
  v1_validators :: "address \<Rightarrow> v1_validator"
  v1_next_dkg_ceremony :: u64

record v2_config =
  cfg_owner :: address
  cfg_is_init :: bool
  cfg_init_at_height :: u64
  cfg_migration_skipped_count :: u8
  cfg_v1_validator_count :: u8

record validator_record =
  vr_public_key :: b256
  vr_validator_address :: address
  vr_ingress :: string
  vr_egress :: string
  vr_fee_recipient :: address
  vr_index :: u64
  vr_active_idx :: u64
  vr_added_at_height :: u64
  vr_deactivated_at_height :: u64

record validator_config_v2_storage =
  vc_config :: v2_config
  vc_validators :: "validator_record svec"
  address_to_index :: "address \<Rightarrow> u64"
  pubkey_to_index :: "b256 \<Rightarrow> u64"
  next_network_identity_rotation_epoch :: u64
  active_ingress_ips :: "b256 \<Rightarrow> bool"
  active_indices :: "u64 svec"

section \<open>Events\<close>

datatype (plugins only: code size) reserve_event =
    ChannelOpened b256 channel_descriptor u96
  | Settled b256 address address u96 u96 u96
  | TopUp b256 address address u96 u96
  | CloseRequested b256 address address u256
  | ChannelClosed b256 address address u96 u96
  | CloseRequestCancelled b256 address address

datatype (plugins only: code size) validator_config_v2_event =
    ValidatorAdded u64 address b256 string string address
  | ValidatorDeactivated u64 address
  | ValidatorRotated u64 u64 address b256 b256 string string address
  | FeeRecipientUpdated u64 address address
  | IpAddressesUpdated u64 string string address
  | ValidatorOwnershipTransferred u64 address address address
  | OwnershipTransferred address address
  | ValidatorMigrated u64 address b256
  | NetworkIdentityRotationEpochSet u64 u64
  | Initialized u64
  | SkippedValidatorMigration u64 address b256

datatype (plugins only: code size) dex_event =
    PairCreated b256 address address
  | OrderPlaced u128 address address u128 bool i16 bool i16
  | OrderFilled u128 address address u128 bool
  | OrderFlipped u128 address address u128 bool i16 i16
  | FlipFailed u128 address tempo_error
  | OrderCancelled u128

datatype (plugins only: code size) nonce_event = NonceIncremented address u256 u64

datatype (plugins only: code size) addr_registry_event = MasterRegistered master_id address

datatype (plugins only: code size) tip403_event =
    PolicyAdminUpdated u64 address address
  | PolicyCreated u64 address "policy_type option"
  | WhitelistUpdated u64 address address bool
  | BlacklistUpdated u64 address address bool
  | CompoundPolicyCreated u64 address u64 u64 u64
  | ReceivePolicyUpdated address u64 u64 address

datatype (plugins only: code size) guard_event =
    TransferBlocked claim_receipt address u256
  | ReceiptClaimed claim_receipt address address address u256
  | ReceiptBurned claim_receipt address address u256

datatype (plugins only: code size) keychain_event =
    KeyAuthorized address address u8 u64
  | AdminKeyAuthorized address address
  | KeyRevoked address address
  | SpendingLimitUpdated address address address u256
  | AccessKeySpend address address address u256 u256
  | KeyAuthorizationWitness address b256
  | KeyAuthorizationWitnessBurned address b256

datatype (plugins only: code size) roles_event =
    RoleMembershipUpdated b256 address address bool
  | RoleAdminUpdated b256 b256 address

datatype (plugins only: code size) tip20_event =
    Transfer address address u256
  | Approval address address u256
  | Mint address u256
  | Burn address u256
  | BurnBlocked address u256
  | BurnAt address address u256
  | TransferWithMemo address address u256 b256
  | TransferPolicyUpdate address u64
  | SupplyCapUpdate address u256
  | PauseStateUpdate address bool
  | NextQuoteTokenSet address address
  | QuoteTokenUpdate address address
  | RewardDistributed address u256
  | RewardRecipientSet address address
  | LogoURIUpdated address string

datatype (plugins only: code size) factory_event = TokenCreated address string string string address address b256

datatype (plugins only: code size) fee_event =
    UserTokenSet address address
  | ValidatorTokenSet address address
  | FeesDistributed address address u256

datatype (plugins only: code size) fee_amm_event =
    AmmMint address address address address u256 u256
  | AmmBurn address address address u256 u256 u256 address
  | RebalanceSwap address address address u256 u256

datatype (plugins only: code size) event =
    NonceEvent nonce_event
  | AddrRegistryEvent addr_registry_event
  | TIP403RegistryEvent tip403_event
  | ReceivePolicyGuardEvent guard_event
  | AccountKeychainEvent keychain_event
  | RolesAuthEvent roles_event
  | TIP20Event tip20_event
  | TIP20FactoryEvent factory_event
  | FeeManagerEvent fee_event
  | TIPFeeAMMEvent fee_amm_event
  | StablecoinDEXEvent dex_event
  | TIP20ChannelReserveEvent reserve_event
  | ValidatorConfigV2Event validator_config_v2_event

section \<open>The world\<close>

datatype (plugins only: code size) preimage =
    PackedAddressPair address address
  | AbiAddressPair address address
  | PackedAddressSalt address b256
  | AbiAddressSalt address b256
  | AbiReceipt claim_receipt
  | StringBytes string
  | DomainSeparator b256 u64 address
  | PermitStruct address address u256 u256 u256
  | Eip712Digest b256 b256
  | ReserveDomain u64 address
  | VoucherStruct b256 u96
  | ChannelIdentity channel_descriptor address u64
  | IngressV4 "nat list" u16
  | IngressV6 "nat list" u32 u16
  | ValidatorMessage u64 address address string string "address option"

record world =
  spec :: hardfork
  timestamp :: u256
  block_number :: u64
  chain_id :: u64
  keccak256 :: "preimage \<Rightarrow> b256"
  recover_signer :: "b256 \<Rightarrow> u8 \<Rightarrow> b256 \<Rightarrow> b256 \<Rightarrow> address option"
  recover_primitive :: "b256 \<Rightarrow> string \<Rightarrow> address option"
  ed25519_key :: "b256 \<Rightarrow> bool"
  ed25519_signature :: "string \<Rightarrow> bool"
  ed25519_verify :: "b256 \<Rightarrow> string \<Rightarrow> b256 \<Rightarrow> string \<Rightarrow> bool"
  evm_precompile :: "hardfork \<Rightarrow> address \<Rightarrow> bool"
  has_code :: "address \<Rightarrow> bool"
  config_commitment :: "address \<Rightarrow> b256"
  nonce_mgr :: nonce_storage
  addr_data :: "master_id \<Rightarrow> registry_data"
  registry :: tip403_storage
  guard :: guard_storage
  keychain :: keychain_storage
  tokens :: "address \<Rightarrow> tip20_storage"
  fee_manager :: fee_manager_storage
  dex :: dex_storage
  channel_reserve :: reserve_storage
  validator_config :: validator_config_storage
  validator_config_v2 :: validator_config_v2_storage
  logs :: "(address \<times> event) list"

type_synonym 'a M = "(world, tempo_error, 'a) rm"
type_synonym 'a R = "tempo_error + 'a"

definition emit_event :: "address \<Rightarrow> event \<Rightarrow> unit M" where
  "emit_event a e = modify (\<lambda>w. w\<lparr>logs := logs w @ [(a, e)]\<rparr>)"

lemma emit_event_run [simp]: "emit_event a e w = Inr ((), w\<lparr>logs := logs w @ [(a, e)]\<rparr>)"
  by (simp add: emit_event_def)

text \<open>The block timestamp is a \<open>U256\<close>; the contracts read it saturated to \<open>u64\<close>.\<close>

definition now64 :: "world \<Rightarrow> u64" where
  "now64 w = saturating_to 64 (timestamp w)"

definition is_retired_root :: "world \<Rightarrow> address \<Rightarrow> bool" where
  "is_retired_root w a = (T14 \<le> spec w \<and> config_commitment w a \<noteq> 0)"

section \<open>The empty state\<close>

text \<open>Every slot reads as zero before it is written. The state is a starting point for concrete
  evaluations; its hash function is a constant that no definition below depends on.\<close>

definition empty_token :: tip20_storage where
  "empty_token =
    \<lparr>roles = \<lambda>_ _. False, role_admins = \<lambda>_. 0, tk_name = [], tk_symbol = [], currency = [],
     logo_uri = [], quote_token = 0, next_quote_token = 0, transfer_policy_id_slot = 0,
     total_supply = 0, balances = \<lambda>_. 0, allowances = \<lambda>_ _. 0, permit_nonces = \<lambda>_. 0,
     paused = False, supply_cap = 0, global_reward_per_token = 0, opted_in_supply = 0,
     user_reward_info_of = \<lambda>_. \<lparr>reward_recipient = 0, reward_per_token = 0, reward_balance = 0\<rparr>\<rparr>"

definition empty_registry :: tip403_storage where
  "empty_registry =
    \<lparr>policy_id_counter_slot = 0,
     policy_records = \<lambda>_. \<lparr>base = \<lparr>pd_policy_type = 0, pd_admin = 0\<rparr>,
       compound = \<lparr>sender_policy_id = 0, recipient_policy_id = 0, mint_recipient_policy_id = 0\<rparr>\<rparr>,
     policy_set = \<lambda>_ _. False,
     receive_policies = \<lambda>_. \<lparr>rp_config = \<lparr>has_receive_policy = False, rp_sender_policy_id = 0,
       rp_sender_policy_type = 0, rp_token_filter_id = 0, rp_token_filter_type = 0,
       rp_recovery_mode = Originator\<rparr>, rp_recovery_address = 0\<rparr>,
     token_transfer_policies = \<lambda>_. \<lparr>ttp_policy_id = 0, ttp_is_set = False\<rparr>\<rparr>"

definition empty_keychain :: keychain_storage where
  "empty_keychain =
    \<lparr>kc_keys = \<lambda>_ _. \<lparr>key_signature_type = Secp256k1, key_expiry = 0, key_enforce_limits = False,
       key_is_revoked = False, key_is_admin = False\<rparr>,
     spending_limits = \<lambda>_ _. \<lparr>sl_remaining = 0, sl_max = 0, sl_period = 0, sl_period_end = 0\<rparr>,
     key_scopes = \<lambda>_. \<lparr>is_scoped = False, ks_targets = es_empty, ks_target_scopes =
       \<lambda>_. \<lparr>ts_selectors = es_empty, ts_selector_scopes = \<lambda>_. \<lparr>ss_recipients = es_empty\<rparr>\<rparr>\<rparr>,
     key_authorization_witnesses = \<lambda>_ _. False, transaction_key = 0, tx_origin = 0\<rparr>"

definition empty_fee_manager :: fee_manager_storage where
  "empty_fee_manager =
    \<lparr>validator_tokens = \<lambda>_. 0, user_tokens = \<lambda>_. 0, collected_fees = \<lambda>_ _. 0,
     pools = \<lambda>_. \<lparr>reserve_user_token = 0, reserve_validator_token = 0\<rparr>,
     lp_total_supply = \<lambda>_. 0, liquidity_balances = \<lambda>_ _. 0,
     pending_fee_swap_reservation = \<lambda>_. 0, two_hop_intermediate = 0\<rparr>"

definition zero_order :: order where
  "zero_order = \<lparr>ord_id = 0, ord_maker = 0, ord_book_key = 0, ord_is_bid = False, ord_tick = 0, ord_amount = 0,
     ord_remaining = 0, ord_prev = 0, ord_next = 0, ord_is_flip = False, ord_flip_tick = 0\<rparr>"

definition empty_level :: tick_level where
  "empty_level = \<lparr>tl_head = 0, tl_tail = 0, tl_total_liquidity = 0\<rparr>"

definition empty_book :: orderbook where
  "empty_book = \<lparr>book_base = 0, book_quote = 0, bids = \<lambda>_. empty_level, asks = \<lambda>_. empty_level,
     best_bid_tick = 0, best_ask_tick = 0, book_id = 0, bid_bitmap = \<lambda>_. 0, ask_bitmap = \<lambda>_. 0\<rparr>"

definition empty_dex :: dex_storage where
  "empty_dex = \<lparr>books = \<lambda>_. empty_book, orders = \<lambda>_. LegacyOrder zero_order, dex_balances = \<lambda>_ _. 0,
     next_order_id_slot = 0, book_keys = []\<rparr>"

definition no_channel :: channel_state where
  "no_channel = \<lparr>ch_settled = 0, ch_deposit = 0, ch_close_requested_at = 0, ch_logical_sender = False\<rparr>"

definition empty_reserve :: reserve_storage where
  "empty_reserve = \<lparr>channel_states = \<lambda>_. no_channel, opened_this_tx = \<lambda>_. False, channel_open_context_hash = 0\<rparr>"

definition no_v1_validator :: v1_validator where
  "no_v1_validator = \<lparr>v1_public_key = 0, v1_active = False, v1_index = 0, v1_validator_address = 0,
     v1_inbound_address = [], v1_outbound_address = []\<rparr>"

definition empty_validator_config :: validator_config_storage where
  "empty_validator_config = \<lparr>v1_owner = 0, v1_validators_array = sv_empty 0, v1_validators = \<lambda>_. no_v1_validator,
     v1_next_dkg_ceremony = 0\<rparr>"

definition no_validator :: validator_record where
  "no_validator = \<lparr>vr_public_key = 0, vr_validator_address = 0, vr_ingress = [], vr_egress = [], vr_fee_recipient = 0,
     vr_index = 0, vr_active_idx = 0, vr_added_at_height = 0, vr_deactivated_at_height = 0\<rparr>"

definition empty_validator_config_v2 :: validator_config_v2_storage where
  "empty_validator_config_v2 = \<lparr>vc_config = \<lparr>cfg_owner = 0, cfg_is_init = False, cfg_init_at_height = 0,
       cfg_migration_skipped_count = 0, cfg_v1_validator_count = 0\<rparr>,
     vc_validators = sv_empty no_validator, address_to_index = \<lambda>_. 0, pubkey_to_index = \<lambda>_. 0,
     next_network_identity_rotation_epoch = 0, active_ingress_ips = \<lambda>_. False, active_indices = sv_empty 0\<rparr>"

definition empty_world :: "hardfork \<Rightarrow> world" where
  "empty_world f =
    \<lparr>spec = f, timestamp = 1000, block_number = 1, chain_id = 4217, keccak256 = \<lambda>_. 0,
     recover_signer = \<lambda>_ _ _ _. None, recover_primitive = \<lambda>_ _. None, ed25519_key = \<lambda>_. False,
     ed25519_signature = \<lambda>_. False, ed25519_verify = \<lambda>_ _ _ _. False, evm_precompile = \<lambda>_ _. False, has_code = \<lambda>_. False, config_commitment = \<lambda>_. 0,
     nonce_mgr = \<lparr>nonces = \<lambda>_ _. 0, expiring_nonce_seen = \<lambda>_. 0, expiring_nonce_ring = \<lambda>_. 0,
       expiring_nonce_ring_ptr = 0\<rparr>,
     addr_data = \<lambda>_. \<lparr>master_address_slot = 0, rd_reserved = 0, rd_ty = 0\<rparr>,
     registry = empty_registry,
     guard = \<lparr>guard_nonce = 0, guard_balances = \<lambda>_. 0\<rparr>,
     keychain = empty_keychain,
     tokens = \<lambda>_. empty_token,
     fee_manager = empty_fee_manager,
     dex = empty_dex,
     channel_reserve = empty_reserve,
     validator_config = empty_validator_config,
     validator_config_v2 = empty_validator_config_v2,
     logs = []\<rparr>"

lemma empty_world_sel [simp]:
  "spec (empty_world f) = f" "timestamp (empty_world f) = 1000" "chain_id (empty_world f) = 4217"
  "has_code (empty_world f) = (\<lambda>_. False)" "config_commitment (empty_world f) = (\<lambda>_. 0)"
  "registry (empty_world f) = empty_registry" "keychain (empty_world f) = empty_keychain"
  "tokens (empty_world f) = (\<lambda>_. empty_token)" "fee_manager (empty_world f) = empty_fee_manager"
  "dex (empty_world f) = empty_dex" "channel_reserve (empty_world f) = empty_reserve" "block_number (empty_world f) = 1"
  "validator_config (empty_world f) = empty_validator_config" "validator_config_v2 (empty_world f) = empty_validator_config_v2"
  "guard (empty_world f) = \<lparr>guard_nonce = 0, guard_balances = \<lambda>_. 0\<rparr>"
  "logs (empty_world f) = []" "keccak256 (empty_world f) = (\<lambda>_. 0)"
  by (simp_all add: empty_world_def)

lemmas empty_defs =
  empty_world_def empty_token_def empty_registry_def empty_keychain_def empty_fee_manager_def empty_dex_def

end
