(* ===== verification/Nonce_Manager.thy ===== *)
theory Nonce_Manager
  imports World
begin

text \<open>
  The 2D nonce precompile (\<open>precompiles/src/nonce/mod.rs\<close>): user nonces per account and key, and the
  expiring-nonce set, a circular buffer of transaction hashes with their expiry. The last section
  proves replay protection over histories in which the block time moves forward and any other
  expiring nonce is recorded.
\<close>

section \<open>Operations\<close>

definition upd_nonce :: "(nonce_storage \<Rightarrow> nonce_storage) \<Rightarrow> unit M" where
  "upd_nonce f = modify (\<lambda>w. w\<lparr>nonce_mgr := f (nonce_mgr w)\<rparr>)"

definition get_nonce :: "address \<Rightarrow> u256 \<Rightarrow> world \<Rightarrow> u64 R" where
  "get_nonce account nonce_key w =
    (if nonce_key = 0 then Inl (NonceError ProtocolNonceNotSupported)
     else Inr (nonces (nonce_mgr w) account nonce_key))"

definition increment_nonce :: "address \<Rightarrow> u256 \<Rightarrow> u64 M" where
  "increment_nonce account nonce_key =
    rseq (ensure (nonce_key \<noteq> 0) (NonceError InvalidNonceKey))
   (rbind (gets (\<lambda>w. nonces (nonce_mgr w) account nonce_key)) (\<lambda>current.
    rbind (ok_or (checked_add 64 current 1) (NonceError NonceOverflow)) (\<lambda>new_nonce.
    rseq (upd_nonce (\<lambda>s. s\<lparr>nonces := (nonces s)(account := (nonces s account)(nonce_key := new_nonce))\<rparr>))
   (rseq (emit_event NONCE_PRECOMPILE_ADDRESS (NonceEvent (NonceIncremented account nonce_key new_nonce)))
   (ok new_nonce)))))"

definition is_expiring_nonce_seen :: "world \<Rightarrow> b256 \<Rightarrow> u64 \<Rightarrow> bool" where
  "is_expiring_nonce_seen w hash now =
    (let expiry = expiring_nonce_seen (nonce_mgr w) hash in expiry \<noteq> 0 \<and> expiry > now)"

definition check_and_mark_expiring_nonce :: "b256 \<Rightarrow> u64 \<Rightarrow> unit M" where
  "check_and_mark_expiring_nonce hash valid_before =
    rbind (gets now64) (\<lambda>now.
    rbind (gets spec) (\<lambda>sp.
    rseq (ensure (\<not> (valid_before \<le> now \<or>
                     valid_before > saturating_add 64 now (expiring_nonce_max_expiry_secs sp)))
            (NonceError InvalidExpiringNonceExpiry))
   (rbind (gets (\<lambda>w. expiring_nonce_seen (nonce_mgr w) hash)) (\<lambda>seen_expiry.
    rseq (ensure (\<not> (seen_expiry \<noteq> 0 \<and> seen_expiry > now)) (NonceError ExpiringNonceReplay))
   (rbind (gets (\<lambda>w. expiring_nonce_ring_ptr (nonce_mgr w))) (\<lambda>ptr.
    rbind (gets (\<lambda>w. expiring_nonce_ring (nonce_mgr w) ptr)) (\<lambda>old_hash.
    rseq (only_if (old_hash \<noteq> 0)
      (rbind (gets (\<lambda>w. expiring_nonce_seen (nonce_mgr w) old_hash)) (\<lambda>old_expiry.
       rseq (ensure (\<not> (old_expiry \<noteq> 0 \<and> old_expiry > now)) (NonceError ExpiringNonceSetFull))
            (upd_nonce (\<lambda>s. s\<lparr>expiring_nonce_seen := (expiring_nonce_seen s)(old_hash := 0)\<rparr>)))))
   (rseq (upd_nonce (\<lambda>s. s\<lparr>expiring_nonce_ring := (expiring_nonce_ring s)(ptr := hash)\<rparr>))
   (rseq (upd_nonce (\<lambda>s. s\<lparr>expiring_nonce_seen := (expiring_nonce_seen s)(hash := valid_before)\<rparr>))
         (upd_nonce (\<lambda>s. s\<lparr>expiring_nonce_ring_ptr :=
            (if ptr + 1 \<ge> expiring_nonce_set_capacity sp then 0 else ptr + 1)\<rparr>)))))))))))"

lemma upd_nonce_run [simp]: "upd_nonce f w = Inr ((), w\<lparr>nonce_mgr := f (nonce_mgr w)\<rparr>)"
  by (simp add: upd_nonce_def)

section \<open>User nonces\<close>

lemma increment_nonce_run:
  "increment_nonce account nonce_key w =
    (if nonce_key = 0 then Inl (NonceError InvalidNonceKey)
     else if 2 ^ 64 \<le> nonces (nonce_mgr w) account nonce_key + 1 then Inl (NonceError NonceOverflow)
     else let n = nonces (nonce_mgr w) account nonce_key + 1 in
       Inr (n, w\<lparr>nonce_mgr := (nonce_mgr w)\<lparr>nonces :=
           (nonces (nonce_mgr w))(account := (nonces (nonce_mgr w) account)(nonce_key := n))\<rparr>,
         logs := logs w @ [(NONCE_PRECOMPILE_ADDRESS, NonceEvent (NonceIncremented account nonce_key n))]\<rparr>))"
  by (simp add: increment_nonce_def checked_add_def Let_def)

section \<open>The expiring-nonce set\<close>

text \<open>One call, read off as a function of the state.\<close>

definition evict :: "b256 \<Rightarrow> (b256 \<Rightarrow> u64) \<Rightarrow> b256 \<Rightarrow> u64" where
  "evict old seen = (if old \<noteq> 0 then seen(old := 0) else seen)"

lemma check_and_mark_run:
  "check_and_mark_expiring_nonce hash vb w =
    (let s = nonce_mgr w; ptr = expiring_nonce_ring_ptr s; old = expiring_nonce_ring s ptr in
     if vb \<le> now64 w \<or> vb > saturating_add 64 (now64 w) (expiring_nonce_max_expiry_secs (spec w))
     then Inl (NonceError InvalidExpiringNonceExpiry)
     else if expiring_nonce_seen s hash > now64 w then Inl (NonceError ExpiringNonceReplay)
     else if old \<noteq> 0 \<and> expiring_nonce_seen s old > now64 w then Inl (NonceError ExpiringNonceSetFull)
     else Inr ((), w\<lparr>nonce_mgr := s\<lparr>
       expiring_nonce_seen := (evict old (expiring_nonce_seen s))(hash := vb),
       expiring_nonce_ring := (expiring_nonce_ring s)(ptr := hash),
       expiring_nonce_ring_ptr := (if ptr + 1 \<ge> expiring_nonce_set_capacity (spec w) then 0 else ptr + 1)\<rparr>\<rparr>))"
  by (simp add: check_and_mark_expiring_nonce_def run_defs evict_def not_le)

text \<open>The steps between two submissions: the clock moves forward (and with it possibly the
  hardfork), or some expiring nonce is recorded.\<close>

inductive nonce_step :: "world \<Rightarrow> world \<Rightarrow> bool" where
  advance: "timestamp w \<le> t \<Longrightarrow> spec w \<le> f \<Longrightarrow> nonce_step w (w\<lparr>timestamp := t, spec := f\<rparr>)"
| mark: "check_and_mark_expiring_nonce hash vb w = Inr (u, w') \<Longrightarrow> nonce_step w w'"
| increment: "increment_nonce account nonce_key w = Inr (n, w') \<Longrightarrow> nonce_step w w'"

inductive_cases nonce_stepE: "nonce_step w w'"

definition nonce_reach :: "world \<Rightarrow> world \<Rightarrow> bool" where
  "nonce_reach = nonce_step\<^sup>*\<^sup>*"

lemma nonce_step_clock:
  assumes "nonce_step w w'"
  shows "now64 w \<le> now64 w' \<and> spec w \<le> spec w'"
  using assms
proof (cases rule: nonce_step.cases)
  case (advance t f)
  then show ?thesis
    by (simp add: now64_def saturating_to_mono)
next
  case (mark hash vb u)
  then show ?thesis
    by (auto simp: now64_def check_and_mark_run Let_def split: if_splits)
next
  case (increment account nonce_key n)
  then show ?thesis
    by (auto simp: now64_def increment_nonce_run Let_def split: if_splits)
qed

text \<open>An unexpired mark is not lost: eviction only clears expired entries and recording only
  replaces entries that are absent or expired.\<close>

lemma nonce_step_seen:
  assumes "nonce_step w w'" "expiring_nonce_seen (nonce_mgr w) hash = vb" "now64 w < vb"
  shows "expiring_nonce_seen (nonce_mgr w') hash = vb"
  using assms
proof (cases rule: nonce_step.cases)
  case (mark h v u)
  then show ?thesis
    using assms(2,3) by (auto simp: check_and_mark_run evict_def Let_def split: if_splits)
qed (auto simp: increment_nonce_run Let_def split: if_splits)

lemma nonce_reach_seen:
  assumes "nonce_reach w w'" "expiring_nonce_seen (nonce_mgr w) hash = vb" "now64 w' < vb"
  shows "expiring_nonce_seen (nonce_mgr w') hash = vb \<and> now64 w \<le> now64 w'"
  using assms unfolding nonce_reach_def
proof (induction rule: rtranclp_induct)
  case (step y z)
  then have "now64 y \<le> now64 z"
    by (simp add: nonce_step_clock)
  then show ?case
    using step nonce_step_seen [of y z hash vb] by simp
qed simp

definition ring_ok :: "world \<Rightarrow> bool" where
  "ring_ok w = (expiring_nonce_ring_ptr (nonce_mgr w) < expiring_nonce_set_capacity (spec w))"

lemma capacity_mono: "f \<le> g \<Longrightarrow> expiring_nonce_set_capacity f \<le> expiring_nonce_set_capacity g"
  by (auto simp: expiring_nonce_set_capacity_def dest: order_trans)

lemma capacity_pos: "0 < expiring_nonce_set_capacity f"
  by (simp add: expiring_nonce_set_capacity_def)

lemma nonce_step_ring_ok:
  assumes "nonce_step w w'" "ring_ok w"
  shows "ring_ok w'"
  using assms
proof (cases rule: nonce_step.cases)
  case (advance t f)
  then show ?thesis
    using assms(2) capacity_mono [of "spec w" f] by (simp add: ring_ok_def)
qed (auto simp: ring_ok_def increment_nonce_run check_and_mark_run Let_def capacity_pos split: if_splits)

section \<open>Properties\<close>

text \<open>C5: An expiring-nonce transaction cannot be replayed. After a hash was recorded with expiry
  \<open>vb\<close>, and after any further recordings, nonce increments and clock advances, a second submission
  of the same hash while the first is unexpired is rejected: with the replay error when its own
  expiry is acceptable, with the expiry error otherwise. In no case does it succeed.\<close>

theorem expiring_nonce_no_replay:
  assumes "check_and_mark_expiring_nonce hash vb w0 = Inr (u, w1)"
    and "nonce_reach w1 w2"
    and "now64 w2 < vb"
  shows "check_and_mark_expiring_nonce hash vb' w2 \<in>
    {Inl (NonceError ExpiringNonceReplay), Inl (NonceError InvalidExpiringNonceExpiry)}
    \<and> is_expiring_nonce_seen w2 hash (now64 w2)"
proof -
  have "expiring_nonce_seen (nonce_mgr w1) hash = vb"
    using assms(1) by (auto simp: check_and_mark_run Let_def split: if_splits)
  then have "expiring_nonce_seen (nonce_mgr w2) hash = vb"
    using nonce_reach_seen [OF assms(2)] assms(3) by simp
  then show ?thesis
    using assms(3) by (simp add: check_and_mark_run is_expiring_nonce_seen_def Let_def)
qed

theorem expiring_nonce_no_replay_witness:
  "\<exists>w1. check_and_mark_expiring_nonce 7 1020 (empty_world T11) = Inr ((), w1)
    \<and> check_and_mark_expiring_nonce 7 1020 w1 = Inl (NonceError ExpiringNonceReplay)"
proof -
  have start: "now64 (empty_world T11) = 1000" "spec (empty_world T11) = T11"
      "nonce_mgr (empty_world T11) = \<lparr>nonces = \<lambda>_ _. 0, expiring_nonce_seen = \<lambda>_. 0,
         expiring_nonce_ring = \<lambda>_. 0, expiring_nonce_ring_ptr = 0\<rparr>"
    by (simp_all add: now64_def saturating_to_def umax_def empty_defs)
  have window: "saturating_add 64 1000 (expiring_nonce_max_expiry_secs T11) = 1300"
    by (simp add: saturating_add_def umax_def expiring_nonce_max_expiry_secs_def)
  obtain w1 where run: "check_and_mark_expiring_nonce 7 1020 (empty_world T11) = Inr ((), w1)"
    and now: "now64 w1 = 1000" "spec w1 = T11"
    using start window by (simp add: check_and_mark_run Let_def now64_def)
  then have "check_and_mark_expiring_nonce 7 1020 w1 \<in>
      {Inl (NonceError ExpiringNonceReplay), Inl (NonceError InvalidExpiringNonceExpiry)}"
    using expiring_nonce_no_replay [OF run, of w1 1020] by (simp add: nonce_reach_def)
  moreover have "check_and_mark_expiring_nonce 7 1020 w1 \<noteq> Inl (NonceError InvalidExpiringNonceExpiry)"
    using now window by (simp add: check_and_mark_run Let_def)
  ultimately show ?thesis
    using run by auto
qed

text \<open>C24: The ring pointer stays inside the buffer of the active hardfork across every history, also
  when an upgrade enlarges the buffer.\<close>

theorem expiring_ring_in_bounds:
  assumes "nonce_reach w w'" "ring_ok w"
  shows "ring_ok w'"
  using assms unfolding nonce_reach_def
  by (induction rule: rtranclp_induct) (simp_all add: nonce_step_ring_ok)

theorem expiring_ring_in_bounds_witness:
  "ring_ok (empty_world T2) \<and> ring_ok ((empty_world T2)\<lparr>timestamp := 2000, spec := T11\<rparr>)"
proof -
  have start: "ring_ok (empty_world T2)"
    by (simp add: ring_ok_def empty_defs capacity_pos)
  have "nonce_step (empty_world T2) ((empty_world T2)\<lparr>timestamp := 2000, spec := T11\<rparr>)"
    by (rule nonce_step.advance) (simp_all add: empty_defs fork_order)
  then have "nonce_reach (empty_world T2) ((empty_world T2)\<lparr>timestamp := 2000, spec := T11\<rparr>)"
    by (simp add: nonce_reach_def r_into_rtranclp)
  then show ?thesis
    using expiring_ring_in_bounds start by blast
qed

end
