(* ===== verification/Policy_Registry.thy ===== *)
theory Policy_Registry
  imports World
begin

text \<open>
  The TIP-403 policy registry (\<open>precompiles/src/tip403_registry/mod.rs\<close>): simple and
  compound transfer policies, account receive policies with their cached policy types, and the
  binding of tokens to policies. The invariant says that compound policies refer to existing simple
  policies and that every cached type is the stored one.
\<close>

section \<open>Policy data\<close>

definition REJECT_ALL_POLICY_ID :: u64 where
  "REJECT_ALL_POLICY_ID = 0"

definition ALLOW_ALL_POLICY_ID :: u64 where
  "ALLOW_ALL_POLICY_ID = 1"

definition ALWAYS_AUTHORIZED :: "(hardfork \<times> address list) list" where
  "ALWAYS_AUTHORIZED = [(T6, [RECEIVE_POLICY_GUARD_ADDRESS])]"

text \<open>The enum of the interface with its \<open>u8\<close> discriminants; \<^term>\<open>None\<close> is the variant
  \<open>__Invalid\<close> with discriminant 255.\<close>

primrec policy_type_u8 :: "policy_type \<Rightarrow> u8" where
  "policy_type_u8 WHITELIST = 0"
| "policy_type_u8 BLACKLIST = 1"
| "policy_type_u8 COMPOUND = 2"

definition policy_type_from_u8 :: "u8 \<Rightarrow> policy_type option" where
  "policy_type_from_u8 n =
    (if n = 0 then Some WHITELIST else if n = 1 then Some BLACKLIST
     else if n = 2 then Some COMPOUND else None)"

definition policy_type :: "world \<Rightarrow> policy_data \<Rightarrow> policy_type R" where
  "policy_type w data =
    (let is_t2 = T2 \<le> spec w in
     case policy_type_from_u8 (pd_policy_type data) of
       Some ty \<Rightarrow>
         if is_t2 \<or> ty \<noteq> COMPOUND then Inr ty
         else Inl (if is_t2 then TIP403RegistryError InvalidPolicyType else under_overflow)
     | None \<Rightarrow> Inl (if is_t2 then TIP403RegistryError InvalidPolicyType else under_overflow))"

definition is_simple :: "policy_data \<Rightarrow> bool" where
  "is_simple data = (pd_policy_type data = 0 \<or> pd_policy_type data = 1)"

definition is_compound :: "policy_data \<Rightarrow> bool" where
  "is_compound data = (pd_policy_type data = 2)"

definition is_default :: "policy_data \<Rightarrow> bool" where
  "is_default data = (pd_policy_type data = 0 \<and> pd_admin data = 0)"

definition sender_policy_data :: "receive_policy_config \<Rightarrow> policy_data" where
  "sender_policy_data c = \<lparr>pd_policy_type = rp_sender_policy_type c, pd_admin = 0\<rparr>"

definition token_filter_data :: "receive_policy_config \<Rightarrow> policy_data" where
  "token_filter_data c = \<lparr>pd_policy_type = rp_token_filter_type c, pd_admin = 0\<rparr>"

definition ensure_is_simple :: "world \<Rightarrow> policy_type option \<Rightarrow> u8 R" where
  "ensure_is_simple w ty =
    (case ty of
       Some WHITELIST \<Rightarrow> Inr (policy_type_u8 WHITELIST)
     | Some BLACKLIST \<Rightarrow> Inr (policy_type_u8 BLACKLIST)
     | _ \<Rightarrow> if T2 \<le> spec w then Inl (TIP403RegistryError IncompatiblePolicyType) else Inr 255)"

section \<open>Reading the registry\<close>

definition policy_id_counter :: "world \<Rightarrow> u64" where
  "policy_id_counter w = max (policy_id_counter_slot (registry w)) 2"

definition builtin_authorization :: "u64 \<Rightarrow> bool option" where
  "builtin_authorization p =
    (if p = ALLOW_ALL_POLICY_ID then Some True
     else if p = REJECT_ALL_POLICY_ID then Some False else None)"

definition policy_exists :: "world \<Rightarrow> u64 \<Rightarrow> bool" where
  "policy_exists w p =
    (if builtin_authorization p \<noteq> None then True else p < policy_id_counter w)"

definition get_policy_data :: "world \<Rightarrow> u64 \<Rightarrow> policy_data R" where
  "get_policy_data w p =
    (let data = base (policy_records (registry w) p) in
     if T2 \<le> spec w \<and> is_default data \<and> p \<ge> policy_id_counter w
     then Inl (TIP403RegistryError PolicyNotFound) else Inr data)"

definition policy_data_of :: "world \<Rightarrow> u64 \<Rightarrow> (policy_type \<times> address) R" where
  "policy_data_of w p =
    (if T2 \<le> spec w \<and> builtin_authorization p \<noteq> None
     then ebind (eok_or (policy_type_from_u8 p) (TIP403RegistryError InvalidPolicyType)) (\<lambda>ty. Inr (ty, 0))
     else if \<not> T2 \<le> spec w \<and> \<not> policy_exists w p then Inl (TIP403RegistryError PolicyNotFound)
     else ebind (get_policy_data w p) (\<lambda>data. ebind (policy_type w data) (\<lambda>ty. Inr (ty, pd_admin data))))"

definition compound_policy_data_of :: "world \<Rightarrow> u64 \<Rightarrow> compound_policy_data R" where
  "compound_policy_data_of w p =
    ebind (get_policy_data w p) (\<lambda>data.
      if \<not> is_compound data
      then Inl (if policy_exists w p then TIP403RegistryError IncompatiblePolicyType
                else TIP403RegistryError PolicyNotFound)
      else Inr (compound (policy_records (registry w) p)))"

definition is_authorized_simple_inner :: "world \<Rightarrow> u64 \<Rightarrow> address \<Rightarrow> policy_data \<Rightarrow> bool R" where
  "is_authorized_simple_inner w p user data =
    (let is_in_set = policy_set (registry w) p user in
     ebind (policy_type w data) (\<lambda>ty. case ty of
        WHITELIST \<Rightarrow> Inr is_in_set
      | BLACKLIST \<Rightarrow> Inr (\<not> is_in_set)
      | COMPOUND \<Rightarrow> Inl (TIP403RegistryError IncompatiblePolicyType)))"

definition is_authorized_simple :: "world \<Rightarrow> u64 \<Rightarrow> address \<Rightarrow> policy_data option \<Rightarrow> bool R" where
  "is_authorized_simple w p user cache =
    (case builtin_authorization p of
       Some auth \<Rightarrow> Inr auth
     | None \<Rightarrow>
         ebind (case cache of Some data \<Rightarrow> Inr data | None \<Rightarrow> get_policy_data w p) (\<lambda>data.
           is_authorized_simple_inner w p user data))"

definition is_authorized_as :: "world \<Rightarrow> u64 \<Rightarrow> address \<Rightarrow> auth_role \<Rightarrow> bool R" where
  "is_authorized_as w p user role =
    (if list_ex (\<lambda>(fork, addrs). fork \<le> spec w \<and> user \<in> set addrs) ALWAYS_AUTHORIZED then Inr True
     else case builtin_authorization p of
       Some auth \<Rightarrow> Inr auth
     | None \<Rightarrow>
         ebind (get_policy_data w p) (\<lambda>data.
           if is_compound data then
             (let c = compound (policy_records (registry w) p) in
              case role of
                AuthSender \<Rightarrow> is_authorized_simple w (sender_policy_id c) user None
              | AuthRecipient \<Rightarrow> is_authorized_simple w (recipient_policy_id c) user None
              | AuthMintRecipient \<Rightarrow> is_authorized_simple w (mint_recipient_policy_id c) user None
              | AuthTransfer \<Rightarrow>
                  ebind (is_authorized_simple w (sender_policy_id c) user None) (\<lambda>sender_auth.
                    if T2 \<le> spec w \<and> \<not> sender_auth then Inr False
                    else ebind (is_authorized_simple w (recipient_policy_id c) user None)
                      (\<lambda>recipient_auth. Inr (sender_auth \<and> recipient_auth))))
           else is_authorized_simple_inner w p user data))"

definition transfer_or :: "world \<Rightarrow> auth_role \<Rightarrow> auth_role" where
  "transfer_or w t2_variant = (if T2 \<le> spec w then t2_variant else AuthTransfer)"

definition validate_simple_policy :: "world \<Rightarrow> u64 \<Rightarrow> unit R" where
  "validate_simple_policy w p =
    (if builtin_authorization p \<noteq> None then Inr ()
     else if p \<ge> policy_id_counter w then Inl (TIP403RegistryError PolicyNotFound)
     else ebind (get_policy_data w p) (\<lambda>data.
       if \<not> is_simple data then Inl (TIP403RegistryError PolicyNotSimple) else Inr ()))"

definition validate_receive_policy_id :: "world \<Rightarrow> u64 \<Rightarrow> u8 R" where
  "validate_receive_policy_id w p =
    (if builtin_authorization p \<noteq> None then Inr p
     else if p \<ge> policy_id_counter w then Inl (TIP403RegistryError PolicyNotFound)
     else ebind (get_policy_data w p) (\<lambda>data.
       if \<not> is_simple data then Inl (TIP403RegistryError InvalidReceivePolicyType)
       else Inr (pd_policy_type data)))"

definition receive_policy_recovery :: "world \<Rightarrow> address \<Rightarrow> recovery_mode \<Rightarrow> address" where
  "receive_policy_recovery w account mode =
    (case mode of
       Originator \<Rightarrow> 0
     | Receiver \<Rightarrow> account
     | ThirdParty \<Rightarrow> rp_recovery_address (receive_policies (registry w) account))"

definition check_receive_policy ::
  "world \<Rightarrow> address \<Rightarrow> address \<Rightarrow> address \<Rightarrow> (blocked_reason \<times> address) option R" where
  "check_receive_policy w token sender receiver =
    (let c = rp_config (receive_policies (registry w) receiver) in
     if \<not> has_receive_policy c then Inr None
     else ebind (is_authorized_simple w (rp_token_filter_id c) token (Some (token_filter_data c))) (\<lambda>token_ok.
       if \<not> token_ok then Inr (Some (TOKEN_FILTER, receive_policy_recovery w receiver (rp_recovery_mode c)))
       else ebind (is_authorized_simple w (rp_sender_policy_id c) sender (Some (sender_policy_data c))) (\<lambda>sender_ok.
         if \<not> sender_ok
         then Inr (Some (RECEIVE_POLICY, receive_policy_recovery w receiver (rp_recovery_mode c)))
         else Inr None)))"

definition validate_receive_policy ::
  "world \<Rightarrow> address \<Rightarrow> address \<Rightarrow> address \<Rightarrow> blocked_reason option R" where
  "validate_receive_policy w token sender receiver =
    ebind (check_receive_policy w token sender receiver) (\<lambda>r. Inr (map_option fst r))"

definition is_policy_lookup_error :: "world \<Rightarrow> tempo_error \<Rightarrow> bool" where
  "is_policy_lookup_error w e =
    (if T2 \<le> spec w
     then e = TIP403RegistryError InvalidPolicyType \<or> e = TIP403RegistryError PolicyNotFound
     else e = under_overflow)"

definition registered_token_transfer_policy_id :: "world \<Rightarrow> address \<Rightarrow> u64 option" where
  "registered_token_transfer_policy_id w token =
    (let b = token_transfer_policies (registry w) token in
     if ttp_is_set b then Some (ttp_policy_id b) else None)"

text \<open>The two readers of other contracts that the registry calls: the factory's test for a deployed
  token and the token's own policy slot.\<close>

definition is_tip20 :: "world \<Rightarrow> address \<Rightarrow> bool" where
  "is_tip20 w token = (if \<not> is_tip20_prefix token then False else has_code w token)"

definition legacy_transfer_policy_id :: "world \<Rightarrow> address \<Rightarrow> u64" where
  "legacy_transfer_policy_id w token = transfer_policy_id_slot (tokens w token)"

definition transfer_policy_id :: "world \<Rightarrow> address \<Rightarrow> u64" where
  "transfer_policy_id w token =
    (case (if T9 \<le> spec w then registered_token_transfer_policy_id w token else None) of
       Some p \<Rightarrow> p
     | None \<Rightarrow> legacy_transfer_policy_id w token)"

definition token_transfer_policy_id :: "world \<Rightarrow> address \<Rightarrow> (bool \<times> u64) R" where
  "token_transfer_policy_id w token =
    (if \<not> is_tip20 w token then Inl (TIP20 InvalidToken)
     else case registered_token_transfer_policy_id w token of
       Some p \<Rightarrow> Inr (True, p)
     | None \<Rightarrow> Inr (False, legacy_transfer_policy_id w token))"

section \<open>Changing the registry\<close>

definition upd_registry :: "(tip403_storage \<Rightarrow> tip403_storage) \<Rightarrow> unit M" where
  "upd_registry f = modify (\<lambda>w. w\<lparr>registry := f (registry w)\<rparr>)"

definition set_policy_data :: "u64 \<Rightarrow> policy_data \<Rightarrow> unit M" where
  "set_policy_data p data =
    upd_registry (\<lambda>r. r\<lparr>policy_records := (policy_records r)(p := (policy_records r p)\<lparr>base := data\<rparr>)\<rparr>)"

definition set_policy_set :: "u64 \<Rightarrow> address \<Rightarrow> bool \<Rightarrow> unit M" where
  "set_policy_set p account v =
    upd_registry (\<lambda>r. r\<lparr>policy_set := (policy_set r)(p := (policy_set r p)(account := v))\<rparr>)"

definition emit403 :: "tip403_event \<Rightarrow> unit M" where
  "emit403 e = emit_event TIP403_REGISTRY_ADDRESS (TIP403RegistryEvent e)"

text \<open>Allocation of a policy id, shared by the three creating methods.\<close>

definition next_policy_id :: "u64 M" where
  "next_policy_id =
    rbind (gets policy_id_counter) (\<lambda>new_policy_id.
    rbind (ok_or (checked_add 64 new_policy_id 1) under_overflow) (\<lambda>next.
    rseq (upd_registry (\<lambda>r. r\<lparr>policy_id_counter_slot := next\<rparr>))
   (ok new_policy_id)))"

definition create_policy :: "address \<Rightarrow> address \<Rightarrow> policy_type option \<Rightarrow> u64 M" where
  "create_policy msg_sender admin ptype =
    rbind (rd (\<lambda>w. ensure_is_simple w ptype)) (\<lambda>ty.
    rbind next_policy_id (\<lambda>new_policy_id.
    rseq (set_policy_data new_policy_id \<lparr>pd_policy_type = ty, pd_admin = admin\<rparr>)
   (rseq (emit403 (PolicyCreated new_policy_id msg_sender (policy_type_from_u8 ty)))
   (rseq (emit403 (PolicyAdminUpdated new_policy_id msg_sender admin))
   (ok new_policy_id)))))"

definition add_initial_account :: "address \<Rightarrow> u64 \<Rightarrow> policy_type option \<Rightarrow> address \<Rightarrow> unit M" where
  "add_initial_account msg_sender new_policy_id ptype account =
    rseq (set_policy_set new_policy_id account True)
      (case ptype of
         Some WHITELIST \<Rightarrow> emit403 (WhitelistUpdated new_policy_id msg_sender account True)
       | Some BLACKLIST \<Rightarrow> emit403 (BlacklistUpdated new_policy_id msg_sender account True)
       | _ \<Rightarrow> err (TIP403RegistryError IncompatiblePolicyType))"

definition create_policy_with_accounts ::
  "address \<Rightarrow> address \<Rightarrow> policy_type option \<Rightarrow> address list \<Rightarrow> u64 M" where
  "create_policy_with_accounts msg_sender admin ptype accounts =
    rbind (rd (\<lambda>w. ensure_is_simple w ptype)) (\<lambda>ty.
    rbind (gets spec) (\<lambda>sp.
    rseq (ensure (\<not> (T3 \<le> sp \<and> list_ex is_virtual accounts)) (TIP403RegistryError VirtualAddressNotAllowed))
   (rbind next_policy_id (\<lambda>new_policy_id.
    rseq (set_policy_data new_policy_id \<lparr>pd_policy_type = ty, pd_admin = admin\<rparr>)
   (rseq (for_each accounts (add_initial_account msg_sender new_policy_id ptype))
   (rseq (emit403 (PolicyCreated new_policy_id msg_sender (policy_type_from_u8 ty)))
   (rseq (emit403 (PolicyAdminUpdated new_policy_id msg_sender admin))
   (ok new_policy_id))))))))"

definition set_policy_admin :: "address \<Rightarrow> u64 \<Rightarrow> address \<Rightarrow> unit M" where
  "set_policy_admin msg_sender p admin =
    rbind (rd (\<lambda>w. get_policy_data w p)) (\<lambda>data.
    rseq (ensure (pd_admin data = msg_sender) (TIP403RegistryError Tip403Unauthorized))
   (rseq (set_policy_data p (data\<lparr>pd_admin := admin\<rparr>))
         (emit403 (PolicyAdminUpdated p msg_sender admin))))"

definition modify_policy_whitelist :: "address \<Rightarrow> u64 \<Rightarrow> address \<Rightarrow> bool \<Rightarrow> unit M" where
  "modify_policy_whitelist msg_sender p account allowed =
    rbind (gets spec) (\<lambda>sp.
    rseq (ensure (\<not> (T3 \<le> sp \<and> is_virtual account)) (TIP403RegistryError VirtualAddressNotAllowed))
   (rbind (rd (\<lambda>w. get_policy_data w p)) (\<lambda>data.
    rseq (ensure (pd_admin data = msg_sender) (TIP403RegistryError Tip403Unauthorized))
   (rbind (rd (\<lambda>w. policy_type w data)) (\<lambda>ty.
    rseq (ensure (ty = WHITELIST) (TIP403RegistryError IncompatiblePolicyType))
   (rseq (set_policy_set p account allowed)
         (emit403 (WhitelistUpdated p msg_sender account allowed))))))))"

definition modify_policy_blacklist :: "address \<Rightarrow> u64 \<Rightarrow> address \<Rightarrow> bool \<Rightarrow> unit M" where
  "modify_policy_blacklist msg_sender p account restricted =
    rbind (gets spec) (\<lambda>sp.
    rseq (ensure (\<not> (T3 \<le> sp \<and> is_virtual account)) (TIP403RegistryError VirtualAddressNotAllowed))
   (rbind (rd (\<lambda>w. get_policy_data w p)) (\<lambda>data.
    rseq (ensure (pd_admin data = msg_sender) (TIP403RegistryError Tip403Unauthorized))
   (rbind (rd (\<lambda>w. policy_type w data)) (\<lambda>ty.
    rseq (ensure (ty = BLACKLIST) (TIP403RegistryError IncompatiblePolicyType))
   (rseq (set_policy_set p account restricted)
         (emit403 (BlacklistUpdated p msg_sender account restricted))))))))"

definition create_compound_policy :: "address \<Rightarrow> u64 \<Rightarrow> u64 \<Rightarrow> u64 \<Rightarrow> u64 M" where
  "create_compound_policy msg_sender sp rp mp =
    rseq (rd (\<lambda>w. validate_simple_policy w sp))
   (rseq (rd (\<lambda>w. validate_simple_policy w rp))
   (rseq (rd (\<lambda>w. validate_simple_policy w mp))
   (rbind next_policy_id (\<lambda>new_policy_id.
    rseq (upd_registry (\<lambda>r. r\<lparr>policy_records := (policy_records r)(new_policy_id :=
      \<lparr>base = \<lparr>pd_policy_type = policy_type_u8 COMPOUND, pd_admin = 0\<rparr>,
       compound = \<lparr>sender_policy_id = sp, recipient_policy_id = rp, mint_recipient_policy_id = mp\<rparr>\<rparr>)\<rparr>))
   (rseq (emit403 (CompoundPolicyCreated new_policy_id msg_sender sp rp mp))
   (ok new_policy_id))))))"

definition encode_recovery :: "address \<Rightarrow> address \<Rightarrow> recovery_mode \<times> address" where
  "encode_recovery authority msg_sender =
    (if authority = 0 then (Originator, 0)
     else if authority = msg_sender then (Receiver, 0)
     else (ThirdParty, authority))"

definition set_receive_policy :: "address \<Rightarrow> u64 \<Rightarrow> u64 \<Rightarrow> address \<Rightarrow> unit M" where
  "set_receive_policy msg_sender sender_id filter_id recovery_authority =
    rseq (ensure (\<not> is_virtual msg_sender) (TIP403RegistryError VirtualAddressNotAllowed))
   (let (mode, recovery_write) = encode_recovery recovery_authority msg_sender in
    rbind (gets spec) (\<lambda>sp.
    rseq (ensure (\<not> (is_precompile recovery_authority sp \<or> is_virtual recovery_authority))
            (TIP403RegistryError InvalidRecoveryAuthority))
   (rbind (rd (\<lambda>w. validate_receive_policy_id w sender_id)) (\<lambda>sender_type.
    rbind (rd (\<lambda>w. validate_receive_policy_id w filter_id)) (\<lambda>filter_type.
    rseq (upd_registry (\<lambda>r. r\<lparr>receive_policies := (receive_policies r)(msg_sender :=
      \<lparr>rp_config = \<lparr>has_receive_policy = True, rp_sender_policy_id = sender_id,
         rp_sender_policy_type = sender_type, rp_token_filter_id = filter_id,
         rp_token_filter_type = filter_type, rp_recovery_mode = mode\<rparr>,
       rp_recovery_address = recovery_write\<rparr>)\<rparr>))
      (emit403 (ReceivePolicyUpdated msg_sender sender_id filter_id recovery_authority)))))))"

definition set_token_transfer_policy :: "address \<Rightarrow> u64 \<Rightarrow> unit M" where
  "set_token_transfer_policy token p =
    upd_registry (\<lambda>r. r\<lparr>token_transfer_policies :=
      (token_transfer_policies r)(token := \<lparr>ttp_policy_id = p, ttp_is_set = True\<rparr>)\<rparr>)"

definition delete_legacy_transfer_policy_id :: "address \<Rightarrow> unit M" where
  "delete_legacy_transfer_policy_id token =
    modify (\<lambda>w. w\<lparr>tokens := (tokens w)(token := (tokens w token)\<lparr>transfer_policy_id_slot := 0\<rparr>)\<rparr>)"

fun migrate_transfer_policy_ids :: "address list \<Rightarrow> u256 M" where
  "migrate_transfer_policy_ids [] = ok 0"
| "migrate_transfer_policy_ids (token # rest) =
    rbind (gets (\<lambda>w. \<not> is_tip20 w token \<or> registered_token_transfer_policy_id w token \<noteq> None)) (\<lambda>skip.
    if skip then migrate_transfer_policy_ids rest
    else
      rbind (gets (\<lambda>w. legacy_transfer_policy_id w token)) (\<lambda>p.
      rseq (set_token_transfer_policy token p)
     (rseq (delete_legacy_transfer_policy_id token)
     (rbind (migrate_transfer_policy_ids rest) (\<lambda>n. ok (n + 1))))))"

section \<open>The invariant\<close>

text \<open>What the invariant depends on: the counter, the records and the receive policies.\<close>

definition reg_core :: "world \<Rightarrow> u64 \<times> (u64 \<Rightarrow> policy_record) \<times> (address \<Rightarrow> receive_policy_entry)" where
  "reg_core w =
    (policy_id_counter_slot (registry w), policy_records (registry w), receive_policies (registry w))"

definition ptype :: "world \<Rightarrow> u64 \<Rightarrow> u8" where
  "ptype w p = pd_policy_type (base (policy_records (registry w) p))"

definition compound_of :: "world \<Rightarrow> u64 \<Rightarrow> compound_policy_data" where
  "compound_of w p = compound (policy_records (registry w) p)"

definition simple_ref :: "world \<Rightarrow> u64 \<Rightarrow> bool" where
  "simple_ref w p = (p < 2 \<or> p < policy_id_counter w \<and> ptype w p \<le> 1)"

definition cached_ok :: "world \<Rightarrow> u64 \<Rightarrow> u8 \<Rightarrow> bool" where
  "cached_ok w p ty = (if p < 2 then ty = p else p < policy_id_counter w \<and> ty = ptype w p \<and> ty \<le> 1)"

definition config_of :: "world \<Rightarrow> address \<Rightarrow> receive_policy_config" where
  "config_of w a = rp_config (receive_policies (registry w) a)"

definition compound_refs_ok :: "world \<Rightarrow> compound_policy_data \<Rightarrow> bool" where
  "compound_refs_ok w c =
    (simple_ref w (sender_policy_id c) \<and> simple_ref w (recipient_policy_id c)
     \<and> simple_ref w (mint_recipient_policy_id c))"

definition registry_inv :: "world \<Rightarrow> bool" where
  "registry_inv w =
    ((\<forall>p. policy_id_counter w \<le> p \<longrightarrow> ptype w p = 0)
     \<and> (\<forall>p. ptype w p = 2 \<longrightarrow> compound_refs_ok w (compound_of w p))
     \<and> (\<forall>a. has_receive_policy (config_of w a) \<longrightarrow>
          cached_ok w (rp_sender_policy_id (config_of w a)) (rp_sender_policy_type (config_of w a))
          \<and> cached_ok w (rp_token_filter_id (config_of w a)) (rp_token_filter_type (config_of w a))))"

text \<open>Policies are only ever added: the type and the sub-policies of an existing one stay.\<close>

definition reg_ext :: "world \<Rightarrow> world \<Rightarrow> bool" where
  "reg_ext w w' =
    (policy_id_counter w \<le> policy_id_counter w'
     \<and> (\<forall>p < policy_id_counter w. ptype w' p = ptype w p \<and> compound_of w' p = compound_of w p))"

lemmas reg_obs = reg_core_def ptype_def compound_of_def config_of_def policy_id_counter_def

lemma upd_registry_run [simp]: "upd_registry f w = Inr ((), w\<lparr>registry := f (registry w)\<rparr>)"
  by (simp add: upd_registry_def)

lemma emit403_run [simp]:
  "emit403 e w = Inr ((), w\<lparr>logs := logs w @ [(TIP403_REGISTRY_ADDRESS, TIP403RegistryEvent e)]\<rparr>)"
  by (simp add: emit403_def)

lemma reg_core_obs:
  assumes "reg_core w = reg_core w'"
  shows "policy_id_counter w = policy_id_counter w'" "ptype w = ptype w'"
    "compound_of w = compound_of w'" "config_of w = config_of w'"
  using assms by (auto simp: reg_obs fun_eq_iff)

lemma registry_inv_cong:
  assumes "policy_id_counter w = policy_id_counter w'" "ptype w = ptype w'"
    "compound_of w = compound_of w'" "config_of w = config_of w'"
  shows "registry_inv w = registry_inv w'"
  unfolding registry_inv_def compound_refs_ok_def simple_ref_def cached_ok_def assms ..

lemma reg_core_cong: "reg_core w = reg_core w' \<Longrightarrow> registry_inv w = registry_inv w'"
  by (intro registry_inv_cong reg_core_obs)

lemma keeps_of_core: "preserves reg_core m \<Longrightarrow> keeps registry_inv m"
  unfolding keeps_def preserves_def using reg_core_cong by metis

lemma reg_ext_of_core: "preserves reg_core m \<Longrightarrow> m w = Inr (x, w') \<Longrightarrow> reg_ext w w'"
  using reg_core_obs [of w' w] by (simp add: reg_ext_def preserves_def)

lemma reg_ext_refl [simp]: "reg_ext w w"
  by (simp add: reg_ext_def)

lemma reg_ext_trans: "reg_ext a b \<Longrightarrow> reg_ext b c \<Longrightarrow> reg_ext a c"
  by (auto simp: reg_ext_def)

lemma simple_ref_ext: "reg_ext w w' \<Longrightarrow> simple_ref w p \<Longrightarrow> simple_ref w' p"
  by (auto simp: simple_ref_def reg_ext_def)

lemma cached_ok_ext: "reg_ext w w' \<Longrightarrow> cached_ok w p ty \<Longrightarrow> cached_ok w' p ty"
  by (auto simp: cached_ok_def reg_ext_def)

lemma compound_refs_ext: "reg_ext w w' \<Longrightarrow> compound_refs_ok w c \<Longrightarrow> compound_refs_ok w' c"
  by (auto simp: compound_refs_ok_def intro: simple_ref_ext)

subsection \<open>The parts of the operations\<close>

lemma emit403_core [frame, intro!, simp]: "preserves reg_core (emit403 e)"
  by (simp add: preserves_def reg_obs)

lemma set_policy_set_core [frame, intro!, simp]: "preserves reg_core (set_policy_set p a v)"
  by (simp add: preserves_def set_policy_set_def reg_obs)

lemma add_initial_account_core [frame, intro!, simp]:
  "preserves reg_core (add_initial_account s p ty a)"
  by (auto simp: add_initial_account_def split: option.splits policy_type.splits)

lemma next_policy_id_run:
  "next_policy_id w = Inr (n, w') \<longleftrightarrow>
    n = policy_id_counter w \<and> n + 1 < 2 ^ 64
    \<and> w' = w\<lparr>registry := (registry w)\<lparr>policy_id_counter_slot := n + 1\<rparr>\<rparr>"
  by (auto simp: next_policy_id_def runs)

text \<open>Adding a record under the fresh id.\<close>

lemma new_record_ext:
  assumes "reg_core w' = (policy_id_counter w + 1,
      (policy_records (registry w))(policy_id_counter w := r), receive_policies (registry w))"
  shows "reg_ext w w'"
  using assms by (auto simp: reg_ext_def reg_obs)

lemma new_record_inv:
  assumes inv: "registry_inv w"
    and new: "reg_core w' = (policy_id_counter w + 1,
      (policy_records (registry w))(policy_id_counter w := r), receive_policies (registry w))"
    and refs: "pd_policy_type (base r) = 2 \<Longrightarrow> compound_refs_ok w (compound r)"
  shows "registry_inv w'"
proof -
  let ?n = "policy_id_counter w"
  have ext: "reg_ext w w'"
    by (rule new_record_ext [OF new])
  have types: "ptype w' p = (if p = ?n then pd_policy_type (base r) else ptype w p)"
    and comps: "compound_of w' p = (if p = ?n then compound r else compound_of w p)"
    and counter: "policy_id_counter w' = ?n + 1" and configs: "config_of w' a = config_of w a" for p a
    using new by (auto simp: reg_obs)
  have "ptype w' p = 0" if "policy_id_counter w' \<le> p" for p
    using that inv by (auto simp: types counter registry_inv_def)
  moreover have "compound_refs_ok w' (compound_of w' p)" if "ptype w' p = 2" for p
  proof (rule compound_refs_ext [OF ext])
    show "compound_refs_ok w (compound_of w' p)"
      using that inv refs by (auto simp: types comps registry_inv_def split: if_splits)
  qed
  ultimately show ?thesis
    using inv cached_ok_ext [OF ext] by (simp add: registry_inv_def configs)
qed

lemma validate_simple_policy_ref: "validate_simple_policy w p = Inr u \<Longrightarrow> simple_ref w p"
  by (auto simp: validate_simple_policy_def builtin_authorization_def get_policy_data_def runs
      simple_ref_def is_simple_def ptype_def REJECT_ALL_POLICY_ID_def ALLOW_ALL_POLICY_ID_def Let_def
      split: if_splits)

lemma validate_receive_policy_id_cached:
  "validate_receive_policy_id w p = Inr ty \<Longrightarrow> cached_ok w p ty"
  by (auto simp: validate_receive_policy_id_def builtin_authorization_def get_policy_data_def runs
      cached_ok_def is_simple_def ptype_def REJECT_ALL_POLICY_ID_def ALLOW_ALL_POLICY_ID_def Let_def
      split: if_splits)

subsection \<open>The operations\<close>

lemma ensure_is_simple_type: "ensure_is_simple w pt = Inr ty \<Longrightarrow> ty \<noteq> 2"
  by (auto simp: ensure_is_simple_def split: option.splits policy_type.splits if_splits)

lemma create_policy_core:
  assumes "create_policy s admin pt w = Inr (n, w')"
  shows "\<exists>ty. ensure_is_simple w pt = Inr ty \<and> n = policy_id_counter w \<and> reg_core w' = (n + 1,
    (policy_records (registry w))(n := (policy_records (registry w) n)
      \<lparr>base := \<lparr>pd_policy_type = ty, pd_admin = admin\<rparr>\<rparr>), receive_policies (registry w))"
  using assms
  by (auto simp: create_policy_def runs next_policy_id_run set_policy_data_def reg_core_def)

lemma create_policy_with_accounts_core:
  assumes "create_policy_with_accounts s admin pt accounts w = Inr (n, w')"
  shows "\<exists>ty. ensure_is_simple w pt = Inr ty \<and> n = policy_id_counter w \<and> reg_core w' = (n + 1,
    (policy_records (registry w))(n := (policy_records (registry w) n)
      \<lparr>base := \<lparr>pd_policy_type = ty, pd_admin = admin\<rparr>\<rparr>), receive_policies (registry w))"
proof -
  obtain ty w1 w2 w3 where ty: "ensure_is_simple w pt = Inr ty"
    and parts: "next_policy_id w = Inr (n, w1)"
      "set_policy_data n \<lparr>pd_policy_type = ty, pd_admin = admin\<rparr> w1 = Inr ((), w2)"
    and loop: "for_each accounts (add_initial_account s n pt) w2 = Inr ((), w3)"
    and w': "reg_core w' = reg_core w3"
    using assms by (auto simp: create_policy_with_accounts_def runs reg_core_def)
  have "reg_core w3 = reg_core w2"
    by (rule preservesD [OF preserves_for_each loop]) simp
  then show ?thesis
    using ty parts w' by (auto simp: next_policy_id_run set_policy_data_def reg_core_def)
qed

lemma create_compound_policy_core:
  assumes "create_compound_policy s sp rp mp w = Inr (n, w')"
  defines "c \<equiv> \<lparr>sender_policy_id = sp, recipient_policy_id = rp, mint_recipient_policy_id = mp\<rparr>"
  shows "compound_refs_ok w c \<and> n = policy_id_counter w \<and> reg_core w' = (n + 1,
    (policy_records (registry w))(n := \<lparr>base = \<lparr>pd_policy_type = 2, pd_admin = 0\<rparr>, compound = c\<rparr>),
    receive_policies (registry w))"
  using assms(1)
  by (auto simp: create_compound_policy_def c_def runs next_policy_id_run reg_core_def compound_refs_ok_def
      dest!: validate_simple_policy_ref)

lemma set_policy_admin_ptype:
  assumes "set_policy_admin s p admin w = Inr (x, w')"
  shows "ptype w' = ptype w" "compound_of w' = compound_of w" "config_of w' = config_of w"
    "policy_id_counter w' = policy_id_counter w"
  using assms
  by (auto simp: set_policy_admin_def runs set_policy_data_def get_policy_data_def reg_obs fun_eq_iff Let_def
      split: if_splits)

lemma set_receive_policy_core:
  assumes "set_receive_policy s sid fid rec w = Inr (x, w')"
  shows "ptype w' = ptype w" "compound_of w' = compound_of w" "policy_id_counter w' = policy_id_counter w"
    "\<exists>st ft mode. cached_ok w sid st \<and> cached_ok w fid ft \<and>
      config_of w' = (config_of w)(s := \<lparr>has_receive_policy = True, rp_sender_policy_id = sid,
        rp_sender_policy_type = st, rp_token_filter_id = fid, rp_token_filter_type = ft,
        rp_recovery_mode = mode\<rparr>)"
  using assms
  by (auto simp: set_receive_policy_def runs reg_obs fun_eq_iff split: prod.splits
      dest!: validate_receive_policy_id_cached)

lemma binding_core [frame, intro!, simp]:
  "preserves reg_core (set_token_transfer_policy t p)"
  "preserves reg_core (delete_legacy_transfer_policy_id t)"
  by (simp_all add: preserves_def set_token_transfer_policy_def delete_legacy_transfer_policy_id_def reg_core_def)

lemma migrate_core: "preserves reg_core (migrate_transfer_policy_ids ts)"
proof (induction ts)
  case (Cons t ts)
  then show ?case
    unfolding migrate_transfer_policy_ids.simps
    by (intro frame)
qed (simp add: preserves_def)

lemma modify_policy_core:
  "preserves reg_core (modify_policy_whitelist s p a v)"
  "preserves reg_core (modify_policy_blacklist s p a v)"
  unfolding modify_policy_whitelist_def modify_policy_blacklist_def by (intro frame)+

subsection \<open>Histories\<close>

datatype (plugins only: code size) tip403_call =
    CreatePolicy address address "policy_type option"
  | CreatePolicyWithAccounts address address "policy_type option" "address list"
  | SetPolicyAdmin address u64 address
  | ModifyPolicyWhitelist address u64 address bool
  | ModifyPolicyBlacklist address u64 address bool
  | CreateCompoundPolicy address u64 u64 u64
  | SetReceivePolicy address u64 u64 address
  | MigrateTransferPolicyIds "address list"

primrec tip403_exec :: "tip403_call \<Rightarrow> unit M" where
  "tip403_exec (CreatePolicy s admin pt) = rbind (create_policy s admin pt) (\<lambda>_. ok ())"
| "tip403_exec (CreatePolicyWithAccounts s admin pt accounts) =
    rbind (create_policy_with_accounts s admin pt accounts) (\<lambda>_. ok ())"
| "tip403_exec (SetPolicyAdmin s p admin) = set_policy_admin s p admin"
| "tip403_exec (ModifyPolicyWhitelist s p a v) = modify_policy_whitelist s p a v"
| "tip403_exec (ModifyPolicyBlacklist s p a v) = modify_policy_blacklist s p a v"
| "tip403_exec (CreateCompoundPolicy s sp rp mp) = rbind (create_compound_policy s sp rp mp) (\<lambda>_. ok ())"
| "tip403_exec (SetReceivePolicy s sid fid rec) = set_receive_policy s sid fid rec"
| "tip403_exec (MigrateTransferPolicyIds ts) = rbind (migrate_transfer_policy_ids ts) (\<lambda>_. ok ())"

lemma same_types_ext:
  assumes "ptype w' = ptype w" "compound_of w' = compound_of w" "policy_id_counter w' = policy_id_counter w"
  shows "reg_ext w w'"
  using assms by (simp add: reg_ext_def)

lemma set_policy_admin_inv: "keeps registry_inv (set_policy_admin s p admin)"
proof -
  have "registry_inv w' = registry_inv w" if "set_policy_admin s p admin w = Inr (x, w')" for w x w'
    using set_policy_admin_ptype [OF that] by (intro registry_inv_cong)
  then show ?thesis
    by (simp add: keeps_def)
qed

lemma set_receive_policy_inv: "keeps registry_inv (set_receive_policy s sid fid rec)"
proof -
  have "registry_inv w'" if inv: "registry_inv w" and run: "set_receive_policy s sid fid rec w = Inr (x, w')" for w x w'
  proof -
    note same = set_receive_policy_core(1-3) [OF run]
    obtain st ft mode where new: "cached_ok w sid st" "cached_ok w fid ft"
      "config_of w' = (config_of w)(s := \<lparr>has_receive_policy = True, rp_sender_policy_id = sid,
        rp_sender_policy_type = st, rp_token_filter_id = fid, rp_token_filter_type = ft,
        rp_recovery_mode = mode\<rparr>)"
      using set_receive_policy_core(4) [OF run] by blast
    have "cached_ok w' = cached_ok w" "compound_refs_ok w' = compound_refs_ok w"
      by (auto simp: fun_eq_iff cached_ok_def compound_refs_ok_def simple_ref_def same)
    then show ?thesis
      using inv new by (simp add: registry_inv_def same)
  qed
  then show ?thesis
    by (auto simp: keeps_def)
qed

lemma create_inv:
  "keeps registry_inv (create_policy s admin pt)"
  "keeps registry_inv (create_policy_with_accounts s admin pt accounts)"
  "keeps registry_inv (create_compound_policy s sp rp mp)"
  unfolding keeps_def
  by (auto dest!: create_policy_core create_policy_with_accounts_core create_compound_policy_core
      ensure_is_simple_type elim!: new_record_inv)

lemma tip403_exec_inv: "keeps registry_inv (tip403_exec c)"
  by (cases c)
    (auto intro: create_inv set_policy_admin_inv set_receive_policy_inv keeps_of_core modify_policy_core migrate_core)

lemma tip403_exec_ext:
  assumes "tip403_exec c w = Inr (x, w')"
  shows "reg_ext w w'"
proof (cases c)
  case (SetReceivePolicy s sid fid rec)
  then show ?thesis
    using assms set_receive_policy_core(1-3) [of s sid fid rec w x w'] by (simp add: same_types_ext)
next
  case (SetPolicyAdmin s p admin)
  then show ?thesis
    using assms set_policy_admin_ptype [of s p admin w x w'] by (simp add: same_types_ext)
next
  case (MigrateTransferPolicyIds ts)
  then show ?thesis
    using assms reg_ext_of_core [OF migrate_core] by (auto simp: runs)
qed (use assms reg_ext_of_core [OF modify_policy_core(1)] reg_ext_of_core [OF modify_policy_core(2)] in
    \<open>auto simp: runs dest!: create_policy_core create_policy_with_accounts_core create_compound_policy_core
      intro: new_record_ext\<close>)

interpretation tip403: invariant_machine tip403_exec registry_inv
  by unfold_locales (rule tip403_exec_inv)

lemma tip403_history_ext: "reg_ext w (run_ops tip403_exec cs w)"
proof (induction cs arbitrary: w)
  case (Cons c cs)
  then show ?case
    using tip403_exec_ext reg_ext_trans by (fastforce split: sum.splits)
qed simp

lemma empty_registry_inv: "registry_inv (empty_world f)"
  by (simp add: registry_inv_def reg_obs empty_defs)

section \<open>Authorization\<close>

lemma get_policy_data_existing:
  "p < policy_id_counter w \<Longrightarrow> get_policy_data w p = Inr (base (policy_records (registry w) p))"
  by (simp add: get_policy_data_def Let_def)

lemma builtin_cases:
  "p < 2 \<Longrightarrow> builtin_authorization p = Some (p = 1)"
  "2 \<le> p \<Longrightarrow> builtin_authorization p = None"
  by (auto simp: builtin_authorization_def REJECT_ALL_POLICY_ID_def ALLOW_ALL_POLICY_ID_def)

lemma policy_type_le_1: "pd_policy_type d \<le> 1 \<Longrightarrow>
    policy_type w d = Inr (if pd_policy_type d = 0 then WHITELIST else BLACKLIST)"
  by (auto simp: policy_type_def policy_type_from_u8_def Let_def)

text \<open>A reference to a simple policy always gives an answer, and the cached data gives the same
  one as the stored data.\<close>

lemma is_authorized_simple_ref:
  assumes "simple_ref w p"
  shows "is_authorized_simple w p user None =
    Inr (if p < 2 then p = 1 else if ptype w p = 0 then policy_set (registry w) p user
         else \<not> policy_set (registry w) p user)"
proof (cases "p < 2")
  case False
  then have "p < policy_id_counter w" "pd_policy_type (base (policy_records (registry w) p)) \<le> 1"
    using assms by (auto simp: simple_ref_def ptype_def)
  then show ?thesis
    using False by (simp add: is_authorized_simple_def builtin_cases get_policy_data_existing
        is_authorized_simple_inner_def policy_type_le_1 ptype_def Let_def)
qed (simp add: is_authorized_simple_def builtin_cases)

lemma is_authorized_simple_cached:
  assumes "cached_ok w p ty" "pd_policy_type d = ty"
  shows "is_authorized_simple w p user (Some d) = is_authorized_simple w p user None"
proof (cases "p < 2")
  case False
  then have "p < policy_id_counter w" "pd_policy_type d = pd_policy_type (base (policy_records (registry w) p))"
    using assms by (auto simp: cached_ok_def ptype_def)
  then show ?thesis
    using False by (simp add: is_authorized_simple_def builtin_cases get_policy_data_existing
        is_authorized_simple_inner_def policy_type_def)
qed (simp add: is_authorized_simple_def builtin_cases)

lemma cached_ok_simple_ref: "cached_ok w p ty \<Longrightarrow> simple_ref w p"
  by (auto simp: cached_ok_def simple_ref_def split: if_splits)

lemma is_authorized_as_total:
  assumes inv: "registry_inv w" and "T2 \<le> spec w" "policy_exists w p" "ptype w p \<le> 2"
  shows "\<exists>b. is_authorized_as w p user role = Inr b"
proof (cases "p < 2")
  case False
  then have p: "p < policy_id_counter w" "builtin_authorization p = None"
    using assms(3) by (simp_all add: policy_exists_def builtin_cases)
  consider "ptype w p = 2" | "ptype w p \<le> 1"
    using assms(4) by linarith
  then show ?thesis
  proof cases
    case 1
    then have "compound_refs_ok w (compound_of w p)"
      using inv by (simp add: registry_inv_def)
    then show ?thesis
      using 1 p by (cases role) (auto simp: is_authorized_as_def get_policy_data_existing is_compound_def
          compound_refs_ok_def is_authorized_simple_ref ptype_def compound_of_def Let_def)
  next
    case 2
    then show ?thesis
      using p by (auto simp: is_authorized_as_def get_policy_data_existing is_compound_def ptype_def
          is_authorized_simple_inner_def policy_type_le_1 Let_def)
  qed
qed (auto simp: is_authorized_as_def builtin_cases)

text \<open>The receive-policy check in terms of the stored policies.\<close>

definition receive_policy_reference :: "world \<Rightarrow> address \<Rightarrow> address \<Rightarrow> address \<Rightarrow> blocked_reason option R" where
  "receive_policy_reference w token sender receiver =
    (let c = config_of w receiver in
     if \<not> has_receive_policy c then Inr None
     else ebind (is_authorized_simple w (rp_token_filter_id c) token None) (\<lambda>token_ok.
       if \<not> token_ok then Inr (Some TOKEN_FILTER)
       else ebind (is_authorized_simple w (rp_sender_policy_id c) sender None) (\<lambda>sender_ok.
         Inr (if \<not> sender_ok then Some RECEIVE_POLICY else None))))"

lemma validate_receive_policy_reference:
  assumes "registry_inv w"
  shows "validate_receive_policy w token sender receiver = receive_policy_reference w token sender receiver"
proof (cases "has_receive_policy (config_of w receiver)")
  case True
  let ?c = "config_of w receiver"
  have cached: "cached_ok w (rp_sender_policy_id ?c) (rp_sender_policy_type ?c)"
      "cached_ok w (rp_token_filter_id ?c) (rp_token_filter_type ?c)"
    using assms True by (auto simp: registry_inv_def)
  have "is_authorized_simple w (rp_token_filter_id ?c) token (Some (token_filter_data ?c)) =
      is_authorized_simple w (rp_token_filter_id ?c) token None"
    and "is_authorized_simple w (rp_sender_policy_id ?c) sender (Some (sender_policy_data ?c)) =
      is_authorized_simple w (rp_sender_policy_id ?c) sender None"
    using cached by (auto intro: is_authorized_simple_cached simp: token_filter_data_def sender_policy_data_def)
  then show ?thesis
    using cached [THEN cached_ok_simple_ref] True
    by (simp add: validate_receive_policy_def check_receive_policy_def receive_policy_reference_def
        is_authorized_simple_ref Let_def flip: config_of_def)
qed (simp add: validate_receive_policy_def check_receive_policy_def receive_policy_reference_def Let_def
    flip: config_of_def)

subsection \<open>Who may change a policy\<close>

primrec tip403_caller :: "tip403_call \<Rightarrow> address option" where
  "tip403_caller (CreatePolicy s admin pt) = Some s"
| "tip403_caller (CreatePolicyWithAccounts s admin pt accounts) = Some s"
| "tip403_caller (SetPolicyAdmin s p admin) = Some s"
| "tip403_caller (ModifyPolicyWhitelist s p a v) = Some s"
| "tip403_caller (ModifyPolicyBlacklist s p a v) = Some s"
| "tip403_caller (CreateCompoundPolicy s sp rp mp) = Some s"
| "tip403_caller (SetReceivePolicy s sid fid rec) = Some s"
| "tip403_caller (MigrateTransferPolicyIds ts) = None"

definition policy_view :: "u64 \<Rightarrow> world \<Rightarrow> policy_record \<times> (address \<Rightarrow> bool)" where
  "policy_view p w = (policy_records (registry w) p, policy_set (registry w) p)"

lemma policy_view_other:
  "q \<noteq> p \<Longrightarrow> preserves (policy_view q) (set_policy_data p d)"
  "q \<noteq> p \<Longrightarrow> preserves (policy_view q) (set_policy_set p a v)"
  "preserves (policy_view q) (emit403 e)"
  "preserves (policy_view q) next_policy_id"
  "preserves (policy_view q) (set_token_transfer_policy t n)"
  "preserves (policy_view q) (delete_legacy_transfer_policy_id t)"
  by (auto simp: preserves_def policy_view_def set_policy_data_def set_policy_set_def next_policy_id_run
      set_token_transfer_policy_def delete_legacy_transfer_policy_id_def)

lemma next_policy_id_fresh:
  "next_policy_id w = Inr (n, w') \<Longrightarrow> q < policy_id_counter w \<Longrightarrow> q \<noteq> n"
  by (auto simp: next_policy_id_run)

lemma add_initial_account_view:
  "q \<noteq> p \<Longrightarrow> preserves (policy_view q) (add_initial_account s p pt a)"
  unfolding add_initial_account_def
  by (auto intro!: frame policy_view_other split: option.split policy_type.split)

lemma create_view:
  assumes "q < policy_id_counter w"
  shows "create_policy s admin pt w = Inr (n, w') \<Longrightarrow> policy_view q w' = policy_view q w"
    "create_policy_with_accounts s admin pt accounts w = Inr (n, w') \<Longrightarrow> policy_view q w' = policy_view q w"
    "create_compound_policy s sp rp mp w = Inr (n, w') \<Longrightarrow> policy_view q w' = policy_view q w"
proof -
  show "policy_view q w' = policy_view q w" if "create_policy s admin pt w = Inr (n, w')"
    using that assms by (auto simp: create_policy_def runs next_policy_id_run policy_view_def set_policy_data_def)
  show "policy_view q w' = policy_view q w" if "create_compound_policy s sp rp mp w = Inr (n, w')"
    using that assms by (auto simp: create_compound_policy_def runs next_policy_id_run policy_view_def)
  assume "create_policy_with_accounts s admin pt accounts w = Inr (n, w')"
  then obtain ty w1 w2 w3 where n: "next_policy_id w = Inr (n, w1)"
    and data: "set_policy_data n \<lparr>pd_policy_type = ty, pd_admin = admin\<rparr> w1 = Inr ((), w2)"
    and loop: "for_each accounts (add_initial_account s n pt) w2 = Inr ((), w3)"
    and w': "policy_view q w' = policy_view q w3"
    by (auto simp: create_policy_with_accounts_def runs policy_view_def)
  have q: "q \<noteq> n"
    by (rule next_policy_id_fresh [OF n assms])
  show "policy_view q w' = policy_view q w"
    using w' preservesD [OF preserves_for_each [OF add_initial_account_view [OF q]] loop]
      preservesD [OF policy_view_other(1) [OF q] data] preservesD [OF policy_view_other(4) n] by simp
qed

lemma migrate_view: "preserves (policy_view q) (migrate_transfer_policy_ids ts)"
proof (induction ts)
  case (Cons t ts)
  then show ?case
    unfolding migrate_transfer_policy_ids.simps by (intro frame policy_view_other)
qed (simp add: preserves_def)

text \<open>The three methods that change an existing policy require the caller to be its admin.\<close>

lemma admin_required:
  assumes "policy_view q w' \<noteq> policy_view q w"
  shows "set_policy_admin s p admin w = Inr (x, w') \<Longrightarrow> q = p \<and> s = pd_admin (base (policy_records (registry w) q))"
    "modify_policy_whitelist s p a v w = Inr (x, w') \<Longrightarrow> q = p \<and> s = pd_admin (base (policy_records (registry w) q))"
    "modify_policy_blacklist s p a v w = Inr (x, w') \<Longrightarrow> q = p \<and> s = pd_admin (base (policy_records (registry w) q))"
  using assms
  by (auto simp: set_policy_admin_def modify_policy_whitelist_def modify_policy_blacklist_def runs
      get_policy_data_def policy_view_def set_policy_data_def set_policy_set_def Let_def
      split: if_splits)

lemma set_receive_policy_view: "preserves (policy_view q) (set_receive_policy s sid fid rec)"
  by (auto simp: preserves_def set_receive_policy_def runs policy_view_def split: prod.splits)

subsection \<open>Migration of token bindings\<close>

lemma migrate_binding:
  assumes "migrate_transfer_policy_ids ts w = Inr (n, w')" "T9 \<le> spec w"
  shows "transfer_policy_id w' t = transfer_policy_id w t \<and> spec w' = spec w \<and> n \<le> length ts"
  using assms
proof (induction ts arbitrary: w n)
  case (Cons a ts)
  show ?case
  proof (cases "\<not> is_tip20 w a \<or> registered_token_transfer_policy_id w a \<noteq> None")
    case True
    then show ?thesis
      using Cons by fastforce
  next
    case False
    define w1 where "w1 = w\<lparr>registry := (registry w)\<lparr>token_transfer_policies :=
        (token_transfer_policies (registry w))(a := \<lparr>ttp_policy_id = legacy_transfer_policy_id w a, ttp_is_set = True\<rparr>)\<rparr>,
      tokens := (tokens w)(a := (tokens w a)\<lparr>transfer_policy_id_slot := 0\<rparr>)\<rparr>"
    obtain m where m: "migrate_transfer_policy_ids ts w1 = Inr (m, w')" "n = m + 1"
      using Cons.prems(1) False
      by (auto simp: runs set_token_transfer_policy_def delete_legacy_transfer_policy_id_def w1_def)
    have "transfer_policy_id w1 t = transfer_policy_id w t"
      using False Cons.prems(2)
      by (auto simp: transfer_policy_id_def registered_token_transfer_policy_id_def legacy_transfer_policy_id_def
          w1_def Let_def split: if_splits)
    then show ?thesis
      using Cons.IH [OF m(1)] Cons.prems(2) m(2) by (simp add: w1_def)
  qed
qed simp

section \<open>Properties\<close>

text \<open>C10: After any history of registry calls from a state with the invariant, the authorization
  check of an existing policy whose type is one of the three valid types always gives a yes-or-no
  answer: a compound policy never fails on a sub-policy that is missing, invalid or itself compound.\<close>

theorem authorization_always_decided:
  assumes "registry_inv w"
  shows "registry_inv (run_ops tip403_exec cs w) \<and>
    (T2 \<le> spec (run_ops tip403_exec cs w) \<longrightarrow> policy_exists (run_ops tip403_exec cs w) p \<longrightarrow>
     ptype (run_ops tip403_exec cs w) p \<le> 2 \<longrightarrow>
     (\<exists>b. is_authorized_as (run_ops tip403_exec cs w) p user role = Inr b))"
  using tip403.run_ops_inv [OF assms] is_authorized_as_total by blast

theorem authorization_always_decided_witness:
  "\<exists>b. is_authorized_as (run_ops tip403_exec [CreatePolicy 5 6 (Some WHITELIST)] (empty_world T2)) 2 7 AuthTransfer = Inr b"
proof -
  obtain w1 where w1: "run_ops tip403_exec [CreatePolicy 5 6 (Some WHITELIST)] (empty_world T2) = w1"
    and core: "policy_id_counter w1 = 3" "base (policy_records (registry w1) 2) = \<lparr>pd_policy_type = 0, pd_admin = 6\<rparr>"
      "spec w1 = T2"
    by (simp add: create_policy_def ensure_is_simple_def next_policy_id_def set_policy_data_def policy_id_counter_def
        checked_add_def empty_defs)
  have "T2 \<le> spec w1" "policy_exists w1 2" "ptype w1 2 \<le> 2"
    using core by (simp_all add: policy_exists_def ptype_def)
  then show ?thesis
    using authorization_always_decided [OF empty_registry_inv, of "[CreatePolicy 5 6 (Some WHITELIST)]" T2 2] w1 by blast
qed

text \<open>C9: The policy types cached in a receive policy are never stale: after any history, checking a
  receiver's policy with the cached types gives exactly what looking the policies up would give.\<close>

theorem receive_policy_cache_sound:
  assumes "registry_inv w"
  shows "validate_receive_policy (run_ops tip403_exec cs w) token sender receiver =
    receive_policy_reference (run_ops tip403_exec cs w) token sender receiver"
  by (rule validate_receive_policy_reference) (rule tip403.run_ops_inv [OF assms])

theorem receive_policy_cache_sound_witness:
  "validate_receive_policy
     (run_ops tip403_exec [CreatePolicy 5 5 (Some BLACKLIST), SetReceivePolicy 6 2 1 0,
        ModifyPolicyBlacklist 5 2 7 True] (empty_world T6)) 1 7 6 =
   receive_policy_reference
     (run_ops tip403_exec [CreatePolicy 5 5 (Some BLACKLIST), SetReceivePolicy 6 2 1 0,
        ModifyPolicyBlacklist 5 2 7 True] (empty_world T6)) 1 7 6"
  using receive_policy_cache_sound [OF empty_registry_inv] by blast

text \<open>The creation of a policy \<open>p\<close>, with its type and, for a compound policy, its parts.\<close>

definition creation :: "world \<Rightarrow> u8 \<Rightarrow> compound_policy_data option \<Rightarrow> u64 \<Rightarrow> world \<Rightarrow> bool" where
  "creation w ty parts p w1 \<longleftrightarrow>
    (\<exists>s admin t. create_policy s admin t w = Inr (p, w1) \<and> ensure_is_simple w t = Inr ty \<and> parts = None)
    \<or> (\<exists>s admin t accounts. create_policy_with_accounts s admin t accounts w = Inr (p, w1) \<and> ensure_is_simple w t = Inr ty \<and> parts = None)
    \<or> (\<exists>s a b c. create_compound_policy s a b c w = Inr (p, w1) \<and> ty = policy_type_u8 COMPOUND
         \<and> parts = Some \<lparr>sender_policy_id = a, recipient_policy_id = b, mint_recipient_policy_id = c\<rparr>)"

lemma creation_run:
  assumes "creation w ty parts p w1"
  shows "p = policy_id_counter w" "policy_id_counter w1 = p + 1" "ptype w1 p = ty" "\<And>c. parts = Some c \<Longrightarrow> compound_of w1 p = c"
  using assms unfolding creation_def
  by (auto simp: reg_obs policy_type_u8_def dest!: create_policy_core create_policy_with_accounts_core create_compound_policy_core)

text \<open>C20: policy ids are never reused and a policy keeps its kind. A creation returns an id that did not exist
  before. After any further history of the registry that policy exists, has the type it was created with and, if it
  is compound, the sub-policies it was created with; and every later creation returns another id.\<close>

theorem policy_type_immutable:
  assumes "creation w ty parts p w1"
  shows "policy_id_counter w \<le> p \<and> p < policy_id_counter (run_ops tip403_exec cs w1) \<and> ptype (run_ops tip403_exec cs w1) p = ty
    \<and> (\<forall>c. parts = Some c \<longrightarrow> compound_of (run_ops tip403_exec cs w1) p = c)
    \<and> (\<forall>ty' parts' p' w2. creation (run_ops tip403_exec cs w1) ty' parts' p' w2 \<longrightarrow> p' \<noteq> p)"
proof -
  have "p < policy_id_counter w1"
    using creation_run(2) [OF assms] by simp
  then have "p < policy_id_counter (run_ops tip403_exec cs w1)" "ptype (run_ops tip403_exec cs w1) p = ptype w1 p"
      "compound_of (run_ops tip403_exec cs w1) p = compound_of w1 p"
    using tip403_history_ext [of w1 cs] by (auto simp: reg_ext_def)
  then show ?thesis
    using creation_run [OF assms] creation_run(1) by (auto simp: order.strict_iff_not)
qed

theorem policy_type_immutable_witness:
  "\<exists>w1. creation (empty_world T2) (policy_type_u8 WHITELIST) None 2 w1
    \<and> ptype (run_ops tip403_exec [SetPolicyAdmin 6 2 7, CreatePolicy 5 6 (Some BLACKLIST)] w1) 2 = policy_type_u8 WHITELIST
    \<and> 2 < policy_id_counter (run_ops tip403_exec [SetPolicyAdmin 6 2 7, CreatePolicy 5 6 (Some BLACKLIST)] w1)"
proof -
  obtain w1 where "create_policy 5 6 (Some WHITELIST) (empty_world T2) = Inr (2, w1)"
    by (simp add: create_policy_def ensure_is_simple_def next_policy_id_def set_policy_data_def policy_id_counter_def
        checked_add_def empty_defs)
  then have "creation (empty_world T2) (policy_type_u8 WHITELIST) None 2 w1"
    unfolding creation_def by (intro disjI1 exI [of _ 5] exI [of _ 6] exI [of _ "Some WHITELIST"]) (simp add: ensure_is_simple_def)
  then show ?thesis
    using policy_type_immutable by blast
qed

text \<open>C15: Only its admin changes an existing policy. If a successful registry call alters the record
  or the member set of a policy that existed before, then the caller is the admin of that policy.\<close>

theorem policy_change_needs_admin:
  assumes "tip403_exec c w = Inr (x, w')"
    and "p < policy_id_counter w"
    and "policy_view p w' \<noteq> policy_view p w"
  shows "tip403_caller c = Some (pd_admin (base (policy_records (registry w) p)))"
proof (cases c)
  case (MigrateTransferPolicyIds ts)
  then show ?thesis
    using assms preservesD [OF migrate_view] by (auto simp: runs)
next
  case (SetReceivePolicy s sid fid rec)
  then show ?thesis
    using assms preservesD [OF set_receive_policy_view] by auto
qed (use assms in \<open>auto simp: runs dest: admin_required [OF assms(3)] create_view [OF assms(2)]\<close>)

theorem policy_change_needs_admin_witness:
  "\<exists>w1 w2. tip403_exec (CreatePolicy 5 6 (Some WHITELIST)) (empty_world T2) = Inr ((), w1)
    \<and> tip403_exec (ModifyPolicyWhitelist 6 2 9 True) w1 = Inr ((), w2)
    \<and> tip403_caller (ModifyPolicyWhitelist 6 2 9 True) = Some (pd_admin (base (policy_records (registry w1) 2)))"
proof -
  obtain w1 where w1: "tip403_exec (CreatePolicy 5 6 (Some WHITELIST)) (empty_world T2) = Inr ((), w1)"
    and core: "policy_id_counter w1 = 3" "base (policy_records (registry w1) 2) = \<lparr>pd_policy_type = 0, pd_admin = 6\<rparr>"
      "spec w1 = T2" "policy_set (registry w1) 2 9 = False"
    by (simp add: create_policy_def ensure_is_simple_def next_policy_id_def set_policy_data_def policy_id_counter_def
        checked_add_def empty_defs)
  obtain w2 where w2: "tip403_exec (ModifyPolicyWhitelist 6 2 9 True) w1 = Inr ((), w2)"
    and "policy_set (registry w2) 2 9 = True"
    using core
    by (simp add: modify_policy_whitelist_def get_policy_data_existing policy_type_def policy_type_from_u8_def
        set_policy_set_def fork_order rd_def)
  then have "policy_view 2 w2 \<noteq> policy_view 2 w1"
    using core by (auto simp: policy_view_def)
  then have "tip403_caller (ModifyPolicyWhitelist 6 2 9 True) = Some (pd_admin (base (policy_records (registry w1) 2)))"
    using policy_change_needs_admin [OF w2] core by simp
  then show ?thesis
    using w1 w2 by blast
qed

text \<open>C19: Moving the policy bindings of tokens into the registry does not change the policy in force
  for any token.\<close>

theorem migration_keeps_policies:
  assumes "T9 \<le> spec w" "migrate_transfer_policy_ids ts w = Inr (n, w')"
  shows "transfer_policy_id w' t = transfer_policy_id w t"
  using migrate_binding [OF assms(2,1)] by simp

theorem migration_keeps_policies_witness:
  "\<exists>w'. migrate_transfer_policy_ids [PATH_USD_ADDRESS, 3]
       ((empty_world T9)\<lparr>has_code := \<lambda>_. True, tokens := \<lambda>_. empty_token\<lparr>transfer_policy_id_slot := 1\<rparr>\<rparr>) = Inr (1, w')
    \<and> transfer_policy_id w' PATH_USD_ADDRESS = 1"
proof -
  let ?w = "(empty_world T9)\<lparr>has_code := \<lambda>_. True, tokens := \<lambda>_. empty_token\<lparr>transfer_policy_id_slot := 1\<rparr>\<rparr>"
  have "\<not> is_tip20_prefix 3"
    by (simp add: is_tip20_prefix_def TIP20_TOKEN_PREFIX_def drop_bit_eq_div)
  then obtain w' where run: "migrate_transfer_policy_ids [PATH_USD_ADDRESS, 3] ?w = Inr (1, w')"
    by (simp add: set_token_transfer_policy_def delete_legacy_transfer_policy_id_def is_tip20_def
        registered_token_transfer_policy_id_def empty_registry_def)
  have "T9 \<le> spec ?w"
    by simp
  then have "transfer_policy_id w' PATH_USD_ADDRESS = transfer_policy_id ?w PATH_USD_ADDRESS"
    using migration_keeps_policies run by blast
  then show ?thesis
    using run by (simp add: transfer_policy_id_def legacy_transfer_policy_id_def
        registered_token_transfer_policy_id_def empty_registry_def)
qed

end
