(* ===== verification/Keychain.thy ===== *)
theory Keychain
  imports Policy_Registry
begin

text \<open>
  The account keychain (\<open>precompiles/src/account_keychain/mod.rs\<close>): access keys with expiry,
  spending limits (one-time and periodic) and call scopes, key-authorization witnesses, and the two
  hooks with which a token debits the limit of the key that signed the transaction.
\<close>

section \<open>Calldata structures\<close>

record token_limit =
  tl_token :: address
  tl_amount :: u256
  tl_period :: u64

record selector_rule =
  sr_selector :: selector
  sr_recipients :: "address list"

record call_scope =
  cs_target :: address
  cs_rules :: "selector_rule list"

record key_restrictions =
  kr_expiry :: u64
  kr_enforce_limits :: bool
  kr_limits :: "token_limit list"
  kr_allow_any_calls :: bool
  kr_allowed_calls :: "call_scope list"

record key_info =
  ki_signature_type :: stored_signature_type
  ki_key_id :: address
  ki_expiry :: u64
  ki_enforce_limits :: bool
  ki_is_revoked :: bool

datatype (plugins only: code size) tx_kind = TxCall address | TxCreate

primrec signature_type_u8 :: "stored_signature_type \<Rightarrow> u8" where
  "signature_type_u8 Secp256k1 = 0"
| "signature_type_u8 P256 = 1"
| "signature_type_u8 WebAuthn = 2"
| "signature_type_u8 ConfigurableAccount = 3"

definition TIP20_TRANSFER_SELECTOR :: selector where
  "TIP20_TRANSFER_SELECTOR = 0xa9059cbb"

definition TIP20_APPROVE_SELECTOR :: selector where
  "TIP20_APPROVE_SELECTOR = 0x095ea7b3"

definition TIP20_TRANSFER_WITH_MEMO_SELECTOR :: selector where
  "TIP20_TRANSFER_WITH_MEMO_SELECTOR = 0x95777d59"

definition is_constrained_tip20_selector :: "selector \<Rightarrow> bool" where
  "is_constrained_tip20_selector s =
    (s = TIP20_TRANSFER_SELECTOR \<or> s = TIP20_APPROVE_SELECTOR \<or> s = TIP20_TRANSFER_WITH_MEMO_SELECTOR)"

definition ZERO_PERIODIC_REMAINING_SENTINEL :: u256 where
  "ZERO_PERIODIC_REMAINING_SENTINEL = umax 256"

abbreviation kerr :: "keychain_error \<Rightarrow> tempo_error" where
  "kerr \<equiv> AccountKeychainError"

section \<open>Storage access\<close>

definition upd_keychain :: "(keychain_storage \<Rightarrow> keychain_storage) \<Rightarrow> unit M" where
  "upd_keychain f = modify (\<lambda>w. w\<lparr>keychain := f (keychain w)\<rparr>)"

definition spending_limit_key :: "world \<Rightarrow> address \<Rightarrow> address \<Rightarrow> b256" where
  "spending_limit_key w account key_id = keccak256 w (PackedAddressPair account key_id)"

definition write_key :: "address \<Rightarrow> address \<Rightarrow> authorized_key \<Rightarrow> unit M" where
  "write_key account key_id k =
    upd_keychain (\<lambda>s. s\<lparr>kc_keys := (kc_keys s)(account := (kc_keys s account)(key_id := k))\<rparr>)"

definition read_limit :: "world \<Rightarrow> b256 \<Rightarrow> address \<Rightarrow> spending_limit_state" where
  "read_limit w lk token = spending_limits (keychain w) lk token"

definition write_limit :: "b256 \<Rightarrow> address \<Rightarrow> spending_limit_state \<Rightarrow> unit M" where
  "write_limit lk token st =
    upd_keychain (\<lambda>s. s\<lparr>spending_limits := (spending_limits s)(lk := (spending_limits s lk)(token := st))\<rparr>)"

definition write_remaining :: "b256 \<Rightarrow> address \<Rightarrow> u256 \<Rightarrow> unit M" where
  "write_remaining lk token r =
    rbind (gets (\<lambda>w. read_limit w lk token)) (\<lambda>st. write_limit lk token (st\<lparr>sl_remaining := r\<rparr>))"

definition write_scope :: "b256 \<Rightarrow> key_scope \<Rightarrow> unit M" where
  "write_scope lk ks = upd_keychain (\<lambda>s. s\<lparr>key_scopes := (key_scopes s)(lk := ks)\<rparr>)"

definition emit_kc :: "keychain_event \<Rightarrow> unit M" where
  "emit_kc e = emit_event ACCOUNT_KEYCHAIN_ADDRESS (AccountKeychainEvent e)"

section \<open>Keys\<close>

definition load_active_key :: "world \<Rightarrow> address \<Rightarrow> address \<Rightarrow> u64 \<Rightarrow> authorized_key R" where
  "load_active_key w account key_id now =
    (let key = kc_keys (keychain w) account key_id in
     if key_is_revoked key then Inl (kerr KeyAlreadyRevoked)
     else if key_expiry key = 0 then Inl (kerr KeyNotFound)
     else if now \<ge> key_expiry key then Inl (kerr KeyExpired)
     else Inr key)"

definition validate_keychain_authorization ::
  "world \<Rightarrow> address \<Rightarrow> address \<Rightarrow> u64 \<Rightarrow> u8 option \<Rightarrow> authorized_key R" where
  "validate_keychain_authorization w account key_id now expected =
    ebind (load_active_key w account key_id now) (\<lambda>key.
      case expected of
        Some st \<Rightarrow>
          if signature_type_u8 (key_signature_type key) \<noteq> st
          then Inl (kerr (SignatureTypeMismatch (signature_type_u8 (key_signature_type key)) st))
          else Inr key
      | None \<Rightarrow> Inr key)"

definition is_admin_key :: "world \<Rightarrow> address \<Rightarrow> address \<Rightarrow> bool" where
  "is_admin_key w account key_id =
    (if key_id = account \<and> \<not> is_retired_root w account then True
     else case load_active_key w account key_id (now64 w) of
       Inr key \<Rightarrow> key_is_admin key
     | Inl _ \<Rightarrow> False)"

definition ensure_admin_caller :: "world \<Rightarrow> address \<Rightarrow> unit R" where
  "ensure_admin_caller w msg_sender =
    (let tk = transaction_key (keychain w) in
     if tk \<noteq> 0 \<and> (\<not> T6 \<le> spec w \<or> \<not> is_admin_key w msg_sender tk) then Inl (kerr UnauthorizedCaller)
     else if T2 \<le> spec w \<and> (tx_origin (keychain w) = 0 \<or> tx_origin (keychain w) \<noteq> msg_sender)
     then Inl (kerr UnauthorizedCaller)
     else Inr ())"

definition ensure_signature_type_active :: "world \<Rightarrow> stored_signature_type \<Rightarrow> unit R" where
  "ensure_signature_type_active w st =
    (if st = ConfigurableAccount \<and> \<not> T14 \<le> spec w then Inl (kerr InvalidSignatureType) else Inr ())"

definition is_valid_native_account :: "world \<Rightarrow> address \<Rightarrow> bool" where
  "is_valid_native_account w a =
    (a \<noteq> 0 \<and> \<not> is_virtual a \<and> \<not> is_precompile a (spec w) \<and> \<not> evm_precompile w (spec w) a
     \<and> zone_portal_id a = None)"

definition get_key :: "world \<Rightarrow> address \<Rightarrow> address \<Rightarrow> key_info" where
  "get_key w account key_id =
    (let key = kc_keys (keychain w) account key_id in
     if key_expiry key = 0 \<or> key_is_revoked key
     then \<lparr>ki_signature_type = Secp256k1, ki_key_id = 0, ki_expiry = 0, ki_enforce_limits = False,
           ki_is_revoked = key_is_revoked key\<rparr>
     else \<lparr>ki_signature_type = key_signature_type key, ki_key_id = key_id, ki_expiry = key_expiry key,
           ki_enforce_limits = key_enforce_limits key, ki_is_revoked = key_is_revoked key\<rparr>)"

definition get_transaction_key :: "world \<Rightarrow> address" where
  "get_transaction_key w = transaction_key (keychain w)"

definition set_transaction_key :: "address \<Rightarrow> unit M" where
  "set_transaction_key key_id = upd_keychain (\<lambda>s. s\<lparr>transaction_key := key_id\<rparr>)"

definition set_tx_origin :: "address \<Rightarrow> unit M" where
  "set_tx_origin origin = upd_keychain (\<lambda>s. s\<lparr>tx_origin := origin\<rparr>)"

section \<open>Witnesses\<close>

definition is_key_authorization_witness_burned :: "world \<Rightarrow> address \<Rightarrow> b256 \<Rightarrow> bool" where
  "is_key_authorization_witness_burned w account witness =
    key_authorization_witnesses (keychain w) account witness"

definition ensure_key_authorization_witness_not_burned :: "world \<Rightarrow> address \<Rightarrow> b256 \<Rightarrow> unit R" where
  "ensure_key_authorization_witness_not_burned w account witness =
    (if key_authorization_witnesses (keychain w) account witness
     then Inl (kerr KeyAuthorizationWitnessAlreadyBurned) else Inr ())"

definition burn_key_authorization_witness_value :: "address \<Rightarrow> b256 \<Rightarrow> unit M" where
  "burn_key_authorization_witness_value account witness =
    rseq (rd (\<lambda>w. ensure_key_authorization_witness_not_burned w account witness))
   (rseq (upd_keychain (\<lambda>s. s\<lparr>key_authorization_witnesses := (key_authorization_witnesses s)
            (account := (key_authorization_witnesses s account)(witness := True))\<rparr>))
         (emit_kc (KeyAuthorizationWitnessBurned account witness)))"

definition burn_key_authorization_witness :: "address \<Rightarrow> b256 \<Rightarrow> unit M" where
  "burn_key_authorization_witness msg_sender witness =
    rseq (rd (\<lambda>w. ensure_admin_caller w msg_sender))
         (burn_key_authorization_witness_value msg_sender witness)"

section \<open>Call scopes\<close>

definition clear_target_selectors :: "address \<Rightarrow> key_scope \<Rightarrow> key_scope" where
  "clear_target_selectors target ks =
    (let ts = ks_target_scopes ks target;
         scopes = fold (\<lambda>sel sc. sc(sel := \<lparr>ss_recipients = es_delete (ss_recipients (sc sel))\<rparr>))
           (es_values (ts_selectors ts)) (ts_selector_scopes ts)
     in ks\<lparr>ks_target_scopes := (ks_target_scopes ks)(target :=
          \<lparr>ts_selectors = es_delete (ts_selectors ts), ts_selector_scopes = scopes\<rparr>)\<rparr>)"

definition clear_all_target_scopes :: "key_scope \<Rightarrow> key_scope" where
  "clear_all_target_scopes ks =
    (let ks' = fold clear_target_selectors (es_values (ks_targets ks)) ks
     in ks'\<lparr>ks_targets := es_delete (ks_targets ks')\<rparr>)"

definition remove_target_scope :: "address \<Rightarrow> key_scope \<Rightarrow> key_scope" where
  "remove_target_scope target ks =
    (case es_remove target (ks_targets ks) of
       (removed, targets) \<Rightarrow>
         if \<not> removed then ks else clear_target_selectors target (ks\<lparr>ks_targets := targets\<rparr>))"

fun validate_rules_loop :: "world \<Rightarrow> address \<Rightarrow> selector set \<Rightarrow> selector_rule list \<Rightarrow> unit R" where
  "validate_rules_loop w target seen [] = Inr ()"
| "validate_rules_loop w target seen (rule # rules) =
    (if \<not> T11 \<le> spec w \<and> sr_selector rule \<in> seen then Inl (kerr InvalidCallScope)
     else if sr_recipients rule = [] then
       validate_rules_loop w target (insert (sr_selector rule) seen) rules
     else if \<not> is_constrained_tip20_selector (sr_selector rule)
       \<or> \<not> (if \<not> T4 \<le> spec w then is_tip20 w target else is_tip20_prefix target)
     then Inl (kerr InvalidCallScope)
     else if list_ex (\<lambda>r. r = 0) (sr_recipients rule) \<or> has_duplicates (sr_recipients rule)
     then Inl (kerr InvalidCallScope)
     else validate_rules_loop w target (insert (sr_selector rule) seen) rules)"

definition validate_selector_rules :: "world \<Rightarrow> address \<Rightarrow> selector_rule list \<Rightarrow> unit R" where
  "validate_selector_rules w target rules =
    (if T11 \<le> spec w \<and> has_duplicates (map sr_selector rules) then Inl (kerr InvalidCallScope)
     else validate_rules_loop w target {} rules)"

definition validate_call_scope :: "world \<Rightarrow> call_scope \<Rightarrow> unit R" where
  "validate_call_scope w scope =
    (if cs_target scope = 0 then Inl (kerr InvalidCallScope)
     else if cs_rules scope \<noteq> [] then validate_selector_rules w (cs_target scope) (cs_rules scope)
     else Inr ())"

fun validate_each :: "world \<Rightarrow> call_scope list \<Rightarrow> unit R" where
  "validate_each w [] = Inr ()"
| "validate_each w (scope # scopes) = ebind (validate_call_scope w scope) (\<lambda>_. validate_each w scopes)"

fun validate_scopes_loop :: "world \<Rightarrow> address set \<Rightarrow> call_scope list \<Rightarrow> unit R" where
  "validate_scopes_loop w seen [] = Inr ()"
| "validate_scopes_loop w seen (scope # scopes) =
    (if cs_target scope \<in> seen then Inl (kerr InvalidCallScope)
     else ebind (if T4 \<le> spec w then validate_call_scope w scope else Inr ()) (\<lambda>_.
       validate_scopes_loop w (insert (cs_target scope) seen) scopes))"

definition validate_call_scopes :: "world \<Rightarrow> call_scope list \<Rightarrow> unit R" where
  "validate_call_scopes w scopes =
    (if T11 \<le> spec w then
       if has_duplicates (map cs_target scopes) then Inl (kerr InvalidCallScope)
       else validate_each w scopes
     else validate_scopes_loop w {} scopes)"

fun write_rules :: "world \<Rightarrow> selector_rule list \<Rightarrow> target_scope \<Rightarrow> target_scope R" where
  "write_rules w [] ts = Inr ts"
| "write_rules w (rule # rules) ts =
    ebind (eok_or (es_insert (sr_selector rule) (ts_selectors ts)) under_overflow) (\<lambda>(_, sels).
      let old = ss_recipients (ts_selector_scopes ts (sr_selector rule)) in
      ebind (if sr_recipients rule = [] then Inr (if \<not> T4 \<le> spec w then es_delete old else old)
             else eok_or (es_write (sr_recipients rule) old) under_overflow) (\<lambda>recs.
        write_rules w rules
          \<lparr>ts_selectors = sels,
           ts_selector_scopes = (ts_selector_scopes ts)(sr_selector rule := \<lparr>ss_recipients = recs\<rparr>)\<rparr>))"

definition upsert_target_scope :: "world \<Rightarrow> call_scope \<Rightarrow> key_scope \<Rightarrow> key_scope R" where
  "upsert_target_scope w scope ks =
    ebind (if \<not> T4 \<le> spec w then validate_call_scope w scope else Inr ()) (\<lambda>_.
    ebind (eok_or (es_insert (cs_target scope) (ks_targets ks)) under_overflow) (\<lambda>(_, targets).
      let ks' = clear_target_selectors (cs_target scope) (ks\<lparr>ks_targets := targets\<rparr>) in
      if cs_rules scope = [] then Inr ks'
      else ebind (write_rules w (cs_rules scope) (ks_target_scopes ks' (cs_target scope))) (\<lambda>ts.
        Inr (ks'\<lparr>ks_target_scopes := (ks_target_scopes ks')(cs_target scope := ts)\<rparr>))))"

fun upsert_all :: "world \<Rightarrow> call_scope list \<Rightarrow> key_scope \<Rightarrow> key_scope R" where
  "upsert_all w [] ks = Inr ks"
| "upsert_all w (scope # scopes) ks = ebind (upsert_target_scope w scope ks) (\<lambda>ks'. upsert_all w scopes ks')"

definition replace_allowed_calls :: "b256 \<Rightarrow> call_scope list option \<Rightarrow> unit M" where
  "replace_allowed_calls lk allowed =
    rbind (gets (\<lambda>w. clear_all_target_scopes (key_scopes (keychain w) lk))) (\<lambda>ks.
    case allowed of
      None \<Rightarrow> write_scope lk (ks\<lparr>is_scoped := False\<rparr>)
    | Some scopes \<Rightarrow>
        if scopes = [] then write_scope lk (ks\<lparr>is_scoped := True\<rparr>)
        else rseq (rd (\<lambda>w. validate_call_scopes w scopes))
            (rbind (rd (\<lambda>w. upsert_all w scopes (ks\<lparr>is_scoped := True\<rparr>))) (write_scope lk)))"

definition set_allowed_calls :: "address \<Rightarrow> address \<Rightarrow> call_scope list \<Rightarrow> unit M" where
  "set_allowed_calls msg_sender key_id scopes =
    rbind (gets spec) (\<lambda>sp.
    rseq (ensure (T3 \<le> sp) (kerr InvalidCallScope))
   (rseq (rd (\<lambda>w. ensure_admin_caller w msg_sender))
   (rbind (rd (\<lambda>w. load_active_key w msg_sender key_id (now64 w))) (\<lambda>key.
    rseq (ensure (\<not> key_is_admin key) (kerr InvalidKeyId))
   (rbind (gets (\<lambda>w. spending_limit_key w msg_sender key_id)) (\<lambda>lk.
    rseq (ensure (scopes \<noteq> []) (kerr InvalidCallScope))
   (rseq (rd (\<lambda>w. validate_call_scopes w scopes))
   (rbind (rd (\<lambda>w. upsert_all w scopes (key_scopes (keychain w) lk))) (\<lambda>ks.
    write_scope lk (ks\<lparr>is_scoped := True\<rparr>))))))))))"

definition remove_allowed_calls :: "address \<Rightarrow> address \<Rightarrow> address \<Rightarrow> unit M" where
  "remove_allowed_calls msg_sender key_id target =
    rseq (rd (\<lambda>w. ensure_admin_caller w msg_sender))
   (rbind (rd (\<lambda>w. load_active_key w msg_sender key_id (now64 w))) (\<lambda>key.
    rseq (ensure (\<not> key_is_admin key) (kerr InvalidKeyId))
   (rbind (gets (\<lambda>w. spending_limit_key w msg_sender key_id)) (\<lambda>lk.
    rbind (gets (\<lambda>w. key_scopes (keychain w) lk)) (\<lambda>ks.
    if \<not> is_scoped ks then ok () else write_scope lk (remove_target_scope target ks))))))"

definition get_allowed_calls :: "world \<Rightarrow> address \<Rightarrow> address \<Rightarrow> bool \<times> call_scope list" where
  "get_allowed_calls w account key_id =
    (if key_id = 0 then (False, [])
     else
       let key = kc_keys (keychain w) account key_id in
       if key_expiry key = 0 \<or> key_is_revoked key \<or> now64 w \<ge> key_expiry key then (True, [])
       else
         let ks = key_scopes (keychain w) (spending_limit_key w account key_id) in
         if \<not> is_scoped ks then (False, [])
         else (True, map (\<lambda>target.
           let ts = ks_target_scopes ks target in
           \<lparr>cs_target = target,
            cs_rules = map (\<lambda>sel. \<lparr>sr_selector = sel,
              sr_recipients = es_values (ss_recipients (ts_selector_scopes ts sel))\<rparr>) (es_values (ts_selectors ts))\<rparr>)
           (es_values (ks_targets ks))))"

text \<open>The calldata is a list of bytes; a selector and an address are read big-endian.\<close>

definition be_word :: "8 word list \<Rightarrow> 'a::len word" where
  "be_word bytes = fold (\<lambda>b acc. push_bit 8 acc OR ucast b) bytes 0"

definition validate_call_scope_for_transaction ::
  "world \<Rightarrow> address \<Rightarrow> address \<Rightarrow> tx_kind \<Rightarrow> 8 word list \<Rightarrow> unit R" where
  "validate_call_scope_for_transaction w account key_id to input =
    (if key_id = 0 \<or> \<not> T3 \<le> spec w then Inr ()
     else case to of
       TxCreate \<Rightarrow> Inl (kerr CallNotAllowed)
     | TxCall target \<Rightarrow>
         let ks = key_scopes (keychain w) (spending_limit_key w account key_id);
             ts = ks_target_scopes ks target;
             sel = be_word (take 4 input) :: selector;
             recs = ss_recipients (ts_selector_scopes ts sel);
             recipient_word = take 32 (drop 4 input)
         in
         if \<not> is_scoped ks then Inr ()
         else if \<not> es_contains (ks_targets ks) target then Inl (kerr CallNotAllowed)
         else if es_values (ts_selectors ts) = [] then Inr ()
         else if length input < 4 then Inl (kerr CallNotAllowed)
         else if \<not> es_contains (ts_selectors ts) sel then Inl (kerr CallNotAllowed)
         else if es_values recs = [] then Inr ()
         else if length input < 36 then Inl (kerr CallNotAllowed)
         else if list_ex (\<lambda>b. b \<noteq> 0) (take 12 recipient_word) then Inl (kerr CallNotAllowed)
         else if es_contains recs (be_word (drop 12 recipient_word)) then Inr ()
         else Inl (kerr CallNotAllowed))"

section \<open>Authorizing and revoking keys\<close>

definition t3_spending_limit_cap :: "u256 \<Rightarrow> u128 R" where
  "t3_spending_limit_cap limit =
    (if limit > umax 128 then Inl (kerr InvalidSpendingLimit) else Inr limit)"

definition apply_token_limit :: "b256 \<Rightarrow> token_limit \<Rightarrow> unit M" where
  "apply_token_limit lk limit =
    rbind (gets spec) (\<lambda>sp.
    rbind (gets now64) (\<lambda>now.
    if T3 \<le> sp then
      (let period_end = (if tl_period limit = 0 then 0 else saturating_add 64 now (tl_period limit)) in
       rbind (rd (\<lambda>_. t3_spending_limit_cap (tl_amount limit))) (\<lambda>cap.
       write_limit lk (tl_token limit)
         \<lparr>sl_remaining = tl_amount limit, sl_max = cap, sl_period = tl_period limit, sl_period_end = period_end\<rparr>))
    else write_remaining lk (tl_token limit) (tl_amount limit)))"

definition apply_key_authorization_restrictions ::
  "address \<Rightarrow> address \<Rightarrow> token_limit list \<Rightarrow> call_scope list option \<Rightarrow> unit M" where
  "apply_key_authorization_restrictions account key_id limits allowed =
    rbind (gets (\<lambda>w. spending_limit_key w account key_id)) (\<lambda>lk.
    rseq (for_each limits (apply_token_limit lk))
   (rbind (gets spec) (\<lambda>sp.
    if \<not> T3 \<le> sp then ok () else replace_allowed_calls lk allowed)))"

definition allowed_call_configs :: "world \<Rightarrow> key_restrictions \<Rightarrow> call_scope list option R" where
  "allowed_call_configs w config =
    (if T3 \<le> spec w then
       if kr_enforce_limits config \<and> \<not> distinct (map tl_token (kr_limits config))
       then Inl (kerr InvalidSpendingLimit)
       else if kr_allow_any_calls config then
         if T5 \<le> spec w \<and> kr_allowed_calls config \<noteq> [] then Inl (kerr InvalidCallScope) else Inr None
       else Inr (Some (kr_allowed_calls config))
     else if list_ex (\<lambda>l. tl_period l \<noteq> 0) (kr_limits config) then Inl (kerr InvalidSpendingLimit)
     else if \<not> kr_allow_any_calls config \<or> kr_allowed_calls config \<noteq> [] then Inl (kerr InvalidCallScope)
     else Inr None)"

text \<open>The validation part of \<open>authorize_key_internal\<close> reads the state only; it yields the stored
  signature type and the call-scope configuration.\<close>

definition authorize_key_checks ::
  "world \<Rightarrow> address \<Rightarrow> address \<Rightarrow> stored_signature_type option \<Rightarrow> key_restrictions \<Rightarrow> b256 option \<Rightarrow> bool \<Rightarrow>
    (stored_signature_type \<times> call_scope list option) R" where
  "authorize_key_checks w msg_sender key_id signature_type config witness is_admin =
    ebind (ensure_admin_caller w msg_sender) (\<lambda>_.
    if key_id = 0 then Inl (kerr ZeroPublicKey)
    else
      let is_delegate_grant = (signature_type = Some ConfigurableAccount \<and> T14 \<le> spec w);
          existing_key = kc_keys (keychain w) msg_sender key_id
      in
      if (is_admin \<or> is_delegate_grant) \<and> key_id = msg_sender then Inl (kerr InvalidKeyId)
      else if is_delegate_grant \<and> (\<not> is_valid_native_account w key_id \<or> has_code w key_id)
      then Inl (kerr InvalidKeyId)
      else if T0 \<le> spec w \<and> kr_expiry config \<le> now64 w then Inl (kerr ExpiryInPast)
      else if key_expiry existing_key > 0 then Inl (kerr KeyAlreadyExists)
      else if key_is_revoked existing_key then Inl (kerr KeyAlreadyRevoked)
      else
        ebind (eok_or signature_type (kerr InvalidSignatureType)) (\<lambda>st.
        ebind (ensure_signature_type_active w st) (\<lambda>_.
        ebind (allowed_call_configs w config) (\<lambda>allowed.
        ebind (case witness of None \<Rightarrow> Inr ()
               | Some wit \<Rightarrow> ensure_key_authorization_witness_not_burned w msg_sender wit) (\<lambda>_.
        Inr (st, allowed))))))"

definition authorize_key_internal ::
  "address \<Rightarrow> address \<Rightarrow> stored_signature_type option \<Rightarrow> key_restrictions \<Rightarrow> b256 option \<Rightarrow> bool \<Rightarrow> unit M" where
  "authorize_key_internal msg_sender key_id signature_type config witness is_admin =
    rbind (rd (\<lambda>w. authorize_key_checks w msg_sender key_id signature_type config witness is_admin)) (\<lambda>(st, allowed).
    rseq (write_key msg_sender key_id
            \<lparr>key_signature_type = st, key_expiry = kr_expiry config,
             key_enforce_limits = kr_enforce_limits config, key_is_revoked = False, key_is_admin = is_admin\<rparr>)
   (rseq (only_if (\<not> is_admin)
           (apply_key_authorization_restrictions msg_sender key_id
             (if kr_enforce_limits config then kr_limits config else []) allowed))
   (rseq (case witness of None \<Rightarrow> ok () | Some wit \<Rightarrow> emit_kc (KeyAuthorizationWitness msg_sender wit))
         (emit_kc (KeyAuthorized msg_sender key_id (signature_type_u8 st) (kr_expiry config))))))"

definition authorize_key ::
  "address \<Rightarrow> address \<Rightarrow> stored_signature_type option \<Rightarrow> key_restrictions \<Rightarrow> b256 option \<Rightarrow> unit M" where
  "authorize_key msg_sender key_id signature_type config witness =
    authorize_key_internal msg_sender key_id signature_type config witness False"

definition authorize_admin_key ::
  "address \<Rightarrow> address \<Rightarrow> stored_signature_type option \<Rightarrow> b256 option \<Rightarrow> unit M" where
  "authorize_admin_key msg_sender key_id signature_type witness =
    rseq (authorize_key_internal msg_sender key_id signature_type
           \<lparr>kr_expiry = umax 64, kr_enforce_limits = False, kr_limits = [], kr_allow_any_calls = True,
            kr_allowed_calls = []\<rparr> witness True)
         (emit_kc (AdminKeyAuthorized msg_sender key_id))"

definition revoked_key :: authorized_key where
  "revoked_key = \<lparr>key_signature_type = Secp256k1, key_expiry = 0, key_enforce_limits = False,
    key_is_revoked = True, key_is_admin = False\<rparr>"

definition revoke_key :: "address \<Rightarrow> address \<Rightarrow> unit M" where
  "revoke_key msg_sender key_id =
    rseq (rd (\<lambda>w. ensure_admin_caller w msg_sender))
   (rbind (gets (\<lambda>w. kc_keys (keychain w) msg_sender key_id)) (\<lambda>key.
    rseq (ensure (key_expiry key \<noteq> 0) (kerr KeyNotFound))
   (rseq (write_key msg_sender key_id revoked_key)
         (emit_kc (KeyRevoked msg_sender key_id)))))"

section \<open>Spending limits\<close>

definition store_new_limit :: "address \<Rightarrow> address \<Rightarrow> address \<Rightarrow> u256 \<Rightarrow> unit M" where
  "store_new_limit account key_id token new_limit =
    rbind (gets (\<lambda>w. spending_limit_key w account key_id)) (\<lambda>lk.
    rbind (gets spec) (\<lambda>sp.
    if T3 \<le> sp then
      rbind (gets (\<lambda>w. read_limit w lk token)) (\<lambda>st.
      rbind (rd (\<lambda>_. t3_spending_limit_cap new_limit)) (\<lambda>cap.
      write_limit lk token (st\<lparr>sl_remaining := new_limit, sl_max := cap\<rparr>)))
    else write_remaining lk token new_limit))"

definition update_spending_limit :: "address \<Rightarrow> address \<Rightarrow> address \<Rightarrow> u256 \<Rightarrow> unit M" where
  "update_spending_limit msg_sender key_id token new_limit =
    rseq (rd (\<lambda>w. ensure_admin_caller w msg_sender))
   (rbind (rd (\<lambda>w. load_active_key w msg_sender key_id (now64 w))) (\<lambda>key.
    rseq (ensure (\<not> key_is_admin key) (kerr InvalidKeyId))
   (rseq (only_if (\<not> key_enforce_limits key) (write_key msg_sender key_id (key\<lparr>key_enforce_limits := True\<rparr>)))
   (rseq (store_new_limit msg_sender key_id token new_limit)
         (emit_kc (SpendingLimitUpdated msg_sender key_id token new_limit))))))"

definition compute_next_period_end :: "spending_limit_state \<Rightarrow> u64 \<Rightarrow> u64" where
  "compute_next_period_end st now =
    (let elapsed = saturating_sub now (sl_period_end st);
         periods_elapsed = saturating_add 64 (elapsed div sl_period st) 1;
         advance = saturating_mul 64 (sl_period st) periods_elapsed
     in saturating_add 64 (sl_period_end st) advance)"

definition effective_limit_state_with_key ::
  "world \<Rightarrow> address \<Rightarrow> address \<Rightarrow> address \<Rightarrow> u64 \<Rightarrow> authorized_key \<Rightarrow> u256 \<times> u64" where
  "effective_limit_state_with_key w account key_id token now key =
    (if key_is_revoked key \<or> key_expiry key = 0 then (0, 0)
     else if now \<ge> key_expiry key \<and> T3 \<le> spec w then (0, 0)
     else
       let st = read_limit w (spending_limit_key w account key_id) token; remaining = sl_remaining st in
       if \<not> T3 \<le> spec w then (remaining, 0)
       else if sl_period st = 0 then (remaining, 0)
       else
         let remaining = (if T7 \<le> spec w \<and> remaining = ZERO_PERIODIC_REMAINING_SENTINEL then 0 else remaining) in
         if now < sl_period_end st then (remaining, sl_period_end st)
         else (sl_max st, compute_next_period_end st now))"

definition effective_limit_state :: "world \<Rightarrow> address \<Rightarrow> address \<Rightarrow> address \<Rightarrow> u64 \<Rightarrow> u256 \<times> u64" where
  "effective_limit_state w account key_id token now =
    (if key_id = 0 \<and> T3 \<le> spec w then (0, 0)
     else effective_limit_state_with_key w account key_id token now (kc_keys (keychain w) account key_id))"

definition effective_remaining_limit :: "world \<Rightarrow> address \<Rightarrow> address \<Rightarrow> address \<Rightarrow> u64 \<Rightarrow> u256" where
  "effective_remaining_limit w account key_id token now =
    fst (effective_limit_state w account key_id token now)"

definition effective_remaining_limit_with_key ::
  "world \<Rightarrow> address \<Rightarrow> address \<Rightarrow> address \<Rightarrow> u64 \<Rightarrow> authorized_key \<Rightarrow> u256" where
  "effective_remaining_limit_with_key w account key_id token now key =
    (if key_id = 0 \<and> T3 \<le> spec w then 0
     else fst (effective_limit_state_with_key w account key_id token now key))"

definition get_remaining_limit_with_period :: "world \<Rightarrow> address \<Rightarrow> address \<Rightarrow> address \<Rightarrow> u256 \<times> u64" where
  "get_remaining_limit_with_period w account key_id token =
    effective_limit_state w account key_id token (now64 w)"

definition get_remaining_limit :: "world \<Rightarrow> address \<Rightarrow> address \<Rightarrow> address \<Rightarrow> u256" where
  "get_remaining_limit w account key_id token =
    (if \<not> T2 \<le> spec w then sl_remaining (read_limit w (spending_limit_key w account key_id) token)
     else fst (get_remaining_limit_with_period w account key_id token))"

definition verify_and_update_spending :: "address \<Rightarrow> address \<Rightarrow> address \<Rightarrow> u256 \<Rightarrow> unit M" where
  "verify_and_update_spending account key_id token amount =
    (if key_id = 0 then ok ()
     else
       rbind (gets now64) (\<lambda>now.
       rbind (rd (\<lambda>w. load_active_key w account key_id now)) (\<lambda>key.
       if \<not> key_enforce_limits key then ok ()
       else
         rbind (gets (\<lambda>w. spending_limit_key w account key_id)) (\<lambda>lk.
         rbind (gets spec) (\<lambda>sp.
         rbind (gets (\<lambda>w. read_limit w lk token)) (\<lambda>st.
         if \<not> T3 \<le> sp then
           rseq (ensure (\<not> amount > sl_remaining st) (kerr SpendingLimitExceeded))
                (write_remaining lk token (sl_remaining st - amount))
         else
           let is_periodic = (sl_period st \<noteq> 0);
               r0 = (if is_periodic \<and> T7 \<le> sp \<and> sl_remaining st = ZERO_PERIODIC_REMAINING_SENTINEL then 0
                     else sl_remaining st);
               rollover = (is_periodic \<and> now \<ge> sl_period_end st);
               remaining = (if rollover then sl_max st else r0);
               st' = (if rollover
                      then st\<lparr>sl_remaining := remaining, sl_period_end := compute_next_period_end st now\<rparr> else st);
               new_remaining = remaining - amount
           in
           rseq (ensure (\<not> amount > remaining) (kerr SpendingLimitExceeded))
          (rseq (if is_periodic
                 then write_limit lk token (st'\<lparr>sl_remaining :=
                   (if T7 \<le> sp \<and> new_remaining = 0 then ZERO_PERIODIC_REMAINING_SENTINEL else new_remaining)\<rparr>)
                 else write_remaining lk token new_remaining)
                (emit_kc (AccessKeySpend account key_id token amount new_remaining)))))))))"

definition refund_spending_limit :: "address \<Rightarrow> address \<Rightarrow> u256 \<Rightarrow> unit M" where
  "refund_spending_limit account token amount =
    rbind (gets (\<lambda>w. transaction_key (keychain w))) (\<lambda>tk.
    rbind (gets (\<lambda>w. tx_origin (keychain w))) (\<lambda>origin.
    if tk = 0 then ok ()
    else if account \<noteq> origin then ok ()
    else
      rbind (gets (\<lambda>w. load_active_key w account tk (now64 w))) (\<lambda>loaded.
      case loaded of
        Inl _ \<Rightarrow> ok ()
      | Inr key \<Rightarrow>
          if \<not> key_enforce_limits key then ok ()
          else
            rbind (gets (\<lambda>w. spending_limit_key w account tk)) (\<lambda>lk.
            rbind (gets spec) (\<lambda>sp.
            rbind (gets (\<lambda>w. read_limit w lk token)) (\<lambda>st.
            if \<not> T3 \<le> sp then write_remaining lk token (saturating_add 256 (sl_remaining st) amount)
            else
              let refunded =
                    (if T7 \<le> sp \<and> sl_period st \<noteq> 0 \<and> sl_remaining st = ZERO_PERIODIC_REMAINING_SENTINEL
                     then amount else saturating_add 256 (sl_remaining st) amount)
              in write_limit lk token (st\<lparr>sl_remaining :=
                   (if sl_max st = 0 then refunded else min refunded (sl_max st))\<rparr>)))))))"

definition authorize_transfer :: "address \<Rightarrow> address \<Rightarrow> u256 \<Rightarrow> unit M" where
  "authorize_transfer account token amount =
    rbind (gets (\<lambda>w. transaction_key (keychain w))) (\<lambda>tk.
    rbind (gets (\<lambda>w. tx_origin (keychain w))) (\<lambda>origin.
    if tk = 0 then ok ()
    else if account \<noteq> origin then ok ()
    else verify_and_update_spending account tk token amount))"

definition authorize_approve :: "address \<Rightarrow> address \<Rightarrow> u256 \<Rightarrow> u256 \<Rightarrow> unit M" where
  "authorize_approve account token old_approval new_approval =
    rbind (gets (\<lambda>w. transaction_key (keychain w))) (\<lambda>tk.
    rbind (gets (\<lambda>w. tx_origin (keychain w))) (\<lambda>origin.
    if tk = 0 then ok ()
    else if account \<noteq> origin then ok ()
    else
      let approval_increase = saturating_sub new_approval old_approval in
      if approval_increase = 0 then ok ()
      else verify_and_update_spending account tk token approval_increase))"

end
