(* ===== verification/Keychain_Limits.thy ===== *)
theory Keychain_Limits
  imports Keychain
begin

text \<open>
  Spending limits of access keys: the period arithmetic, the agreement of the view function with
  the debit, and the bound on what a key can spend in one period.
\<close>

lemma upd_keychain_run [simp]: "upd_keychain f w = Inr ((), w\<lparr>keychain := f (keychain w)\<rparr>)"
  by (simp add: upd_keychain_def)

lemma emit_kc_run [simp]:
  "emit_kc e w = Inr ((), w\<lparr>logs := logs w @ [(ACCOUNT_KEYCHAIN_ADDRESS, AccountKeychainEvent e)]\<rparr>)"
  by (simp add: emit_kc_def)

lemma write_limit_run [simp]:
  "write_limit lk token st w = Inr ((), w\<lparr>keychain := (keychain w)\<lparr>spending_limits :=
     (spending_limits (keychain w))(lk := (spending_limits (keychain w) lk)(token := st))\<rparr>\<rparr>)"
  by (simp add: write_limit_def)

lemma write_remaining_run [simp]:
  "write_remaining lk token r w = write_limit lk token ((read_limit w lk token)\<lparr>sl_remaining := r\<rparr>) w"
  by (simp add: write_remaining_def)

section \<open>Periods\<close>

lemma compute_next_period_end_unsaturated:
  assumes "0 < sl_period st" "sl_period_end st \<le> now" "now + sl_period st < 2 ^ 64"
  shows "compute_next_period_end st now =
    sl_period_end st + sl_period st * ((now - sl_period_end st) div sl_period st + 1)"
proof -
  let ?p = "sl_period st" and ?k = "(now - sl_period_end st) div sl_period st"
  have le: "?p * ?k \<le> now - sl_period_end st"
    by simp
  have "?k < 2 ^ 64 - 1"
    using div_le_dividend [of "now - sl_period_end st" ?p] assms by linarith
  then have periods: "saturating_add 64 ?k 1 = ?k + 1"
    by (simp add: saturating_add_def umax_def)
  have mult: "?p * (?k + 1) \<le> now - sl_period_end st + ?p"
    using le by simp
  then have adv: "saturating_mul 64 ?p (?k + 1) = ?p * (?k + 1)"
    using assms by (simp add: saturating_mul_def umax_def)
  have "saturating_add 64 (sl_period_end st) (?p * (?k + 1)) = sl_period_end st + ?p * (?k + 1)"
    using mult assms by (simp add: saturating_add_def umax_def)
  then show ?thesis
    unfolding compute_next_period_end_def Let_def saturating_sub_def periods adv .
qed

lemma next_period_end_bounds:
  assumes "0 < sl_period st" "sl_period_end st \<le> now" "now + sl_period st < 2 ^ 64"
  shows "now < compute_next_period_end st now \<and> compute_next_period_end st now \<le> now + sl_period st
    \<and> (compute_next_period_end st now - sl_period_end st) mod sl_period st = 0"
proof -
  let ?p = "sl_period st" and ?d = "now - sl_period_end st"
  define q where "q = ?p * (?d div ?p)"
  have q: "q \<le> ?d" "?d < q + ?p" "q mod ?p = 0"
    using assms(1) dividend_less_times_div [of ?p ?d] by (simp_all add: q_def)
  have "compute_next_period_end st now = sl_period_end st + (q + ?p)"
    using compute_next_period_end_unsaturated [OF assms] by (simp add: q_def algebra_simps)
  then show ?thesis
    using q assms(2) by auto
qed

section \<open>The debit\<close>

text \<open>A stored row is well-formed when a periodic row holds an amount in the \<open>u128\<close> range, or, from
  T7 on, the sentinel for zero.\<close>

definition limit_wf :: "hardfork \<Rightarrow> spending_limit_state \<Rightarrow> bool" where
  "limit_wf f st =
    (sl_period st \<noteq> 0 \<longrightarrow>
      sl_max st \<le> umax 128 \<and>
      (sl_remaining st \<le> umax 128 \<or> T7 \<le> f \<and> sl_remaining st = ZERO_PERIODIC_REMAINING_SENTINEL))"

lemma sentinel_big: "x \<le> umax 128 \<Longrightarrow> x \<noteq> ZERO_PERIODIC_REMAINING_SENTINEL"
  by (auto simp: ZERO_PERIODIC_REMAINING_SENTINEL_def umax_def)

text \<open>What a debit does to the row, from T3 on.\<close>

definition debit_row :: "hardfork \<Rightarrow> u64 \<Rightarrow> spending_limit_state \<Rightarrow> u256 \<Rightarrow> spending_limit_state" where
  "debit_row f now st amount =
    (if sl_period st = 0 then st\<lparr>sl_remaining := sl_remaining st - amount\<rparr>
     else
       let rollover = (sl_period_end st \<le> now);
           r0 = (if T7 \<le> f \<and> sl_remaining st = ZERO_PERIODIC_REMAINING_SENTINEL then 0 else sl_remaining st);
           r = (if rollover then sl_max st else r0) - amount
       in st\<lparr>sl_period_end := (if rollover then compute_next_period_end st now else sl_period_end st),
             sl_remaining := (if T7 \<le> f \<and> r = 0 then ZERO_PERIODIC_REMAINING_SENTINEL else r)\<rparr>)"

lemma load_active_key_Inr:
  "load_active_key w a k now = Inr key \<longleftrightarrow>
    key = kc_keys (keychain w) a k \<and> \<not> key_is_revoked key \<and> key_expiry key \<noteq> 0 \<and> now < key_expiry key"
  by (auto simp: load_active_key_def Let_def)

lemma effective_limit_active:
  fixes token :: address
  assumes "T3 \<le> spec w" "k \<noteq> 0" "load_active_key w a k now = Inr key"
  defines "st \<equiv> read_limit w (spending_limit_key w a k) token"
  shows "effective_limit_state w a k token now =
    (if sl_period st = 0 then (sl_remaining st, 0)
     else if now < sl_period_end st then
       (if T7 \<le> spec w \<and> sl_remaining st = ZERO_PERIODIC_REMAINING_SENTINEL then 0 else sl_remaining st,
        sl_period_end st)
     else (sl_max st, compute_next_period_end st now))"
proof -
  have key: "\<not> key_is_revoked (kc_keys (keychain w) a k)" "key_expiry (kc_keys (keychain w) a k) \<noteq> 0"
      "\<not> key_expiry (kc_keys (keychain w) a k) \<le> now"
    using assms(3) by (auto simp: load_active_key_def Let_def split: if_splits)
  show ?thesis
    unfolding effective_limit_state_def effective_limit_state_with_key_def Let_def st_def [symmetric]
    using key assms(1,2) by simp
qed

lemma verify_run:
  fixes token :: address
  assumes "T3 \<le> spec w" "k \<noteq> 0" "load_active_key w a k (now64 w) = Inr key" "key_enforce_limits key"
  defines "lk \<equiv> spending_limit_key w a k"
  defines "r \<equiv> effective_remaining_limit w a k token (now64 w)"
  shows "verify_and_update_spending a k token amount w =
    (if amount > r then Inl (kerr SpendingLimitExceeded)
     else Inr ((), w\<lparr>keychain := (keychain w)\<lparr>spending_limits := (spending_limits (keychain w))
           (lk := (spending_limits (keychain w) lk)
             (token := debit_row (spec w) (now64 w) (read_limit w lk token) amount))\<rparr>,
         logs := logs w @ [(ACCOUNT_KEYCHAIN_ADDRESS,
           AccountKeychainEvent (AccessKeySpend a k token amount (r - amount)))]\<rparr>))"
proof -
  let ?st = "read_limit w lk token"
  have r: "r = (if sl_period ?st = 0 then sl_remaining ?st
     else if now64 w < sl_period_end ?st then
       (if T7 \<le> spec w \<and> sl_remaining ?st = ZERO_PERIODIC_REMAINING_SENTINEL then 0 else sl_remaining ?st)
     else sl_max ?st)"
    using effective_limit_active [OF assms(1-3), of token]
    by (simp add: r_def effective_remaining_limit_def lk_def)
  have lk: "spending_limit_key w a k = lk"
    by (simp add: lk_def)
  consider "sl_period ?st = 0" | "sl_period ?st \<noteq> 0" "now64 w < sl_period_end ?st"
    | "sl_period ?st \<noteq> 0" "\<not> now64 w < sl_period_end ?st"
    by blast
  then show ?thesis
  proof cases
    case 1
    then have "r = sl_remaining ?st"
      by (simp add: r)
    then show ?thesis
      using 1 assms(1-4)
      by (cases "r < amount") (simp_all add: verify_and_update_spending_def lk Let_def debit_row_def)
  next
    case 2
    then have r2: "(if T7 \<le> spec w \<and> sl_remaining ?st = ZERO_PERIODIC_REMAINING_SENTINEL then 0
        else sl_remaining ?st) = r"
      by (simp add: r)
    show ?thesis
      using 2 assms(1-4)
      by (cases "r < amount")
        (simp_all add: verify_and_update_spending_def lk Let_def debit_row_def r2 split del: if_split cong: if_cong)
  next
    case 3
    then have r3: "r = sl_max ?st"
      by (simp add: r)
    show ?thesis
      using 3 assms(1-4)
      by (cases "r < amount")
        (simp_all add: verify_and_update_spending_def lk Let_def debit_row_def r3 split del: if_split cong: if_cong)
  qed
qed

lemma debit_row_wf: "limit_wf f st \<Longrightarrow> limit_wf f (debit_row f now st amount)"
  by (auto simp: limit_wf_def debit_row_def Let_def)

text \<open>After a debit the remaining amount at every later time of the same period is smaller by exactly
  the amount, and the end of the period is where the debit put it.\<close>

lemma debit_row_effective:
  assumes wf: "limit_wf f st" and "T3 \<le> f"
    and le: "amount \<le> (if sl_period st = 0 then sl_remaining st
         else if now < sl_period_end st then
           (if T7 \<le> f \<and> sl_remaining st = ZERO_PERIODIC_REMAINING_SENTINEL then 0 else sl_remaining st)
         else sl_max st)"
    and before: "sl_period st \<noteq> 0 \<Longrightarrow>
      t < (if now < sl_period_end st then sl_period_end st else compute_next_period_end st now)"
  defines "st' \<equiv> debit_row f now st amount"
  shows "(if sl_period st' = 0 then (sl_remaining st', 0)
     else if t < sl_period_end st' then
       (if T7 \<le> f \<and> sl_remaining st' = ZERO_PERIODIC_REMAINING_SENTINEL then 0 else sl_remaining st',
        sl_period_end st')
     else (sl_max st', compute_next_period_end st' t)) =
    (if sl_period st = 0 then (sl_remaining st - amount, 0)
     else if now < sl_period_end st then
       ((if T7 \<le> f \<and> sl_remaining st = ZERO_PERIODIC_REMAINING_SENTINEL then 0 else sl_remaining st) - amount,
        sl_period_end st)
     else (sl_max st - amount, compute_next_period_end st now))"
proof (cases "sl_period st = 0")
  case False
  then have bounds: "sl_max st - amount \<le> umax 128"
      "sl_remaining st \<le> umax 128 \<or> T7 \<le> f \<and> sl_remaining st = ZERO_PERIODIC_REMAINING_SENTINEL"
    using wf by (auto simp: limit_wf_def)
  show ?thesis
  proof (cases "now < sl_period_end st")
    case True
    have "sl_remaining st - amount \<noteq> ZERO_PERIODIC_REMAINING_SENTINEL \<or>
        T7 \<le> f \<and> sl_remaining st = ZERO_PERIODIC_REMAINING_SENTINEL"
      using bounds(2) sentinel_big [of "sl_remaining st - amount"] by linarith
    then show ?thesis
      using True False before le by (auto simp: st'_def debit_row_def Let_def)
  next
    case later: False
    then show ?thesis
      using False before le sentinel_big [OF bounds(1)]
      by (auto simp: st'_def debit_row_def Let_def)
  qed
qed (simp add: st'_def debit_row_def)

section \<open>Spending within one period\<close>

text \<open>The amount a row allows at a time, the part of \<open>effective_limit_state\<close> that depends on the
  row only.\<close>

definition row_allows :: "hardfork \<Rightarrow> spending_limit_state \<Rightarrow> u64 \<Rightarrow> u256" where
  "row_allows f st t =
    (if sl_period st = 0 then sl_remaining st
     else if t < sl_period_end st then
       (if T7 \<le> f \<and> sl_remaining st = ZERO_PERIODIC_REMAINING_SENTINEL then 0 else sl_remaining st)
     else sl_max st)"

lemma effective_row:
  assumes "T3 \<le> spec w" "k \<noteq> 0" "load_active_key w a k now = Inr key"
  shows "effective_remaining_limit w a k token now =
    row_allows (spec w) (read_limit w (spending_limit_key w a k) token) now"
  using effective_limit_active [OF assms] by (simp add: effective_remaining_limit_def row_allows_def)

lemma compute_next_period_end_mono: "t \<le> t' \<Longrightarrow> compute_next_period_end st t \<le> compute_next_period_end st t'"
  unfolding compute_next_period_end_def Let_def saturating_add_def saturating_mul_def saturating_sub_def
  by (intro min.mono add_mono mult_le_mono div_le_mono diff_le_mono order_refl) auto

text \<open>A row is inside the window from \<open>now\<close> to \<open>e\<close>: its period ends no earlier than \<open>e\<close>, or
  it has not been rolled over since before \<open>now\<close> and the next rollover will end no earlier.\<close>

definition in_window :: "u64 \<Rightarrow> u64 \<Rightarrow> spending_limit_state \<Rightarrow> bool" where
  "in_window now e st =
    (sl_period st = 0 \<or> e \<le> sl_period_end st
     \<or> sl_period_end st \<le> now \<and> e \<le> compute_next_period_end st now)"

definition window_time :: "u64 \<Rightarrow> u64 \<Rightarrow> spending_limit_state \<Rightarrow> u64 \<Rightarrow> bool" where
  "window_time now e st t = (now \<le> t \<and> (sl_period st \<noteq> 0 \<longrightarrow> t < e))"

lemma debit_row_allows:
  assumes "limit_wf f st" "T3 \<le> f" "amount \<le> row_allows f st t1"
    and "sl_period st \<noteq> 0 \<Longrightarrow> t < (if t1 < sl_period_end st then sl_period_end st else compute_next_period_end st t1)"
  shows "row_allows f (debit_row f t1 st amount) t = row_allows f st t1 - amount"
  using debit_row_effective [OF assms(1,2), of amount t1 t] assms(3,4)
  unfolding row_allows_def by (auto split: if_splits)

lemma debit_in_window:
  assumes wf: "limit_wf f st" "T3 \<le> f"
    and win: "in_window now e st" "window_time now e st t1" and le: "amount \<le> row_allows f st t1"
  shows "in_window now e (debit_row f t1 st amount)"
    and "\<And>t. window_time now e st t \<Longrightarrow> row_allows f (debit_row f t1 st amount) t = row_allows f st t1 - amount"
    and "sl_period (debit_row f t1 st amount) = sl_period st"
proof -
  show period: "sl_period (debit_row f t1 st amount) = sl_period st"
    by (simp add: debit_row_def Let_def)
  have mono: "compute_next_period_end st now \<le> compute_next_period_end st t1"
    using win(2) by (auto simp: window_time_def intro: compute_next_period_end_mono)
  show "in_window now e (debit_row f t1 st amount)"
    using win mono by (auto simp: in_window_def window_time_def debit_row_def Let_def)
  fix t
  assume "window_time now e st t"
  then show "row_allows f (debit_row f t1 st amount) t = row_allows f st t1 - amount"
    using win mono by (intro debit_row_allows [OF wf le]) (auto simp: in_window_def window_time_def)
qed

text \<open>Any successful debit, from T3 on, either leaves all rows alone or debits one row.\<close>

lemma verify_success:
  assumes "T3 \<le> spec w" "verify_and_update_spending a k token amount w = Inr (x, w')"
  defines "row \<equiv> read_limit w (spending_limit_key w a k) token"
  shows "spec w' = spec w \<and> keccak256 w' = keccak256 w \<and> kc_keys (keychain w') = kc_keys (keychain w)
    \<and> (if k \<noteq> 0 \<and> key_enforce_limits (kc_keys (keychain w) a k)
       then amount \<le> row_allows (spec w) row (now64 w)
         \<and> spending_limits (keychain w') = (spending_limits (keychain w))(spending_limit_key w a k :=
             (spending_limits (keychain w) (spending_limit_key w a k))
               (token := debit_row (spec w) (now64 w) row amount))
       else spending_limits (keychain w') = spending_limits (keychain w))"
proof (cases "k = 0")
  case False
  obtain key where key: "load_active_key w a k (now64 w) = Inr key"
    using assms(2) False by (auto simp: verify_and_update_spending_def runs)
  then have "key = kc_keys (keychain w) a k"
    by (simp add: load_active_key_Inr)
  then show ?thesis
    using assms(2) False key verify_run [OF assms(1) False key, of token amount]
      effective_row [OF assms(1) False key, of token]
    by (cases "key_enforce_limits key")
      (auto simp: row_def verify_and_update_spending_def split: if_splits)
qed (use assms(2) in \<open>simp add: verify_and_update_spending_def\<close>)

text \<open>A history of debit attempts at given times by any keys; a rejected attempt changes nothing. The
  total is what one account's key has spent of one token.\<close>

type_synonym spend = "address \<times> address \<times> address \<times> u256 \<times> u256"

fun total_spent :: "address \<Rightarrow> address \<Rightarrow> address \<Rightarrow> spend list \<Rightarrow> world \<Rightarrow> u256" where
  "total_spent a k token [] w = 0"
| "total_spent a k token ((a', k', token', time, amount) # rest) w =
    (case verify_and_update_spending a' k' token' amount (w\<lparr>timestamp := time\<rparr>) of
       Inl _ \<Rightarrow> total_spent a k token rest w
     | Inr (_, w') \<Rightarrow>
         (if a' = a \<and> k' = k \<and> token' = token then amount else 0) + total_spent a k token rest w')"

definition spend_time :: "spend \<Rightarrow> u64" where
  "spend_time = (\<lambda>(_, _, _, time, _). saturating_to 64 time)"

lemma total_spent_bound:
  assumes "T3 \<le> spec w" "k \<noteq> 0" "key_enforce_limits (kc_keys (keychain w) a k)"
    and "limit_wf (spec w) row" "in_window now e row"
    and "\<And>t. window_time now e row t \<Longrightarrow> row_allows (spec w) row t \<le> R"
    and "\<And>s. s \<in> set spends \<Longrightarrow> window_time now e row (spend_time s)"
    and "row = read_limit w (spending_limit_key w a k) token"
  shows "total_spent a k token spends w \<le> R"
  using assms
proof (induction spends arbitrary: w row R)
  case (Cons s spends)
  obtain a' k' token' time amount where s: "s = (a', k', token', time, amount)"
    by (cases s) auto
  define w0 where "w0 = w\<lparr>timestamp := time\<rparr>"
  have same: "spec w0 = spec w" "keychain w0 = keychain w" "keccak256 w0 = keccak256 w"
    and now0: "now64 w0 = spend_time s"
    by (simp_all add: w0_def now64_def spend_time_def s)
  show ?case
  proof (cases "verify_and_update_spending a' k' token' amount w0")
    case (Inl err)
    then show ?thesis
      using Cons.IH [OF Cons.prems(1-6) _ Cons.prems(8)] Cons.prems(7) by (simp add: s w0_def)
  next
    case (Inr r)
    then obtain x w' where run: "verify_and_update_spending a' k' token' amount w0 = Inr (x, w')"
      by (cases r) auto
    let ?lk = "spending_limit_key w a k" and ?lk' = "spending_limit_key w0 a' k'"
    note step = verify_success [OF _ run, unfolded same, OF Cons.prems(1)]
    have keep: "spec w' = spec w" "spending_limit_key w' a k = ?lk"
        "key_enforce_limits (kc_keys (keychain w') a k)"
      using step Cons.prems(3) by (auto simp: spending_limit_key_def)
    have time: "window_time now e row (spend_time s)"
      using Cons.prems(7) by simp
    define hit where "hit = (k' \<noteq> 0 \<and> key_enforce_limits (kc_keys (keychain w) a' k') \<and> ?lk' = ?lk \<and> token' = token)"
    define row' where "row' = (if hit then debit_row (spec w) (spend_time s) row amount else row)"
    have lk0: "read_limit w0 ?lk' token' = row" if hit
      using that Cons.prems(8) by (simp add: hit_def read_limit_def same)
    have le: "amount \<le> row_allows (spec w) row (spend_time s)" if hit
      using step that lk0 [OF that] now0 by (simp add: hit_def)
    have row': "row' = read_limit w' (spending_limit_key w' a k) token"
      using step lk0 now0 Cons.prems(8) unfolding keep(2) row'_def
      by (auto simp: hit_def read_limit_def split: if_splits)
    note debit = debit_in_window [OF Cons.prems(4) Cons.prems(1) Cons.prems(5) time le]
    have rowfacts: "limit_wf (spec w') row'" "in_window now e row'" "sl_period row' = sl_period row"
      using debit(1,3) Cons.prems(4,5) by (auto simp: keep row'_def debit_row_wf)
    have win: "window_time now e row' = window_time now e row"
      using rowfacts(3) by (simp add: window_time_def fun_eq_iff)
    have "row_allows (spec w') row' t \<le> (if hit then R - amount else R)" if "window_time now e row' t" for t
    proof -
      have "window_time now e row t"
        using that by (simp only: win)
      then show ?thesis
        using debit(2) Cons.prems(6) Cons.prems(6) [OF time] by (auto simp: keep row'_def diff_le_mono)
    qed
    then have "total_spent a k token spends w' \<le> (if hit then R - amount else R)"
      using Cons.IH [of w' row' "if hit then R - amount else R"] Cons.prems(1,2,7) keep rowfacts row' win
      by simp
    moreover have "hit \<Longrightarrow> amount \<le> R"
      using le Cons.prems(6) [OF time] by linarith
    moreover have "hit" if "a' = a \<and> k' = k \<and> token' = token"
      using that Cons.prems(2,3) by (simp add: hit_def spending_limit_key_def same)
    ultimately show ?thesis
      using run by (auto simp: s w0_def split: if_splits)
  qed
qed simp

lemma window_start:
  assumes "row = read_limit w (spending_limit_key w a k) token"
    and "T3 \<le> spec w" "k \<noteq> 0" "load_active_key w a k now = Inr key"
  defines "e \<equiv> snd (effective_limit_state w a k token now)"
  shows "in_window now e row"
    and "\<And>t. window_time now e row t \<Longrightarrow>
      row_allows (spec w) row t \<le> fst (effective_limit_state w a k token now)"
  using effective_limit_active [OF assms(2-4), of token] assms(1)
  by (auto simp: e_def in_window_def window_time_def row_allows_def)

text \<open>A state for concrete evaluations: account 1 has key 2 with a limit of 100 of token 3 in periods
  of 10 seconds, the current one ending ten seconds after the block time.\<close>

definition sample_limit_world :: world where
  "sample_limit_world = (empty_world T7)\<lparr>keychain := empty_keychain\<lparr>
     kc_keys := \<lambda>a k. if a = 1 \<and> k = 2 then \<lparr>key_signature_type = P256, key_expiry = 5000,
       key_enforce_limits = True, key_is_revoked = False, key_is_admin = False\<rparr>
       else kc_keys empty_keychain a k,
     spending_limits := \<lambda>_ t. if t = 3 then \<lparr>sl_remaining = 100, sl_max = 100, sl_period = 10, sl_period_end = 1010\<rparr>
       else spending_limits empty_keychain 0 0\<rparr>\<rparr>"

lemma sample_limit_world_facts:
  "spec sample_limit_world = T7" "now64 sample_limit_world = 1000"
  "load_active_key sample_limit_world 1 2 1000 = Inr \<lparr>key_signature_type = P256, key_expiry = 5000,
     key_enforce_limits = True, key_is_revoked = False, key_is_admin = False\<rparr>"
  "read_limit sample_limit_world lk 3 = \<lparr>sl_remaining = 100, sl_max = 100, sl_period = 10, sl_period_end = 1010\<rparr>"
  by (simp_all add: sample_limit_world_def now64_def saturating_to_def umax_def load_active_key_def Let_def read_limit_def)

section \<open>Properties\<close>

text \<open>C1: An access key never spends more than its limit in a period. Take an active key with enforced
  limits. Over any history of debit attempts by any keys at times of the current period (at any later
  time if the limit is one-time), the amounts successfully debited for this key and token add up to at
  most what the view function reported at the start.\<close>

theorem spending_bounded_per_period:
  assumes "T3 \<le> spec w" "k \<noteq> 0" "load_active_key w a k (now64 w) = Inr key" "key_enforce_limits key"
    and "limit_wf (spec w) (read_limit w (spending_limit_key w a k) token)"
    and "\<And>s. s \<in> set spends \<Longrightarrow> now64 w \<le> spend_time s \<and>
      (sl_period (read_limit w (spending_limit_key w a k) token) \<noteq> 0 \<longrightarrow>
       spend_time s < snd (get_remaining_limit_with_period w a k token))"
  shows "total_spent a k token spends w \<le> fst (get_remaining_limit_with_period w a k token)"
proof (rule total_spent_bound [OF assms(1,2) _ assms(5) window_start(1) [OF refl assms(1-3)]
      window_start(2) [OF refl assms(1-3)] _ refl, folded get_remaining_limit_with_period_def])
  show "key_enforce_limits (kc_keys (keychain w) a k)"
    using assms(3,4) by (simp add: load_active_key_Inr)
  show "window_time (now64 w) (snd (get_remaining_limit_with_period w a k token))
      (read_limit w (spending_limit_key w a k) token) (spend_time s)" if "s \<in> set spends" for s
    using assms(6) [OF that] by (simp add: window_time_def)
qed

theorem spending_bounded_per_period_witness:
  "total_spent 1 2 3 [(1, 2, 3, 1001, 60), (1, 2, 3, 1002, 60)] sample_limit_world \<le> 100"
proof -
  have view: "get_remaining_limit_with_period sample_limit_world 1 2 3 = (100, 1010)"
    using effective_limit_active [OF _ _ sample_limit_world_facts(3), of 3]
    by (simp add: get_remaining_limit_with_period_def sample_limit_world_facts fork_order
        ZERO_PERIODIC_REMAINING_SENTINEL_def umax_def)
  have "total_spent 1 2 3 [(1, 2, 3, 1001, 60), (1, 2, 3, 1002, 60)] sample_limit_world
      \<le> fst (get_remaining_limit_with_period sample_limit_world 1 2 3)"
  proof (rule spending_bounded_per_period)
    show "T3 \<le> spec sample_limit_world" "(2::address) \<noteq> 0"
      by (simp_all add: sample_limit_world_facts fork_order)
    show "load_active_key sample_limit_world 1 2 (now64 sample_limit_world) = Inr \<lparr>key_signature_type = P256,
        key_expiry = 5000, key_enforce_limits = True, key_is_revoked = False, key_is_admin = False\<rparr>"
      by (simp add: sample_limit_world_facts)
    show "limit_wf (spec sample_limit_world)
        (read_limit sample_limit_world (spending_limit_key sample_limit_world 1 2) 3)"
      by (simp add: sample_limit_world_facts limit_wf_def umax_def)
  qed (auto simp: view sample_limit_world_facts spend_time_def saturating_to_def umax_def)
  then show ?thesis
    by (simp add: view)
qed

text \<open>C16: The debit agrees with the view. From T3 on, spending with an active key that enforces limits
  succeeds exactly when the amount is at most the remaining limit the view function reports, fails with
  \<open>SpendingLimitExceeded\<close> otherwise, and afterwards the view reports exactly the amount less, also when
  the stored value is the sentinel for zero.\<close>

theorem debit_agrees_with_view:
  assumes "T3 \<le> spec w" "k \<noteq> 0" "load_active_key w a k (now64 w) = Inr key" "key_enforce_limits key"
    and "limit_wf (spec w) (read_limit w (spending_limit_key w a k) token)"
    and "sl_period (read_limit w (spending_limit_key w a k) token) + now64 w < 2 ^ 64"
  shows "if amount \<le> get_remaining_limit w a k token
    then \<exists>w'. verify_and_update_spending a k token amount w = Inr ((), w')
      \<and> get_remaining_limit w' a k token = get_remaining_limit w a k token - amount
    else verify_and_update_spending a k token amount w = Inl (kerr SpendingLimitExceeded)"
proof -
  let ?lk = "spending_limit_key w a k" and ?row = "read_limit w (spending_limit_key w a k) token"
  have t2: "T2 \<le> spec w"
    using assms(1) by (simp add: fork_order)
  have view: "get_remaining_limit w a k token = effective_remaining_limit w a k token (now64 w)"
    using t2 by (simp add: get_remaining_limit_def get_remaining_limit_with_period_def effective_remaining_limit_def)
  note run = verify_run [OF assms(1-4), of token amount]
  show ?thesis
  proof (cases "amount \<le> get_remaining_limit w a k token")
    case True
    then obtain w' where w': "verify_and_update_spending a k token amount w = Inr ((), w')"
        "spec w' = spec w" "now64 w' = now64 w" "spending_limit_key w' a k = ?lk"
        "load_active_key w' a k (now64 w') = Inr key"
        "read_limit w' ?lk token = debit_row (spec w) (now64 w) ?row amount"
      using run view assms(3) by (auto simp: now64_def spending_limit_key_def load_active_key_def read_limit_def)
    have "row_allows (spec w) (debit_row (spec w) (now64 w) ?row amount) (now64 w) =
        row_allows (spec w) ?row (now64 w) - amount"
    proof (rule debit_row_allows [OF assms(5,1)])
      show "amount \<le> row_allows (spec w) ?row (now64 w)"
        using True view effective_row [OF assms(1-3)] by simp
      show "now64 w < (if now64 w < sl_period_end ?row then sl_period_end ?row
          else compute_next_period_end ?row (now64 w))" if "sl_period ?row \<noteq> 0"
        using that assms(6) next_period_end_bounds [of ?row "now64 w"] by auto
    qed
    then have "get_remaining_limit w' a k token = get_remaining_limit w a k token - amount"
      using w' t2 assms(1,2) effective_row [OF _ assms(2) w'(5), of token] effective_row [OF assms(1-3), of token] view
      by (simp add: get_remaining_limit_def get_remaining_limit_with_period_def flip: effective_remaining_limit_def)
    then show ?thesis
      using True w'(1) by auto
  qed (use run view in simp)
qed

theorem debit_agrees_with_view_witness:
  "\<exists>w'. verify_and_update_spending 1 2 3 100 sample_limit_world = Inr ((), w') \<and> get_remaining_limit w' 1 2 3 = 0"
proof -
  have view: "get_remaining_limit sample_limit_world 1 2 3 = 100"
    using effective_limit_active [OF _ _ sample_limit_world_facts(3), of 3]
    by (simp add: get_remaining_limit_def get_remaining_limit_with_period_def sample_limit_world_facts fork_order
        ZERO_PERIODIC_REMAINING_SENTINEL_def umax_def)
  show ?thesis
    using debit_agrees_with_view [of sample_limit_world 2 1 "\<lparr>key_signature_type = P256, key_expiry = 5000,
        key_enforce_limits = True, key_is_revoked = False, key_is_admin = False\<rparr>" 3 100]
    by (simp add: sample_limit_world_facts limit_wf_def umax_def fork_order view)
qed

text \<open>C23: Rolling a periodic limit over moves its end past the current time by at most one period and
  by a whole number of periods from the old end.\<close>

theorem period_rollover_aligned:
  assumes "0 < sl_period st" "sl_period_end st \<le> now" "now + sl_period st < 2 ^ 64"
  shows "now < compute_next_period_end st now \<and> compute_next_period_end st now \<le> now + sl_period st
    \<and> (compute_next_period_end st now - sl_period_end st) mod sl_period st = 0"
  by (rule next_period_end_bounds [OF assms])

theorem period_rollover_aligned_witness:
  "37 < compute_next_period_end \<lparr>sl_remaining = 0, sl_max = 9, sl_period = 10, sl_period_end = 5\<rparr> 37"
  using period_rollover_aligned [of "\<lparr>sl_remaining = 0, sl_max = 9, sl_period = 10, sl_period_end = 5\<rparr>" 37] by simp

end
