(* ===== verification/Keychain_Keys.thy ===== *)
theory Keychain_Keys
  imports Keychain_Limits
begin

text \<open>
  The life cycle of access keys: who may change them, and that a revoked key stays revoked. The
  histories contain every keychain operation, changes of the transaction context and the passing of
  time.
\<close>

section \<open>What the operations do to the keys\<close>

definition keys_of :: "world \<Rightarrow> address \<Rightarrow> address \<Rightarrow> authorized_key" where
  "keys_of w = kc_keys (keychain w)"

lemma keys_frame [frame, intro!, simp]:
  "preserves keys_of (write_limit lk t st)"
  "preserves keys_of (write_scope lk ks)"
  "preserves keys_of (emit_kc e)"
  by (simp_all add: preserves_def keys_of_def write_scope_def)

lemma keys_frame_ops [frame, intro!, simp]:
  "preserves keys_of (write_remaining lk t r)"
  "preserves keys_of (apply_token_limit lk limit)"
  "preserves keys_of (replace_allowed_calls lk allowed)"
  unfolding write_remaining_def apply_token_limit_def replace_allowed_calls_def
  by (intro frame)+

lemma keys_frame_restrictions [frame, intro!, simp]:
  "preserves keys_of (apply_key_authorization_restrictions a k limits allowed)"
  unfolding apply_key_authorization_restrictions_def by (intro frame)

lemma authorize_key_checks_Inr:
  assumes "authorize_key_checks w s k sig config wit adm = Inr (st, allowed)"
  shows "ensure_admin_caller w s = Inr () \<and> key_expiry (keys_of w s k) = 0 \<and> \<not> key_is_revoked (keys_of w s k)
    \<and> k \<noteq> 0 \<and> (T0 \<le> spec w \<longrightarrow> now64 w < kr_expiry config) \<and> sig = Some st"
  using assms
  by (auto simp: authorize_key_checks_def keys_of_def runs Let_def split: if_splits)

lemma authorize_key_internal_keys:
  assumes "authorize_key_internal s k sig config wit adm w = Inr (x, w')"
  shows "ensure_admin_caller w s = Inr () \<and> key_expiry (keys_of w s k) = 0 \<and> \<not> key_is_revoked (keys_of w s k)
    \<and> k \<noteq> 0 \<and> (T0 \<le> spec w \<longrightarrow> now64 w < kr_expiry config)
    \<and> (\<exists>st. sig = Some st \<and> keys_of w' = (keys_of w)(s := (keys_of w s)(k :=
         \<lparr>key_signature_type = st, key_expiry = kr_expiry config, key_enforce_limits = kr_enforce_limits config,
          key_is_revoked = False, key_is_admin = adm\<rparr>)))"
proof -
  obtain st allowed where checks: "authorize_key_checks w s k sig config wit adm = Inr (st, allowed)"
    and rest: "rseq (write_key s k \<lparr>key_signature_type = st, key_expiry = kr_expiry config,
         key_enforce_limits = kr_enforce_limits config, key_is_revoked = False, key_is_admin = adm\<rparr>)
       (rseq (only_if (\<not> adm) (apply_key_authorization_restrictions s k
         (if kr_enforce_limits config then kr_limits config else []) allowed))
       (rseq (case wit of None \<Rightarrow> ok () | Some v \<Rightarrow> emit_kc (KeyAuthorizationWitness s v))
         (emit_kc (KeyAuthorized s k (signature_type_u8 st) (kr_expiry config))))) w = Inr (x, w')"
    using assms unfolding authorize_key_internal_def rbind_eq_Inr rd_eq_Inr by auto
  then obtain w1 w2 w3 where w1: "write_key s k \<lparr>key_signature_type = st, key_expiry = kr_expiry config,
       key_enforce_limits = kr_enforce_limits config, key_is_revoked = False, key_is_admin = adm\<rparr> w = Inr ((), w1)"
    and w2: "only_if (\<not> adm) (apply_key_authorization_restrictions s k
       (if kr_enforce_limits config then kr_limits config else []) allowed) w1 = Inr ((), w2)"
    and w3: "(case wit of None \<Rightarrow> ok () | Some v \<Rightarrow> emit_kc (KeyAuthorizationWitness s v)) w2 = Inr ((), w3)"
    and w': "emit_kc (KeyAuthorized s k (signature_type_u8 st) (kr_expiry config)) w3 = Inr (x, w')"
    unfolding rseq_eq_Inr by blast
  have "keys_of w2 = keys_of w1"
    using w2 by (rule preservesD [rotated]) (intro frame)
  moreover have "keys_of w3 = keys_of w2"
    using w3 by (rule preservesD [rotated]) (intro frame)
  moreover have "keys_of w' = keys_of w3"
    using w' by (rule preservesD [rotated]) (intro frame)
  ultimately have "keys_of w' = keys_of w1"
    by simp
  then show ?thesis
    using authorize_key_checks_Inr [OF checks] w1 by (auto simp: write_key_def keys_of_def)
qed

lemma revoke_key_run:
  "revoke_key s k w = Inr (x, w') \<longleftrightarrow>
    ensure_admin_caller w s = Inr () \<and> key_expiry (keys_of w s k) \<noteq> 0
    \<and> w' = w\<lparr>keychain := (keychain w)\<lparr>kc_keys := (keys_of w)(s := (keys_of w s)(k := revoked_key))\<rparr>,
        logs := logs w @ [(ACCOUNT_KEYCHAIN_ADDRESS, AccountKeychainEvent (KeyRevoked s k))]\<rparr>"
  by (auto simp: revoke_key_def runs write_key_def keys_of_def)

lemma store_new_limit_keys [frame, intro!, simp]: "preserves keys_of (store_new_limit a k token lim)"
  unfolding store_new_limit_def by (intro frame)

lemma update_spending_limit_keys:
  assumes "update_spending_limit s k token lim w = Inr (x, w')"
  shows "ensure_admin_caller w s = Inr () \<and> \<not> key_is_revoked (keys_of w s k) \<and> key_expiry (keys_of w s k) \<noteq> 0
    \<and> keys_of w' = (keys_of w)(s := (keys_of w s)(k := (keys_of w s k)\<lparr>key_enforce_limits := True\<rparr>))"
proof -
  obtain key w1 w2 where start: "ensure_admin_caller w s = Inr ()" "load_active_key w s k (now64 w) = Inr key"
    and w1: "only_if (\<not> key_enforce_limits key) (write_key s k (key\<lparr>key_enforce_limits := True\<rparr>)) w = Inr ((), w1)"
    and w2: "store_new_limit s k token lim w1 = Inr ((), w2)"
    and w': "emit_kc (SpendingLimitUpdated s k token lim) w2 = Inr (x, w')"
    using assms unfolding update_spending_limit_def rseq_eq_Inr rbind_eq_Inr rd_eq_Inr ensure_eq_Inr by auto
  have "keys_of w' = keys_of w2"
    using w' by (rule preservesD [rotated]) (intro frame)
  moreover have "keys_of w2 = keys_of w1"
    using w2 by (rule preservesD [rotated]) (intro frame)
  moreover have "keys_of w1 = (keys_of w)(s := (keys_of w s)(k := key\<lparr>key_enforce_limits := True\<rparr>))"
    if "key = keys_of w s k"
    using w1 that by (cases "key_enforce_limits key") (auto simp: write_key_def keys_of_def fun_eq_iff)
  ultimately show ?thesis
    using start by (auto simp: load_active_key_Inr keys_of_def)
qed

lemma keys_frame_other [frame, intro!, simp]:
  "preserves keys_of (burn_key_authorization_witness s v)"
  "preserves keys_of (set_allowed_calls s k scopes)"
  "preserves keys_of (remove_allowed_calls s k target)"
  "preserves keys_of (verify_and_update_spending a k token amount)"
  "preserves keys_of (refund_spending_limit a token amount)"
  "preserves keys_of (set_transaction_key k)"
  "preserves keys_of (set_tx_origin a)"
proof -
  have upd: "preserves keys_of (upd_keychain f)" if "\<And>s. kc_keys (f s) = kc_keys s" for f
    using that by (simp add: preserves_def keys_of_def)
  show "preserves keys_of (burn_key_authorization_witness s v)"
    unfolding burn_key_authorization_witness_def burn_key_authorization_witness_value_def by (intro frame upd) simp
  show "preserves keys_of (set_allowed_calls s k scopes)"
    unfolding set_allowed_calls_def by (intro frame)
  show "preserves keys_of (remove_allowed_calls s k target)"
    unfolding remove_allowed_calls_def by (intro frame)
  show "preserves keys_of (verify_and_update_spending a k token amount)"
    unfolding verify_and_update_spending_def by (intro frame)
  show "preserves keys_of (refund_spending_limit a token amount)"
    unfolding refund_spending_limit_def by (intro frame)
  show "preserves keys_of (set_transaction_key k)"
    unfolding set_transaction_key_def by (intro upd) simp
  show "preserves keys_of (set_tx_origin a)"
    unfolding set_tx_origin_def by (intro upd) simp
qed

lemma keys_frame_authorize [frame, intro!, simp]:
  "preserves keys_of (authorize_transfer a token amount)"
  "preserves keys_of (authorize_approve a token old new)"
  unfolding authorize_transfer_def authorize_approve_def by (intro frame)+

section \<open>Histories\<close>

datatype (plugins only: code size) keychain_call =
    AuthorizeKey address address "stored_signature_type option" key_restrictions "b256 option"
  | AuthorizeAdminKey address address "stored_signature_type option" "b256 option"
  | RevokeKey address address
  | UpdateSpendingLimit address address address u256
  | SetAllowedCalls address address "call_scope list"
  | RemoveAllowedCalls address address address
  | BurnKeyAuthorizationWitness address b256
  | AuthorizeTransfer address address u256
  | AuthorizeApprove address address u256 u256
  | RefundSpendingLimit address address u256
  | NewTransaction address address u256 hardfork

text \<open>\<open>NewTransaction\<close> is the context the transaction handler sets up: the signing key, the origin, and
  the block it is in.\<close>

primrec keychain_exec :: "keychain_call \<Rightarrow> unit M" where
  "keychain_exec (AuthorizeKey s k sig config wit) = authorize_key s k sig config wit"
| "keychain_exec (AuthorizeAdminKey s k sig wit) = authorize_admin_key s k sig wit"
| "keychain_exec (RevokeKey s k) = revoke_key s k"
| "keychain_exec (UpdateSpendingLimit s k token lim) = update_spending_limit s k token lim"
| "keychain_exec (SetAllowedCalls s k scopes) = set_allowed_calls s k scopes"
| "keychain_exec (RemoveAllowedCalls s k target) = remove_allowed_calls s k target"
| "keychain_exec (BurnKeyAuthorizationWitness s v) = burn_key_authorization_witness s v"
| "keychain_exec (AuthorizeTransfer a token amount) = authorize_transfer a token amount"
| "keychain_exec (AuthorizeApprove a token old new) = authorize_approve a token old new"
| "keychain_exec (RefundSpendingLimit a token amount) = refund_spending_limit a token amount"
| "keychain_exec (NewTransaction k origin time f) =
    rseq (set_transaction_key k)
   (rseq (set_tx_origin origin)
         (modify (\<lambda>w. w\<lparr>timestamp := time, spec := f\<rparr>)))"

text \<open>How a call changes the keys: not at all, or one key of the caller, whose admin check passed,
  by authorizing a key that was never used, by revoking an existing one, or by enforcing limits.\<close>

definition key_change :: "world \<Rightarrow> world \<Rightarrow> address \<Rightarrow> address \<Rightarrow> authorized_key \<Rightarrow> bool" where
  "key_change w w' s k key =
    (ensure_admin_caller w s = Inr () \<and> keys_of w' = (keys_of w)(s := (keys_of w s)(k := key))
     \<and> (key_expiry (keys_of w s k) = 0 \<and> \<not> key_is_revoked (keys_of w s k) \<and> \<not> key_is_revoked key
        \<or> key_expiry (keys_of w s k) \<noteq> 0 \<and> key = revoked_key
        \<or> \<not> key_is_revoked (keys_of w s k) \<and> key_expiry (keys_of w s k) \<noteq> 0
          \<and> key = (keys_of w s k)\<lparr>key_enforce_limits := True\<rparr>))"

lemma authorize_key_change:
  assumes "authorize_key_internal s k sig config wit adm w = Inr (x, w1)" "keys_of w' = keys_of w1"
  shows "\<exists>key. key_change w w' s k key"
proof -
  obtain st where "keys_of w' = (keys_of w)(s := (keys_of w s)(k :=
      \<lparr>key_signature_type = st, key_expiry = kr_expiry config, key_enforce_limits = kr_enforce_limits config,
       key_is_revoked = False, key_is_admin = adm\<rparr>))"
    using authorize_key_internal_keys [OF assms(1)] assms(2) by auto
  then have "key_change w w' s k \<lparr>key_signature_type = st, key_expiry = kr_expiry config,
      key_enforce_limits = kr_enforce_limits config, key_is_revoked = False, key_is_admin = adm\<rparr>"
    using authorize_key_internal_keys [OF assms(1)] by (simp add: key_change_def)
  then show ?thesis
    by blast
qed

lemma keychain_exec_keys:
  assumes "keychain_exec c w = Inr (x, w')"
  shows "keys_of w' = keys_of w \<or> (\<exists>s k key. key_change w w' s k key)"
proof (cases c)
  case (AuthorizeKey s k sig config wit)
  then show ?thesis
    using assms authorize_key_change [of s k sig config wit False w "()" w' w'] by (auto simp: authorize_key_def)
next
  case (AuthorizeAdminKey s k sig wit)
  then obtain config w1 where run: "authorize_key_internal s k sig config wit True w = Inr ((), w1)"
    and w': "keys_of w' = keys_of w1"
    using assms by (auto simp: authorize_admin_key_def runs keys_of_def)
  show ?thesis
    using authorize_key_change [OF run w'] by blast
next
  case (RevokeKey s k)
  then have "key_change w w' s k revoked_key"
    using assms revoke_key_run [of s k w x w'] by (simp add: key_change_def keys_of_def)
  then show ?thesis
    by blast
next
  case (UpdateSpendingLimit s k token lim)
  then have "key_change w w' s k ((keys_of w s k)\<lparr>key_enforce_limits := True\<rparr>)"
    using assms update_spending_limit_keys [of s k token lim w x w'] by (simp add: key_change_def)
  then show ?thesis
    by blast
next
  case (NewTransaction k origin time f)
  then show ?thesis
    using assms by (auto simp: runs keys_of_def set_transaction_key_def set_tx_origin_def)
qed (use assms in \<open>auto dest!: preservesD [of keys_of, rotated]\<close>)

text \<open>A revoked key: marked, with no expiry, which is what \<open>revoke_key\<close> leaves.\<close>

definition dead_key :: "address \<Rightarrow> address \<Rightarrow> world \<Rightarrow> bool" where
  "dead_key a k w = (key_is_revoked (keys_of w a k) \<and> key_expiry (keys_of w a k) = 0)"

lemma dead_key_keeps: "keeps (dead_key a k) (keychain_exec c)"
  unfolding keeps_def
proof (intro allI impI)
  fix w x w'
  assume dead: "dead_key a k w" and run: "keychain_exec c w = Inr (x, w')"
  consider "keys_of w' = keys_of w" | s k' key where "key_change w w' s k' key"
    using keychain_exec_keys [OF run] by blast
  then show "dead_key a k w'"
  proof cases
    case 2
    then show ?thesis
      using dead by (auto simp: key_change_def dead_key_def)
  qed (use dead in \<open>simp add: dead_key_def\<close>)
qed

interpretation dead_keys: invariant_machine keychain_exec "dead_key a k" for a k
  by unfold_locales (rule dead_key_keeps)

lemma dead_key_unusable:
  assumes "dead_key a k w"
  shows "load_active_key w a k now = Inl (kerr KeyAlreadyRevoked)"
    and "authorize_key_internal a k sig config wit adm w \<noteq> Inr r"
    and "k \<noteq> 0 \<Longrightarrow> verify_and_update_spending a k token amount w = Inl (kerr KeyAlreadyRevoked)"
proof -
  show load: "load_active_key w a k now = Inl (kerr KeyAlreadyRevoked)" for now
    using assms by (simp add: dead_key_def load_active_key_def keys_of_def)
  show "authorize_key_internal a k sig config wit adm w \<noteq> Inr r"
    using authorize_key_internal_keys [of a k sig config wit adm w] assms
    by (cases r) (auto simp: dead_key_def)
  show "verify_and_update_spending a k token amount w = Inl (kerr KeyAlreadyRevoked)" if "k \<noteq> 0"
    using that load by (simp add: verify_and_update_spending_def)
qed

section \<open>Properties\<close>

text \<open>C7: Revocation is final. After a successful \<open>revokeKey\<close>, and after any further history of
  keychain calls, transactions and hardforks, the key cannot be authorized again, as an ordinary or as
  an admin key, it is not usable, and it cannot spend.\<close>

theorem revoked_key_stays_revoked:
  assumes "revoke_key a k w = Inr (x, w')" "k \<noteq> 0"
  shows "load_active_key (run_ops keychain_exec cs w') a k now = Inl (kerr KeyAlreadyRevoked)
    \<and> authorize_key_internal a k sig config wit adm (run_ops keychain_exec cs w') \<noteq> Inr r
    \<and> verify_and_update_spending a k token amount (run_ops keychain_exec cs w') = Inl (kerr KeyAlreadyRevoked)"
proof -
  have "dead_key a k w'"
    using assms(1) by (auto simp: revoke_key_run dead_key_def keys_of_def revoked_key_def)
  then have "dead_key a k (run_ops keychain_exec cs w')"
    by (rule dead_keys.run_ops_inv)
  then show ?thesis
    using dead_key_unusable assms(2) by blast
qed

theorem revoked_key_stays_revoked_witness:
  "\<exists>w'. revoke_key 1 2 (sample_limit_world\<lparr>spec := T1\<rparr>) = Inr ((), w') \<and> load_active_key w' 1 2 1000 = Inl (kerr KeyAlreadyRevoked)"
proof -
  obtain w' where run: "revoke_key 1 2 (sample_limit_world\<lparr>spec := T1\<rparr>) = Inr ((), w')"
    by (simp add: revoke_key_run ensure_admin_caller_def sample_limit_world_def keys_of_def fork_order
        empty_keychain_def Let_def)
  then show ?thesis
    using revoked_key_stays_revoked [OF run, of "[]" 1000] by simp
qed

text \<open>C12: Only the account itself changes its keys, and not through a restricted key. If a successful
  keychain call changes any key of an account, then from T2 on the account is the origin of the
  transaction, and the transaction was signed by the root key or, from T6 on, by an active admin key of
  that account.\<close>

theorem key_change_needs_admin:
  assumes "keychain_exec c w = Inr (x, w')" "keys_of w' a \<noteq> keys_of w a"
  shows "(T2 \<le> spec w \<longrightarrow> tx_origin (keychain w) = a)
    \<and> (transaction_key (keychain w) = 0 \<or> T6 \<le> spec w \<and> is_admin_key w a (transaction_key (keychain w)))"
proof -
  obtain s k key where change: "key_change w w' s k key"
    using keychain_exec_keys [OF assms(1)] assms(2) by auto
  then have "s = a"
    using assms(2) by (auto simp: key_change_def split: if_splits)
  then show ?thesis
    using change by (auto simp: key_change_def ensure_admin_caller_def Let_def split: if_splits)
qed

theorem key_change_needs_admin_witness:
  "\<exists>w'. keychain_exec (RevokeKey 1 2) (sample_limit_world\<lparr>spec := T1\<rparr>) = Inr ((), w')
    \<and> transaction_key (keychain (sample_limit_world\<lparr>spec := T1\<rparr>)) = 0"
proof -
  obtain w' where run: "keychain_exec (RevokeKey 1 2) (sample_limit_world\<lparr>spec := T1\<rparr>) = Inr ((), w')"
    and "keys_of w' 1 2 = revoked_key"
    by (simp add: revoke_key_run ensure_admin_caller_def sample_limit_world_def keys_of_def fork_order
        empty_keychain_def Let_def)
  then have "keys_of w' 1 \<noteq> keys_of (sample_limit_world\<lparr>spec := T1\<rparr>) 1"
    by (auto simp: keys_of_def sample_limit_world_def revoked_key_def fun_eq_iff intro!: exI [of _ 2])
  then have "transaction_key (keychain (sample_limit_world\<lparr>spec := T1\<rparr>)) = 0 \<or> T6 \<le> T1"
    using key_change_needs_admin [OF run] by auto
  then show ?thesis
    using run by (simp add: fork_order)
qed

end
