(* ===== verification/Keychain_Scopes.thy ===== *)
theory Keychain_Scopes
  imports Keychain_Keys
begin

text \<open>
  Call scopes of access keys: the stored tree of target, selector and recipient sets decides a call
  exactly as the list of scopes that was configured. The invariant of the tree is that a set below an
  absent entry is empty, because an empty set below a present entry means that everything is allowed.
\<close>

section \<open>The configured meaning\<close>

definition rule_allows :: "selector_rule \<Rightarrow> 8 word list \<Rightarrow> bool" where
  "rule_allows rule input =
    (sr_selector rule = be_word (take 4 input) \<and>
     (sr_recipients rule = [] \<or>
      36 \<le> length input \<and> \<not> list_ex (\<lambda>b. b \<noteq> 0) (take 12 (take 32 (drop 4 input)))
      \<and> be_word (drop 12 (take 32 (drop 4 input))) \<in> set (sr_recipients rule)))"

definition scope_allows :: "call_scope \<Rightarrow> 8 word list \<Rightarrow> bool" where
  "scope_allows scope input =
    (cs_rules scope = [] \<or> 4 \<le> length input \<and> (\<exists>rule \<in> set (cs_rules scope). rule_allows rule input))"

definition scopes_allow :: "call_scope list \<Rightarrow> address \<Rightarrow> 8 word list \<Rightarrow> bool" where
  "scopes_allow scopes target input =
    (\<exists>scope \<in> set scopes. cs_target scope = target \<and> scope_allows scope input)"

section \<open>The stored meaning\<close>

definition ts_allows :: "target_scope \<Rightarrow> 8 word list \<Rightarrow> bool" where
  "ts_allows ts input =
    (let sel = be_word (take 4 input); recs = ss_recipients (ts_selector_scopes ts sel);
         recipient_word = take 32 (drop 4 input) in
     es_values (ts_selectors ts) = [] \<or>
     4 \<le> length input \<and> es_contains (ts_selectors ts) sel \<and>
     (es_values recs = [] \<or>
      36 \<le> length input \<and> \<not> list_ex (\<lambda>b. b \<noteq> 0) (take 12 recipient_word)
      \<and> es_contains recs (be_word (drop 12 recipient_word))))"

definition tree_allows :: "key_scope \<Rightarrow> address \<Rightarrow> 8 word list \<Rightarrow> bool" where
  "tree_allows ks target input =
    (es_contains (ks_targets ks) target \<and> ts_allows (ks_target_scopes ks target) input)"

lemma validate_call_iff_tree:
  assumes "key_id \<noteq> 0" "T3 \<le> spec w"
  shows "validate_call_scope_for_transaction w account key_id (TxCall target) input =
    (let ks = key_scopes (keychain w) (spending_limit_key w account key_id) in
     if is_scoped ks \<longrightarrow> tree_allows ks target input then Inr () else Inl (kerr CallNotAllowed))"
  using assms
  by (simp add: validate_call_scope_for_transaction_def tree_allows_def ts_allows_def Let_def not_less)

section \<open>The tree invariant\<close>

definition ts_ok :: "target_scope \<Rightarrow> bool" where
  "ts_ok ts =
    (es_ok (ts_selectors ts) \<and>
     (\<forall>s. es_ok (ss_recipients (ts_selector_scopes ts s)) \<and>
        (s \<notin> set (es_values (ts_selectors ts)) \<longrightarrow> es_values (ss_recipients (ts_selector_scopes ts s)) = [])))"

definition tree_ok :: "key_scope \<Rightarrow> bool" where
  "tree_ok ks =
    (es_ok (ks_targets ks) \<and>
     (\<forall>t. ts_ok (ks_target_scopes ks t) \<and>
        (t \<notin> set (es_values (ks_targets ks)) \<longrightarrow> es_values (ts_selectors (ks_target_scopes ks t)) = [])))"

definition rules_ok :: "selector_rule list \<Rightarrow> bool" where
  "rules_ok rules = (distinct (map sr_selector rules) \<and> (\<forall>r \<in> set rules. distinct (sr_recipients r)))"

subsection \<open>Validation\<close>

lemma validate_rules_loop_ok:
  assumes "validate_rules_loop w target seen rules = Inr u"
  shows "(\<forall>r \<in> set rules. distinct (sr_recipients r))
    \<and> (\<not> T11 \<le> spec w \<longrightarrow> distinct (map sr_selector rules) \<and> seen \<inter> set (map sr_selector rules) = {})"
  using assms
proof (induction w target seen rules rule: validate_rules_loop.induct)
  case (2 w target seen rule rules)
  then show ?case
    by (auto simp: has_duplicates_iff split: if_splits)
qed simp

lemma validate_call_scope_ok: "validate_call_scope w scope = Inr u \<Longrightarrow> rules_ok (cs_rules scope)"
  by (auto simp: validate_call_scope_def validate_selector_rules_def rules_ok_def has_duplicates_iff
      dest: validate_rules_loop_ok split: if_splits)

lemma validate_each_ok:
  "validate_each w scopes = Inr u \<Longrightarrow> s \<in> set scopes \<Longrightarrow> rules_ok (cs_rules s)"
  by (induction w scopes rule: validate_each.induct) (auto simp: runs dest: validate_call_scope_ok)

lemma validate_scopes_loop_ok:
  assumes "validate_scopes_loop w seen scopes = Inr u"
  shows "distinct (map cs_target scopes) \<and> seen \<inter> set (map cs_target scopes) = {}
    \<and> (T4 \<le> spec w \<longrightarrow> (\<forall>s \<in> set scopes. rules_ok (cs_rules s)))"
  using assms
proof (induction w seen scopes rule: validate_scopes_loop.induct)
  case (2 w seen scope scopes)
  then have "cs_target scope \<notin> seen" "validate_scopes_loop w (insert (cs_target scope) seen) scopes = Inr u"
      "T4 \<le> spec w \<longrightarrow> rules_ok (cs_rules scope)"
    by (auto simp: runs dest: validate_call_scope_ok split: if_splits)
  then show ?case
    using 2(1) by fastforce
qed simp

lemma validate_call_scopes_ok:
  assumes "validate_call_scopes w scopes = Inr u"
  shows "distinct (map cs_target scopes) \<and> (T4 \<le> spec w \<longrightarrow> (\<forall>s \<in> set scopes. rules_ok (cs_rules s)))"
  using assms
  by (auto simp: validate_call_scopes_def has_duplicates_iff dest: validate_each_ok validate_scopes_loop_ok
      split: if_splits)

subsection \<open>Clearing\<close>

lemma clear_recipients_fold:
  "fold (\<lambda>sel sc. sc(sel := \<lparr>ss_recipients = es_delete (ss_recipients (sc sel))\<rparr>)) sels sc s =
    (if s \<in> set sels then \<lparr>ss_recipients = es_delete (ss_recipients (sc s))\<rparr> else sc s)"
  if "distinct sels"
  using that by (induction sels arbitrary: sc) auto

lemma clear_target_selectors_spec:
  assumes "ts_ok (ks_target_scopes ks target)"
  defines "ks' \<equiv> clear_target_selectors target ks"
  shows "ks_targets ks' = ks_targets ks \<and> is_scoped ks' = is_scoped ks
    \<and> (\<forall>t. t \<noteq> target \<longrightarrow> ks_target_scopes ks' t = ks_target_scopes ks t)
    \<and> ts_ok (ks_target_scopes ks' target) \<and> es_values (ts_selectors (ks_target_scopes ks' target)) = []"
proof -
  have d: "distinct (es_values (ts_selectors (ks_target_scopes ks target)))"
    using assms(1) by (simp add: ts_ok_def es_ok_def)
  show ?thesis
    using assms(1)
    by (auto simp: ks'_def clear_target_selectors_def Let_def ts_ok_def clear_recipients_fold [OF d] es_delete_ok)
qed

lemma clear_targets_fold:
  fixes ts :: "address list"
  assumes "\<forall>t. ts_ok (ks_target_scopes ks t)"
  defines "ks' \<equiv> fold clear_target_selectors ts ks"
  shows "ks_targets ks' = ks_targets ks \<and> is_scoped ks' = is_scoped ks
    \<and> (\<forall>t. ts_ok (ks_target_scopes ks' t)
        \<and> (t \<in> set ts \<or> es_values (ts_selectors (ks_target_scopes ks t)) = [] \<longrightarrow>
            es_values (ts_selectors (ks_target_scopes ks' t)) = []))"
  using assms(1) unfolding ks'_def
proof (induction ts arbitrary: ks)
  case (Cons x xs)
  note step = clear_target_selectors_spec [OF spec [OF Cons.prems, of x]]
  have "\<forall>t. ts_ok (ks_target_scopes (clear_target_selectors x ks) t)"
    using step Cons.prems by (metis (no_types))
  from Cons.IH [OF this] step show ?case
    by (simp del: fold_simps add: fold_simps(2)) (metis (no_types))
qed simp

lemma clear_all_target_scopes_spec:
  assumes "tree_ok ks"
  shows "tree_ok (clear_all_target_scopes ks) \<and> es_values (ks_targets (clear_all_target_scopes ks)) = []"
  using assms clear_targets_fold [of ks "es_values (ks_targets ks)"]
  by (auto simp: clear_all_target_scopes_def Let_def tree_ok_def es_delete_ok)

lemma remove_target_scope_spec:
  fixes target :: address
  assumes "tree_ok ks"
  defines "ks' \<equiv> remove_target_scope target ks"
  shows "tree_ok ks' \<and> is_scoped ks' = is_scoped ks
    \<and> (\<forall>t input. tree_allows ks' t input \<longleftrightarrow> t \<noteq> target \<and> tree_allows ks t input)"
proof -
  obtain b targets where r: "es_remove target (ks_targets ks) = (b, targets)"
    by fastforce
  have t: "es_ok targets" "set (es_values targets) = set (es_values (ks_targets ks)) - {target}"
      "b \<longleftrightarrow> target \<in> set (es_values (ks_targets ks))" "es_ok (ks_targets ks)"
    using es_remove_ok [of "ks_targets ks" target] assms(1) r by (auto simp: tree_ok_def)
  have "ts_ok (ks_target_scopes (ks\<lparr>ks_targets := targets\<rparr>) target)"
    using assms(1) by (simp add: tree_ok_def)
  note c = clear_target_selectors_spec [OF this]
  show ?thesis
  proof (cases b)
    case True
    then have k: "ks' = clear_target_selectors target (ks\<lparr>ks_targets := targets\<rparr>)"
      by (simp add: ks'_def remove_target_scope_def r)
    have S: "ks_target_scopes ks' x = ks_target_scopes ks x" if "x \<noteq> target" for x
      using c that by (simp add: k)
    have n: "ts_ok (ks_target_scopes ks' target)" "es_values (ts_selectors (ks_target_scopes ks' target)) = []"
      using c by (simp_all add: k)
    have "ts_ok (ks_target_scopes ks' x) \<and> (x \<notin> set (es_values targets) \<longrightarrow>
        es_values (ts_selectors (ks_target_scopes ks' x)) = [])" for x
      using n S assms(1) t by (cases "x = target") (auto simp: tree_ok_def)
    moreover have "ks_targets ks' = targets" "is_scoped ks' = is_scoped ks"
      using c by (simp_all add: k)
    moreover have "tree_allows ks' x input \<longleftrightarrow> x \<noteq> target \<and> tree_allows ks x input" for x input
      using calculation(2) S [of x] t by (cases "x = target") (auto simp: tree_allows_def es_contains_iff)
    ultimately show ?thesis
      using t by (simp add: tree_ok_def)
  next
    case False
    then show ?thesis
      using assms(1) t by (auto simp: ks'_def remove_target_scope_def r tree_allows_def es_contains_iff)
  qed
qed

subsection \<open>Writing scopes\<close>

lemma write_rules_spec:
  assumes "write_rules w rules ts = Inr ts'" "ts_ok ts" "rules_ok rules"
    and "set (map sr_selector rules) \<inter> set (es_values (ts_selectors ts)) = {}"
  shows "ts_ok ts' \<and> set (es_values (ts_selectors ts')) = set (es_values (ts_selectors ts)) \<union> set (map sr_selector rules)
    \<and> (\<forall>r \<in> set rules. es_values (ss_recipients (ts_selector_scopes ts' (sr_selector r))) = sr_recipients r)
    \<and> (\<forall>s. s \<notin> set (map sr_selector rules) \<longrightarrow> ts_selector_scopes ts' s = ts_selector_scopes ts s)"
  using assms
proof (induction rules arbitrary: ts)
  case (Cons rule rules)
  let ?s = "sr_selector rule" and ?old = "ss_recipients (ts_selector_scopes ts (sr_selector rule))"
  obtain b sels recs where ins: "es_insert ?s (ts_selectors ts) = Some (b, sels)"
    and recs: "(if sr_recipients rule = [] then Inr (if \<not> T4 \<le> spec w then es_delete ?old else ?old)
             else eok_or (es_write (sr_recipients rule) ?old) under_overflow) = Inr recs"
    and rest: "write_rules w rules \<lparr>ts_selectors = sels,
           ts_selector_scopes = (ts_selector_scopes ts)(?s := \<lparr>ss_recipients = recs\<rparr>)\<rparr> = Inr ts'"
    using Cons.prems(1) by (auto simp: runs Let_def)
  have old: "es_ok ?old" "es_values ?old = []"
    using Cons.prems(2,4) by (auto simp: ts_ok_def)
  have r: "es_ok recs \<and> es_values recs = sr_recipients rule"
    using recs old Cons.prems(3) es_write_ok [OF old(1), of "sr_recipients rule" recs]
    by (auto simp: runs es_delete_ok rules_ok_def split: if_splits)
  have s: "es_ok sels" "set (es_values sels) = insert ?s (set (es_values (ts_selectors ts)))"
    using es_insert_ok [OF _ ins] Cons.prems(2) by (auto simp: ts_ok_def)
  let ?ts = "\<lparr>ts_selectors = sels, ts_selector_scopes = (ts_selector_scopes ts)(?s := \<lparr>ss_recipients = recs\<rparr>)\<rparr>"
  have "ts_ok ?ts" "rules_ok rules" "set (map sr_selector rules) \<inter> set (es_values (ts_selectors ?ts)) = {}"
    using Cons.prems(2-4) r s by (auto simp: ts_ok_def rules_ok_def)
  from Cons.IH [OF rest this] show ?case
    using r s Cons.prems(3) ins recs by (auto simp: rules_ok_def image_iff)
qed simp

lemma ts_allows_of_rules:
  assumes "ts_ok ts" "set (es_values (ts_selectors ts)) = set (map sr_selector (cs_rules scope))"
    and "\<forall>r \<in> set (cs_rules scope). es_values (ss_recipients (ts_selector_scopes ts (sr_selector r))) = sr_recipients r"
  shows "ts_allows ts input \<longleftrightarrow> scope_allows scope input"
proof -
  have c: "es_contains (ts_selectors ts) x \<longleftrightarrow> x \<in> set (map sr_selector (cs_rules scope))" for x
    using assms(1,2) by (simp add: ts_ok_def es_contains_iff)
  have r: "es_contains (ss_recipients (ts_selector_scopes ts s)) x \<longleftrightarrow>
      x \<in> set (es_values (ss_recipients (ts_selector_scopes ts s)))" for s x
    using assms(1) by (simp add: ts_ok_def es_contains_iff)
  have e: "es_values (ts_selectors ts) = [] \<longleftrightarrow> cs_rules scope = []"
    using assms(2) by (metis list.map_disc_iff set_empty)
  show ?thesis
    unfolding ts_allows_def scope_allows_def rule_allows_def Let_def e c r
    using assms(3) by (auto simp del: take_drop drop_drop take_take intro!: rev_image_eqI)
qed

lemma upsert_target_scope_spec:
  assumes up: "upsert_target_scope w scope ks = Inr ks'" and tree: "tree_ok ks"
    and rules: "T4 \<le> spec w \<longrightarrow> rules_ok (cs_rules scope)"
  shows "tree_ok ks' \<and> is_scoped ks' = is_scoped ks
    \<and> (\<forall>t input. tree_allows ks' t input \<longleftrightarrow>
        (if t = cs_target scope then scope_allows scope input else tree_allows ks t input))"
proof -
  let ?t = "cs_target scope"
  obtain b targets where ins: "es_insert ?t (ks_targets ks) = Some (b, targets)"
    using up by (auto simp: upsert_target_scope_def runs)
  define k where "k = clear_target_selectors ?t (ks\<lparr>ks_targets := targets\<rparr>)"
  have ok: "rules_ok (cs_rules scope)"
    using up rules by (auto simp: upsert_target_scope_def runs dest: validate_call_scope_ok split: if_splits)
  have T: "es_ok targets" "set (es_values targets) = insert ?t (set (es_values (ks_targets ks)))"
    using es_insert_ok [OF _ ins] tree by (auto simp: tree_ok_def)
  have "ts_ok (ks_target_scopes (ks\<lparr>ks_targets := targets\<rparr>) ?t)"
    using tree by (simp add: tree_ok_def)
  note c = clear_target_selectors_spec [OF this, folded k_def]
  obtain ts where k': "ks' = k\<lparr>ks_target_scopes := (ks_target_scopes k)(?t := ts)\<rparr>"
    and wr: "write_rules w (cs_rules scope) (ks_target_scopes k ?t) = Inr ts"
  proof (cases "cs_rules scope = []")
    case True
    moreover have "k = k\<lparr>ks_target_scopes := (ks_target_scopes k)(?t := ks_target_scopes k ?t)\<rparr>"
      by (cases k) simp
    ultimately show thesis
      using up that [of "ks_target_scopes k ?t"] by (auto simp: upsert_target_scope_def runs ins Let_def k_def)
  qed (use up that in \<open>auto simp: upsert_target_scope_def runs ins Let_def k_def\<close>)
  have ts: "ts_ok ts" "set (es_values (ts_selectors ts)) = set (map sr_selector (cs_rules scope))"
      "\<forall>r \<in> set (cs_rules scope). es_values (ss_recipients (ts_selector_scopes ts (sr_selector r))) = sr_recipients r"
    using write_rules_spec [OF wr _ ok] c by simp_all
  have S: "ks_target_scopes k x = ks_target_scopes ks x" if "x \<noteq> ?t" for x
    using c that by simp
  have K: "ks_targets ks' = targets" "is_scoped ks' = is_scoped ks"
    using c by (simp_all add: k')
  have "ts_ok (ks_target_scopes ks' x) \<and> (x \<notin> set (es_values targets) \<longrightarrow>
      es_values (ts_selectors (ks_target_scopes ks' x)) = [])" for x
    using ts(1) S [of x] tree T by (cases "x = ?t") (auto simp: k' tree_ok_def)
  moreover have "tree_allows ks' x input \<longleftrightarrow>
      (if x = ?t then scope_allows scope input else tree_allows ks x input)" for x input
    using K S [of x] T tree ts_allows_of_rules [OF ts]
    by (cases "x = ?t") (auto simp: tree_allows_def es_contains_iff k' tree_ok_def)
  ultimately show ?thesis
    using K T by (simp add: tree_ok_def)
qed

lemma scopes_allow_Cons:
  "scopes_allow (s # scopes) t input \<longleftrightarrow> t = cs_target s \<and> scope_allows s input \<or> scopes_allow scopes t input"
  by (auto simp: scopes_allow_def)

lemma scopes_allow_target: "scopes_allow scopes t input \<Longrightarrow> t \<in> set (map cs_target scopes)"
  by (auto simp: scopes_allow_def)

lemma upsert_all_spec:
  assumes "upsert_all w scopes ks = Inr ks'" "tree_ok ks"
    and "T4 \<le> spec w \<longrightarrow> (\<forall>s \<in> set scopes. rules_ok (cs_rules s))" "distinct (map cs_target scopes)"
  shows "tree_ok ks' \<and> is_scoped ks' = is_scoped ks
    \<and> (\<forall>t input. tree_allows ks' t input \<longleftrightarrow>
        (if t \<in> set (map cs_target scopes) then scopes_allow scopes t input else tree_allows ks t input))"
  using assms
proof (induction scopes arbitrary: ks)
  case (Cons s scopes)
  obtain k where k: "upsert_target_scope w s ks = Inr k" "upsert_all w scopes k = Inr ks'"
    using Cons.prems(1) by (auto simp: runs)
  note one = upsert_target_scope_spec [OF k(1) Cons.prems(2)]
  have "tree_ok k" and T4: "T4 \<le> spec w \<longrightarrow> rules_ok (cs_rules s)"
    using one Cons.prems(3) by auto
  note rest = Cons.IH [OF k(2) this(1)]
  have "cs_target s \<notin> set (map cs_target scopes)"
    using Cons.prems(4) by simp
  then show ?case
    using rest one T4 Cons.prems(3,4) scopes_allow_target [of scopes]
    by (simp add: scopes_allow_Cons) (metis (no_types))
qed simp

section \<open>The scope operations of the contract\<close>

definition scopes_of :: "world \<Rightarrow> b256 \<Rightarrow> key_scope" where
  "scopes_of w = key_scopes (keychain w)"

text \<open>A key without scopes has no targets stored.\<close>

definition key_scope_ok :: "key_scope \<Rightarrow> bool" where
  "key_scope_ok ks \<longleftrightarrow> tree_ok ks \<and> (\<not> is_scoped ks \<longrightarrow> es_values (ks_targets ks) = [])"

definition scopes_wf :: "world \<Rightarrow> bool" where
  "scopes_wf w = (\<forall>lk. key_scope_ok (scopes_of w lk))"

lemma scopes_wfD: "scopes_wf w \<Longrightarrow> tree_ok (scopes_of w lk)"
  by (simp add: scopes_wf_def key_scope_ok_def)

lemma unscoped_allows_none: "scopes_wf w \<Longrightarrow> \<not> is_scoped (scopes_of w lk) \<Longrightarrow> \<not> tree_allows (scopes_of w lk) t input"
  by (simp add: scopes_wf_def key_scope_ok_def tree_allows_def tree_ok_def es_contains_iff)

lemma is_scoped_upd [simp]:
  "tree_ok (ks\<lparr>is_scoped := b\<rparr>) = tree_ok ks" "tree_allows (ks\<lparr>is_scoped := b\<rparr>) = tree_allows ks"
  by (auto simp: tree_ok_def tree_allows_def fun_eq_iff)

lemma set_allowed_calls_run:
  assumes "set_allowed_calls s k scopes w = Inr (x, w')"
  defines "lk \<equiv> spending_limit_key w s k"
  shows "\<exists>ks. validate_call_scopes w scopes = Inr () \<and> upsert_all w scopes (scopes_of w lk) = Inr ks
    \<and> T3 \<le> spec w \<and> write_scope lk (ks\<lparr>is_scoped := True\<rparr>) w = Inr ((), w')"
  using assms(1) unfolding set_allowed_calls_def lk_def
  by (auto simp: runs scopes_of_def)

lemma set_allowed_calls_scopes:
  assumes "set_allowed_calls s k scopes w = Inr (x, w')" "tree_ok (scopes_of w (spending_limit_key w s k))"
  defines "lk \<equiv> spending_limit_key w s k"
  shows "tree_ok (scopes_of w' lk) \<and> is_scoped (scopes_of w' lk) \<and> (\<forall>l. l \<noteq> lk \<longrightarrow> scopes_of w' l = scopes_of w l)
    \<and> spec w' = spec w \<and> keccak256 w' = keccak256 w \<and> T3 \<le> spec w
    \<and> (\<forall>t input. tree_allows (scopes_of w' lk) t input \<longleftrightarrow>
        (if t \<in> set (map cs_target scopes) then scopes_allow scopes t input else tree_allows (scopes_of w lk) t input))"
proof -
  obtain ks where v: "validate_call_scopes w scopes = Inr ()" and u: "upsert_all w scopes (scopes_of w lk) = Inr ks"
    and T3: "T3 \<le> spec w" and run: "write_scope lk (ks\<lparr>is_scoped := True\<rparr>) w = Inr ((), w')"
    using set_allowed_calls_run [OF assms(1)] unfolding lk_def by blast
  note d = validate_call_scopes_ok [OF v]
  have "spec w' = spec w" "keccak256 w' = keccak256 w" "scopes_of w' = (scopes_of w)(lk := ks\<lparr>is_scoped := True\<rparr>)"
    using run by (auto simp: write_scope_def scopes_of_def upd_keychain_def)
  then show ?thesis
    using upsert_all_spec [OF u] assms(2) d T3 by (simp add: lk_def)
qed

lemma replace_allowed_calls_scopes:
  assumes "replace_allowed_calls lk allowed w = Inr (x, w')" "tree_ok (scopes_of w lk)"
  shows "tree_ok (scopes_of w' lk) \<and> (\<forall>l. l \<noteq> lk \<longrightarrow> scopes_of w' l = scopes_of w l)
    \<and> spec w' = spec w \<and> keccak256 w' = keccak256 w \<and> is_scoped (scopes_of w' lk) = (allowed \<noteq> None)
    \<and> (\<forall>scopes t input. allowed = Some scopes \<longrightarrow>
        tree_allows (scopes_of w' lk) t input = scopes_allow scopes t input)
    \<and> (allowed = None \<longrightarrow> es_values (ks_targets (scopes_of w' lk)) = [])"
proof -
  let ?k = "clear_all_target_scopes (scopes_of w lk)"
  note c = clear_all_target_scopes_spec [OF assms(2)]
  have none: "\<not> tree_allows ?k t input" for t input
    using c by (simp add: tree_allows_def tree_ok_def es_contains_iff)
  obtain ks where run: "write_scope lk ks w = Inr ((), w')" and ks: "tree_ok ks" "is_scoped ks = (allowed \<noteq> None)"
    "\<forall>scopes t input. allowed = Some scopes \<longrightarrow> tree_allows ks t input = scopes_allow scopes t input"
    "allowed = None \<longrightarrow> es_values (ks_targets ks) = []"
  proof (cases "allowed = None \<or> allowed = Some []")
    case True
    then show thesis
      using that [of "?k\<lparr>is_scoped := allowed \<noteq> None\<rparr>"] assms(1) c none
      by (auto simp: replace_allowed_calls_def runs scopes_of_def scopes_allow_def)
  next
    case False
    then obtain scopes ks where sc: "allowed = Some scopes" and v: "validate_call_scopes w scopes = Inr ()"
      and u: "upsert_all w scopes (?k\<lparr>is_scoped := True\<rparr>) = Inr ks" and run: "write_scope lk ks w = Inr ((), w')"
      using assms(1) by (cases allowed) (auto simp: replace_allowed_calls_def runs scopes_of_def split: if_splits)
    note up = upsert_all_spec [OF u]
    have "tree_allows ks t input = scopes_allow scopes t input" for t input
      using up validate_call_scopes_ok [OF v] c none [of t input] scopes_allow_target [of scopes t input]
      by (cases "t \<in> set (map cs_target scopes)") auto
    then show thesis
      using that [OF run] up validate_call_scopes_ok [OF v] c sc by simp
  qed
  then show ?thesis
    by (auto simp: write_scope_def scopes_of_def upd_keychain_def)
qed

subsection \<open>The invariant in every history\<close>

lemma scopes_wf_cong: "preserves scopes_of m \<Longrightarrow> keeps scopes_wf m"
  by (auto simp: keeps_def preserves_def scopes_wf_def)

lemma scopes_frame [frame, intro!, simp]:
  "preserves scopes_of (write_key a k key)"
  "preserves scopes_of (write_limit lk t st)"
  "preserves scopes_of (emit_kc e)"
  by (simp_all add: preserves_def scopes_of_def write_key_def)

lemma scopes_frame_ops [frame, intro!, simp]:
  "preserves scopes_of (write_remaining lk t r)"
  "preserves scopes_of (apply_token_limit lk limit)"
  "preserves scopes_of (store_new_limit a k token lim)"
  "preserves scopes_of (verify_and_update_spending a k token amount)"
  "preserves scopes_of (refund_spending_limit a token amount)"
  unfolding write_remaining_def apply_token_limit_def store_new_limit_def verify_and_update_spending_def
    refund_spending_limit_def
  by (intro frame)+

lemma scopes_frame_calls [frame, intro!, simp]:
  "preserves scopes_of (update_spending_limit s k token lim)"
  "preserves scopes_of (revoke_key s k)"
  "preserves scopes_of (authorize_transfer a token amount)"
  "preserves scopes_of (authorize_approve a token old new)"
  unfolding update_spending_limit_def revoke_key_def authorize_transfer_def authorize_approve_def
  by (intro frame)+

lemma scopes_frame_context [frame, intro!, simp]:
  "preserves scopes_of (burn_key_authorization_witness s v)"
  "preserves scopes_of (set_transaction_key k)"
  "preserves scopes_of (set_tx_origin a)"
proof -
  have upd: "preserves scopes_of (upd_keychain f)" if "\<And>s. key_scopes (f s) = key_scopes s" for f
    using that by (simp add: preserves_def scopes_of_def)
  show "preserves scopes_of (burn_key_authorization_witness s v)"
    unfolding burn_key_authorization_witness_def burn_key_authorization_witness_value_def by (intro frame upd) simp
  show "preserves scopes_of (set_transaction_key k)" "preserves scopes_of (set_tx_origin a)"
    unfolding set_transaction_key_def set_tx_origin_def by (intro upd, simp)+
qed

lemma scopes_wf_one:
  "scopes_wf w \<Longrightarrow> key_scope_ok (scopes_of w' lk) \<Longrightarrow> \<forall>l. l \<noteq> lk \<longrightarrow> scopes_of w' l = scopes_of w l \<Longrightarrow> scopes_wf w'"
  unfolding scopes_wf_def by metis

lemma scopes_keeping [keeping, intro!, simp]:
  "keeps scopes_wf (replace_allowed_calls lk allowed)"
  "keeps scopes_wf (set_allowed_calls s k scopes)"
  "keeps scopes_wf (remove_allowed_calls s k target)"
proof -
  show "keeps scopes_wf (replace_allowed_calls lk allowed)"
    unfolding keeps_def
  proof (intro allI impI)
    fix w x w' assume "scopes_wf w" "replace_allowed_calls lk allowed w = Inr (x, w')"
    then show "scopes_wf w'"
      using replace_allowed_calls_scopes [of lk allowed w x w'] scopes_wfD
      by (intro scopes_wf_one [of w w' lk]) (auto simp: key_scope_ok_def)
  qed
  show "keeps scopes_wf (set_allowed_calls s k scopes)"
    unfolding keeps_def
  proof (intro allI impI)
    fix w x w' assume "scopes_wf w" "set_allowed_calls s k scopes w = Inr (x, w')"
    then show "scopes_wf w'"
      using set_allowed_calls_scopes [of s k scopes w x w'] scopes_wfD
      by (intro scopes_wf_one [of w w' "spending_limit_key w s k"]) (auto simp: key_scope_ok_def)
  qed
  show "keeps scopes_wf (remove_allowed_calls s k target)"
    by (auto simp: keeps_def remove_allowed_calls_def runs write_scope_def upd_keychain_def scopes_wf_def key_scope_ok_def
        scopes_of_def remove_target_scope_spec split: if_splits)
qed

lemma authorize_keeping [keeping, intro!, simp]:
  "keeps scopes_wf (authorize_key_internal s k sig config wit adm)"
  unfolding authorize_key_internal_def apply_key_authorization_restrictions_def
  by (intro keeping scopes_wf_cong frame)

lemma keychain_exec_scopes: "keeps scopes_wf (keychain_exec c)"
proof (cases c)
  case (AuthorizeAdminKey s k sig wit)
  then show ?thesis
    by (simp add: authorize_admin_key_def) (intro keeping scopes_wf_cong frame)
next
  case (NewTransaction k origin time f)
  have "preserves scopes_of (modify (\<lambda>w. w\<lparr>timestamp := time, spec := f\<rparr>))"
    by (rule preserves_modify) (simp add: scopes_of_def)
  then show ?thesis
    using NewTransaction by (auto intro!: scopes_wf_cong preserves_rseq)
qed (simp_all add: authorize_key_def scopes_wf_cong)

definition scope_env :: "world \<Rightarrow> (b256 \<Rightarrow> key_scope) \<times> hardfork \<times> (preimage \<Rightarrow> b256)" where
  "scope_env w = (scopes_of w, spec w, keccak256 w)"

lemma scope_env_frame [frame, intro!, simp]:
  "preserves scope_env (write_key a k key)" "preserves scope_env (write_limit lk t st)"
  "preserves scope_env (emit_kc e)"
  by (simp_all add: preserves_def scope_env_def scopes_of_def write_key_def)

lemma scope_env_frame_limit [frame, intro!, simp]: "preserves scope_env (apply_token_limit lk limit)"
  unfolding apply_token_limit_def write_remaining_def by (intro frame)

lemma authorize_key_scope_run:
  assumes run: "authorize_key s k sig config wit w = Inr (x, w')" and T3: "T3 \<le> spec w"
    and scoped: "\<not> kr_allow_any_calls config"
  shows "\<exists>w1 w2. k \<noteq> 0 \<and> scopes_of w1 = scopes_of w \<and> spec w1 = spec w \<and> keccak256 w1 = keccak256 w
    \<and> replace_allowed_calls (spending_limit_key w s k) (Some (kr_allowed_calls config)) w1 = Inr ((), w2)
    \<and> scopes_of w' = scopes_of w2 \<and> spec w' = spec w2 \<and> keccak256 w' = keccak256 w2"
proof -
  obtain st allowed where checks: "authorize_key_checks w s k sig config wit False = Inr (st, allowed)"
    and rest: "rseq (write_key s k \<lparr>key_signature_type = st, key_expiry = kr_expiry config,
         key_enforce_limits = kr_enforce_limits config, key_is_revoked = False, key_is_admin = False\<rparr>)
       (rseq (apply_key_authorization_restrictions s k
         (if kr_enforce_limits config then kr_limits config else []) allowed)
       (rseq (case wit of None \<Rightarrow> ok () | Some v \<Rightarrow> emit_kc (KeyAuthorizationWitness s v))
         (emit_kc (KeyAuthorized s k (signature_type_u8 st) (kr_expiry config))))) w = Inr (x, w')"
    using run unfolding authorize_key_def authorize_key_internal_def rbind_eq_Inr rd_eq_Inr
    by (auto simp: only_if_def)
  have k: "k \<noteq> 0" "allowed = Some (kr_allowed_calls config)"
    using checks T3 scoped
    by (auto simp: authorize_key_checks_def allowed_call_configs_def runs Let_def split: if_splits)
  obtain v1 v2 v3 where v1: "write_key s k \<lparr>key_signature_type = st, key_expiry = kr_expiry config,
       key_enforce_limits = kr_enforce_limits config, key_is_revoked = False, key_is_admin = False\<rparr> w = Inr ((), v1)"
    and v2: "apply_key_authorization_restrictions s k
       (if kr_enforce_limits config then kr_limits config else []) allowed v1 = Inr ((), v2)"
    and v3: "(case wit of None \<Rightarrow> ok () | Some v \<Rightarrow> emit_kc (KeyAuthorizationWitness s v)) v2 = Inr ((), v3)"
    and w': "emit_kc (KeyAuthorized s k (signature_type_u8 st) (kr_expiry config)) v3 = Inr (x, w')"
    using rest unfolding rseq_eq_Inr by blast
  have e: "scope_env v1 = scope_env w" "scope_env v3 = scope_env v2" "scope_env w' = scope_env v3"
    subgoal using v1 by (rule preservesD [rotated]) (intro frame)
    subgoal using v3 by (rule preservesD [rotated]) (intro frame)
    subgoal using w' by (rule preservesD [rotated]) (intro frame)
    done
  obtain u where u: "for_each (if kr_enforce_limits config then kr_limits config else [])
        (apply_token_limit (spending_limit_key v1 s k)) v1 = Inr ((), u)"
    and r: "(if \<not> T3 \<le> spec u then ok () else replace_allowed_calls (spending_limit_key v1 s k) allowed) u = Inr ((), v2)"
    using v2 unfolding apply_key_authorization_restrictions_def rseq_eq_Inr rbind_eq_Inr gets_run by auto
  have "scope_env u = scope_env v1"
    using u by (rule preservesD [rotated]) (intro frame)
  then have eqs: "scopes_of u = scopes_of w" "spec u = spec w" "keccak256 u = keccak256 w" "keccak256 v1 = keccak256 w"
      "scopes_of w' = scopes_of v2" "spec w' = spec v2" "keccak256 w' = keccak256 v2"
    using e by (simp_all add: scope_env_def)
  then have "replace_allowed_calls (spending_limit_key w s k) (Some (kr_allowed_calls config)) u = Inr ((), v2)"
    using r T3 k by (simp add: spending_limit_key_def)
  then show ?thesis
    using eqs k(1) by blast
qed

interpretation scope_trees: invariant_machine keychain_exec scopes_wf
  by unfold_locales (rule keychain_exec_scopes)

section \<open>Properties\<close>

text \<open>C4: The scopes of a new key are enforced exactly. After \<open>authorizeKey\<close> with a list of call
  scopes, the transaction check accepts a call of that key if and only if some configured scope names the
  called target and either has no rules, or has a rule for the call's selector whose recipient list is
  empty or contains the first argument, which must be a well-formed address word. Contract creation is
  always rejected.\<close>

theorem authorized_scopes_enforced:
  assumes run: "authorize_key s k sig config wit w = Inr (x, w')" and T3: "T3 \<le> spec w"
    and scoped: "\<not> kr_allow_any_calls config" and wf: "scopes_wf w"
  shows "validate_call_scope_for_transaction w' s k (TxCall target) input =
      (if scopes_allow (kr_allowed_calls config) target input then Inr () else Inl (kerr CallNotAllowed))
    \<and> validate_call_scope_for_transaction w' s k TxCreate input = Inl (kerr CallNotAllowed)"
proof -
  let ?lk = "spending_limit_key w s k"
  obtain w1 w2 where k: "k \<noteq> 0"
    and w1: "scopes_of w1 = scopes_of w" "spec w1 = spec w" "keccak256 w1 = keccak256 w"
    and w2: "replace_allowed_calls ?lk (Some (kr_allowed_calls config)) w1 = Inr ((), w2)"
    and w': "scopes_of w' = scopes_of w2" "spec w' = spec w2" "keccak256 w' = keccak256 w2"
    using authorize_key_scope_run [OF run T3 scoped] by blast
  have "tree_ok (scopes_of w1 ?lk)"
    using scopes_wfD [OF wf] w1 by simp
  from replace_allowed_calls_scopes [OF w2 this] show ?thesis
    using k T3 w1 w' validate_call_iff_tree [OF k, of w' s target input]
    by (simp add: validate_call_scope_for_transaction_def [of _ _ _ TxCreate] scopes_of_def spending_limit_key_def Let_def)
qed

text \<open>C17: after \<open>setAllowedCalls\<close> the transaction check accepts a call of the key to a listed target exactly as its
  new scope says. A call to any other target is decided as before if the key was restricted before; if it was not,
  such a call is now rejected. The scopes of other keys are unchanged.\<close>

theorem scope_update_exact:
  assumes run: "set_allowed_calls s k scopes w = Inr (x, w')" and k: "k \<noteq> 0" and wf: "scopes_wf w"
  shows "validate_call_scope_for_transaction w' s k (TxCall target) input =
      (if target \<in> set (map cs_target scopes)
       then if scopes_allow scopes target input then Inr () else Inl (kerr CallNotAllowed)
       else if is_scoped (scopes_of w (spending_limit_key w s k))
       then validate_call_scope_for_transaction w s k (TxCall target) input
       else Inl (kerr CallNotAllowed))
    \<and> (lk \<noteq> spending_limit_key w s k \<longrightarrow> scopes_of w' lk = scopes_of w lk)"
proof -
  note calls = set_allowed_calls_scopes [OF run scopes_wfD [OF wf]]
  then have "T3 \<le> spec w" "spending_limit_key w' s k = spending_limit_key w s k"
    by (simp_all add: spending_limit_key_def)
  then show ?thesis
    using calls validate_call_iff_tree [OF k, of w' s target input] validate_call_iff_tree [OF k, of w s target input]
      unscoped_allows_none [OF wf, of "spending_limit_key w s k" target input]
    by (simp add: scopes_of_def Let_def)
qed

text \<open>C22: In every history of keychain calls, transactions and hardforks the stored scope trees stay
  well formed: every set agrees with its position index, and below an absent target or selector nothing
  is left, so that a later insertion never inherits stale restrictions or permissions; a key without scopes has no
  targets.\<close>

theorem scope_trees_well_formed:
  assumes "scopes_wf w"
  shows "scopes_wf (run_ops keychain_exec cs w)"
  using assms by (rule scope_trees.run_ops_inv)

subsection \<open>A concrete key\<close>

definition sample_scope_world :: world where
  "sample_scope_world = (empty_world T7)\<lparr>timestamp := 1000, keychain := empty_keychain\<lparr>tx_origin := 1\<rparr>\<rparr>"

definition sample_scopes :: "call_scope list" where
  "sample_scopes = [\<lparr>cs_target = 5, cs_rules = [\<lparr>sr_selector = 0xa9059cbb, sr_recipients = []\<rparr>]\<rparr>]"

definition sample_restrictions :: key_restrictions where
  "sample_restrictions = \<lparr>kr_expiry = 5000, kr_enforce_limits = False, kr_limits = [], kr_allow_any_calls = False,
    kr_allowed_calls = sample_scopes\<rparr>"

lemma sample_scope_world_wf: "scopes_wf sample_scope_world"
  by (simp add: scopes_wf_def scopes_of_def sample_scope_world_def empty_defs key_scope_ok_def tree_ok_def ts_ok_def es_empty_ok es_empty_def es_ok_def)

lemma sample_authorize_checks:
  "authorize_key_checks sample_scope_world 1 2 (Some P256) sample_restrictions None False = Inr (P256, Some sample_scopes)"
  by (simp add: authorize_key_checks_def run_defs sample_restrictions_def sample_scope_world_def
      fork_order empty_keychain_def ensure_admin_caller_def now64_def saturating_to_def umax_def
      ensure_signature_type_active_def allowed_call_configs_def)

lemma sample_scopes_valid: "spec w = T7 \<Longrightarrow> validate_call_scopes w sample_scopes = Inr ()"
  by (simp add: sample_scopes_def validate_call_scopes_def validate_call_scope_def validate_selector_rules_def fork_order)

lemma sample_scopes_upsert:
  assumes "spec w = T7" "es_values (ks_targets ks) = []"
  shows "\<exists>ks'. upsert_all w sample_scopes ks = Inr ks'"
  using assms
  by (auto simp: sample_scopes_def upsert_target_scope_def es_insert_def fork_order Let_def checked_position_def
      clear_target_selectors_def es_delete_def split: option.splits)

lemma sample_scope_world_spec: "spec sample_scope_world = T7"
  by (simp add: sample_scope_world_def)

lemma sample_restrictions_sel:
  "kr_expiry sample_restrictions = 5000" "\<not> kr_enforce_limits sample_restrictions"
  by (simp_all add: sample_restrictions_def)

lemma sample_authorize:
  obtains w' where "authorize_key 1 2 (Some P256) sample_restrictions None sample_scope_world = Inr ((), w')"
proof -
  define w1 where "w1 = sample_scope_world\<lparr>keychain := (keychain sample_scope_world)\<lparr>kc_keys :=
    (kc_keys (keychain sample_scope_world))(1 := (kc_keys (keychain sample_scope_world) 1)(2 :=
      \<lparr>key_signature_type = P256, key_expiry = 5000, key_enforce_limits = False, key_is_revoked = False,
       key_is_admin = False\<rparr>))\<rparr>\<rparr>"
  have w1: "spec w1 = T7" "scopes_of w1 = scopes_of sample_scope_world"
    by (simp_all add: w1_def sample_scope_world_def scopes_of_def)
  let ?ks = "clear_all_target_scopes (scopes_of w1 (spending_limit_key w1 1 2))\<lparr>is_scoped := True\<rparr>"
  have "es_values (ks_targets ?ks) = []"
    using clear_all_target_scopes_spec scopes_wfD [OF sample_scope_world_wf] by (simp add: w1)
  then obtain ks where ks: "upsert_all w1 sample_scopes ?ks = Inr ks"
    using sample_scopes_upsert [OF w1(1)] by blast
  have "replace_allowed_calls (spending_limit_key w1 1 2) (Some sample_scopes) w1 =
      write_scope (spending_limit_key w1 1 2) ks w1"
    using ks sample_scopes_valid [OF w1(1)]
    by (simp add: replace_allowed_calls_def run_defs scopes_of_def sample_scopes_def)
  then show ?thesis
    using that
    by (simp add: authorize_key_def authorize_key_internal_def run_defs sample_authorize_checks write_key_def
        apply_key_authorization_restrictions_def sample_restrictions_sel sample_scope_world_spec w1_def [symmetric] w1 fork_order write_scope_def)
qed

theorem authorized_scopes_enforced_witness:
  "\<exists>w'. authorize_key 1 2 (Some P256) sample_restrictions None sample_scope_world = Inr ((), w')
    \<and> validate_call_scope_for_transaction w' 1 2 (TxCall 5) [0xa9, 0x05, 0x9c, 0xbb] = Inr ()
    \<and> validate_call_scope_for_transaction w' 1 2 (TxCall 6) [0xa9, 0x05, 0x9c, 0xbb] = Inl (kerr CallNotAllowed)"
proof -
  obtain w' where run: "authorize_key 1 2 (Some P256) sample_restrictions None sample_scope_world = Inr ((), w')"
    by (rule sample_authorize)
  have "T3 \<le> spec sample_scope_world" "\<not> kr_allow_any_calls sample_restrictions"
    by (simp_all add: sample_scope_world_def sample_restrictions_def fork_order)
  note enforced = authorized_scopes_enforced [OF run this sample_scope_world_wf]
  have "scopes_allow (kr_allowed_calls sample_restrictions) 5 [0xa9, 0x05, 0x9c, 0xbb]"
      "\<not> scopes_allow (kr_allowed_calls sample_restrictions) 6 [0xa9, 0x05, 0x9c, 0xbb]"
    by (simp_all add: scopes_allow_def scope_allows_def rule_allows_def sample_restrictions_def sample_scopes_def be_word_def)
  then show ?thesis
    using run enforced [of 5 "[0xa9, 0x05, 0x9c, 0xbb]"] enforced [of 6 "[0xa9, 0x05, 0x9c, 0xbb]"] by auto
qed

text \<open>The new key is then changed by its owner, signing with the root key.\<close>

lemma scope_world_set_allowed:
  obtains w' where "set_allowed_calls 1 2 sample_scopes (sample_limit_world\<lparr>keychain := (keychain sample_limit_world)\<lparr>tx_origin := 1\<rparr>\<rparr>)
    = Inr ((), w')"
proof -
  let ?w = "sample_limit_world\<lparr>keychain := (keychain sample_limit_world)\<lparr>tx_origin := 1\<rparr>\<rparr>"
  have spec: "spec ?w = T7"
    by (simp add: sample_limit_world_facts)
  have "es_values (ks_targets (key_scopes (keychain ?w) lk)) = []" for lk
    by (simp add: sample_limit_world_def empty_keychain_def es_empty_def)
  then obtain ks where ks: "upsert_all ?w sample_scopes (key_scopes (keychain ?w) (spending_limit_key ?w 1 2)) = Inr ks"
    using sample_scopes_upsert [OF spec] by blast
  have load: "load_active_key ?w 1 2 (now64 ?w) = Inr \<lparr>key_signature_type = P256, key_expiry = 5000,
      key_enforce_limits = True, key_is_revoked = False, key_is_admin = False\<rparr>"
    using sample_limit_world_facts(2,3) by (simp add: load_active_key_def now64_def)
  have admin: "ensure_admin_caller ?w 1 = Inr ()"
    by (simp add: ensure_admin_caller_def sample_limit_world_def empty_keychain_def fork_order Let_def)
  show thesis
    using that ks load admin sample_scopes_valid [OF spec] spec
    by (simp add: set_allowed_calls_def run_defs fork_order write_scope_def sample_scopes_def)
qed

theorem scope_update_exact_witness:
  "\<exists>w'. set_allowed_calls 1 2 sample_scopes (sample_limit_world\<lparr>keychain := (keychain sample_limit_world)\<lparr>tx_origin := 1\<rparr>\<rparr>)
      = Inr ((), w')
    \<and> validate_call_scope_for_transaction w' 1 2 (TxCall 5) [0xa9, 0x05, 0x9c, 0xbb] = Inr ()
    \<and> validate_call_scope_for_transaction w' 1 2 (TxCall 5) [] = Inl (kerr CallNotAllowed)
    \<and> validate_call_scope_for_transaction w' 1 2 (TxCall 9) [] = Inl (kerr CallNotAllowed)"
proof -
  let ?w = "sample_limit_world\<lparr>keychain := (keychain sample_limit_world)\<lparr>tx_origin := 1\<rparr>\<rparr>"
  obtain w' where run: "set_allowed_calls 1 2 sample_scopes ?w = Inr ((), w')"
    by (rule scope_world_set_allowed)
  have wf: "scopes_wf ?w"
    by (simp add: scopes_wf_def scopes_of_def sample_limit_world_def empty_keychain_def key_scope_ok_def tree_ok_def ts_ok_def
        es_empty_ok es_empty_def es_ok_def)
  note exact = scope_update_exact [OF run _ wf]
  have "scopes_allow sample_scopes 5 [0xa9, 0x05, 0x9c, 0xbb]" "\<not> scopes_allow sample_scopes 5 []"
      "5 \<in> set (map cs_target sample_scopes)"
    by (simp_all add: scopes_allow_def scope_allows_def rule_allows_def sample_scopes_def be_word_def)
  moreover have "9 \<notin> set (map cs_target sample_scopes)" "\<not> is_scoped (scopes_of ?w (spending_limit_key ?w 1 2))"
    by (simp_all add: sample_scopes_def scopes_of_def sample_limit_world_def empty_keychain_def)
  ultimately show ?thesis
    using run exact [of 5 "[0xa9, 0x05, 0x9c, 0xbb]"] exact [of 5 "[]"] exact [of 9 "[]"] by auto
qed

theorem scope_trees_well_formed_witness:
  "\<exists>w'. keychain_exec (AuthorizeKey 1 2 (Some P256) sample_restrictions None) sample_scope_world = Inr ((), w') \<and> scopes_wf w'"
proof -
  obtain w' where "authorize_key 1 2 (Some P256) sample_restrictions None sample_scope_world = Inr ((), w')"
    by (rule sample_authorize)
  then show ?thesis
    using scope_trees_well_formed [OF sample_scope_world_wf, of "[AuthorizeKey 1 2 (Some P256) sample_restrictions None]"] by simp
qed

end
