(* ===== verification/Address_Registry.thy ===== *)
theory Address_Registry
  imports World
begin

text \<open>
  The virtual address registry (\<open>precompiles/src/address_registry/mod.rs\<close>): registration of
  masters under a proof of work and resolution of virtual recipients. The lemmas show that a
  registration is permanent and that resolution ends at an address that is not virtual.
\<close>

section \<open>Operations\<close>

definition IMPLICIT_APPROVAL_LIST :: "address list" where
  "IMPLICIT_APPROVAL_LIST =
    [TIP_FEE_MANAGER_ADDRESS, STABLECOIN_DEX_ADDRESS, TIP20_CHANNEL_RESERVE_ADDRESS]"

definition is_implicitly_approved :: "address \<Rightarrow> hardfork \<Rightarrow> bool" where
  "is_implicitly_approved addr f = (if \<not> T5 \<le> f then False else addr \<in> set IMPLICIT_APPROVAL_LIST)"

definition master_address :: "registry_data \<Rightarrow> address option" where
  "master_address d = (if master_address_slot d = 0 then None else Some (master_address_slot d))"

text \<open>The first four bytes of a hash are its 32 highest bits, the bytes \<open>[4:8]\<close> the next 32.\<close>

definition register_virtual_master :: "address \<Rightarrow> b256 \<Rightarrow> master_id M" where
  "register_virtual_master msg_sender salt =
    rseq (ensure (is_valid_master msg_sender) (AddrRegistryError InvalidMasterAddress))
   (rbind (gets (\<lambda>w. keccak256 w (PackedAddressSalt msg_sender salt))) (\<lambda>registration_hash.
    rseq (ensure (drop_bit 224 registration_hash = 0) (AddrRegistryError ProofOfWorkFailed))
   (let mid = ucast (drop_bit 192 registration_hash) :: master_id in
    rbind (gets (\<lambda>w. master_address (addr_data w mid))) (\<lambda>existing.
    case existing of
      Some master \<Rightarrow> err (AddrRegistryError (MasterIdCollision master))
    | None \<Rightarrow>
        rseq (modify (\<lambda>w. w\<lparr>addr_data := (addr_data w)(mid :=
          \<lparr>master_address_slot = msg_sender, rd_reserved = 0, rd_ty = 0\<rparr>)\<rparr>))
       (rseq (emit_event ADDRESS_REGISTRY_ADDRESS (AddrRegistryEvent (MasterRegistered mid msg_sender)))
       (ok mid))))))"

definition get_master :: "world \<Rightarrow> master_id \<Rightarrow> address option" where
  "get_master w mid = master_address (addr_data w mid)"

definition resolve_recipient :: "world \<Rightarrow> address \<Rightarrow> address R" where
  "resolve_recipient w to =
    (if \<not> T3 \<le> spec w then Inr to
     else case decode_virtual to of
       None \<Rightarrow> Inr to
     | Some (mid, _) \<Rightarrow> eok_or (get_master w mid) (AddrRegistryError VirtualAddressUnregistered))"

definition resolve_virtual_address :: "world \<Rightarrow> address \<Rightarrow> address" where
  "resolve_virtual_address w addr =
    (case decode_virtual addr of
       None \<Rightarrow> 0
     | Some (mid, _) \<Rightarrow> (case get_master w mid of None \<Rightarrow> 0 | Some m \<Rightarrow> m))"

section \<open>Registrations\<close>

abbreviation register_all :: "(address \<times> b256) list \<Rightarrow> world \<Rightarrow> world" where
  "register_all \<equiv> run_ops (\<lambda>(sender, salt). register_virtual_master sender salt)"

text \<open>Every stored master passed the check of \<open>is_valid_master\<close>.\<close>

definition masters_valid :: "world \<Rightarrow> bool" where
  "masters_valid w = (\<forall>mid m. get_master w mid = Some m \<longrightarrow> is_valid_master m)"

lemma register_virtual_master_run:
  "register_virtual_master sender salt w = Inr (mid, w') \<longleftrightarrow>
    is_valid_master sender
    \<and> drop_bit 224 (keccak256 w (PackedAddressSalt sender salt)) = 0
    \<and> mid = ucast (drop_bit 192 (keccak256 w (PackedAddressSalt sender salt)))
    \<and> get_master w mid = None
    \<and> w' = w\<lparr>addr_data := (addr_data w)(mid :=
          \<lparr>master_address_slot = sender, rd_reserved = 0, rd_ty = 0\<rparr>),
        logs := logs w @ [(ADDRESS_REGISTRY_ADDRESS, AddrRegistryEvent (MasterRegistered mid sender))]\<rparr>"
  by (auto simp: register_virtual_master_def get_master_def runs Let_def split: option.splits)

lemma register_get_master:
  assumes "register_virtual_master sender salt w = Inr (mid, w')"
  shows "get_master w' m = (if m = mid then Some sender else get_master w m)"
  using assms
  by (auto simp: register_virtual_master_run get_master_def master_address_def is_valid_master_def)

lemma register_keeps_masters_valid: "keeps masters_valid (register_virtual_master sender salt)"
  unfolding keeps_def masters_valid_def
  by (metis option.inject register_get_master register_virtual_master_run)

interpretation registrations: invariant_machine "\<lambda>(sender, salt). register_virtual_master sender salt" masters_valid
  by unfold_locales (auto simp: register_keeps_masters_valid)

lemma run_ops_get_master:
  "get_master w mid = Some m \<Longrightarrow>
    get_master (register_all cs w) mid = Some m"
proof (induction cs arbitrary: w)
  case (Cons c cs)
  obtain sender salt where c: "c = (sender, salt)"
    by (cases c) auto
  show ?case
  proof (cases "register_virtual_master sender salt w")
    case (Inr r)
    then obtain mid' w' where r: "register_virtual_master sender salt w = Inr (mid', w')"
      by (cases r) auto
    then have "get_master w mid' = None"
      unfolding register_virtual_master_run by blast
    then have "get_master w' mid = Some m"
      using Cons.prems register_get_master [OF r, of mid] by auto
    then show ?thesis
      using Cons.IH r by (simp add: c)
  qed (use Cons in \<open>simp add: c\<close>)
qed simp

lemma run_ops_spec:
  "spec (register_all cs w) = spec w"
proof (induction cs arbitrary: w)
  case (Cons c cs)
  then show ?case
    by (cases c) (auto simp: register_virtual_master_run split: sum.splits)
qed simp

lemma empty_masters_valid: "masters_valid (empty_world f)"
  by (simp add: masters_valid_def get_master_def master_address_def empty_defs)

section \<open>Properties\<close>

text \<open>C18: A virtual address resolves to its master for ever. Once an account has registered under
  a master id, after any sequence of further registration attempts every virtual address with that
  id, whatever its user tag, resolves to that account, and the account is itself not virtual.\<close>

theorem virtual_resolution_permanent:
  assumes "T3 \<le> spec w" "masters_valid w"
    and "register_virtual_master sender salt w = Inr (mid, w')"
  shows "resolve_recipient (register_all cs w') (new_virtual mid tag) = Inr sender
    \<and> \<not> is_virtual sender \<and> masters_valid (register_all cs w')"
proof -
  define w'' where "w'' = register_all cs w'"
  have "get_master w' mid = Some sender"
    using register_get_master [OF assms(3)] by simp
  then have master: "get_master w'' mid = Some sender"
    unfolding w''_def by (rule run_ops_get_master)
  have "spec w'' = spec w"
    using assms(3) by (auto simp: w''_def run_ops_spec register_virtual_master_run)
  moreover have "masters_valid w''"
    unfolding w''_def
    by (rule registrations.run_ops_inv) (rule keepsD [OF register_keeps_masters_valid assms(3,2)])
  moreover have "is_valid_master sender"
    using assms(3) unfolding register_virtual_master_run by blast
  ultimately show ?thesis
    using master assms(1)
    by (simp add: resolve_recipient_def decode_new_virtual is_valid_master_def flip: w''_def)
qed

theorem virtual_resolution_permanent_witness:
  "\<exists>w'. register_virtual_master 9 5 (empty_world T3) = Inr (0, w')
    \<and> resolve_recipient w' (new_virtual 0 17) = Inr 9"
proof -
  have "is_valid_master 9"
    by (simp add: is_valid_master_def is_virtual_def is_tip20_prefix_def VIRTUAL_MAGIC_def
        TIP20_TOKEN_PREFIX_def take_bit_eq_mask mask_eq_exp_minus_1 drop_bit_eq_div)
  then obtain w' where run: "register_virtual_master 9 5 (empty_world T3) = Inr (0, w')"
    by (simp add: register_virtual_master_run get_master_def master_address_def empty_defs)
  have "resolve_recipient w' (new_virtual 0 17) = Inr 9"
    using virtual_resolution_permanent [OF _ empty_masters_valid run, of "[]" 17]
    by (simp add: empty_defs)
  then show ?thesis
    using run by blast
qed

end
