(* ===== verification/Receipts.thy ===== *)
theory Receipts
  imports Address_Registry Policy_Registry
begin

text \<open>
  Resolved recipients (\<open>Recipient\<close> of \<open>precompiles/src/tip20/mod.rs\<close>) and the receipts of the
  receive-policy guard (\<open>precompiles/src/receive_policy_guard/mod.rs\<close>,
  \<open>contracts/src/precompiles/receive_policy_guard.rs\<close>): what a token needs to divert a blocked
  transfer. A receipt is passed as ABI-encoded bytes; the model takes the result of decoding, \<open>None\<close>
  when the bytes are malformed.
\<close>

section \<open>Recipients\<close>

record recipient =
  target :: address
  virtual_addr :: "address option"

definition direct :: "address \<Rightarrow> recipient" where
  "direct addr = \<lparr>target = addr, virtual_addr = None\<rparr>"

definition resolve :: "world \<Rightarrow> address \<Rightarrow> recipient R" where
  "resolve w addr =
    ebind (resolve_recipient w addr) (\<lambda>effective.
      Inr (if effective = addr then direct addr else \<lparr>target = effective, virtual_addr = Some addr\<rparr>))"

definition original_address :: "recipient \<Rightarrow> address" where
  "original_address to = (case virtual_addr to of Some a \<Rightarrow> a | None \<Rightarrow> target to)"

definition validate :: "recipient \<Rightarrow> unit R" where
  "validate to =
    (if target to = 0 \<or> is_tip20_prefix (target to) then Inl (TIP20 InvalidRecipient) else Inr ())"

definition build_transfer_event :: "recipient \<Rightarrow> address \<Rightarrow> u256 \<Rightarrow> tip20_event" where
  "build_transfer_event to from amount = Transfer from (original_address to) amount"

definition build_virtual_transfer_event :: "recipient \<Rightarrow> u256 \<Rightarrow> tip20_event option" where
  "build_virtual_transfer_event to amount =
    map_option (\<lambda>a. Transfer a (target to) amount) (virtual_addr to)"

section \<open>Receipts\<close>

definition RECOVERY_ORIGINATOR :: address where
  "RECOVERY_ORIGINATOR = 0"

definition recovery_from :: "claim_receipt \<Rightarrow> address \<Rightarrow> recovery_mode" where
  "recovery_from receipt receiver =
    (if rc_recovery_authority receipt = RECOVERY_ORIGINATOR then Originator
     else if rc_recovery_authority receipt = receiver then Receiver
     else ThirdParty)"

primrec authority :: "recovery_mode \<Rightarrow> claim_receipt \<Rightarrow> address" where
  "authority Originator receipt = rc_originator receipt"
| "authority Receiver receipt = rc_recovery_authority receipt"
| "authority ThirdParty receipt = rc_recovery_authority receipt"

primrec policy_subject :: "recovery_mode \<Rightarrow> address \<Rightarrow> address \<Rightarrow> address" where
  "policy_subject Originator originator receiver = originator"
| "policy_subject Receiver originator receiver = receiver"
| "policy_subject ThirdParty originator receiver = receiver"

primrec is_reroute :: "recovery_mode \<Rightarrow> address \<Rightarrow> address \<Rightarrow> bool" where
  "is_reroute Originator to receiver = True"
| "is_reroute Receiver to receiver = (to \<noteq> receiver)"
| "is_reroute ThirdParty to receiver = (to \<noteq> receiver)"

primrec spending_account :: "recovery_mode \<Rightarrow> address \<Rightarrow> address option" where
  "spending_account Originator auth = Some auth"
| "spending_account Receiver auth = Some auth"
| "spending_account ThirdParty auth = None"

definition new_receipt ::
  "address \<Rightarrow> address \<Rightarrow> address \<Rightarrow> address \<Rightarrow> u64 \<Rightarrow> u64 \<Rightarrow> u8 \<Rightarrow> inbound_kind \<Rightarrow> b256 \<Rightarrow> claim_receipt" where
  "new_receipt token recovery_auth originator recipient blocked_at nonce reason kind memo =
    \<lparr>rc_version = 1, rc_token = token, rc_recovery_authority = recovery_auth, rc_originator = originator,
     rc_recipient = recipient, rc_blocked_at = blocked_at, rc_blocked_nonce = nonce,
     rc_blocked_reason = reason, rc_kind = kind, rc_memo = memo\<rparr>"

definition receipt_key :: "world \<Rightarrow> claim_receipt \<Rightarrow> b256" where
  "receipt_key w receipt = keccak256 w (AbiReceipt receipt)"

text \<open>\<open>BlockedReason\<close> is an ABI enum whose first value is \<open>NONE\<close>.\<close>

primrec blocked_reason_u8 :: "blocked_reason \<Rightarrow> u8" where
  "blocked_reason_u8 TOKEN_FILTER = 1"
| "blocked_reason_u8 RECEIVE_POLICY = 2"

definition upd_guard :: "(guard_storage \<Rightarrow> guard_storage) \<Rightarrow> unit M" where
  "upd_guard f = modify (\<lambda>w. w\<lparr>guard := f (guard w)\<rparr>)"

definition write_receipt :: "b256 \<Rightarrow> u256 \<Rightarrow> unit M" where
  "write_receipt key amount = upd_guard (\<lambda>g. g\<lparr>guard_balances := (guard_balances g)(key := amount)\<rparr>)"

definition next_receipt_nonce :: "u64 M" where
  "next_receipt_nonce =
    rbind (gets (\<lambda>w. max (guard_nonce (guard w)) 1)) (\<lambda>nonce.
    rbind (ok_or (checked_add 64 nonce 1) under_overflow) (\<lambda>next_nonce.
    rseq (upd_guard (\<lambda>g. g\<lparr>guard_nonce := next_nonce\<rparr>))
         (ok nonce)))"

definition store_blocked ::
  "address \<Rightarrow> address \<Rightarrow> recipient \<Rightarrow> address \<Rightarrow> u256 \<Rightarrow> blocked_reason \<Rightarrow> inbound_kind \<Rightarrow> b256 \<Rightarrow> (u64 \<times> u64) M" where
  "store_blocked token originator to recovery_address amount reason kind memo =
    rbind next_receipt_nonce (\<lambda>blocked_nonce.
    rbind (gets now64) (\<lambda>blocked_at.
    let receipt = new_receipt token recovery_address originator (original_address to) blocked_at blocked_nonce
          (blocked_reason_u8 reason) kind memo in
    rbind (gets (\<lambda>w. receipt_key w receipt)) (\<lambda>key.
    rseq (write_receipt key amount)
   (rseq (emit_event RECEIVE_POLICY_GUARD_ADDRESS (ReceivePolicyGuardEvent (TransferBlocked receipt (target to) amount)))
         (ok (blocked_nonce, blocked_at))))))"

definition resolve_receipt :: "world \<Rightarrow> claim_receipt option \<Rightarrow> (claim_receipt \<times> address \<times> recovery_mode) R" where
  "resolve_receipt w bytes =
    ebind (eok_or bytes (ReceivePolicyGuardError InvalidReceipt)) (\<lambda>receipt.
    ebind (case resolve_recipient w (rc_recipient receipt) of
             Inl _ \<Rightarrow> Inl (ReceivePolicyGuardError InvalidClaimAddress) | Inr a \<Rightarrow> Inr a) (\<lambda>receiver.
    Inr (receipt, receiver, recovery_from receipt receiver)))"

lemma upd_guard_run [simp]: "upd_guard f w = Inr ((), w\<lparr>guard := f (guard w)\<rparr>)"
  by (simp add: upd_guard_def)

end
