(* ===== verification/Tip20_Ledger.thy ===== *)
theory Tip20_Ledger
  imports Receipts Keychain
begin

text \<open>
  The ledger of a TIP-20 token: access control (\<open>precompiles/src/tip20/roles.rs\<close>), balances and
  allowances, reward accounting (\<open>precompiles/src/tip20/rewards.rs\<close>), and the core transfer and mint of
  \<open>precompiles/src/tip20/mod.rs\<close>. Every operation takes the address of the token, the \<open>self.address\<close>
  of the source.
\<close>

section \<open>Constants\<close>

definition U128_MAX :: u256 where
  "U128_MAX = 0xffffffffffffffffffffffffffffffff"

definition DEFAULT_ADMIN_ROLE :: b256 where
  "DEFAULT_ADMIN_ROLE = 0"

definition UNGRANTABLE_ROLE :: b256 where
  "UNGRANTABLE_ROLE = - 1"

definition PAUSE_ROLE :: b256 where
  "PAUSE_ROLE = 0x139c2898040ef16910dc9f44dc697df79363da767d8bc92f2e310312b816e46d"

definition UNPAUSE_ROLE :: b256 where
  "UNPAUSE_ROLE = 0x265b220c5a8891efdd9e1b1b7fa72f257bd5169f8d87e319cf3dad6ff52b94ae"

definition ISSUER_ROLE :: b256 where
  "ISSUER_ROLE = 0x114e74f6ea3bd819998f78687bfcb11b140da08e9b7d222fa9c1f1ba1f2aa122"

definition BURN_BLOCKED_ROLE :: b256 where
  "BURN_BLOCKED_ROLE = 0x7408fdc0d31c7bcb349eab611f5d1168acd4303574993f8cdc98b1cd18c41cae"

definition BURN_AT_ROLE :: b256 where
  "BURN_AT_ROLE = 0x39f6ee57cf2acaf8eab1056c2dcc3068f1f3d6a61e4777cf2bfdad7b1df90a27"

definition ACC_PRECISION :: u256 where
  "ACC_PRECISION = 1000000000000000000"

definition PROTECTED :: "(hardfork \<times> address list) list" where
  "PROTECTED =
    [(Genesis, [TIP_FEE_MANAGER_ADDRESS, STABLECOIN_DEX_ADDRESS]),
     (T5, [TIP20_CHANNEL_RESERVE_ADDRESS]),
     (T6, [RECEIVE_POLICY_GUARD_ADDRESS])]"

section \<open>Storage access\<close>

definition upd_token :: "address \<Rightarrow> (tip20_storage \<Rightarrow> tip20_storage) \<Rightarrow> unit M" where
  "upd_token t f = modify (\<lambda>w. w\<lparr>tokens := (tokens w)(t := f (tokens w t))\<rparr>)"

lemma upd_token_run [simp]: "upd_token t f w = Inr ((), w\<lparr>tokens := (tokens w)(t := f (tokens w t))\<rparr>)"
  by (simp add: upd_token_def)

definition emit20 :: "address \<Rightarrow> tip20_event \<Rightarrow> unit M" where
  "emit20 t e = emit_event t (TIP20Event e)"

lemma emit20_run [simp]: "emit20 t e w = Inr ((), w\<lparr>logs := logs w @ [(t, TIP20Event e)]\<rparr>)"
  by (simp add: emit20_def)

abbreviation bal :: "world \<Rightarrow> address \<Rightarrow> address \<Rightarrow> u256" where
  "bal w t a \<equiv> balances (tokens w t) a"

definition get_allowance :: "world \<Rightarrow> address \<Rightarrow> address \<Rightarrow> address \<Rightarrow> u256" where
  "get_allowance w t owner spender = allowances (tokens w t) owner spender"

definition set_allowance :: "address \<Rightarrow> address \<Rightarrow> address \<Rightarrow> u256 \<Rightarrow> unit M" where
  "set_allowance t owner spender amount =
    upd_token t (\<lambda>s. s\<lparr>allowances := (allowances s)(owner := (allowances s owner)(spender := amount))\<rparr>)"

definition set_balance :: "address \<Rightarrow> address \<Rightarrow> u256 \<Rightarrow> unit M" where
  "set_balance t a amount = upd_token t (\<lambda>s. s\<lparr>balances := (balances s)(a := amount)\<rparr>)"

definition set_total_supply :: "address \<Rightarrow> u256 \<Rightarrow> unit M" where
  "set_total_supply t amount = upd_token t (\<lambda>s. s\<lparr>total_supply := amount\<rparr>)"

text \<open>\<open>sinc\<close> and \<open>sdec\<close> of the storage layer, on a balance slot.\<close>

definition sinc :: "address \<Rightarrow> address \<Rightarrow> u256 \<Rightarrow> unit M" where
  "sinc t a delta =
    rbind (gets (\<lambda>w. bal w t a)) (\<lambda>current.
    rbind (ok_or (checked_add 256 current delta) under_overflow) (set_balance t a))"

definition sdec :: "address \<Rightarrow> address \<Rightarrow> u256 \<Rightarrow> unit M" where
  "sdec t a delta =
    rbind (gets (\<lambda>w. bal w t a)) (\<lambda>current.
    rbind (ok_or (checked_sub current delta) (StorageDeltaUnderflow current)) (set_balance t a))"

definition increment_balance :: "address \<Rightarrow> address \<Rightarrow> u256 \<Rightarrow> unit M" where
  "increment_balance t a amount =
    map_err (\<lambda>e. if e = under_overflow then TIP20 SupplyCapExceeded else e) (sinc t a amount)"

definition decrement_balance :: "address \<Rightarrow> address \<Rightarrow> u256 \<Rightarrow> unit M" where
  "decrement_balance t a amount =
    map_err (\<lambda>e. case e of StorageDeltaUnderflow current \<Rightarrow> TIP20 (InsufficientBalance current amount t) | _ \<Rightarrow> e)
      (sdec t a amount)"

section \<open>Roles\<close>

definition has_role_internal :: "world \<Rightarrow> address \<Rightarrow> address \<Rightarrow> b256 \<Rightarrow> bool" where
  "has_role_internal w t account role = roles (tokens w t) account role"

definition get_role_admin_internal :: "world \<Rightarrow> address \<Rightarrow> b256 \<Rightarrow> b256" where
  "get_role_admin_internal w t role = role_admins (tokens w t) role"

definition check_role :: "world \<Rightarrow> address \<Rightarrow> address \<Rightarrow> b256 \<Rightarrow> unit R" where
  "check_role w t account role =
    (if \<not> has_role_internal w t account role then Inl (RolesAuthError RolesUnauthorized) else Inr ())"

definition write_role :: "address \<Rightarrow> address \<Rightarrow> b256 \<Rightarrow> bool \<Rightarrow> unit M" where
  "write_role t account role b =
    upd_token t (\<lambda>s. s\<lparr>roles := (roles s)(account := (roles s account)(role := b))\<rparr>)"

definition grant_role_internal :: "address \<Rightarrow> address \<Rightarrow> b256 \<Rightarrow> unit M" where
  "grant_role_internal t account role = write_role t account role True"

definition revoke_role_internal :: "address \<Rightarrow> address \<Rightarrow> b256 \<Rightarrow> unit M" where
  "revoke_role_internal t account role = write_role t account role False"

definition set_role_admin_internal :: "address \<Rightarrow> b256 \<Rightarrow> b256 \<Rightarrow> unit M" where
  "set_role_admin_internal t role admin = upd_token t (\<lambda>s. s\<lparr>role_admins := (role_admins s)(role := admin)\<rparr>)"

definition emit_roles :: "address \<Rightarrow> roles_event \<Rightarrow> unit M" where
  "emit_roles t e = emit_event t (RolesAuthEvent e)"

definition initialize_roles :: "address \<Rightarrow> unit M" where
  "initialize_roles t = set_role_admin_internal t UNGRANTABLE_ROLE UNGRANTABLE_ROLE"

definition grant_default_admin :: "address \<Rightarrow> address \<Rightarrow> address \<Rightarrow> unit M" where
  "grant_default_admin t msg_sender admin =
    rseq (grant_role_internal t admin DEFAULT_ADMIN_ROLE)
         (emit_roles t (RoleMembershipUpdated DEFAULT_ADMIN_ROLE admin msg_sender True))"

definition grant_role :: "address \<Rightarrow> address \<Rightarrow> b256 \<Rightarrow> address \<Rightarrow> unit M" where
  "grant_role t msg_sender role account =
    rseq (rd (\<lambda>w. check_role w t msg_sender (get_role_admin_internal w t role)))
   (rseq (grant_role_internal t account role)
         (emit_roles t (RoleMembershipUpdated role account msg_sender True)))"

definition revoke_role :: "address \<Rightarrow> address \<Rightarrow> b256 \<Rightarrow> address \<Rightarrow> unit M" where
  "revoke_role t msg_sender role account =
    rseq (rd (\<lambda>w. check_role w t msg_sender (get_role_admin_internal w t role)))
   (rseq (revoke_role_internal t account role)
         (emit_roles t (RoleMembershipUpdated role account msg_sender False)))"

definition renounce_role :: "address \<Rightarrow> address \<Rightarrow> b256 \<Rightarrow> unit M" where
  "renounce_role t msg_sender role =
    rseq (rd (\<lambda>w. check_role w t msg_sender role))
   (rseq (revoke_role_internal t msg_sender role)
         (emit_roles t (RoleMembershipUpdated role msg_sender msg_sender False)))"

definition set_role_admin :: "address \<Rightarrow> address \<Rightarrow> b256 \<Rightarrow> b256 \<Rightarrow> unit M" where
  "set_role_admin t msg_sender role admin_role =
    rseq (rd (\<lambda>w. check_role w t msg_sender (get_role_admin_internal w t role)))
   (rseq (set_role_admin_internal t role admin_role)
         (emit_roles t (RoleAdminUpdated role admin_role msg_sender)))"

section \<open>Reward accounting\<close>

definition write_reward_info :: "address \<Rightarrow> address \<Rightarrow> user_reward_info \<Rightarrow> unit M" where
  "write_reward_info t a info =
    upd_token t (\<lambda>s. s\<lparr>user_reward_info_of := (user_reward_info_of s)(a := info)\<rparr>)"

definition set_opted_in_supply :: "address \<Rightarrow> u128 \<Rightarrow> unit M" where
  "set_opted_in_supply t v = upd_token t (\<lambda>s. s\<lparr>opted_in_supply := v\<rparr>)"

text \<open>The repeated step that widens the opted-in supply to \<open>U256\<close>, adds or subtracts, and narrows
  the result to \<open>u128\<close>.\<close>

definition opted_in_add :: "address \<Rightarrow> u256 \<Rightarrow> unit M" where
  "opted_in_add t amount =
    rbind (gets (\<lambda>w. opted_in_supply (tokens w t))) (\<lambda>s.
    rbind (ok_or (checked_add 256 s amount) under_overflow) (\<lambda>v.
    rbind (ok_or (try_into 128 v) under_overflow) (set_opted_in_supply t)))"

definition opted_in_sub :: "address \<Rightarrow> u256 \<Rightarrow> unit M" where
  "opted_in_sub t amount =
    rbind (gets (\<lambda>w. opted_in_supply (tokens w t))) (\<lambda>s.
    rbind (ok_or (checked_sub s amount) under_overflow) (\<lambda>v.
    rbind (ok_or (try_into 128 v) under_overflow) (set_opted_in_supply t)))"

text \<open>The accrual of a holder's rewards, in the holder's own entry or in the delegate's.\<close>

definition accrue :: "address \<Rightarrow> address \<Rightarrow> user_reward_info \<Rightarrow> u256 \<Rightarrow> user_reward_info M" where
  "accrue t holder info delta =
    (let delegate = reward_recipient info in
     if delegate = 0 then ok info
     else
       rbind (gets (\<lambda>w. bal w t holder)) (\<lambda>holder_balance.
       rbind (ok_or (Option.bind (checked_mul 256 holder_balance delta) (\<lambda>v. checked_div v ACC_PRECISION)) under_overflow) (\<lambda>reward.
       if delegate = holder then
         rbind (ok_or (checked_add 256 (reward_balance info) reward) under_overflow) (\<lambda>b.
         ok (info\<lparr>reward_balance := b\<rparr>))
       else
         rbind (gets (\<lambda>w. user_reward_info_of (tokens w t) delegate)) (\<lambda>delegate_info.
         rbind (ok_or (checked_add 256 (reward_balance delegate_info) reward) under_overflow) (\<lambda>b.
         rseq (write_reward_info t delegate (delegate_info\<lparr>reward_balance := b\<rparr>))
              (ok info))))))"

definition update_rewards :: "address \<Rightarrow> address \<Rightarrow> address M" where
  "update_rewards t holder =
    rbind (gets spec) (\<lambda>sp.
    if T8 \<le> sp then ok 0
    else
      rbind (gets (\<lambda>w. user_reward_info_of (tokens w t) holder)) (\<lambda>info.
      rbind (gets (\<lambda>w. global_reward_per_token (tokens w t))) (\<lambda>global.
      rbind (ok_or (checked_sub global (reward_per_token info)) under_overflow) (\<lambda>delta.
      rseq (only_if (delta \<noteq> 0)
             (rbind (accrue t holder info delta) (\<lambda>info'.
              write_reward_info t holder (info'\<lparr>reward_per_token := global\<rparr>))))
           (ok (reward_recipient info))))))"

definition handle_rewards_on_transfer :: "address \<Rightarrow> address \<Rightarrow> address \<Rightarrow> u256 \<Rightarrow> unit M" where
  "handle_rewards_on_transfer t from to amount =
    rbind (update_rewards t from) (\<lambda>from_delegate.
    rbind (update_rewards t to) (\<lambda>to_delegate.
    if from_delegate \<noteq> 0 then only_if (to_delegate = 0) (opted_in_sub t amount)
    else only_if (to_delegate \<noteq> 0) (opted_in_add t amount)))"

definition handle_rewards_on_mint :: "address \<Rightarrow> address \<Rightarrow> u256 \<Rightarrow> unit M" where
  "handle_rewards_on_mint t to amount =
    rbind (update_rewards t to) (\<lambda>to_delegate.
    only_if (to_delegate \<noteq> 0) (opted_in_add t amount))"

section \<open>Core transfer and mint\<close>

definition check_not_paused :: "world \<Rightarrow> address \<Rightarrow> unit R" where
  "check_not_paused w t = (if paused (tokens w t) then Inl (TIP20 ContractPaused) else Inr ())"

text \<open>\<open>_transfer\<close>: before T8 the balance is read and checked first and written back after the reward
  hooks; from T8 on it is a storage decrement.\<close>

definition transfer_core :: "address \<Rightarrow> address \<Rightarrow> recipient \<Rightarrow> u256 \<Rightarrow> unit M" where
  "transfer_core t from to amount =
    rbind (gets spec) (\<lambda>sp.
    rbind (if \<not> T8 \<le> sp then
             rbind (gets (\<lambda>w. bal w t from)) (\<lambda>b.
             rseq (ensure (amount \<le> b) (TIP20 (InsufficientBalance b amount t))) (ok (Some b)))
           else ok None) (\<lambda>from_balance.
    rseq (handle_rewards_on_transfer t from (target to) amount)
   (rseq (case from_balance of
            Some b \<Rightarrow> rbind (ok_or (checked_sub b amount) under_overflow) (set_balance t from)
          | None \<Rightarrow> decrement_balance t from amount)
   (rseq (only_if (target to \<noteq> 0) (increment_balance t (target to) amount))
         (emit20 t (build_transfer_event to from amount))))))"

definition mint_core :: "address \<Rightarrow> recipient \<Rightarrow> u256 \<Rightarrow> u256 \<Rightarrow> unit M" where
  "mint_core t to supply amount =
    rbind (ok_or (checked_add 256 supply amount) under_overflow) (\<lambda>new_supply.
    rbind (gets (\<lambda>w. supply_cap (tokens w t))) (\<lambda>cap.
    rseq (ensure (new_supply \<le> cap) (TIP20 SupplyCapExceeded))
   (rseq (handle_rewards_on_mint t (target to) amount)
   (rseq (set_total_supply t new_supply)
   (rseq (increment_balance t (target to) amount)
         (emit20 t (build_transfer_event to 0 amount)))))))"

text \<open>The last step of every burn: the total supply after the balance has been debited.\<close>

definition reduce_supply :: "address \<Rightarrow> u256 \<Rightarrow> unit M" where
  "reduce_supply t amount =
    rbind (gets (\<lambda>w. total_supply (tokens w t))) (\<lambda>supply.
    rbind (ok_or (checked_sub supply amount) (TIP20 (InsufficientBalance supply amount t)))
      (set_total_supply t))"

definition consume_allowance :: "address \<Rightarrow> address \<Rightarrow> address \<Rightarrow> u256 \<Rightarrow> unit M" where
  "consume_allowance t owner spender amount =
    rbind (gets (\<lambda>w. get_allowance w t owner spender)) (\<lambda>allowed.
    rseq (ensure (amount \<le> allowed) (TIP20 InsufficientAllowance))
         (only_if (allowed \<noteq> umax 256)
           (rbind (ok_or (checked_sub allowed amount) (TIP20 InsufficientAllowance))
             (set_allowance t owner spender))))"

section \<open>Authorization\<close>

definition is_transfer_authorized :: "world \<Rightarrow> address \<Rightarrow> address \<Rightarrow> address \<Rightarrow> bool R" where
  "is_transfer_authorized w t from to =
    ebind (is_authorized_as w (transfer_policy_id w t) from (transfer_or w AuthSender)) (\<lambda>sender_auth.
    if T2 \<le> spec w \<and> \<not> sender_auth then Inr False
    else ebind (is_authorized_as w (transfer_policy_id w t) to (transfer_or w AuthRecipient)) (\<lambda>recipient_auth.
      Inr (sender_auth \<and> recipient_auth)))"

definition ensure_transfer_authorized :: "world \<Rightarrow> address \<Rightarrow> address \<Rightarrow> address \<Rightarrow> unit R" where
  "ensure_transfer_authorized w t from to =
    ebind (is_transfer_authorized w t from to) (\<lambda>b.
    if \<not> b then Inl (TIP20 PolicyForbids) else Inr ())"

definition ensure_receive_policy_authorized :: "world \<Rightarrow> address \<Rightarrow> address \<Rightarrow> address \<Rightarrow> unit R" where
  "ensure_receive_policy_authorized w t sender receiver =
    ebind (validate_receive_policy w t sender receiver) (\<lambda>r.
    if r \<noteq> None then Inl (TIP20 PolicyForbids) else Inr ())"

fun authorized_all :: "world \<Rightarrow> u64 \<Rightarrow> (address \<times> auth_role) list \<Rightarrow> unit R" where
  "authorized_all w p [] = Inr ()"
| "authorized_all w p ((user, role) # rest) =
    ebind (is_authorized_as w p user role) (\<lambda>b.
    if \<not> b then Inl (TIP20 PolicyForbids) else authorized_all w p rest)"

definition ensure_authorized_as :: "world \<Rightarrow> address \<Rightarrow> (address \<times> auth_role) list \<Rightarrow> unit R" where
  "ensure_authorized_as w t user_auth = authorized_all w (transfer_policy_id w t) user_auth"

definition check_and_update_spending_limit :: "address \<Rightarrow> address \<Rightarrow> u256 \<Rightarrow> unit M" where
  "check_and_update_spending_limit t from amount = authorize_transfer from t amount"

definition check_burn_address :: "world \<Rightarrow> address \<Rightarrow> address \<Rightarrow> unit R" where
  "check_burn_address w t from =
    (if list_ex (\<lambda>(hf, addresses). hf \<le> spec w \<and> from \<in> set addresses) PROTECTED
        \<or> (T5 \<le> spec w \<and> from = t)
        \<or> (T12 \<le> spec w \<and> drop_bit 64 from = ZONE_PORTAL_PREFIX)
     then Inl (TIP20 ProtectedAddress) else Inr ())"

end
