(* ===== verification/Tip20.thy ===== *)
theory Tip20
  imports Tip20_Ledger
begin

text \<open>
  The operations of a TIP-20 token (\<open>precompiles/src/tip20/mod.rs\<close> and the entry points of
  \<open>rewards.rs\<close>): transfers, mints, burns, permits, administration, the diversion of blocked
  inbound funds to the receive-policy guard, and the fee hooks of the transaction handler.
\<close>

definition USD_CURRENCY :: string where
  "USD_CURRENCY = ''USD''"

definition from_address :: "address \<Rightarrow> address R" where
  "from_address a = (if \<not> is_tip20_prefix a then Inl (TIP20 InvalidToken) else Inr a)"

definition validate_usd_currency :: "world \<Rightarrow> address \<Rightarrow> unit R" where
  "validate_usd_currency w token =
    ebind (from_address token) (\<lambda>t.
    if currency (tokens w t) \<noteq> USD_CURRENCY then Inl (TIP20 InvalidCurrency) else Inr ())"

section \<open>Inbound checks\<close>

definition emit_hop :: "address \<Rightarrow> recipient \<Rightarrow> u256 \<Rightarrow> unit M" where
  "emit_hop t to amount =
    (case build_virtual_transfer_event to amount of None \<Rightarrow> ok () | Some hop \<Rightarrow> emit20 t hop)"

text \<open>The funds of a blocked transfer or mint go to the guard, and a receipt is stored.\<close>

definition divert :: "address \<Rightarrow> address \<Rightarrow> u256 \<Rightarrow> u256 option \<Rightarrow> inbound_kind M" where
  "divert t originator amount mint_total_supply =
    (case mint_total_supply of
       Some supply \<Rightarrow>
         rseq (mint_core t (direct RECEIVE_POLICY_GUARD_ADDRESS) supply amount)
        (rseq (emit20 t (Mint RECEIVE_POLICY_GUARD_ADDRESS amount)) (ok MINT))
     | None \<Rightarrow>
         rseq (transfer_core t originator (direct RECEIVE_POLICY_GUARD_ADDRESS) amount) (ok TRANSFER))"

definition validate_inbound_or_block ::
  "address \<Rightarrow> address \<Rightarrow> recipient \<Rightarrow> u256 \<Rightarrow> u256 option \<Rightarrow> b256 \<Rightarrow> bool M" where
  "validate_inbound_or_block t originator to amount mint_total_supply memo =
    rbind (gets spec) (\<lambda>sp.
    if \<not> T6 \<le> sp then ok False
    else
      rseq (ensure (target to \<noteq> RECEIVE_POLICY_GUARD_ADDRESS) (ReceivePolicyGuardError GuardAddressReserved))
     (rbind (rd (\<lambda>w. check_receive_policy w t originator (target to))) (\<lambda>blocked.
      case blocked of
        None \<Rightarrow> ok False
      | Some (reason, recovery) \<Rightarrow>
          rbind (divert t originator amount mint_total_supply) (\<lambda>kind.
          rbind (store_blocked t originator to recovery amount reason kind memo) (\<lambda>_.
          ok True)))))"

definition validate_transfer ::
  "address \<Rightarrow> address option \<Rightarrow> address \<Rightarrow> address \<Rightarrow> u256 \<Rightarrow> b256 \<Rightarrow> recipient option M" where
  "validate_transfer t spender from to amount memo =
    rbind (rd (\<lambda>w. resolve w to)) (\<lambda>to.
    rseq (rd (\<lambda>w. check_not_paused w t))
   (rseq (rd (\<lambda>_. validate to))
   (rseq (rd (\<lambda>w. ensure_transfer_authorized w t from (target to)))
   (rseq (case spender of
            Some s \<Rightarrow> consume_allowance t from s amount
          | None \<Rightarrow> check_and_update_spending_limit t from amount)
   (rbind (validate_inbound_or_block t from to amount None memo) (\<lambda>blocked.
    ok (if blocked then None else Some to)))))))"

definition validate_mint ::
  "address \<Rightarrow> address \<Rightarrow> address \<Rightarrow> u256 \<Rightarrow> b256 \<Rightarrow> auth_role \<Rightarrow> (u256 \<times> recipient) option M" where
  "validate_mint t msg_sender to amount memo role =
    rbind (rd (\<lambda>w. resolve w to)) (\<lambda>to.
    rseq (rd (\<lambda>w. check_role w t msg_sender ISSUER_ROLE))
   (rbind (gets (\<lambda>w. total_supply (tokens w t))) (\<lambda>supply.
    rbind (gets spec) (\<lambda>sp.
    rseq (only_if (T3 \<le> sp) (rseq (rd (\<lambda>w. check_not_paused w t)) (rd (\<lambda>_. validate to))))
   (rbind (rd (\<lambda>w. is_authorized_as w (transfer_policy_id w t) (target to) role)) (\<lambda>authorized.
    rseq (ensure authorized (TIP20 PolicyForbids))
   (rbind (validate_inbound_or_block t msg_sender to amount (Some supply) memo) (\<lambda>blocked.
    ok (if blocked then None else Some (supply, to))))))))))"

section \<open>Transfers\<close>

text \<open>The tail shared by the transfer entry points: nothing after a diversion, else the core
  transfer, the memo event if the call has one, and the second hop of a virtual recipient.\<close>

definition finish_transfer :: "address \<Rightarrow> address \<Rightarrow> address \<Rightarrow> u256 \<Rightarrow> b256 option \<Rightarrow> recipient option \<Rightarrow> unit M" where
  "finish_transfer t from to amount memo resolved =
    (case resolved of
       None \<Rightarrow> ok ()
     | Some r \<Rightarrow>
         rseq (transfer_core t from r amount)
        (rseq (case memo of None \<Rightarrow> ok () | Some m \<Rightarrow> emit20 t (TransferWithMemo from to amount m))
              (emit_hop t r amount)))"

definition transfer :: "address \<Rightarrow> address \<Rightarrow> address \<Rightarrow> u256 \<Rightarrow> bool M" where
  "transfer t msg_sender to amount =
    rbind (validate_transfer t None msg_sender to amount 0) (\<lambda>r.
    rseq (finish_transfer t msg_sender to amount None r) (ok True))"

definition transfer_from :: "address \<Rightarrow> address \<Rightarrow> address \<Rightarrow> address \<Rightarrow> u256 \<Rightarrow> bool M" where
  "transfer_from t msg_sender from to amount =
    rbind (validate_transfer t (Some msg_sender) from to amount 0) (\<lambda>r.
    rseq (finish_transfer t from to amount None r) (ok True))"

definition transfer_from_with_memo :: "address \<Rightarrow> address \<Rightarrow> address \<Rightarrow> address \<Rightarrow> u256 \<Rightarrow> b256 \<Rightarrow> bool M" where
  "transfer_from_with_memo t msg_sender from to amount memo =
    rbind (validate_transfer t (Some msg_sender) from to amount memo) (\<lambda>r.
    rseq (finish_transfer t from to amount (Some memo) r) (ok True))"

definition transfer_with_memo :: "address \<Rightarrow> address \<Rightarrow> address \<Rightarrow> u256 \<Rightarrow> b256 \<Rightarrow> unit M" where
  "transfer_with_memo t msg_sender to amount memo =
    rbind (validate_transfer t None msg_sender to amount memo) (\<lambda>r.
    finish_transfer t msg_sender to amount (Some memo) r)"

definition system_transfer_from :: "address \<Rightarrow> address \<Rightarrow> address \<Rightarrow> u256 \<Rightarrow> bool M" where
  "system_transfer_from t caller from amount =
    rbind (gets spec) (\<lambda>sp.
    rseq (ensure (T5 \<le> sp \<longrightarrow> is_implicitly_approved caller sp) (TIP20 Tip20Unauthorized))
   (rbind (validate_transfer t None from caller amount 0) (\<lambda>r.
    rseq (finish_transfer t from caller amount None r) (ok True))))"

definition channel_reserve_transfer :: "address \<Rightarrow> address \<Rightarrow> recipient \<Rightarrow> u256 \<Rightarrow> address \<Rightarrow> unit M" where
  "channel_reserve_transfer t from to amount receive_policy_sender =
    rseq (ensure (from = TIP20_CHANNEL_RESERVE_ADDRESS \<or> original_address to = TIP20_CHANNEL_RESERVE_ADDRESS)
           (TIP20 Tip20Unauthorized))
   (rseq (rd (\<lambda>w. check_not_paused w t))
   (rseq (rd (\<lambda>_. validate to))
   (rseq (check_and_update_spending_limit t from amount)
   (rseq (ensure (target to \<noteq> RECEIVE_POLICY_GUARD_ADDRESS) (ReceivePolicyGuardError GuardAddressReserved))
   (rseq (rd (\<lambda>w. ensure_receive_policy_authorized w t receive_policy_sender (target to)))
   (rseq (transfer_core t from to amount)
         (emit_hop t to amount)))))))"

section \<open>Mints and burns\<close>

definition finish_mint :: "address \<Rightarrow> address \<Rightarrow> u256 \<Rightarrow> b256 option \<Rightarrow> (u256 \<times> recipient) option \<Rightarrow> unit M" where
  "finish_mint t to amount memo checked =
    (case checked of
       None \<Rightarrow> ok ()
     | Some (supply, r) \<Rightarrow>
         rseq (mint_core t r supply amount)
        (rseq (case memo of None \<Rightarrow> ok () | Some m \<Rightarrow> emit20 t (TransferWithMemo 0 to amount m))
        (rseq (emit20 t (Mint to amount))
              (emit_hop t r amount))))"

definition mint_with_role :: "address \<Rightarrow> address \<Rightarrow> address \<Rightarrow> u256 \<Rightarrow> auth_role \<Rightarrow> unit M" where
  "mint_with_role t msg_sender to amount role =
    rbind (validate_mint t msg_sender to amount 0 role) (finish_mint t to amount None)"

definition mint :: "address \<Rightarrow> address \<Rightarrow> address \<Rightarrow> u256 \<Rightarrow> unit M" where
  "mint t msg_sender to amount = rbind (gets (\<lambda>w. transfer_or w AuthMintRecipient)) (\<lambda>role.
    mint_with_role t msg_sender to amount role)"

definition mint_with_memo :: "address \<Rightarrow> address \<Rightarrow> address \<Rightarrow> u256 \<Rightarrow> b256 \<Rightarrow> unit M" where
  "mint_with_memo t msg_sender to amount memo =
    rbind (gets (\<lambda>w. transfer_or w AuthMintRecipient)) (\<lambda>role.
    rbind (validate_mint t msg_sender to amount memo role) (finish_mint t to amount (Some memo)))"

definition burn_core :: "address \<Rightarrow> address \<Rightarrow> u256 \<Rightarrow> unit M" where
  "burn_core t msg_sender amount =
    rbind (gets spec) (\<lambda>sp.
    rseq (only_if (T3 \<le> sp) (rd (\<lambda>w. check_not_paused w t)))
   (rseq (rd (\<lambda>w. check_role w t msg_sender ISSUER_ROLE))
   (rseq (transfer_core t msg_sender (direct 0) amount)
         (reduce_supply t amount))))"

definition burn :: "address \<Rightarrow> address \<Rightarrow> u256 \<Rightarrow> unit M" where
  "burn t msg_sender amount = rseq (burn_core t msg_sender amount) (emit20 t (Burn msg_sender amount))"

definition burn_with_memo :: "address \<Rightarrow> address \<Rightarrow> u256 \<Rightarrow> b256 \<Rightarrow> unit M" where
  "burn_with_memo t msg_sender amount memo =
    rseq (burn_core t msg_sender amount)
   (rseq (emit20 t (TransferWithMemo msg_sender 0 amount memo))
         (emit20 t (Burn msg_sender amount)))"

definition burn_blocked :: "address \<Rightarrow> address \<Rightarrow> address \<Rightarrow> u256 \<Rightarrow> bool \<Rightarrow> unit M" where
  "burn_blocked t msg_sender owner amount check_protected =
    rbind (gets spec) (\<lambda>sp.
    rseq (only_if (T3 \<le> sp) (rd (\<lambda>w. check_not_paused w t)))
   (rseq (rd (\<lambda>w. check_role w t msg_sender BURN_BLOCKED_ROLE))
   (rseq (only_if check_protected (rd (\<lambda>w. check_burn_address w t owner)))
   (rbind (rd (\<lambda>w. is_authorized_as w (transfer_policy_id w t) owner (transfer_or w AuthSender))) (\<lambda>authorized.
    rseq (ensure (\<not> authorized) (TIP20 PolicyForbids))
   (rseq (transfer_core t (if check_protected then owner else RECEIVE_POLICY_GUARD_ADDRESS) (direct 0) amount)
   (rseq (reduce_supply t amount)
         (emit20 t (BurnBlocked owner amount)))))))))"

definition burn_at :: "address \<Rightarrow> address \<Rightarrow> address \<Rightarrow> u256 \<Rightarrow> unit M" where
  "burn_at t msg_sender from amount =
    rseq (rd (\<lambda>w. check_not_paused w t))
   (rseq (rd (\<lambda>w. check_role w t msg_sender BURN_AT_ROLE))
   (rseq (rd (\<lambda>w. check_burn_address w t from))
   (rseq (check_and_update_spending_limit t from amount)
   (rseq (transfer_core t from (direct 0) amount)
   (rseq (reduce_supply t amount)
         (emit20 t (BurnAt msg_sender from amount)))))))"

section \<open>Allowances\<close>

definition approve :: "address \<Rightarrow> address \<Rightarrow> address \<Rightarrow> u256 \<Rightarrow> bool M" where
  "approve t msg_sender spender amount =
    rbind (gets (\<lambda>w. get_allowance w t msg_sender spender)) (\<lambda>old.
    rseq (authorize_approve msg_sender t old amount)
   (rseq (set_allowance t msg_sender spender amount)
   (rseq (emit20 t (Approval msg_sender spender amount))
         (ok True))))"

definition domain_separator :: "world \<Rightarrow> address \<Rightarrow> b256" where
  "domain_separator w t =
    keccak256 w (DomainSeparator (keccak256 w (StringBytes (tk_name (tokens w t)))) (chain_id w) t)"

definition permit_digest :: "world \<Rightarrow> address \<Rightarrow> address \<Rightarrow> address \<Rightarrow> u256 \<Rightarrow> u256 \<Rightarrow> u256 \<Rightarrow> b256" where
  "permit_digest w t owner spender val nonce deadline =
    keccak256 w (Eip712Digest (domain_separator w t)
      (keccak256 w (PermitStruct owner spender val nonce deadline)))"

definition permit :: "address \<Rightarrow> address \<Rightarrow> address \<Rightarrow> u256 \<Rightarrow> u256 \<Rightarrow> u8 \<Rightarrow> b256 \<Rightarrow> b256 \<Rightarrow> unit M" where
  "permit t owner spender val deadline v r s =
    rbind (gets timestamp) (\<lambda>time.
    rseq (ensure (time \<le> deadline) (TIP20 PermitExpired))
   (rbind (gets (\<lambda>w. permit_nonces (tokens w t) owner)) (\<lambda>nonce.
    rbind (gets (\<lambda>w. recover_signer w (permit_digest w t owner spender val nonce deadline) v r s)) (\<lambda>signer.
    rbind (ok_or signer (TIP20 InvalidSignature)) (\<lambda>recovered.
    rseq (ensure (recovered = owner) (TIP20 InvalidSignature))
   (rbind (gets (\<lambda>w. is_retired_root w owner)) (\<lambda>retired.
    rseq (ensure (\<not> retired) (TIP20 (RootKeyRetired owner)))
   (rbind (ok_or (checked_add 256 nonce 1) under_overflow) (\<lambda>next_nonce.
    rseq (upd_token t (\<lambda>st. st\<lparr>permit_nonces := (permit_nonces st)(owner := next_nonce)\<rparr>))
   (rseq (set_allowance t owner spender val)
         (emit20 t (Approval owner spender val))))))))))))"

section \<open>Administration\<close>

definition change_transfer_policy_id :: "address \<Rightarrow> address \<Rightarrow> u64 \<Rightarrow> unit M" where
  "change_transfer_policy_id t msg_sender new_policy =
    rseq (rd (\<lambda>w. check_role w t msg_sender DEFAULT_ADMIN_ROLE))
   (rbind (gets (\<lambda>w. policy_exists w new_policy)) (\<lambda>exists.
    rseq (ensure exists (TIP20 InvalidTransferPolicyId))
   (rbind (gets spec) (\<lambda>sp.
    rseq (if T9 \<le> sp then set_token_transfer_policy t new_policy
          else upd_token t (\<lambda>s. s\<lparr>transfer_policy_id_slot := new_policy\<rparr>))
         (emit20 t (TransferPolicyUpdate msg_sender new_policy))))))"

definition set_supply_cap :: "address \<Rightarrow> address \<Rightarrow> u256 \<Rightarrow> unit M" where
  "set_supply_cap t msg_sender new_cap =
    rseq (rd (\<lambda>w. check_role w t msg_sender DEFAULT_ADMIN_ROLE))
   (rbind (gets (\<lambda>w. total_supply (tokens w t))) (\<lambda>supply.
    rseq (ensure (supply \<le> new_cap) (TIP20 InvalidSupplyCap))
   (rseq (ensure (new_cap \<le> U128_MAX) (TIP20 SupplyCapExceeded))
   (rseq (upd_token t (\<lambda>s. s\<lparr>supply_cap := new_cap\<rparr>))
         (emit20 t (SupplyCapUpdate msg_sender new_cap))))))"

definition pause :: "address \<Rightarrow> address \<Rightarrow> unit M" where
  "pause t msg_sender =
    rseq (rd (\<lambda>w. check_role w t msg_sender PAUSE_ROLE))
   (rseq (upd_token t (\<lambda>s. s\<lparr>paused := True\<rparr>))
         (emit20 t (PauseStateUpdate msg_sender True)))"

definition unpause :: "address \<Rightarrow> address \<Rightarrow> unit M" where
  "unpause t msg_sender =
    rseq (rd (\<lambda>w. check_role w t msg_sender UNPAUSE_ROLE))
   (rseq (upd_token t (\<lambda>s. s\<lparr>paused := False\<rparr>))
         (emit20 t (PauseStateUpdate msg_sender False)))"

subsection \<open>Logo\<close>

text \<open>A URI is the list of its UTF-8 bytes.\<close>

definition MAX_LOGO_URI_BYTES :: nat where
  "MAX_LOGO_URI_BYTES = 256"

definition ALLOWED_LOGO_URI_SCHEMES :: "string list" where
  "ALLOWED_LOGO_URI_SCHEMES = [''https'', ''http'', ''ipfs'', ''data'']"

definition ascii_upper :: "char \<Rightarrow> bool" where
  "ascii_upper c = (65 \<le> (of_char c :: nat) \<and> (of_char c :: nat) \<le> 90)"

definition ascii_alphabetic :: "char \<Rightarrow> bool" where
  "ascii_alphabetic c = (ascii_upper c \<or> 97 \<le> (of_char c :: nat) \<and> (of_char c :: nat) \<le> 122)"

definition ascii_alphanumeric :: "char \<Rightarrow> bool" where
  "ascii_alphanumeric c = (ascii_alphabetic c \<or> 48 \<le> (of_char c :: nat) \<and> (of_char c :: nat) \<le> 57)"

definition ascii_lower :: "char \<Rightarrow> nat" where
  "ascii_lower c = (if ascii_upper c then of_char c + 32 else of_char c)"

definition eq_ignore_ascii_case :: "string \<Rightarrow> string \<Rightarrow> bool" where
  "eq_ignore_ascii_case a b = (map ascii_lower a = map ascii_lower b)"

definition is_allowed_logo_uri :: "string \<Rightarrow> bool" where
  "is_allowed_logo_uri uri =
    (if CHR '':'' \<notin> set uri then False
     else case takeWhile (\<lambda>c. c \<noteq> CHR '':'') uri of
       [] \<Rightarrow> False
     | first # bytes \<Rightarrow>
         if \<not> ascii_alphabetic first then False
         else if \<not> list_all (\<lambda>b. ascii_alphanumeric b \<or> b \<in> {CHR ''+'', CHR ''-'', CHR ''.''}) bytes then False
         else list_ex (eq_ignore_ascii_case (first # bytes)) ALLOWED_LOGO_URI_SCHEMES)"

definition validate_logo_uri :: "string \<Rightarrow> unit R" where
  "validate_logo_uri uri =
    (if length uri > MAX_LOGO_URI_BYTES then Inl (TIP20 LogoURITooLong)
     else if uri \<noteq> [] \<and> \<not> is_allowed_logo_uri uri then Inl (TIP20 InvalidLogoURI)
     else Inr ())"

definition write_logo_uri :: "address \<Rightarrow> address \<Rightarrow> string \<Rightarrow> unit M" where
  "write_logo_uri t updater uri =
    rseq (rd (\<lambda>_. validate_logo_uri uri))
   (rseq (upd_token t (\<lambda>s. s\<lparr>logo_uri := uri\<rparr>))
         (emit20 t (LogoURIUpdated updater uri)))"

definition set_logo_uri :: "address \<Rightarrow> address \<Rightarrow> string \<Rightarrow> unit M" where
  "set_logo_uri t msg_sender uri =
    rseq (rd (\<lambda>w. check_role w t msg_sender DEFAULT_ADMIN_ROLE)) (write_logo_uri t msg_sender uri)"

subsection \<open>Quote token\<close>

definition set_next_quote_token :: "address \<Rightarrow> address \<Rightarrow> address \<Rightarrow> unit M" where
  "set_next_quote_token t msg_sender new_quote =
    rseq (rd (\<lambda>w. check_role w t msg_sender DEFAULT_ADMIN_ROLE))
   (rseq (ensure (t \<noteq> PATH_USD_ADDRESS) (TIP20 InvalidQuoteToken))
   (rbind (gets (\<lambda>w. is_tip20 w new_quote)) (\<lambda>deployed.
    rseq (ensure deployed (TIP20 InvalidQuoteToken))
   (rbind (gets (\<lambda>w. currency (tokens w t))) (\<lambda>cur.
    rseq (only_if (cur = USD_CURRENCY)
           (rbind (rd (\<lambda>_. from_address new_quote)) (\<lambda>q.
            rbind (gets (\<lambda>w. currency (tokens w q))) (\<lambda>quote_currency.
            ensure (quote_currency = USD_CURRENCY) (TIP20 InvalidQuoteToken)))))
   (rseq (upd_token t (\<lambda>s. s\<lparr>next_quote_token := new_quote\<rparr>))
         (emit20 t (NextQuoteTokenSet msg_sender new_quote))))))))"

text \<open>The loop of \<open>complete_quote_token_update\<close> follows the quote tokens up to pathUSD. Nothing in the
  loop bounds it, so not returning is the value \<^term>\<open>None\<close>. Every turn reads storage and pays for
  it: a chain that never ends stops with \<open>OutOfGas\<close>.\<close>

partial_function (option) walk_quotes :: "world \<Rightarrow> address \<Rightarrow> address \<Rightarrow> (tempo_error + unit) option" where
  "walk_quotes w self current =
    (if current = PATH_USD_ADDRESS then Some (Inr ())
     else if current = self then Some (Inl (TIP20 InvalidQuoteToken))
     else if \<not> is_tip20_prefix current then Some (Inl (TIP20 InvalidToken))
     else walk_quotes w self (quote_token (tokens w current)))"

definition check_quote_chain :: "world \<Rightarrow> address \<Rightarrow> address \<Rightarrow> unit R" where
  "check_quote_chain w self next =
    (case walk_quotes w self next of None \<Rightarrow> Inl OutOfGas | Some r \<Rightarrow> r)"

definition complete_quote_token_update :: "address \<Rightarrow> address \<Rightarrow> unit M" where
  "complete_quote_token_update t msg_sender =
    rseq (rd (\<lambda>w. check_role w t msg_sender DEFAULT_ADMIN_ROLE))
   (rbind (gets (\<lambda>w. next_quote_token (tokens w t))) (\<lambda>next_quote.
    rseq (rd (\<lambda>w. check_quote_chain w t next_quote))
   (rseq (upd_token t (\<lambda>s. s\<lparr>quote_token := next_quote\<rparr>))
         (emit20 t (QuoteTokenUpdate msg_sender next_quote)))))"

section \<open>Rewards\<close>

definition distribute_reward :: "address \<Rightarrow> address \<Rightarrow> u256 \<Rightarrow> unit M" where
  "distribute_reward t msg_sender amount =
    rbind (gets spec) (\<lambda>sp.
    if T7 \<le> sp then ok ()
    else
      rseq (rd (\<lambda>w. check_not_paused w t))
     (rseq (ensure (amount \<noteq> 0) (TIP20 InvalidAmount))
     (rseq (rd (\<lambda>w. ensure_transfer_authorized w t msg_sender t))
     (rseq (check_and_update_spending_limit t msg_sender amount)
     (rseq (transfer_core t msg_sender (direct t) amount)
     (rbind (gets (\<lambda>w. opted_in_supply (tokens w t))) (\<lambda>opted_in.
      rseq (ensure (opted_in \<noteq> 0) (TIP20 NoOptedInSupply))
     (rbind (ok_or (Option.bind (checked_mul 256 amount ACC_PRECISION) (\<lambda>v. checked_div v opted_in)) under_overflow) (\<lambda>delta_rpt.
      rbind (gets (\<lambda>w. global_reward_per_token (tokens w t))) (\<lambda>current_rpt.
      rbind (ok_or (checked_add 256 current_rpt delta_rpt) under_overflow) (\<lambda>new_rpt.
      rseq (upd_token t (\<lambda>s. s\<lparr>global_reward_per_token := new_rpt\<rparr>))
           (emit20 t (RewardDistributed msg_sender amount)))))))))))))"

definition set_reward_recipient :: "address \<Rightarrow> address \<Rightarrow> address \<Rightarrow> unit M" where
  "set_reward_recipient t msg_sender recipient =
    rbind (gets spec) (\<lambda>sp.
    if T7 \<le> sp then ok ()
    else
      rseq (rd (\<lambda>w. check_not_paused w t))
     (rseq (ensure (\<not> (T3 \<le> sp \<and> is_virtual recipient)) (TIP20 InvalidRecipient))
     (rseq (only_if (recipient \<noteq> 0) (rd (\<lambda>w. ensure_transfer_authorized w t msg_sender recipient)))
     (rbind (update_rewards t msg_sender) (\<lambda>from_delegate.
      rbind (gets (\<lambda>w. bal w t msg_sender)) (\<lambda>holder_balance.
      rseq (if from_delegate \<noteq> 0 then only_if (recipient = 0) (opted_in_sub t holder_balance)
            else only_if (recipient \<noteq> 0) (opted_in_add t holder_balance))
     (rbind (gets (\<lambda>w. user_reward_info_of (tokens w t) msg_sender)) (\<lambda>info.
      rseq (write_reward_info t msg_sender (info\<lparr>reward_recipient := recipient\<rparr>))
           (emit20 t (RewardRecipientSet msg_sender recipient))))))))))"

text \<open>The payout of \<open>claim_rewards\<close>: the contract pays \<open>amount\<close> from its own balance, which the
  caller has just read.\<close>

definition pay_reward :: "address \<Rightarrow> address \<Rightarrow> address \<Rightarrow> u256 \<Rightarrow> u256 \<Rightarrow> unit M" where
  "pay_reward t msg_sender delegate contract_balance amount =
    rbind (ok_or (checked_sub contract_balance amount) under_overflow) (\<lambda>new_contract_balance.
    rseq (set_balance t t new_contract_balance)
   (rbind (gets (\<lambda>w. bal w t msg_sender)) (\<lambda>b.
    rbind (ok_or (checked_add 256 b amount) under_overflow) (\<lambda>recipient_balance.
    rseq (set_balance t msg_sender recipient_balance)
   (rseq (only_if (delegate \<noteq> 0) (opted_in_add t amount))
         (emit20 t (Transfer t msg_sender amount)))))))"

definition claim_rewards :: "address \<Rightarrow> address \<Rightarrow> u256 M" where
  "claim_rewards t msg_sender =
    rseq (rd (\<lambda>w. check_not_paused w t))
   (rseq (rd (\<lambda>w. ensure_transfer_authorized w t t msg_sender))
   (rbind (update_rewards t msg_sender) (\<lambda>delegate.
    rbind (gets (\<lambda>w. user_reward_info_of (tokens w t) msg_sender)) (\<lambda>info.
    rbind (gets (\<lambda>w. bal w t t)) (\<lambda>contract_balance.
    let max_amount = min (reward_balance info) contract_balance in
    rbind (ok_or (checked_sub (reward_balance info) max_amount) under_overflow) (\<lambda>rest.
    rseq (write_reward_info t msg_sender (info\<lparr>reward_balance := rest\<rparr>))
   (rseq (only_if (max_amount > 0) (pay_reward t msg_sender delegate contract_balance max_amount))
         (ok max_amount))))))))"

definition get_pending_rewards :: "world \<Rightarrow> address \<Rightarrow> address \<Rightarrow> u128 R" where
  "get_pending_rewards w t account =
    (let info = user_reward_info_of (tokens w t) account;
         narrow = (\<lambda>v. eok_or (try_into 128 v) under_overflow) in
     if T8 \<le> spec w then narrow (reward_balance info)
     else if reward_recipient info = account \<and> bal w t account > 0 then
       ebind (eok_or (checked_sub (global_reward_per_token (tokens w t)) (reward_per_token info)) under_overflow) (\<lambda>delta.
       if delta > 0 then
         ebind (eok_or (Option.bind (checked_mul 256 (bal w t account) delta) (\<lambda>v. checked_div v ACC_PRECISION)) under_overflow) (\<lambda>accrued.
         ebind (eok_or (checked_add 256 (reward_balance info) accrued) under_overflow) narrow)
       else narrow (reward_balance info))
     else narrow (reward_balance info))"

section \<open>Guarded funds and fees\<close>

definition release_blocked_funds ::
  "address \<Rightarrow> address \<Rightarrow> address \<Rightarrow> address \<Rightarrow> u256 \<Rightarrow> recovery_mode \<Rightarrow> address \<Rightarrow> unit M" where
  "release_blocked_funds t originator receiver to amount mode recovery_auth =
    rseq (rd (\<lambda>w. check_not_paused w t))
   (rbind (rd (\<lambda>w. resolve w to)) (\<lambda>destination.
    rseq (rd (\<lambda>_. validate destination))
   (rseq (if is_reroute mode to receiver then
            let subject = policy_subject mode originator receiver in
            rseq (rd (\<lambda>w. ensure_transfer_authorized w t subject (target destination)))
           (rbind (rd (\<lambda>w. validate_receive_policy w t subject (target destination))) (\<lambda>blocked.
            rseq (ensure (blocked = None) (TIP20 PolicyForbids))
                 (case spending_account mode recovery_auth of
                    Some addr \<Rightarrow> check_and_update_spending_limit t addr amount
                  | None \<Rightarrow> ok ())))
          else rd (\<lambda>w. ensure_authorized_as w t [(target destination, transfer_or w AuthRecipient)]))
   (rseq (transfer_core t RECEIVE_POLICY_GUARD_ADDRESS destination amount)
         (emit_hop t destination amount)))))"

definition transfer_fee_pre_tx :: "address \<Rightarrow> address \<Rightarrow> u256 \<Rightarrow> unit M" where
  "transfer_fee_pre_tx t from amount =
    rseq (rd (\<lambda>w. check_not_paused w t))
   (rseq (check_and_update_spending_limit t from amount)
   (rbind (update_rewards t from) (\<lambda>from_reward_recipient.
    rseq (only_if (from_reward_recipient \<noteq> 0) (opted_in_sub t amount))
   (rseq (decrement_balance t from amount)
         (increment_balance t TIP_FEE_MANAGER_ADDRESS amount)))))"

definition transfer_fee_post_tx :: "address \<Rightarrow> address \<Rightarrow> u256 \<Rightarrow> u256 \<Rightarrow> unit M" where
  "transfer_fee_post_tx t to refund actual_spending =
    rseq (emit20 t (Transfer to TIP_FEE_MANAGER_ADDRESS actual_spending))
   (only_if (refund \<noteq> 0)
     (rbind (gets spec) (\<lambda>sp.
      rseq (only_if (T1C \<le> sp) (refund_spending_limit to t refund))
     (rbind (update_rewards t to) (\<lambda>to_reward_recipient.
      rseq (only_if (to_reward_recipient \<noteq> 0) (opted_in_add t refund))
     (rseq (decrement_balance t TIP_FEE_MANAGER_ADDRESS refund)
           (increment_balance t to refund)))))))"

section \<open>Initialization\<close>

definition set_code :: "address \<Rightarrow> unit M" where
  "set_code a = modify (\<lambda>w. w\<lparr>has_code := (has_code w)(a := True)\<rparr>)"

definition initialize :: "address \<Rightarrow> address \<Rightarrow> string \<Rightarrow> string \<Rightarrow> string \<Rightarrow> address \<Rightarrow> address \<Rightarrow> unit M" where
  "initialize t msg_sender nam symbol cur quote admin =
    rseq (set_code t)
   (rseq (upd_token t (\<lambda>s. s\<lparr>tk_name := nam, tk_symbol := symbol, currency := cur,
            quote_token := quote, next_quote_token := quote, supply_cap := U128_MAX\<rparr>))
   (rbind (gets spec) (\<lambda>sp.
    rseq (if T9 \<le> sp then set_token_transfer_policy t ALLOW_ALL_POLICY_ID
          else upd_token t (\<lambda>s. s\<lparr>transfer_policy_id_slot := ALLOW_ALL_POLICY_ID\<rparr>))
   (rseq (initialize_roles t)
         (grant_default_admin t msg_sender admin)))))"

end
