(* ===== verification/Receive_Guard.thy ===== *)
theory Receive_Guard
  imports Tip20
begin

text \<open>
  The receive-policy guard (\<open>precompiles/src/receive_policy_guard/mod.rs\<close>): claiming and burning the
  funds that tokens diverted to it.
\<close>

definition emit_guard :: "guard_event \<Rightarrow> unit M" where
  "emit_guard e = emit_event RECEIVE_POLICY_GUARD_ADDRESS (ReceivePolicyGuardEvent e)"

definition guard_balance_of :: "world \<Rightarrow> claim_receipt option \<Rightarrow> u256 R" where
  "guard_balance_of w bytes =
    ebind (eok_or bytes (ReceivePolicyGuardError InvalidReceipt)) (\<lambda>receipt.
    Inr (guard_balances (guard w) (receipt_key w receipt)))"

definition claim :: "address \<Rightarrow> address \<Rightarrow> claim_receipt option \<Rightarrow> unit M" where
  "claim msg_sender to bytes =
    rseq (ensure (to \<noteq> RECEIVE_POLICY_GUARD_ADDRESS) (ReceivePolicyGuardError InvalidClaimAddress))
   (rbind (rd (\<lambda>w. resolve_receipt w bytes)) (\<lambda>(receipt, receiver, mode).
    let recovery_authority = authority mode receipt in
    rseq (ensure (recovery_authority = msg_sender) (ReceivePolicyGuardError UnauthorizedClaimer))
   (rbind (gets (\<lambda>w. receipt_key w receipt)) (\<lambda>key.
    rbind (gets (\<lambda>w. guard_balances (guard w) key)) (\<lambda>amount.
    rseq (ensure (amount \<noteq> 0) (ReceivePolicyGuardError InvalidReceipt))
   (rseq (write_receipt key 0)
   (rbind (rd (\<lambda>_. from_address (rc_token receipt))) (\<lambda>t.
    rseq (release_blocked_funds t (rc_originator receipt) receiver to amount mode recovery_authority)
         (emit_guard (ReceiptClaimed receipt receiver msg_sender to amount))))))))))"

definition burn_blocked_receipt :: "address \<Rightarrow> claim_receipt option \<Rightarrow> unit M" where
  "burn_blocked_receipt msg_sender bytes =
    rbind (rd (\<lambda>w. resolve_receipt w bytes)) (\<lambda>(receipt, receiver, mode).
    rbind (gets (\<lambda>w. receipt_key w receipt)) (\<lambda>key.
    rbind (gets (\<lambda>w. guard_balances (guard w) key)) (\<lambda>amount.
    rseq (ensure (amount \<noteq> 0) (ReceivePolicyGuardError InvalidReceipt))
   (rbind (rd (\<lambda>_. from_address (rc_token receipt))) (\<lambda>t.
    rseq (burn_blocked t msg_sender (policy_subject mode (rc_originator receipt) receiver) amount False)
   (rseq (write_receipt key 0)
         (emit_guard (ReceiptBurned receipt receiver msg_sender amount))))))))"

end
