(* ===== verification/Factory.thy ===== *)
theory Factory
  imports Tip20
begin

text \<open>
  The TIP-20 factory (\<open>precompiles/src/tip20_factory/mod.rs\<close>): deterministic token addresses and the
  creation of tokens.
\<close>

definition RESERVED_SIZE :: u64 where
  "RESERVED_SIZE = 1024"

definition compute_tip20_address :: "world \<Rightarrow> address \<Rightarrow> b256 \<Rightarrow> address \<times> u64" where
  "compute_tip20_address w sender salt =
    (let i = unat (drop_bit 192 (keccak256 w (AbiAddressSalt sender salt))) in (new_tip20 i, i))"

definition get_token_address :: "world \<Rightarrow> address \<Rightarrow> b256 \<Rightarrow> address R" where
  "get_token_address w sender salt =
    (let (a, lower_bytes) = compute_tip20_address w sender salt in
     if lower_bytes < RESERVED_SIZE then Inl (TIP20Factory AddressReserved) else Inr a)"

record create_token_call =
  ct_name :: string
  ct_symbol :: string
  ct_currency :: string
  ct_quote_token :: address
  ct_admin :: address
  ct_salt :: b256

definition quote_currency_mismatch :: "world \<Rightarrow> string \<Rightarrow> address \<Rightarrow> bool" where
  "quote_currency_mismatch w cur quote = (cur = USD_CURRENCY \<and> currency (tokens w quote) \<noteq> USD_CURRENCY)"

definition create_token_checks :: "world \<Rightarrow> address \<Rightarrow> create_token_call \<Rightarrow> address R" where
  "create_token_checks w sender call =
    (let (token_address, lower_bytes) = compute_tip20_address w sender (ct_salt call) in
     if is_tip20 w token_address then Inl (TIP20Factory (TokenAlreadyExists token_address))
     else if \<not> is_tip20 w (ct_quote_token call) then Inl (TIP20 InvalidQuoteToken)
     else if quote_currency_mismatch w (ct_currency call) (ct_quote_token call) then Inl (TIP20 InvalidQuoteToken)
     else if lower_bytes < RESERVED_SIZE then Inl (TIP20Factory AddressReserved)
     else from_address token_address)"

definition create_token :: "address \<Rightarrow> create_token_call \<Rightarrow> address M" where
  "create_token sender call =
    rbind (rd (\<lambda>w. create_token_checks w sender call)) (\<lambda>t.
    rseq (initialize t sender (ct_name call) (ct_symbol call) (ct_currency call) (ct_quote_token call) (ct_admin call))
   (rseq (emit_event TIP20_FACTORY_ADDRESS (TIP20FactoryEvent
            (TokenCreated t (ct_name call) (ct_symbol call) (ct_currency call) (ct_quote_token call) (ct_admin call) (ct_salt call))))
         (ok t)))"

definition create_token_with_logo :: "address \<Rightarrow> create_token_call \<Rightarrow> string \<Rightarrow> address M" where
  "create_token_with_logo sender call uri =
    rseq (only_if (uri \<noteq> []) (rd (\<lambda>_. validate_logo_uri uri)))
   (rbind (create_token sender call) (\<lambda>token_address.
    rseq (only_if (uri \<noteq> [])
           (rbind (rd (\<lambda>_. from_address token_address)) (\<lambda>t. write_logo_uri t sender uri)))
         (ok token_address)))"

definition reserved_checks :: "world \<Rightarrow> address \<Rightarrow> string \<Rightarrow> address \<Rightarrow> address R" where
  "reserved_checks w a cur quote =
    (if \<not> is_tip20_prefix a then Inl (TIP20 InvalidToken)
     else if is_tip20 w a then Inl (TIP20Factory (TokenAlreadyExists a))
     else if quote \<noteq> 0 \<and> (a = PATH_USD_ADDRESS \<or> \<not> is_tip20 w quote) then Inl (TIP20 InvalidQuoteToken)
     else if quote \<noteq> 0 \<and> quote_currency_mismatch w cur quote then Inl (TIP20 InvalidQuoteToken)
     else if (case tip20_id a of None \<Rightarrow> True | Some i \<Rightarrow> i \<ge> RESERVED_SIZE) then Inl (TIP20Factory AddressNotReserved)
     else from_address a)"

definition create_token_reserved_address ::
  "address \<Rightarrow> string \<Rightarrow> string \<Rightarrow> string \<Rightarrow> address \<Rightarrow> address \<Rightarrow> address M" where
  "create_token_reserved_address a nam symbol cur quote admin =
    rbind (rd (\<lambda>w. reserved_checks w a cur quote)) (\<lambda>t.
    rseq (initialize t admin nam symbol cur quote admin)
   (rseq (emit_event TIP20_FACTORY_ADDRESS (TIP20FactoryEvent (TokenCreated a nam symbol cur quote admin 0)))
         (ok a)))"

end
