(* ===== verification/System.thy ===== *)
theory System
  imports Receive_Guard Factory Keychain_Keys
begin

text \<open>
  The token-related precompiles as one machine. A token call is dispatched as in
  \<open>precompiles/src/tip20/dispatch.rs\<close>: the token must be deployed and the function must be scheduled at
  the active hardfork. The machine interleaves token calls with calls of the guard, the factory, the
  policy registry, the keychain and the address registry, and with the transfers that other
  precompiles and the transaction handler make. A call that fails leaves the state as it was.
\<close>

section \<open>Token dispatch\<close>

datatype (plugins only: code size) tip20_call =
    TransferCall address u256
  | TransferFromCall address address u256
  | TransferWithMemoCall address u256 b256
  | TransferFromWithMemoCall address address u256 b256
  | ApproveCall address u256
  | PermitCall address address u256 u256 u8 b256 b256
  | MintCall address u256
  | MintWithMemoCall address u256 b256
  | BurnCall u256
  | BurnWithMemoCall u256 b256
  | BurnBlockedCall address u256
  | BurnAtCall address u256
  | ChangeTransferPolicyIdCall u64
  | SetSupplyCapCall u256
  | SetLogoURICall string
  | PauseCall
  | UnpauseCall
  | SetNextQuoteTokenCall address
  | CompleteQuoteTokenUpdateCall
  | DistributeRewardCall u256
  | SetRewardRecipientCall address
  | ClaimRewardsCall
  | GrantRoleCall b256 address
  | RevokeRoleCall b256 address
  | RenounceRoleCall b256
  | SetRoleAdminCall b256 b256

fun tip20_since :: "tip20_call \<Rightarrow> hardfork" where
  "tip20_since (SetLogoURICall _) = T5"
| "tip20_since (BurnAtCall _ _) = T12"
| "tip20_since (PermitCall _ _ _ _ _ _ _) = T2"
| "tip20_since _ = Genesis"

definition void :: "'a M \<Rightarrow> unit M" where
  "void m = rbind m (\<lambda>_. ok ())"

primrec tip20_handle :: "address \<Rightarrow> address \<Rightarrow> tip20_call \<Rightarrow> unit M" where
  "tip20_handle t s (TransferCall to v) = void (transfer t s to v)"
| "tip20_handle t s (TransferFromCall from to v) = void (transfer_from t s from to v)"
| "tip20_handle t s (TransferWithMemoCall to v m) = transfer_with_memo t s to v m"
| "tip20_handle t s (TransferFromWithMemoCall from to v m) = void (transfer_from_with_memo t s from to v m)"
| "tip20_handle t s (ApproveCall sp v) = void (approve t s sp v)"
| "tip20_handle t s (PermitCall owner sp val deadline v r sg) = permit t owner sp val deadline v r sg"
| "tip20_handle t s (MintCall to v) = mint t s to v"
| "tip20_handle t s (MintWithMemoCall to v m) = mint_with_memo t s to v m"
| "tip20_handle t s (BurnCall v) = burn t s v"
| "tip20_handle t s (BurnWithMemoCall v m) = burn_with_memo t s v m"
| "tip20_handle t s (BurnBlockedCall from v) = burn_blocked t s from v True"
| "tip20_handle t s (BurnAtCall from v) = burn_at t s from v"
| "tip20_handle t s (ChangeTransferPolicyIdCall p) = change_transfer_policy_id t s p"
| "tip20_handle t s (SetSupplyCapCall c) = set_supply_cap t s c"
| "tip20_handle t s (SetLogoURICall u) = set_logo_uri t s u"
| "tip20_handle t s PauseCall = pause t s"
| "tip20_handle t s UnpauseCall = unpause t s"
| "tip20_handle t s (SetNextQuoteTokenCall q) = set_next_quote_token t s q"
| "tip20_handle t s CompleteQuoteTokenUpdateCall = complete_quote_token_update t s"
| "tip20_handle t s (DistributeRewardCall v) = distribute_reward t s v"
| "tip20_handle t s (SetRewardRecipientCall r) = set_reward_recipient t s r"
| "tip20_handle t s ClaimRewardsCall = void (claim_rewards t s)"
| "tip20_handle t s (GrantRoleCall r a) = grant_role t s r a"
| "tip20_handle t s (RevokeRoleCall r a) = revoke_role t s r a"
| "tip20_handle t s (RenounceRoleCall r) = renounce_role t s r"
| "tip20_handle t s (SetRoleAdminCall r a) = set_role_admin t s r a"

definition tip20_dispatch :: "address \<Rightarrow> address \<Rightarrow> tip20_call \<Rightarrow> unit M" where
  "tip20_dispatch t msg_sender call =
    rbind (gets (\<lambda>w. has_code w t)) (\<lambda>initialized.
    rseq (ensure initialized (TIP20 Uninitialized))
   (rbind (gets spec) (\<lambda>sp.
    rseq (ensure (tip20_since call \<le> sp) UnknownFunctionSelector)
         (tip20_handle t msg_sender call))))"

section \<open>The machine\<close>

datatype (plugins only: code size) system_call =
    TokenCall address address tip20_call
  | SystemTransfer address address address u256
  | ReserveTransfer address address address u256 address
  | FeePreTx address address u256
  | FeePostTx address address u256 u256
  | GuardClaim address address "claim_receipt option"
  | GuardBurn address "claim_receipt option"
  | CreateToken address create_token_call
  | CreateTokenWithLogo address create_token_call string
  | CreateReserved address string string string address address
  | RegistryCall tip403_call
  | KeychainCall keychain_call
  | RegisterMaster address b256

text \<open>The precompile lookup routes only addresses with the TIP-20 prefix to a token.\<close>

definition on_token :: "address \<Rightarrow> (address \<Rightarrow> unit M) \<Rightarrow> unit M" where
  "on_token t m = rbind (rd (\<lambda>_. from_address t)) m"

primrec system_exec :: "system_call \<Rightarrow> unit M" where
  "system_exec (TokenCall t s c) = on_token t (\<lambda>t. tip20_dispatch t s c)"
| "system_exec (SystemTransfer t caller from v) = on_token t (\<lambda>t. void (system_transfer_from t caller from v))"
| "system_exec (ReserveTransfer t from to v s) =
    on_token t (\<lambda>t. rbind (rd (\<lambda>w. resolve w to)) (\<lambda>r. channel_reserve_transfer t from r v s))"
| "system_exec (FeePreTx t from v) = on_token t (\<lambda>t. transfer_fee_pre_tx t from v)"
| "system_exec (FeePostTx t to refund v) = on_token t (\<lambda>t. transfer_fee_post_tx t to refund v)"
| "system_exec (GuardClaim s to bytes) = claim s to bytes"
| "system_exec (GuardBurn s bytes) = burn_blocked_receipt s bytes"
| "system_exec (CreateToken s c) = void (create_token s c)"
| "system_exec (CreateTokenWithLogo s c u) = void (create_token_with_logo s c u)"
| "system_exec (CreateReserved a n sy c q adm) = void (create_token_reserved_address a n sy c q adm)"
| "system_exec (RegistryCall c) = tip403_exec c"
| "system_exec (KeychainCall c) = keychain_exec c"
| "system_exec (RegisterMaster a salt) = void (register_virtual_master a salt)"

end
