(* ===== verification/Fee_Amm.thy ===== *)
theory Fee_Amm
  imports System
begin

text \<open>
  The fee AMM (\<open>precompiles/src/tip_fee_manager/amm.rs\<close>): pools of a user token and a validator token
  with fixed rates, liquidity provision, rebalancing, route planning and fee swaps. The recording of
  storage actions for the parallel executor and the storage-credit switch do not change the state and
  are left out.
\<close>

section \<open>Rates and pools\<close>

definition M_RATE :: u256 where
  "M_RATE = 9970"

definition N_RATE :: u256 where
  "N_RATE = 9985"

definition SCALE :: u256 where
  "SCALE = 10000"

definition MIN_LIQUIDITY :: u256 where
  "MIN_LIQUIDITY = 1000"

definition compute_amount_out :: "u256 \<Rightarrow> u256 R" where
  "compute_amount_out amount_in =
    eok_or (map_option (\<lambda>product. product div SCALE) (checked_mul 256 amount_in M_RATE)) under_overflow"

definition apply_swap :: "pool \<Rightarrow> u256 \<Rightarrow> u256 \<Rightarrow> pool R" where
  "apply_swap p amount_in amount_out =
    (if amount_out > reserve_validator_token p then Inl (TIPFeeAMMError AmmInsufficientLiquidity)
     else
       ebind (eok_or (try_into 128 amount_in) under_overflow) (\<lambda>amount_in.
       ebind (eok_or (try_into 128 amount_out) under_overflow) (\<lambda>amount_out.
       ebind (eok_or (checked_add 128 (reserve_user_token p) amount_in) under_overflow) (\<lambda>u.
       ebind (eok_or (checked_sub (reserve_validator_token p) amount_out) under_overflow) (\<lambda>v.
       Inr (p\<lparr>reserve_user_token := u, reserve_validator_token := v\<rparr>))))))"

definition has_enough_reserve_validator_token :: "pool \<Rightarrow> u256 \<Rightarrow> bool" where
  "has_enough_reserve_validator_token p amount = (reserve_validator_token p \<ge> amount)"

datatype (plugins only: code size) fee_route = SameToken | Direct | TwoHop address

section \<open>Storage access\<close>

definition upd_fees :: "(fee_manager_storage \<Rightarrow> fee_manager_storage) \<Rightarrow> unit M" where
  "upd_fees f = modify (\<lambda>w. w\<lparr>fee_manager := f (fee_manager w)\<rparr>)"

lemma upd_fees_run [simp]: "upd_fees f w = Inr ((), w\<lparr>fee_manager := f (fee_manager w)\<rparr>)"
  by (simp add: upd_fees_def)

definition emit_amm :: "fee_amm_event \<Rightarrow> unit M" where
  "emit_amm e = emit_event TIP_FEE_MANAGER_ADDRESS (TIPFeeAMMEvent e)"

definition pool_id :: "world \<Rightarrow> address \<Rightarrow> address \<Rightarrow> b256" where
  "pool_id w user_token validator_token = keccak256 w (AbiAddressPair user_token validator_token)"

definition read_pool :: "world \<Rightarrow> b256 \<Rightarrow> pool" where
  "read_pool w i = pools (fee_manager w) i"

definition write_pool :: "b256 \<Rightarrow> pool \<Rightarrow> unit M" where
  "write_pool i p = upd_fees (\<lambda>f. f\<lparr>pools := (pools f)(i := p)\<rparr>)"

definition get_pool :: "world \<Rightarrow> address \<Rightarrow> address \<Rightarrow> pool" where
  "get_pool w user_token validator_token = read_pool w (pool_id w user_token validator_token)"

definition get_total_supply :: "world \<Rightarrow> b256 \<Rightarrow> u256" where
  "get_total_supply w i = lp_total_supply (fee_manager w) i"

definition set_lp_total_supply :: "b256 \<Rightarrow> u256 \<Rightarrow> unit M" where
  "set_lp_total_supply i v = upd_fees (\<lambda>f. f\<lparr>lp_total_supply := (lp_total_supply f)(i := v)\<rparr>)"

definition get_liquidity_balances :: "world \<Rightarrow> b256 \<Rightarrow> address \<Rightarrow> u256" where
  "get_liquidity_balances w i user = liquidity_balances (fee_manager w) i user"

definition set_liquidity_balances :: "b256 \<Rightarrow> address \<Rightarrow> u256 \<Rightarrow> unit M" where
  "set_liquidity_balances i user v =
    upd_fees (\<lambda>f. f\<lparr>liquidity_balances := (liquidity_balances f)(i := (liquidity_balances f i)(user := v))\<rparr>)"

definition reserve_pool_liquidity :: "b256 \<Rightarrow> u128 \<Rightarrow> unit M" where
  "reserve_pool_liquidity i amount =
    upd_fees (\<lambda>f. f\<lparr>pending_fee_swap_reservation := (pending_fee_swap_reservation f)(i := amount)\<rparr>)"

text \<open>From T1C on no withdrawal may leave less than the liquidity reserved for the pending fee swap.\<close>

definition check_reservation :: "world \<Rightarrow> b256 \<Rightarrow> u128 \<Rightarrow> unit R" where
  "check_reservation w i available =
    (if T1C \<le> spec w \<and> available < pending_fee_swap_reservation (fee_manager w) i
     then Inl (TIPFeeAMMError AmmInsufficientLiquidity) else Inr ())"

section \<open>Rebalancing\<close>

definition rebalance_amount_in :: "u256 \<Rightarrow> u256 R" where
  "rebalance_amount_in amount_out =
    eok_or (Option.bind (checked_mul 256 amount_out N_RATE) (\<lambda>product.
            Option.bind (checked_div product SCALE) (\<lambda>result. checked_add 256 result 1))) under_overflow"

definition rebalance_swap :: "address \<Rightarrow> address \<Rightarrow> address \<Rightarrow> u256 \<Rightarrow> address \<Rightarrow> u256 M" where
  "rebalance_swap msg_sender user_token validator_token amount_out to =
    rseq (ensure (amount_out \<noteq> 0) (TIPFeeAMMError AmmInvalidAmount))
   (rbind (gets (\<lambda>w. pool_id w user_token validator_token)) (\<lambda>i.
    rbind (gets (\<lambda>w. read_pool w i)) (\<lambda>p.
    rbind (rd (\<lambda>_. rebalance_amount_in amount_out)) (\<lambda>amount_in.
    rbind (ok_or (try_into 128 amount_in) (TIPFeeAMMError AmmInvalidAmount)) (\<lambda>amount_in.
    rbind (ok_or (try_into 128 amount_out) (TIPFeeAMMError AmmInvalidAmount)) (\<lambda>amount_out.
    rbind (ok_or (checked_add 128 (reserve_validator_token p) amount_in) (TIPFeeAMMError InsufficientReserves)) (\<lambda>v.
    rbind (ok_or (checked_sub (reserve_user_token p) amount_out) (TIPFeeAMMError AmmInvalidAmount)) (\<lambda>u.
    rseq (rd (\<lambda>w. check_reservation w i v))
   (rseq (write_pool i (p\<lparr>reserve_validator_token := v, reserve_user_token := u\<rparr>))
   (rbind (rd (\<lambda>_. from_address validator_token)) (\<lambda>vt.
    rbind (system_transfer_from vt TIP_FEE_MANAGER_ADDRESS msg_sender amount_in) (\<lambda>_.
    rbind (rd (\<lambda>_. from_address user_token)) (\<lambda>ut.
    rbind (transfer ut TIP_FEE_MANAGER_ADDRESS to amount_out) (\<lambda>_.
    rseq (emit_amm (RebalanceSwap ut vt msg_sender amount_in amount_out))
         (ok amount_in)))))))))))))))"

section \<open>Liquidity provision\<close>

text \<open>The shares of a deposit: half of a first deposit less the locked minimum, else pro rata to the value
  of the pool after rebalancing. A first deposit also locks the minimum.\<close>

definition initial_shares :: "u256 \<Rightarrow> u256 \<Rightarrow> (u256 \<times> u256) R" where
  "initial_shares supply amount =
    ebind (eok_or (checked_div amount 2) under_overflow) (\<lambda>half_amount.
    if half_amount \<le> MIN_LIQUIDITY then Inl (TIPFeeAMMError AmmInsufficientLiquidity)
    else
      ebind (eok_or (checked_add 256 supply MIN_LIQUIDITY) under_overflow) (\<lambda>total.
      ebind (eok_or (checked_sub half_amount MIN_LIQUIDITY) (TIPFeeAMMError AmmInsufficientLiquidity)) (\<lambda>liquidity.
      Inr (total, liquidity))))"

definition pro_rata_shares :: "pool \<Rightarrow> u256 \<Rightarrow> u256 \<Rightarrow> u256 R" where
  "pro_rata_shares p supply amount =
    ebind (eok_or (Option.bind (checked_mul 256 N_RATE (reserve_user_token p)) (\<lambda>v. checked_div v SCALE))
      (TIPFeeAMMError InvalidSwapCalculation)) (\<lambda>product.
    ebind (eok_or (checked_add 256 (reserve_validator_token p) product) (TIPFeeAMMError AmmInvalidAmount)) (\<lambda>denom.
    if denom = 0 then Inl (TIPFeeAMMError DivisionByZero)
    else eok_or (Option.bind (checked_mul 256 amount supply) (\<lambda>v. checked_div v denom)) (TIPFeeAMMError InvalidSwapCalculation)))"

definition mint_shares :: "pool \<Rightarrow> u256 \<Rightarrow> u256 \<Rightarrow> (u256 \<times> u256) R" where
  "mint_shares p supply amount =
    (if reserve_user_token p = 0 \<and> reserve_validator_token p = 0 then initial_shares supply amount
     else ebind (pro_rata_shares p supply amount) (\<lambda>liquidity. Inr (supply, liquidity)))"

definition check_pair :: "address \<Rightarrow> address \<Rightarrow> u256 \<Rightarrow> unit M" where
  "check_pair user_token validator_token amount =
    rseq (ensure (user_token \<noteq> validator_token) (TIPFeeAMMError IdenticalAddresses))
   (rseq (ensure (amount \<noteq> 0) (TIPFeeAMMError AmmInvalidAmount))
   (rseq (rd (\<lambda>w. validate_usd_currency w user_token))
         (rd (\<lambda>w. validate_usd_currency w validator_token))))"

definition amm_mint :: "address \<Rightarrow> address \<Rightarrow> address \<Rightarrow> u256 \<Rightarrow> address \<Rightarrow> u256 M" where
  "amm_mint msg_sender user_token validator_token amount to =
    rseq (check_pair user_token validator_token amount)
   (rbind (rd (\<lambda>_. from_address user_token)) (\<lambda>ut.
    rbind (rd (\<lambda>_. from_address validator_token)) (\<lambda>vt.
    rbind (gets spec) (\<lambda>sp.
    rseq (only_if (T8 \<le> sp)
           (rseq (rd (\<lambda>w. ensure_authorized_as w ut
                    [(msg_sender, transfer_or w AuthSender), (TIP_FEE_MANAGER_ADDRESS, transfer_or w AuthRecipient), (to, transfer_or w AuthRecipient)]))
                 (rd (\<lambda>w. ensure_authorized_as w vt [(to, transfer_or w AuthRecipient)]))))
   (rbind (gets (\<lambda>w. pool_id w ut vt)) (\<lambda>i.
    rbind (gets (\<lambda>w. read_pool w i)) (\<lambda>p.
    rbind (gets (\<lambda>w. get_total_supply w i)) (\<lambda>supply.
    rbind (rd (\<lambda>_. mint_shares p supply amount)) (\<lambda>(supply', liquidity).
    rseq (set_lp_total_supply i supply')
   (rseq (ensure (liquidity \<noteq> 0) (TIPFeeAMMError AmmInsufficientLiquidity))
   (rbind (system_transfer_from vt TIP_FEE_MANAGER_ADDRESS msg_sender amount) (\<lambda>_.
    rbind (ok_or (try_into 128 amount) (TIPFeeAMMError AmmInvalidAmount)) (\<lambda>validator_amount.
    rbind (ok_or (checked_add 128 (reserve_validator_token p) validator_amount) (TIPFeeAMMError AmmInvalidAmount)) (\<lambda>v.
    rseq (write_pool i (p\<lparr>reserve_validator_token := v\<rparr>))
   (rbind (ok_or (checked_add 256 supply' liquidity) under_overflow) (\<lambda>total.
    rseq (set_lp_total_supply i total)
   (rbind (gets (\<lambda>w. get_liquidity_balances w i to)) (\<lambda>balance.
    rbind (ok_or (checked_add 256 balance liquidity) under_overflow) (\<lambda>b.
    rseq (set_liquidity_balances i to b)
   (rseq (emit_amm (AmmMint msg_sender to ut vt amount liquidity))
         (ok liquidity)))))))))))))))))))))"

definition calculate_burn_amounts :: "world \<Rightarrow> pool \<Rightarrow> b256 \<Rightarrow> u256 \<Rightarrow> (u256 \<times> u256) R" where
  "calculate_burn_amounts w p i liquidity =
    (let supply = get_total_supply w i in
     ebind (eok_or (Option.bind (checked_mul 256 liquidity (reserve_user_token p)) (\<lambda>v. checked_div v supply)) under_overflow) (\<lambda>u.
     ebind (eok_or (Option.bind (checked_mul 256 liquidity (reserve_validator_token p)) (\<lambda>v. checked_div v supply)) under_overflow) (\<lambda>v.
     Inr (u, v))))"

definition amm_burn :: "address \<Rightarrow> address \<Rightarrow> address \<Rightarrow> u256 \<Rightarrow> address \<Rightarrow> (u256 \<times> u256) M" where
  "amm_burn msg_sender user_token validator_token liquidity to =
    rseq (check_pair user_token validator_token liquidity)
   (rbind (rd (\<lambda>_. from_address user_token)) (\<lambda>ut.
    rbind (rd (\<lambda>_. from_address validator_token)) (\<lambda>vt.
    rbind (gets spec) (\<lambda>sp.
    rseq (only_if (T8 \<le> sp)
           (rseq (rd (\<lambda>w. ensure_authorized_as w ut [(msg_sender, transfer_or w AuthSender)]))
                 (rd (\<lambda>w. ensure_authorized_as w vt [(msg_sender, transfer_or w AuthSender)]))))
   (rbind (gets (\<lambda>w. pool_id w ut vt)) (\<lambda>i.
    rbind (gets (\<lambda>w. get_liquidity_balances w i msg_sender)) (\<lambda>balance.
    rseq (ensure (liquidity \<le> balance) (TIPFeeAMMError AmmInsufficientLiquidity))
   (rbind (gets (\<lambda>w. read_pool w i)) (\<lambda>p.
    rbind (rd (\<lambda>w. calculate_burn_amounts w p i liquidity)) (\<lambda>(amount_user_token, amount_validator_token).
    rbind (ok_or (try_into 128 amount_validator_token) (TIPFeeAMMError AmmInvalidAmount)) (\<lambda>validator_amount.
    rbind (ok_or (checked_sub (reserve_validator_token p) validator_amount) (TIPFeeAMMError InsufficientReserves)) (\<lambda>available.
    rseq (rd (\<lambda>w. check_reservation w i available))
   (rbind (ok_or (checked_sub balance liquidity) under_overflow) (\<lambda>b.
    rseq (set_liquidity_balances i msg_sender b)
   (rbind (gets (\<lambda>w. get_total_supply w i)) (\<lambda>supply.
    rbind (ok_or (checked_sub supply liquidity) under_overflow) (\<lambda>s.
    rseq (set_lp_total_supply i s)
   (rbind (ok_or (try_into 128 amount_user_token) (TIPFeeAMMError AmmInvalidAmount)) (\<lambda>user_amount.
    rbind (ok_or (checked_sub (reserve_user_token p) user_amount) (TIPFeeAMMError InsufficientReserves)) (\<lambda>u.
    rbind (ok_or (checked_sub (reserve_validator_token p) validator_amount) (TIPFeeAMMError InsufficientReserves)) (\<lambda>v.
    rseq (write_pool i (p\<lparr>reserve_user_token := u, reserve_validator_token := v\<rparr>))
   (rbind (transfer ut TIP_FEE_MANAGER_ADDRESS to amount_user_token) (\<lambda>_.
    rbind (transfer vt TIP_FEE_MANAGER_ADDRESS to amount_validator_token) (\<lambda>_.
    rseq (emit_amm (AmmBurn msg_sender ut vt amount_user_token amount_validator_token liquidity to))
         (ok (amount_user_token, amount_validator_token))))))))))))))))))))))))))"

section \<open>Fee routes and fee swaps\<close>

text \<open>The route, the queried intermediate token, and the pools read with their validator-token reserves.\<close>

type_synonym pool_data = "(address \<times> address) \<times> u128"

definition plan_fee_route ::
  "world \<Rightarrow> address \<Rightarrow> address \<Rightarrow> u256 \<Rightarrow> (fee_route option \<times> address option \<times> pool_data list) R" where
  "plan_fee_route w user_token validator_token max_amount =
    (if user_token = validator_token then Inr (Some SameToken, None, [])
     else
       ebind (compute_amount_out max_amount) (\<lambda>amount_out.
       let direct_pool = get_pool w user_token validator_token;
           data1 = [((user_token, validator_token), reserve_validator_token direct_pool)] in
       if has_enough_reserve_validator_token direct_pool amount_out then Inr (Some Direct, None, data1)
       else if \<not> T5 \<le> spec w then Inr (None, None, data1)
       else
         ebind (from_address user_token) (\<lambda>ut.
         let mid_token = quote_token (tokens w ut) in
         if mid_token = 0 \<or> mid_token = validator_token then Inr (None, Some mid_token, data1)
         else
           let leg1 = get_pool w user_token mid_token;
               data2 = data1 @ [((user_token, mid_token), reserve_validator_token leg1)] in
           if \<not> has_enough_reserve_validator_token leg1 amount_out then Inr (None, Some mid_token, data2)
           else
             ebind (compute_amount_out amount_out) (\<lambda>amount_out2.
             let leg2 = get_pool w mid_token validator_token;
                 data3 = data2 @ [((mid_token, validator_token), reserve_validator_token leg2)] in
             if \<not> has_enough_reserve_validator_token leg2 amount_out2 then Inr (None, Some mid_token, data3)
             else Inr (Some (TwoHop mid_token), Some mid_token, data3)))))"

definition execute_fee_swap :: "address \<Rightarrow> address \<Rightarrow> u256 \<Rightarrow> u256 M" where
  "execute_fee_swap user_token validator_token amount_in =
    rbind (rd (\<lambda>_. compute_amount_out amount_in)) (\<lambda>amount_out.
    rbind (gets (\<lambda>w. pool_id w user_token validator_token)) (\<lambda>i.
    rbind (gets (\<lambda>w. read_pool w i)) (\<lambda>p.
    rbind (rd (\<lambda>_. apply_swap p amount_in amount_out)) (\<lambda>p'.
    rseq (write_pool i p')
         (ok amount_out)))))"

end
