(* ===== verification/Fee_Manager.thy ===== *)
theory Fee_Manager
  imports Fee_Amm
begin

text \<open>
  The fee manager (\<open>precompiles/src/tip_fee_manager/mod.rs\<close>): preferred fee tokens, the collection of the
  maximum fee before a transaction, its settlement afterwards, and the distribution of the fees that
  validators earned. The block beneficiary is an argument, as in the source.
\<close>

section \<open>Preferences\<close>

definition emit_fee :: "fee_event \<Rightarrow> unit M" where
  "emit_fee e = emit_event TIP_FEE_MANAGER_ADDRESS (FeeManagerEvent e)"

definition get_validator_token :: "world \<Rightarrow> address \<Rightarrow> address" where
  "get_validator_token w beneficiary =
    (let token = validator_tokens (fee_manager w) beneficiary in if token = 0 then DEFAULT_FEE_TOKEN else token)"

definition set_validator_token :: "address \<Rightarrow> address \<Rightarrow> address \<Rightarrow> unit M" where
  "set_validator_token sender token beneficiary =
    rbind (gets (\<lambda>w. is_tip20 w token)) (\<lambda>deployed.
    rseq (ensure deployed (FeeManagerError FeeInvalidToken))
   (rseq (ensure (sender \<noteq> beneficiary) (FeeManagerError CannotChangeWithinBlock))
   (rseq (rd (\<lambda>w. validate_usd_currency w token))
   (rseq (upd_fees (\<lambda>f. f\<lparr>validator_tokens := (validator_tokens f)(sender := token)\<rparr>))
         (emit_fee (ValidatorTokenSet sender token))))))"

definition set_user_token :: "address \<Rightarrow> address \<Rightarrow> unit M" where
  "set_user_token sender token =
    rbind (gets (\<lambda>w. is_tip20 w token)) (\<lambda>deployed.
    rseq (ensure deployed (FeeManagerError FeeInvalidToken))
   (rseq (rd (\<lambda>w. validate_usd_currency w token))
   (rbind (gets spec) (\<lambda>sp.
    rbind (gets (\<lambda>w. user_tokens (fee_manager w) sender)) (\<lambda>current.
    if T3 \<le> sp \<and> current = token then ok ()
    else
      rseq (upd_fees (\<lambda>f. f\<lparr>user_tokens := (user_tokens f)(sender := token)\<rparr>))
           (emit_fee (UserTokenSet sender token)))))))"

section \<open>Collection\<close>

definition amount_out_u128 :: "u256 \<Rightarrow> u128 R" where
  "amount_out_u128 amount = ebind (compute_amount_out amount) (\<lambda>v. eok_or (try_into 128 v) under_overflow)"

definition reserve_fee_liquidity :: "address \<Rightarrow> address \<Rightarrow> u256 \<Rightarrow> fee_route \<Rightarrow> unit M" where
  "reserve_fee_liquidity user_token validator_token max_amount route =
    (case route of
       SameToken \<Rightarrow> ok ()
     | Direct \<Rightarrow>
         rbind (gets spec) (\<lambda>sp.
         only_if (T1C \<le> sp)
           (rbind (rd (\<lambda>_. amount_out_u128 max_amount)) (\<lambda>amount_out.
            rbind (gets (\<lambda>w. pool_id w user_token validator_token)) (\<lambda>i.
            reserve_pool_liquidity i amount_out))))
     | TwoHop intermediate \<Rightarrow>
         rbind (rd (\<lambda>_. amount_out_u128 max_amount)) (\<lambda>out1.
         rbind (rd (\<lambda>_. amount_out_u128 out1)) (\<lambda>out2.
         rbind (gets (\<lambda>w. pool_id w user_token intermediate)) (\<lambda>i1.
         rseq (reserve_pool_liquidity i1 out1)
        (rbind (gets (\<lambda>w. pool_id w intermediate validator_token)) (\<lambda>i2.
         rseq (reserve_pool_liquidity i2 out2)
              (upd_fees (\<lambda>f. f\<lparr>two_hop_intermediate := intermediate\<rparr>))))))))"

definition collect_fee_pre_tx :: "address \<Rightarrow> address \<Rightarrow> u256 \<Rightarrow> address \<Rightarrow> bool \<Rightarrow> address M" where
  "collect_fee_pre_tx fee_payer user_token max_amount beneficiary skip_liquidity_check =
    rbind (gets (\<lambda>w. get_validator_token w beneficiary)) (\<lambda>validator_token.
    rbind (rd (\<lambda>_. from_address user_token)) (\<lambda>t.
    rbind (gets spec) (\<lambda>sp.
    rseq (if T8 \<le> sp then rd (\<lambda>w. ensure_authorized_as w t [(fee_payer, transfer_or w AuthSender)])
          else rd (\<lambda>w. ensure_transfer_authorized w t fee_payer TIP_FEE_MANAGER_ADDRESS))
   (rseq (transfer_fee_pre_tx t fee_payer max_amount)
   (rseq (only_if (\<not> skip_liquidity_check)
           (rbind (rd (\<lambda>w. plan_fee_route w user_token validator_token max_amount)) (\<lambda>(route, _, _).
            rbind (ok_or route (TIPFeeAMMError AmmInsufficientLiquidity)) (\<lambda>route.
            reserve_fee_liquidity user_token validator_token max_amount route))))
         (ok user_token))))))"

definition fee_sinc :: "address \<Rightarrow> address \<Rightarrow> u256 \<Rightarrow> unit M" where
  "fee_sinc validator token amount =
    rbind (gets (\<lambda>w. collected_fees (fee_manager w) validator token)) (\<lambda>current.
    rbind (ok_or (checked_add 256 current amount) under_overflow) (\<lambda>v.
    upd_fees (\<lambda>f. f\<lparr>collected_fees := (collected_fees f)(validator := (collected_fees f validator)(token := v))\<rparr>)))"

definition increment_collected_fees :: "address \<Rightarrow> address \<Rightarrow> u256 \<Rightarrow> unit M" where
  "increment_collected_fees validator token amount =
    (if amount = 0 then ok () else fee_sinc validator token amount)"

text \<open>The settlement of the fee in the validator's token: unchanged, after one swap or after two.\<close>

definition settle_fee :: "address \<Rightarrow> address \<Rightarrow> address \<Rightarrow> u256 \<Rightarrow> u256 M" where
  "settle_fee fee_token validator_token hop_token actual_spending =
    (if fee_token = validator_token then ok actual_spending
     else if hop_token = 0 then
       rseq (only_if (actual_spending \<noteq> 0)
              (rbind (execute_fee_swap fee_token validator_token actual_spending) (\<lambda>_. ok ())))
            (rd (\<lambda>_. compute_amount_out actual_spending))
     else
       rseq (only_if (actual_spending \<noteq> 0)
              (rbind (execute_fee_swap fee_token hop_token actual_spending) (\<lambda>out1.
               rbind (execute_fee_swap hop_token validator_token out1) (\<lambda>_. ok ()))))
            (rd (\<lambda>_. ebind (compute_amount_out actual_spending) compute_amount_out)))"

definition collect_fee_post_tx :: "address \<Rightarrow> u256 \<Rightarrow> u256 \<Rightarrow> address \<Rightarrow> address \<Rightarrow> u256 M" where
  "collect_fee_post_tx fee_payer actual_spending refund_amount fee_token beneficiary =
    rbind (rd (\<lambda>_. from_address fee_token)) (\<lambda>t.
    rseq (transfer_fee_post_tx t fee_payer refund_amount actual_spending)
   (rbind (gets (\<lambda>w. two_hop_intermediate (fee_manager w))) (\<lambda>hop_token.
    rbind (gets (\<lambda>w. get_validator_token w beneficiary)) (\<lambda>validator_token.
    rbind (settle_fee fee_token validator_token hop_token actual_spending) (\<lambda>amount.
    rseq (increment_collected_fees beneficiary validator_token amount)
         (ok amount))))))"

section \<open>Distribution\<close>

definition distribute_fees :: "address \<Rightarrow> address \<Rightarrow> unit M" where
  "distribute_fees validator token =
    rbind (gets (\<lambda>w. collected_fees (fee_manager w) validator token)) (\<lambda>amount.
    if amount = 0 then ok ()
    else
      rseq (upd_fees (\<lambda>f. f\<lparr>collected_fees := (collected_fees f)(validator := (collected_fees f validator)(token := 0))\<rparr>))
     (rbind (rd (\<lambda>_. from_address token)) (\<lambda>t.
      rbind (transfer t TIP_FEE_MANAGER_ADDRESS validator amount) (\<lambda>_.
      emit_fee (FeesDistributed validator token amount)))))"

section \<open>The calls within a transaction\<close>

text \<open>The state-changing functions that \<open>dispatch.rs\<close> offers to callers, and the calls of the other
  contracts. Collection and settlement are not callable: the transaction handler makes them around the
  calls of a transaction. The beneficiary of the block is a parameter.\<close>

datatype (plugins only: code size) fee_call =
    SetValidatorTokenCall address address
  | SetUserTokenCall address address
  | DistributeFeesCall address address
  | AmmMintCall address address address u256 address
  | AmmBurnCall address address address u256 address
  | RebalanceSwapCall address address address u256 address
  | OutsideCall system_call

primrec fee_exec :: "address \<Rightarrow> fee_call \<Rightarrow> unit M" where
  "fee_exec ben (SetValidatorTokenCall s t) = set_validator_token s t ben"
| "fee_exec ben (SetUserTokenCall s t) = set_user_token s t"
| "fee_exec ben (DistributeFeesCall v t) = distribute_fees v t"
| "fee_exec ben (AmmMintCall s u v a to) = void (amm_mint s u v a to)"
| "fee_exec ben (AmmBurnCall s u v l to) = void (amm_burn s u v l to)"
| "fee_exec ben (RebalanceSwapCall s u v out to) = void (rebalance_swap s u v out to)"
| "fee_exec ben (OutsideCall c) = system_exec c"

end
