(* ===== verification/Tip20_Runs.thy ===== *)
theory Tip20_Runs
  imports System
begin

text \<open>
  What the core operations of a token do to its storage, and what they leave alone: the facts that the
  invariants of the ledger, the rewards, the roles and the guard share.
\<close>

section \<open>The ledger of a token\<close>

definition ledger :: "world \<Rightarrow> address \<Rightarrow> (address \<Rightarrow> u256) \<times> u256 \<times> u256" where
  "ledger w t = (balances (tokens w t), total_supply (tokens w t), supply_cap (tokens w t))"

lemma ledger_tokens: "tokens w' = tokens w \<Longrightarrow> ledger w' = ledger w"
  by (simp add: ledger_def fun_eq_iff)

lemma preserves_ledger: "preserves tokens m \<Longrightarrow> preserves ledger m"
  by (auto simp: preserves_def intro!: ledger_tokens)

lemma preserves_upd_token_ledger [frame, intro]:
  "(\<And>s. balances (f s) = balances s \<and> total_supply (f s) = total_supply s \<and> supply_cap (f s) = supply_cap s) \<Longrightarrow>
    preserves ledger (upd_token t f)"
  by (simp add: preserves_def ledger_def fun_eq_iff)

subsection \<open>Operations that leave every token alone\<close>

text \<open>An observation of the state that does not depend on the storage of the keychain, the guard and the
  policy registry, nor on the log: the storage of the tokens, the deployed code, the hardfork.\<close>

definition contract_obs :: "(world \<Rightarrow> 'b) \<Rightarrow> bool" where
  "contract_obs f = (\<forall>w k g r l. f (w\<lparr>registry := r, guard := g, keychain := k, logs := l\<rparr>) = f w)"

lemma contract_obs_upd:
  assumes "contract_obs f"
  shows "f (w\<lparr>keychain := k\<rparr>) = f w" "f (w\<lparr>guard := g\<rparr>) = f w" "f (w\<lparr>registry := r\<rparr>) = f w" "f (w\<lparr>logs := l\<rparr>) = f w"
proof -
  have all: "f (w\<lparr>registry := r, guard := g, keychain := k, logs := l\<rparr>) = f w" for r g k l
    using assms by (simp add: contract_obs_def)
  show "f (w\<lparr>keychain := k\<rparr>) = f w" "f (w\<lparr>guard := g\<rparr>) = f w" "f (w\<lparr>registry := r\<rparr>) = f w" "f (w\<lparr>logs := l\<rparr>) = f w"
    using all [of "logs w" k "guard w" "registry w"] all [of "logs w" "keychain w" g "registry w"]
      all [of "logs w" "keychain w" "guard w" r] all [of l "keychain w" "guard w" "registry w"] by simp_all
qed

lemma contract_observations [frame, intro!, simp]: "contract_obs tokens" "contract_obs has_code" "contract_obs spec"
  by (simp_all add: contract_obs_def)

lemma tokens_frame [frame, intro!, simp]:
  "contract_obs f \<Longrightarrow> preserves f (emit_event a e)" "contract_obs f \<Longrightarrow> preserves f (upd_keychain k)" "contract_obs f \<Longrightarrow> preserves f (upd_guard g)"
  "contract_obs f \<Longrightarrow> preserves f (upd_registry h)"
  by (simp_all add: preserves_def upd_keychain_def contract_obs_upd)

lemma tokens_frame_keychain [frame, intro!, simp]:
  "contract_obs f \<Longrightarrow> preserves f (write_key a k key)" "contract_obs f \<Longrightarrow> preserves f (write_limit lk tk st)" "contract_obs f \<Longrightarrow> preserves f (emit_kc ev)"
  "contract_obs f \<Longrightarrow> preserves f (write_scope lk ks)"
  unfolding write_key_def write_limit_def write_scope_def emit_kc_def by (intro frame; assumption)+

lemma tokens_frame_spend [frame, intro!, simp]:
  "contract_obs f \<Longrightarrow> preserves f (write_remaining lk tk r)"
  "contract_obs f \<Longrightarrow> preserves f (verify_and_update_spending a k tk amount)"
  "contract_obs f \<Longrightarrow> preserves f (refund_spending_limit a tk amount)"
  unfolding write_remaining_def verify_and_update_spending_def refund_spending_limit_def by (intro frame; assumption)+

lemma tokens_frame_hooks [frame, intro!, simp]:
  "contract_obs f \<Longrightarrow> preserves f (authorize_transfer a tk amount)"
  "contract_obs f \<Longrightarrow> preserves f (authorize_approve a tk old new)"
  "contract_obs f \<Longrightarrow> preserves f (check_and_update_spending_limit tk a amount)"
  unfolding authorize_transfer_def authorize_approve_def check_and_update_spending_limit_def by (intro frame; assumption)+

lemma tokens_frame_guard [frame, intro!, simp]:
  "contract_obs f \<Longrightarrow> preserves f (write_receipt k a)" "contract_obs f \<Longrightarrow> preserves f next_receipt_nonce"
  "contract_obs f \<Longrightarrow> preserves f (emit_guard e)" "contract_obs f \<Longrightarrow> preserves f (set_token_transfer_policy tk p)"
  unfolding write_receipt_def next_receipt_nonce_def emit_guard_def set_token_transfer_policy_def by (intro frame; assumption)+

lemma tokens_frame_store [frame, intro!, simp]:
  "contract_obs f \<Longrightarrow> preserves f (store_blocked tk orig to rec amount reason kind memo)"
  unfolding store_blocked_def by (intro frame; assumption)

lemma tokens_frame_emit [frame, intro!, simp]:
  "contract_obs f \<Longrightarrow> preserves f (emit20 tk e)" "contract_obs f \<Longrightarrow> preserves f (emit_roles tk re)" "contract_obs f \<Longrightarrow> preserves f (emit_hop tk to amount)"
  unfolding emit20_def emit_roles_def emit_hop_def by (intro frame; assumption)+

subsection \<open>Operations that touch the reward fields only\<close>

definition non_reward :: "world \<Rightarrow> address \<Rightarrow> tip20_storage" where
  "non_reward w t = (tokens w t)\<lparr>user_reward_info_of := \<lambda>_. \<lparr>reward_recipient = 0, reward_per_token = 0, reward_balance = 0\<rparr>,
     opted_in_supply := 0\<rparr>"

lemma preserves_non_reward: "preserves tokens m \<Longrightarrow> preserves non_reward m"
  by (auto simp: preserves_def non_reward_def fun_eq_iff)

lemma non_reward_fields:
  assumes "non_reward w' t = non_reward w t"
  shows "balances (tokens w' t) = balances (tokens w t)" "total_supply (tokens w' t) = total_supply (tokens w t)"
    "supply_cap (tokens w' t) = supply_cap (tokens w t)" "allowances (tokens w' t) = allowances (tokens w t)"
    "roles (tokens w' t) = roles (tokens w t)" "paused (tokens w' t) = paused (tokens w t)"
    "quote_token (tokens w' t) = quote_token (tokens w t)" "next_quote_token (tokens w' t) = next_quote_token (tokens w t)"
    "role_admins (tokens w' t) = role_admins (tokens w t)" "permit_nonces (tokens w' t) = permit_nonces (tokens w t)"
  using assms by (cases "tokens w t"; cases "tokens w' t"; simp add: non_reward_def)+

lemma ledger_non_reward:
  assumes "non_reward w' = non_reward w"
  shows "ledger w' = ledger w"
proof
  fix t
  have "non_reward w' t = non_reward w t"
    using assms by simp
  from non_reward_fields [OF this] show "ledger w' t = ledger w t"
    by (simp add: ledger_def)
qed

lemma preserves_non_reward_ledger: "preserves non_reward m \<Longrightarrow> preserves ledger m"
  by (auto simp: preserves_def intro!: ledger_non_reward)

lemma reward_frame [frame, intro!, simp]:
  "preserves non_reward (write_reward_info t a info)" "preserves non_reward (set_opted_in_supply t v)"
  by (simp_all add: preserves_def non_reward_def write_reward_info_def set_opted_in_supply_def fun_eq_iff)

lemma reward_frame_opted [frame, intro!, simp]:
  "preserves non_reward (opted_in_add t v)" "preserves non_reward (opted_in_sub t v)"
  unfolding opted_in_add_def opted_in_sub_def by (intro frame)+

lemma reward_frame_update [frame, intro!, simp]:
  "preserves non_reward (accrue t h info d)" "preserves non_reward (update_rewards t h)"
proof -
  show a: "preserves non_reward (accrue t h info d)" for d info
    unfolding accrue_def by (intro frame)
  show "preserves non_reward (update_rewards t h)"
    unfolding update_rewards_def by (intro frame a)
qed

lemma reward_frame_hooks [frame, intro!, simp]:
  "preserves non_reward (handle_rewards_on_transfer t f to v)" "preserves non_reward (handle_rewards_on_mint t to v)"
  unfolding handle_rewards_on_transfer_def handle_rewards_on_mint_def by (intro frame)+

text \<open>Every operation here leaves the hardfork alone.\<close>

lemma spec_frame [frame, intro!, simp]:
  "preserves spec (upd_token t f)" "preserves spec (emit_event a e)" "preserves spec (emit20 t ev)"
  by (simp_all add: preserves_def)

lemma spec_frame_rewards [frame, intro!, simp]:
  "preserves spec (opted_in_add t v)" "preserves spec (opted_in_sub t v)" "preserves spec (write_reward_info t a info)"
  unfolding opted_in_add_def opted_in_sub_def set_opted_in_supply_def write_reward_info_def by (intro frame)+

section \<open>What the core operations do to the ledger\<close>

definition credit :: "(address \<Rightarrow> u256) \<Rightarrow> address \<Rightarrow> u256 \<Rightarrow> address \<Rightarrow> u256" where
  "credit b a v = b(a := b a + v)"

definition debit :: "(address \<Rightarrow> u256) \<Rightarrow> address \<Rightarrow> u256 \<Rightarrow> address \<Rightarrow> u256" where
  "debit b a v = b(a := b a - v)"

text \<open>The balances after a move; the zero address is never credited by a move.\<close>

definition moved :: "(address \<Rightarrow> u256) \<Rightarrow> address \<Rightarrow> address \<Rightarrow> u256 \<Rightarrow> address \<Rightarrow> u256" where
  "moved b from to v = (if to = 0 then debit b from v else credit (debit b from v) to v)"

lemma sum_credit: "(\<Sum>a\<in>UNIV. credit b k v a) = (\<Sum>a\<in>UNIV. b a) + v"
  unfolding credit_def by (rule sum_upd_add)

lemma sum_debit: "v \<le> b k \<Longrightarrow> (\<Sum>a\<in>UNIV. debit b k v a) + v = (\<Sum>a\<in>UNIV. b a)"
  unfolding debit_def by (rule sum_upd_sub)

lemma increment_balance_run:
  "increment_balance t a v w = Inr (x, w') \<longleftrightarrow>
    bal w t a + v < 2 ^ 256 \<and> w' = w\<lparr>tokens := (tokens w)(t := (tokens w t)\<lparr>balances := credit (balances (tokens w t)) a v\<rparr>)\<rparr>"
  by (auto simp: increment_balance_def sinc_def set_balance_def runs credit_def checked_add_def umax_def split: if_splits)

lemma decrement_balance_run:
  "decrement_balance t a v w = Inr (x, w') \<longleftrightarrow>
    v \<le> bal w t a \<and> w' = w\<lparr>tokens := (tokens w)(t := (tokens w t)\<lparr>balances := debit (balances (tokens w t)) a v\<rparr>)\<rparr>"
  by (auto simp: decrement_balance_def sdec_def set_balance_def runs debit_def checked_sub_def split: if_splits)

lemma transfer_core_run:
  assumes "transfer_core t from to v w = Inr (x, w')"
  shows "v \<le> bal w t from \<and> non_reward w' = (non_reward w)(t := (non_reward w t)\<lparr>balances := moved (balances (tokens w t)) from (target to) v\<rparr>)"
proof -
  let ?pre = "if \<not> T8 \<le> spec w then
             rbind (gets (\<lambda>w. bal w t from)) (\<lambda>b.
             rseq (ensure (v \<le> b) (TIP20 (InsufficientBalance b v t))) (ok (Some b)))
           else ok None"
  let ?deb = "\<lambda>fb. case fb of Some b \<Rightarrow> rbind (ok_or (checked_sub b v) under_overflow) (set_balance t from)
          | None \<Rightarrow> decrement_balance t from v"
  have "rbind ?pre (\<lambda>fb. rseq (handle_rewards_on_transfer t from (target to) v) (rseq (?deb fb)
     (rseq (only_if (target to \<noteq> 0) (increment_balance t (target to) v))
         (emit20 t (build_transfer_event to from v))))) w = Inr (x, w')"
    using assms by (simp add: transfer_core_def)
  then obtain fb w0 w1 w2 w3 where pre: "?pre w = Inr (fb, w0)"
    and hooks: "handle_rewards_on_transfer t from (target to) v w0 = Inr ((), w1)"
    and deb: "?deb fb w1 = Inr ((), w2)"
    and cred: "only_if (target to \<noteq> 0) (increment_balance t (target to) v) w2 = Inr ((), w3)"
    and em: "emit20 t (build_transfer_event to from v) w3 = Inr (x, w')"
    unfolding rbind_eq_Inr [of ?pre] rseq_eq_Inr by blast
  have fb: "w0 = w" "if \<not> T8 \<le> spec w then fb = Some (bal w t from) \<and> v \<le> bal w t from else fb = None"
    using pre by (auto simp: runs split: if_splits)
  have n1: "non_reward w1 = non_reward w"
    using hooks unfolding fb(1) by (rule preservesD [rotated]) (intro frame)
  have b1: "balances (tokens w1 t) = balances (tokens w t)"
    by (rule non_reward_fields) (simp add: n1)
  have d: "v \<le> bal w t from \<and> w2 = w1\<lparr>tokens := (tokens w1)(t := (tokens w1 t)\<lparr>balances := debit (balances (tokens w t)) from v\<rparr>)\<rparr>"
    using deb fb(2) b1 by (auto simp: decrement_balance_run runs set_balance_def debit_def split: if_splits)
  have c: "w3 = w1\<lparr>tokens := (tokens w1)(t := (tokens w1 t)\<lparr>balances := moved (balances (tokens w t)) from (target to) v\<rparr>)\<rparr>"
    using cred d by (auto simp: only_if_def increment_balance_run moved_def split: if_splits)
  have "non_reward w' = (non_reward w1)(t := (non_reward w1 t)\<lparr>balances := moved (balances (tokens w t)) from (target to) v\<rparr>)"
    using em c by (auto simp: non_reward_def fun_eq_iff)
  then show ?thesis
    using d n1 by simp
qed

lemma mint_core_run:
  assumes "mint_core t to supply v w = Inr (x, w')"
  shows "supply + v \<le> supply_cap (tokens w t) \<and> non_reward w' = (non_reward w)(t := (non_reward w t)\<lparr>
      total_supply := supply + v, balances := credit (balances (tokens w t)) (target to) v\<rparr>)"
proof -
  obtain w1 where cap: "supply + v \<le> supply_cap (tokens w t)"
    and hooks: "handle_rewards_on_mint t (target to) v w = Inr ((), w1)"
    and rest: "rseq (set_total_supply t (supply + v)) (rseq (increment_balance t (target to) v)
         (emit20 t (build_transfer_event to 0 v))) w1 = Inr (x, w')"
    using assms unfolding mint_core_def rbind_eq_Inr rseq_eq_Inr [of "handle_rewards_on_mint t (target to) v"] rseq_eq_Inr [of "ensure _ _"]
    by (auto simp: runs)
  have n1: "non_reward w1 = non_reward w"
    using hooks by (rule preservesD [rotated]) (intro frame)
  have b1: "balances (tokens w1 t) = balances (tokens w t)"
    by (rule non_reward_fields) (simp add: n1)
  have "non_reward w' = (non_reward w1)(t := (non_reward w1 t)\<lparr>total_supply := supply + v,
      balances := credit (balances (tokens w t)) (target to) v\<rparr>)"
    using rest b1 by (auto simp: runs set_total_supply_def increment_balance_run non_reward_def fun_eq_iff)
  then show ?thesis
    using cap n1 by simp
qed

lemma reduce_supply_run:
  "reduce_supply t v w = Inr (x, w') \<longleftrightarrow> v \<le> total_supply (tokens w t)
    \<and> w' = w\<lparr>tokens := (tokens w)(t := (tokens w t)\<lparr>total_supply := total_supply (tokens w t) - v\<rparr>)\<rparr>"
  by (auto simp: reduce_supply_def set_total_supply_def runs)

section \<open>The inbound checks\<close>

lemma divert_tokens:
  assumes "divert t orig v ms w = Inr (kind, w')"
  shows "\<exists>w1. (case ms of Some s \<Rightarrow> mint_core t (direct RECEIVE_POLICY_GUARD_ADDRESS) s v w = Inr ((), w1)
      | None \<Rightarrow> transfer_core t orig (direct RECEIVE_POLICY_GUARD_ADDRESS) v w = Inr ((), w1)) \<and> tokens w' = tokens w1"
  using assms by (auto simp: divert_def runs split: option.splits)

lemma validate_inbound_run:
  assumes "validate_inbound_or_block t orig to v ms memo w = Inr (blocked, w')"
  shows "if blocked then T6 \<le> spec w \<and> (\<exists>reason rec kind w1 n. check_receive_policy w t orig (target to) = Inr (Some (reason, rec))
        \<and> divert t orig v ms w = Inr (kind, w1)
        \<and> store_blocked t orig to rec v reason kind memo w1 = Inr (n, w') \<and> tokens w' = tokens w1)
    else w' = w \<and> (T6 \<le> spec w \<longrightarrow> target to \<noteq> RECEIVE_POLICY_GUARD_ADDRESS)"
proof (cases "T6 \<le> spec w")
  case True
  then have run: "rseq (ensure (target to \<noteq> RECEIVE_POLICY_GUARD_ADDRESS) (ReceivePolicyGuardError GuardAddressReserved))
     (rbind (rd (\<lambda>w. check_receive_policy w t orig (target to))) (\<lambda>b.
      case b of None \<Rightarrow> ok False
      | Some (reason, rec) \<Rightarrow> rbind (divert t orig v ms) (\<lambda>kind.
          rbind (store_blocked t orig to rec v reason kind memo) (\<lambda>_. ok True)))) w = Inr (blocked, w')"
    using assms by (simp add: validate_inbound_or_block_def)
  then obtain b where g: "target to \<noteq> RECEIVE_POLICY_GUARD_ADDRESS" and b: "check_receive_policy w t orig (target to) = Inr b"
    and rest: "(case b of None \<Rightarrow> ok False
      | Some (reason, rec) \<Rightarrow> rbind (divert t orig v ms) (\<lambda>kind.
          rbind (store_blocked t orig to rec v reason kind memo) (\<lambda>_. ok True))) w = Inr (blocked, w')"
    by (auto simp: runs)
  show ?thesis
  proof (cases b)
    case None
    then show ?thesis using rest g by auto
  next
    case (Some p)
    then obtain reason rec kind w1 n w2 where p: "p = (reason, rec)" and d: "divert t orig v ms w = Inr (kind, w1)"
      and st: "store_blocked t orig to rec v reason kind memo w1 = Inr (n, w2)" and "blocked" "w' = w2"
      using rest by (cases p) (auto simp: rbind_eq_Inr)
    moreover have "tokens w2 = tokens w1"
      using st by (rule preservesD [rotated]) (intro frame)
    ultimately show ?thesis
      using b Some True by auto
  qed
qed (use assms in \<open>simp add: validate_inbound_or_block_def\<close>)

lemma validate_transfer_run:
  assumes "validate_transfer t sp from to v memo w = Inr (r, w')"
  shows "\<exists>to' w1 blocked. resolve w to = Inr to' \<and> \<not> paused (tokens w t) \<and> validate to' = Inr ()
    \<and> ensure_transfer_authorized w t from (target to') = Inr ()
    \<and> (case sp of Some s \<Rightarrow> consume_allowance t from s v | None \<Rightarrow> check_and_update_spending_limit t from v) w = Inr ((), w1)
    \<and> validate_inbound_or_block t from to' v None memo w1 = Inr (blocked, w')
    \<and> r = (if blocked then None else Some to')"
proof -
  let ?spend = "case sp of Some s \<Rightarrow> consume_allowance t from s v | None \<Rightarrow> check_and_update_spending_limit t from v"
  obtain to' where to': "resolve w to = Inr to'"
    using assms by (cases "resolve w to") (simp_all add: validate_transfer_def)
  have p: "check_not_paused w t = Inr ()"
    using assms to' by (cases "check_not_paused w t") (simp_all add: validate_transfer_def)
  have v: "validate to' = Inr ()"
    using assms to' p by (cases "validate to'") (simp_all add: validate_transfer_def)
  have a: "ensure_transfer_authorized w t from (target to') = Inr ()"
    using assms to' p v by (cases "ensure_transfer_authorized w t from (target to')") (simp_all add: validate_transfer_def)
  have "rseq ?spend (rbind (validate_inbound_or_block t from to' v None memo)
      (\<lambda>blocked. ok (if blocked then None else Some to'))) w = Inr (r, w')"
    using assms to' p v a by (simp add: validate_transfer_def)
  then obtain w1 blocked w2 where "?spend w = Inr ((), w1)"
      "validate_inbound_or_block t from to' v None memo w1 = Inr (blocked, w2)"
      "r = (if blocked then None else Some to')" "w2 = w'"
    unfolding rseq_eq_Inr rbind_eq_Inr by (elim exE conjE) (rule that, auto)
  moreover have "\<not> paused (tokens w t)"
    using p by (simp add: check_not_paused_def split: if_splits)
  ultimately show ?thesis
    using to' v a by (intro exI [of _ to'] exI [of _ w1] exI [of _ blocked]) simp
qed

lemma validate_mint_run:
  assumes "validate_mint t s to v memo role w = Inr (r, w')"
  shows "\<exists>to' blocked. resolve w to = Inr to' \<and> check_role w t s ISSUER_ROLE = Inr ()
    \<and> (T3 \<le> spec w \<longrightarrow> \<not> paused (tokens w t) \<and> validate to' = Inr ())
    \<and> is_authorized_as w (transfer_policy_id w t) (target to') role = Inr True
    \<and> validate_inbound_or_block t s to' v (Some (total_supply (tokens w t))) memo w = Inr (blocked, w')
    \<and> r = (if blocked then None else Some (total_supply (tokens w t), to'))"
proof -
  obtain to' where to': "resolve w to = Inr to'"
    using assms by (cases "resolve w to") (simp_all add: validate_mint_def)
  have c: "check_role w t s ISSUER_ROLE = Inr ()"
    using assms to' by (cases "check_role w t s ISSUER_ROLE") (simp_all add: validate_mint_def)
  have p: "T3 \<le> spec w \<longrightarrow> check_not_paused w t = Inr ()"
    using assms to' c by (cases "check_not_paused w t") (auto simp: validate_mint_def)
  have v: "T3 \<le> spec w \<longrightarrow> validate to' = Inr ()"
    using assms to' c p by (cases "validate to'") (auto simp: validate_mint_def)
  obtain b where b: "is_authorized_as w (transfer_policy_id w t) (target to') role = Inr b" "b"
    using assms to' c p v
    by (cases "is_authorized_as w (transfer_policy_id w t) (target to') role"; cases "T3 \<le> spec w")
      (auto simp: validate_mint_def ensure_def split: if_splits)
  have "rbind (validate_inbound_or_block t s to' v (Some (total_supply (tokens w t))) memo)
      (\<lambda>blocked. ok (if blocked then None else Some (total_supply (tokens w t), to'))) w = Inr (r, w')"
    using assms to' c p v b by (cases "T3 \<le> spec w") (simp_all add: validate_mint_def)
  then obtain blocked w2 where
      "validate_inbound_or_block t s to' v (Some (total_supply (tokens w t))) memo w = Inr (blocked, w2)"
      "r = (if blocked then None else Some (total_supply (tokens w t), to'))" "w2 = w'"
    unfolding rbind_eq_Inr by (elim exE conjE) (rule that, auto)
  moreover have "T3 \<le> spec w \<longrightarrow> \<not> paused (tokens w t)"
    using p by (simp add: check_not_paused_def split: if_splits)
  ultimately show ?thesis
    using to' c v b by (intro exI [of _ to'] exI [of _ blocked]) simp
qed

section \<open>The other precompiles\<close>

lemma tokens_frame_registry [frame, intro!, simp]:
  "contract_obs f \<Longrightarrow> preserves f (emit403 e)" "contract_obs f \<Longrightarrow> preserves f next_policy_id" "contract_obs f \<Longrightarrow> preserves f (set_policy_data p d)"
  "contract_obs f \<Longrightarrow> preserves f (set_policy_set p a b)"
  unfolding emit403_def next_policy_id_def set_policy_data_def set_policy_set_def by (intro frame; assumption)+

lemma tokens_frame_initial [frame, intro!, simp]: "contract_obs f \<Longrightarrow> preserves f (add_initial_account s p pt a)"
  by (auto simp: add_initial_account_def split: option.split policy_type.split)

lemma tokens_frame_policies:
  "contract_obs f \<Longrightarrow> preserves f (create_policy s admin pt)" "contract_obs f \<Longrightarrow> preserves f (create_policy_with_accounts s admin pt accounts)"
  "contract_obs f \<Longrightarrow> preserves f (set_policy_admin s p admin)" "contract_obs f \<Longrightarrow> preserves f (modify_policy_whitelist s p a v)"
  "contract_obs f \<Longrightarrow> preserves f (modify_policy_blacklist s p a v)" "contract_obs f \<Longrightarrow> preserves f (create_compound_policy s sp rp mp)"
  "contract_obs f \<Longrightarrow> preserves f (set_receive_policy s sid fid rec)"
  unfolding create_policy_def create_policy_with_accounts_def set_policy_admin_def
    modify_policy_whitelist_def modify_policy_blacklist_def create_compound_policy_def set_receive_policy_def
  by (intro frame; assumption)+

lemma migrate_frame:
  assumes f: "contract_obs f" "\<And>t. preserves f (delete_legacy_transfer_policy_id t)"
  shows "preserves f (migrate_transfer_policy_ids ts)"
proof (induction ts)
  case (Cons t ts)
  then show ?case
    unfolding migrate_transfer_policy_ids.simps by (intro frame f)
qed (simp add: preserves_def)

lemma tip403_exec_frame:
  assumes f: "contract_obs f" "\<And>t. preserves f (delete_legacy_transfer_policy_id t)"
  shows "preserves f (tip403_exec c)"
  by (cases c) (auto intro!: migrate_frame tokens_frame_policies f)

text \<open>The migration of policy bindings clears one field of the migrated tokens.\<close>

definition slotless :: "world \<Rightarrow> address \<Rightarrow> tip20_storage" where
  "slotless w t = (tokens w t)\<lparr>transfer_policy_id_slot := 0\<rparr>"

lemma tip403_exec_slotless: "preserves slotless (tip403_exec c)"
  by (rule tip403_exec_frame)
    (simp_all add: contract_obs_def preserves_def delete_legacy_transfer_policy_id_def slotless_def fun_eq_iff)

lemma tip403_exec_ledger: "preserves ledger (tip403_exec c)"
proof -
  have "ledger w' = ledger w" if "slotless w' = slotless w" for w w'
  proof
    fix t
    have "slotless w' t = slotless w t"
      using that by simp
    then show "ledger w' t = ledger w t"
      by (cases "tokens w t"; cases "tokens w' t"; simp add: slotless_def ledger_def)
  qed
  then show ?thesis
    using tip403_exec_slotless unfolding preserves_def by blast
qed

lemma tokens_frame_keys:
  "contract_obs f \<Longrightarrow> preserves f (apply_token_limit lk limit)" "contract_obs f \<Longrightarrow> preserves f (replace_allowed_calls lk allowed)"
  "contract_obs f \<Longrightarrow> preserves f (store_new_limit a k token lim)" "contract_obs f \<Longrightarrow> preserves f (burn_key_authorization_witness s v)"
  "contract_obs f \<Longrightarrow> preserves f (set_allowed_calls s k scopes)" "contract_obs f \<Longrightarrow> preserves f (remove_allowed_calls s k tgt)"
  "contract_obs f \<Longrightarrow> preserves f (revoke_key s k)" "contract_obs f \<Longrightarrow> preserves f (set_transaction_key k)" "contract_obs f \<Longrightarrow> preserves f (set_tx_origin a)"
  unfolding apply_token_limit_def replace_allowed_calls_def store_new_limit_def burn_key_authorization_witness_def
    burn_key_authorization_witness_value_def set_allowed_calls_def remove_allowed_calls_def revoke_key_def
    set_transaction_key_def set_tx_origin_def
  by (intro frame; assumption)+

lemma tokens_frame_auth: "contract_obs f \<Longrightarrow> preserves f (authorize_key_internal s k sig config wit adm)"
  unfolding authorize_key_internal_def apply_key_authorization_restrictions_def
  by (intro frame tokens_frame_keys; assumption)

text \<open>A transaction boundary changes the clock and the hardfork.\<close>

lemma keychain_exec_frame:
  assumes f: "contract_obs f"
    and t: "\<And>k orig time sp w. c = NewTransaction k orig time sp \<Longrightarrow> f (w\<lparr>timestamp := time, spec := sp\<rparr>) = f w"
  shows "preserves f (keychain_exec c)"
proof (cases c)
  case (UpdateSpendingLimit s k token lim)
  then show ?thesis
    by (simp add: update_spending_limit_def) (intro frame tokens_frame_keys f)
next
  case (NewTransaction k origin time sp)
  have m: "preserves f (modify (\<lambda>w. w\<lparr>timestamp := time, spec := sp\<rparr>))"
    by (rule preserves_modify) (rule t [OF NewTransaction])
  show ?thesis
    unfolding NewTransaction keychain_exec.simps by (intro m preserves_rseq tokens_frame_keys f)
qed (simp_all add: authorize_key_def authorize_admin_key_def tokens_frame_auth tokens_frame_keys preserves_rseq f)

lemma register_frame:
  assumes "\<And>w d l. f (w\<lparr>addr_data := d, logs := l\<rparr>) = f w"
  shows "preserves f (register_virtual_master a salt)"
  using assms by (auto simp: preserves_def register_virtual_master_run)

lemma keychain_exec_tokens: "preserves tokens (keychain_exec c)"
  by (rule keychain_exec_frame) simp_all

lemma register_tokens: "preserves tokens (register_virtual_master a salt)"
  by (rule register_frame) simp

end
