(* ===== verification/Tip20_Supply.thy ===== *)
theory Tip20_Supply
  imports Tip20_Runs
begin

text \<open>
  Conservation of supply: the balances of all accounts of a token add up to its total supply, which the
  supply cap bounds, which fits 128 bits. Every operation of the machine keeps this.
\<close>

section \<open>The invariant\<close>

definition supply_ok :: "tip20_storage \<Rightarrow> bool" where
  "supply_ok s = ((\<Sum>a\<in>UNIV. balances s a) = total_supply s \<and> total_supply s \<le> supply_cap s \<and> supply_cap s \<le> U128_MAX)"

definition supply_inv :: "world \<Rightarrow> bool" where
  "supply_inv w = (\<forall>t. supply_ok (tokens w t))"

lemma supply_inv_ledger: "ledger w' = ledger w \<Longrightarrow> supply_inv w \<Longrightarrow> supply_inv w'"
  by (simp add: supply_inv_def supply_ok_def ledger_def fun_eq_iff)

lemma keeps_supply_ledger: "preserves ledger m \<Longrightarrow> keeps supply_inv m"
  unfolding keeps_def preserves_def using supply_inv_ledger by metis

lemmas keeps_supply_tokens = keeps_supply_ledger [OF preserves_ledger]
lemmas keeps_supply_rewards = keeps_supply_ledger [OF preserves_non_reward_ledger]

lemma supply_ok_nr [simp]: "supply_ok (non_reward w t) = supply_ok (tokens w t)"
  by (simp add: supply_ok_def non_reward_def)

lemma supply_inv_upd:
  assumes "supply_inv w" "non_reward w' = (non_reward w)(t := s)" "supply_ok s"
  shows "supply_inv w'"
  unfolding supply_inv_def
proof
  fix u
  have "supply_ok (non_reward w' u)"
    using assms by (simp add: supply_inv_def)
  then show "supply_ok (tokens w' u)"
    by simp
qed

lemma supply_ok_non_reward: "supply_inv w \<Longrightarrow> supply_ok (non_reward w t)"
  by (simp add: supply_inv_def)

lemma sum_moved: "to \<noteq> 0 \<Longrightarrow> v \<le> b from \<Longrightarrow> (\<Sum>a\<in>UNIV. moved b from to v a) = (\<Sum>a\<in>UNIV. b a)"
  using sum_debit [of v b "from"] by (simp add: moved_def sum_credit)

lemma supply_transfer [keeping]: "target to \<noteq> 0 \<Longrightarrow> keeps supply_inv (transfer_core t from to v)"
  unfolding keeps_def
proof (intro allI impI)
  fix w x w'
  assume to: "target to \<noteq> 0" and inv: "supply_inv w" and run: "transfer_core t from to v w = Inr (x, w')"
  note r = transfer_core_run [OF run]
  show "supply_inv w'"
  proof (rule supply_inv_upd [OF inv])
    show "non_reward w' = (non_reward w)(t := (non_reward w t)\<lparr>balances := moved (balances (tokens w t)) from (target to) v\<rparr>)"
      using r by simp
    show "supply_ok ((non_reward w t)\<lparr>balances := moved (balances (tokens w t)) from (target to) v\<rparr>)"
      using supply_ok_non_reward [OF inv, of t] r to by (simp add: supply_ok_def sum_moved) (simp add: non_reward_def)
  qed
qed

lemma supply_mint:
  assumes "mint_core t to (total_supply (tokens w t)) v w = Inr (x, w')" "supply_inv w"
  shows "supply_inv w'"
proof -
  note r = mint_core_run [OF assms(1)]
  show ?thesis
  proof (rule supply_inv_upd [OF assms(2)])
    show "non_reward w' = (non_reward w)(t := (non_reward w t)\<lparr>total_supply := total_supply (tokens w t) + v,
        balances := credit (balances (tokens w t)) (target to) v\<rparr>)"
      using r by simp
    show "supply_ok ((non_reward w t)\<lparr>total_supply := total_supply (tokens w t) + v,
        balances := credit (balances (tokens w t)) (target to) v\<rparr>)"
      using supply_ok_non_reward [OF assms(2), of t] r
      by (simp add: supply_ok_def sum_credit) (simp add: non_reward_def)
  qed
qed

text \<open>A burn debits an account and then reduces the supply.\<close>

lemma supply_burn [keeping]:
  assumes "keeps supply_inv rest"
  shows "keeps supply_inv (rseq (transfer_core t from (direct 0) v) (rseq (reduce_supply t v) rest))"
  unfolding keeps_def
proof (intro allI impI)
  fix w x w'
  assume inv: "supply_inv w" and run: "rseq (transfer_core t from (direct 0) v) (rseq (reduce_supply t v) rest) w = Inr (x, w')"
  obtain w1 w2 where w1: "transfer_core t from (direct 0) v w = Inr ((), w1)" and w2: "reduce_supply t v w1 = Inr ((), w2)"
    and w': "rest w2 = Inr (x, w')"
    using run unfolding rseq_eq_Inr by blast
  note r = transfer_core_run [OF w1]
  let ?b = "balances (tokens w t)"
  have n1: "non_reward w1 = (non_reward w)(t := (non_reward w t)\<lparr>balances := debit ?b from v\<rparr>)"
    using r by (simp add: moved_def direct_def)
  have s1: "total_supply (tokens w1 t) = total_supply (tokens w t)"
    using fun_cong [OF n1, of t] by (cases "tokens w1 t"; cases "tokens w t"; simp add: non_reward_def)
  have "supply_inv w2"
  proof (rule supply_inv_upd [OF inv])
    show "non_reward w2 = (non_reward w)(t := (non_reward w t)\<lparr>balances := debit ?b from v, total_supply := total_supply (tokens w t) - v\<rparr>)"
    proof -
      have "non_reward w2 = (non_reward w1)(t := (non_reward w1 t)\<lparr>total_supply := total_supply (tokens w t) - v\<rparr>)"
        using w2 s1 by (auto simp: reduce_supply_run non_reward_def fun_eq_iff)
      then show ?thesis
        by (simp add: n1)
    qed
    show "supply_ok ((non_reward w t)\<lparr>balances := debit ?b from v, total_supply := total_supply (tokens w t) - v\<rparr>)"
      using supply_ok_non_reward [OF inv, of t] sum_debit [of v ?b "from"] r
      by (auto simp: supply_ok_def non_reward_def)
  qed
  then show "supply_inv w'"
    by (rule keepsD [OF assms w'])
qed

lemmas supply_burn_end [keeping] = supply_burn [of "ok ()", unfolded rseq_ok_right]

section \<open>The operations of a token\<close>

lemma guard_not_zero [simp]: "RECEIVE_POLICY_GUARD_ADDRESS \<noteq> 0"
  by (simp add: RECEIVE_POLICY_GUARD_ADDRESS_def)

lemma supply_inbound:
  assumes "validate_inbound_or_block t orig to v ms memo w = Inr (b, w')" "supply_inv w"
    and "ms = None \<or> ms = Some (total_supply (tokens w t))"
  shows "supply_inv w'"
proof (cases b)
  case True
  then obtain kind w1 where d: "divert t orig v ms w = Inr (kind, w1)" and w': "tokens w' = tokens w1"
    using validate_inbound_run [OF assms(1)] by auto
  have "supply_inv w1"
    using divert_tokens [OF d] assms(3)
  proof (elim disjE exE)
    fix w2
    assume "ms = None" "(case ms of None \<Rightarrow> transfer_core t orig (direct RECEIVE_POLICY_GUARD_ADDRESS) v w = Inr ((), w2)
      | Some s \<Rightarrow> mint_core t (direct RECEIVE_POLICY_GUARD_ADDRESS) s v w = Inr ((), w2)) \<and> tokens w1 = tokens w2"
    then show ?thesis
      using keepsD [OF supply_transfer _ assms(2), of "direct RECEIVE_POLICY_GUARD_ADDRESS"] supply_inv_ledger [OF ledger_tokens]
      by (auto simp: direct_def)
  next
    fix w2
    assume "ms = Some (total_supply (tokens w t))"
      "(case ms of None \<Rightarrow> transfer_core t orig (direct RECEIVE_POLICY_GUARD_ADDRESS) v w = Inr ((), w2)
      | Some s \<Rightarrow> mint_core t (direct RECEIVE_POLICY_GUARD_ADDRESS) s v w = Inr ((), w2)) \<and> tokens w1 = tokens w2"
    then show ?thesis
      using supply_mint [OF _ assms(2)] supply_inv_ledger [OF ledger_tokens] by auto
  qed
  then show ?thesis
    by (rule supply_inv_ledger [OF ledger_tokens [OF w']])
qed (use validate_inbound_run [OF assms(1)] assms(2) in simp)

lemma consume_allowance_ledger [frame, intro!, simp]: "preserves ledger (consume_allowance t a s v)"
  unfolding consume_allowance_def set_allowance_def by (intro frame) simp

lemma supply_validate_transfer [keeping]: "keeps supply_inv (validate_transfer t sp from to v memo)"
  unfolding keeps_def
proof (intro allI impI)
  fix w r w'
  assume inv: "supply_inv w" and run: "validate_transfer t sp from to v memo w = Inr (r, w')"
  obtain to' w1 b where spend: "(case sp of Some s \<Rightarrow> consume_allowance t from s v
        | None \<Rightarrow> check_and_update_spending_limit t from v) w = Inr ((), w1)"
    and inb: "validate_inbound_or_block t from to' v None memo w1 = Inr (b, w')"
    using validate_transfer_run [OF run] by blast
  have "ledger w1 = ledger w"
    using spend by (cases sp) (auto dest: preservesD [OF consume_allowance_ledger] preservesD [OF preserves_ledger [OF tokens_frame_hooks(3) [OF contract_observations(1)]]])
  then show "supply_inv w'"
    using supply_inbound [OF inb] supply_inv_ledger inv by blast
qed

lemma validate_transfer_target:
  "validate_transfer t sp from to v memo w = Inr (r, w') \<Longrightarrow> pred_option (\<lambda>to. target to \<noteq> 0) r"
  using validate_transfer_run [of t sp "from" to v memo w r w'] by (auto simp: validate_def split: if_splits)

lemma supply_emits [keeping, intro!, simp]:
  "keeps supply_inv (emit20 t e)" "keeps supply_inv (emit_hop t r v)" "keeps supply_inv (emit_roles t re)"
  "keeps supply_inv (emit_event a ev)" "keeps supply_inv (emit_guard ge)"
  "keeps supply_inv (check_and_update_spending_limit t a v)" "keeps supply_inv (refund_spending_limit a t v)"
  "keeps supply_inv (authorize_approve a t v v')" "keeps supply_inv (write_receipt k v)"
  "keeps supply_inv (set_token_transfer_policy t p)"
  by (rule keeps_supply_tokens, intro frame)+

lemma supply_finish_transfer [keeping]:
  "pred_option (\<lambda>to. target to \<noteq> 0) r \<Longrightarrow> keeps supply_inv (finish_transfer t from to v memo r)"
  unfolding finish_transfer_def
  by (cases r; cases memo) (auto intro!: keeps_rseq supply_transfer)

lemma supply_validated [keeping]:
  assumes "\<And>r. keeps supply_inv (k r)"
  shows "keeps supply_inv (rbind (validate_transfer t sp from to v memo) (\<lambda>r. rseq (finish_transfer t from' to' v' memo' r) (k r)))"
  by (rule keeps_rbind_post [OF supply_validate_transfer validate_transfer_target]) (assumption, intro keeps_rseq supply_finish_transfer assms)

lemma supply_transfers [keeping]:
  "keeps supply_inv (transfer t s to v)" "keeps supply_inv (transfer_from t s from to v)"
  "keeps supply_inv (transfer_from_with_memo t s from to v m)" "keeps supply_inv (system_transfer_from t s from v)"
  unfolding transfer_def transfer_from_def transfer_from_with_memo_def system_transfer_from_def
  by (intro supply_validated keeping)+

lemma supply_transfer_with_memo [keeping]: "keeps supply_inv (transfer_with_memo t s to v m)"
  using supply_validated [of "\<lambda>_. ok ()"] unfolding transfer_with_memo_def rseq_ok_right by simp

lemma supply_minted [keeping]:
  "keeps supply_inv (rbind (validate_mint t s to v memo role) (finish_mint t to' v memo'))"
  unfolding keeps_def
proof (intro allI impI)
  fix w x w'
  assume inv: "supply_inv w" and run: "rbind (validate_mint t s to v memo role) (finish_mint t to' v memo') w = Inr (x, w')"
  obtain r w1 where val: "validate_mint t s to v memo role w = Inr (r, w1)" and fin: "finish_mint t to' v memo' r w1 = Inr (x, w')"
    using run unfolding rbind_eq_Inr by blast
  obtain rec b where inb: "validate_inbound_or_block t s rec v (Some (total_supply (tokens w t))) memo w = Inr (b, w1)"
    and r: "r = (if b then None else Some (total_supply (tokens w t), rec))"
    using validate_mint_run [OF val] by blast
  show "supply_inv w'"
  proof (cases b)
    case True
    then show ?thesis
      using supply_inbound [OF inb inv] fin r by (simp add: finish_mint_def)
  next
    case False
    then have w1: "w1 = w"
      using validate_inbound_run [OF inb] by simp
    obtain w2 where w2: "mint_core t rec (total_supply (tokens w t)) v w = Inr ((), w2)"
      and rest: "rseq (case memo' of None \<Rightarrow> ok () | Some m \<Rightarrow> emit20 t (TransferWithMemo 0 to' v m))
        (rseq (emit20 t (Mint to' v)) (emit_hop t rec v)) w2 = Inr (x, w')"
      using fin r False w1 by (auto simp: finish_mint_def rseq_eq_Inr [of "mint_core t rec (total_supply (tokens w t)) v"])
    have "keeps supply_inv (rseq (case memo' of None \<Rightarrow> ok () | Some m \<Rightarrow> emit20 t (TransferWithMemo 0 to' v m))
        (rseq (emit20 t (Mint to' v)) (emit_hop t rec v)))"
      by (intro keeping)
    then show ?thesis
      using rest supply_mint [OF w2 inv] by (rule keepsD)
  qed
qed

lemma supply_mints [keeping]:
  "keeps supply_inv (mint_with_role t s to v role)" "keeps supply_inv (mint t s to v)"
  "keeps supply_inv (mint_with_memo t s to v m)"
proof -
  have read: "keeps I (rbind (gets f) k)" if "\<And>x. keeps I (k x)" for I f and k :: "auth_role \<Rightarrow> unit M"
    using that by (auto simp: keeps_def rbind_eq_Inr)
  show "keeps supply_inv (mint_with_role t s to v role)" for role
    unfolding mint_with_role_def by (rule supply_minted)
  then show "keeps supply_inv (mint t s to v)"
    unfolding mint_def by (rule read)
  show "keeps supply_inv (mint_with_memo t s to v m)"
    unfolding mint_with_memo_def by (rule read) (rule supply_minted)
qed

lemma supply_burns [keeping]:
  "keeps supply_inv (burn_core t s v)" "keeps supply_inv (burn t s v)" "keeps supply_inv (burn_with_memo t s v m)"
  "keeps supply_inv (burn_blocked t s owner v c)" "keeps supply_inv (burn_at t s owner v)"
proof -
  show core: "keeps supply_inv (burn_core t s v)"
    unfolding burn_core_def by (intro keeping)
  show "keeps supply_inv (burn t s v)" "keeps supply_inv (burn_with_memo t s v m)"
    unfolding burn_def burn_with_memo_def by (intro core keeping)+
  show "keeps supply_inv (burn_blocked t s owner v c)" "keeps supply_inv (burn_at t s owner v)"
    unfolding burn_blocked_def burn_at_def by (intro keeping)+
qed

lemma keeps_validate: "(target to \<noteq> 0 \<Longrightarrow> keeps I n) \<Longrightarrow> keeps I (rseq (rd (\<lambda>_. validate to)) n)"
  by (rule keeps_rd_pure) (simp add: validate_def split: if_splits)

lemma supply_channel [keeping]: "keeps supply_inv (channel_reserve_transfer t from to v s)"
  unfolding channel_reserve_transfer_def by (intro keeps_validate keeping)

lemma supply_release [keeping]: "keeps supply_inv (release_blocked_funds t orig rcv to v mode auth)"
  unfolding release_blocked_funds_def by (intro keeps_validate keeping)

text \<open>The fee hooks move an amount between an account and the fee manager.\<close>

lemma supply_move:
  assumes "rseq (decrement_balance t a v) (increment_balance t b v) w = Inr (x, w')" "supply_inv w"
  shows "supply_inv w'"
proof -
  have v: "v \<le> bal w t a" and w': "tokens w' = (tokens w)(t := (tokens w t)\<lparr>balances := credit (debit (balances (tokens w t)) a v) b v\<rparr>)"
    using assms(1) by (auto simp: runs decrement_balance_run increment_balance_run)
  show ?thesis
    unfolding supply_inv_def
  proof
    fix u
    show "supply_ok (tokens w' u)"
      using assms(2) v sum_debit [of v "balances (tokens w t)" a]
      by (cases "u = t") (auto simp: w' supply_inv_def supply_ok_def sum_credit)
  qed
qed

lemma supply_hooks [keeping, intro!, simp]:
  "keeps supply_inv (update_rewards t a)" "keeps supply_inv (opted_in_add t v)" "keeps supply_inv (opted_in_sub t v)"
  "keeps supply_inv (write_reward_info t a info)"
  by (rule keeps_supply_rewards, intro frame)+

lemma supply_moves [keeping]: "keeps supply_inv (rseq (decrement_balance t a v) (increment_balance t b v))"
  using supply_move by (auto simp: keeps_def)

lemma supply_fees [keeping]:
  "keeps supply_inv (transfer_fee_pre_tx t a v)" "keeps supply_inv (transfer_fee_post_tx t a r v)"
  unfolding transfer_fee_pre_tx_def transfer_fee_post_tx_def by (intro supply_moves keeping)+

text \<open>A reward payout moves an amount from the contract's own account.\<close>

lemma pay_reward_run:
  assumes "pay_reward t s d (bal w t t) v w = Inr (x, w')"
  shows "v \<le> bal w t t \<and> non_reward w' = (non_reward w)(t := (non_reward w t)\<lparr>balances := credit (debit (balances (tokens w t)) t v) s v\<rparr>)"
proof -
  let ?w1 = "w\<lparr>tokens := (tokens w)(t := (tokens w t)\<lparr>balances := credit (debit (balances (tokens w t)) t v) s v\<rparr>)\<rparr>"
  have v: "v \<le> bal w t t" and rest: "rseq (only_if (d \<noteq> 0) (opted_in_add t v)) (emit20 t (Transfer t s v)) ?w1 = Inr (x, w')"
    using assms
    by (auto simp: pay_reward_def rbind_eq_Inr ok_or_eq_Inr rseq_eq_Inr [of "set_balance _ _ _"] set_balance_def credit_def debit_def)
  have "non_reward w' = non_reward ?w1"
    using rest by (rule preservesD [rotated]) (intro frame preserves_non_reward)
  then show ?thesis
    using v by (simp add: non_reward_def fun_eq_iff)
qed

lemma supply_pay_reward:
  assumes "pay_reward t s d (bal w t t) v w = Inr (x, w')" "supply_inv w"
  shows "supply_inv w'"
proof -
  note r = pay_reward_run [OF assms(1)]
  show ?thesis
  proof (rule supply_inv_upd [OF assms(2)])
    show "non_reward w' = (non_reward w)(t := (non_reward w t)\<lparr>balances := credit (debit (balances (tokens w t)) t v) s v\<rparr>)"
      using r by simp
    show "supply_ok ((non_reward w t)\<lparr>balances := credit (debit (balances (tokens w t)) t v) s v\<rparr>)"
      using supply_ok_non_reward [OF assms(2), of t] r sum_debit [of v "balances (tokens w t)" t]
      by (simp add: supply_ok_def sum_credit) (simp add: non_reward_def)
  qed
qed

lemma claim_rewards_run:
  assumes "claim_rewards t s w = Inr (v, w')"
  shows "\<exists>d w1 w2. \<not> paused (tokens w t) \<and> ensure_transfer_authorized w t t s = Inr () \<and> update_rewards t s w = Inr (d, w1)
    \<and> v = min (reward_balance (user_reward_info_of (tokens w1 t) s)) (bal w1 t t)
    \<and> write_reward_info t s ((user_reward_info_of (tokens w1 t) s)\<lparr>reward_balance :=
         reward_balance (user_reward_info_of (tokens w1 t) s) - v\<rparr>) w1 = Inr ((), w2)
    \<and> only_if (v > 0) (pay_reward t s d (bal w2 t t) v) w2 = Inr ((), w')"
proof -
  have p: "check_not_paused w t = Inr ()"
    using assms by (cases "check_not_paused w t") (simp_all add: claim_rewards_def)
  have a: "ensure_transfer_authorized w t t s = Inr ()"
    using assms p by (cases "ensure_transfer_authorized w t t s") (simp_all add: claim_rewards_def)
  obtain d w1 where u: "update_rewards t s w = Inr (d, w1)"
    using assms p a by (cases "update_rewards t s w") (auto simp: claim_rewards_def)
  define info where "info = user_reward_info_of (tokens w1 t) s"
  define m where "m = min (reward_balance info) (bal w1 t t)"
  have "rseq (write_reward_info t s (info\<lparr>reward_balance := reward_balance info - m\<rparr>))
      (rseq (only_if (m > 0) (pay_reward t s d (bal w1 t t) m)) (ok m)) w1 = Inr (v, w')"
    using assms p a u by (simp add: claim_rewards_def Let_def info_def [symmetric] m_def [symmetric] ok_or_def checked_sub_def)
      (simp add: m_def)
  then obtain w2 w3 where w2: "write_reward_info t s (info\<lparr>reward_balance := reward_balance info - m\<rparr>) w1 = Inr ((), w2)"
    and w3: "only_if (m > 0) (pay_reward t s d (bal w1 t t) m) w2 = Inr ((), w3)" and "(m, w3) = (v, w')"
    unfolding rseq_eq_Inr ok_run sum.inject by blast
  moreover have "bal w2 t t = bal w1 t t"
    using w2 by (auto simp: write_reward_info_def)
  moreover have "\<not> paused (tokens w t)"
    using p by (simp add: check_not_paused_def split: if_splits)
  ultimately show ?thesis
    using a u by (auto simp: info_def m_def)
qed

lemma supply_claim [keeping]: "keeps supply_inv (claim_rewards t s)"
  unfolding keeps_def
proof (intro allI impI)
  fix w v w'
  assume inv: "supply_inv w" and run: "claim_rewards t s w = Inr (v, w')"
  obtain d w1 w2 info where u: "update_rewards t s w = Inr (d, w1)" and i: "write_reward_info t s info w1 = Inr ((), w2)"
    and pay: "only_if (v > 0) (pay_reward t s d (bal w2 t t) v) w2 = Inr ((), w')"
    using claim_rewards_run [OF run] by blast
  have "supply_inv w2"
    using keepsD [OF supply_hooks(4) i keepsD [OF supply_hooks(1) u inv]] .
  then show "supply_inv w'"
    using pay supply_pay_reward by (cases "v > 0") auto
qed

lemma token_not_zero: "is_tip20_prefix t \<Longrightarrow> t \<noteq> 0"
  by (auto simp: is_tip20_prefix_def TIP20_TOKEN_PREFIX_def)

lemma supply_upd_token [keeping, intro]:
  "(\<And>s. balances (f s) = balances s \<and> total_supply (f s) = total_supply s \<and> supply_cap (f s) = supply_cap s) \<Longrightarrow>
    keeps supply_inv (upd_token t f)"
  by (intro keeps_supply_ledger frame)

lemma supply_distribute [keeping]: "is_tip20_prefix t \<Longrightarrow> keeps supply_inv (distribute_reward t s v)"
  unfolding distribute_reward_def by (intro keeping) (simp_all add: direct_def token_not_zero)

lemma supply_recipient [keeping]: "keeps supply_inv (set_reward_recipient t s r)"
  unfolding set_reward_recipient_def by (intro keeping)

lemma supply_allowances [keeping]:
  "keeps supply_inv (approve t s sp v)" "keeps supply_inv (permit t ow sp v dl vv r sg)"
  unfolding approve_def permit_def set_allowance_def by (intro keeping; simp)+

lemma supply_roles [keeping]:
  "keeps supply_inv (grant_role t s r a)" "keeps supply_inv (revoke_role t s r a)" "keeps supply_inv (renounce_role t s r)"
  "keeps supply_inv (set_role_admin t s r ar)" "keeps supply_inv (initialize_roles t)" "keeps supply_inv (grant_default_admin t s a)"
  unfolding grant_role_def revoke_role_def renounce_role_def set_role_admin_def initialize_roles_def grant_default_admin_def
    grant_role_internal_def revoke_role_internal_def set_role_admin_internal_def write_role_def
  by (intro keeping; simp)+

lemma supply_admin [keeping]:
  "keeps supply_inv (change_transfer_policy_id t s p)" "keeps supply_inv (pause t s)" "keeps supply_inv (unpause t s)"
  "keeps supply_inv (set_logo_uri t s u)" "keeps supply_inv (write_logo_uri t s u)" "keeps supply_inv (set_next_quote_token t s q)"
  "keeps supply_inv (complete_quote_token_update t s)"
  unfolding change_transfer_policy_id_def pause_def unpause_def set_logo_uri_def write_logo_uri_def set_next_quote_token_def
    complete_quote_token_update_def
  by (intro keeping; simp)+

lemma supply_cap_set [keeping]: "keeps supply_inv (set_supply_cap t s c)"
  by (auto simp: keeps_def set_supply_cap_def runs supply_inv_def supply_ok_def)

lemma supply_fits: "supply_inv w \<Longrightarrow> total_supply (tokens w t) \<le> U128_MAX"
  unfolding supply_inv_def supply_ok_def by (meson le_trans)

lemma supply_init [keeping]: "keeps supply_inv (initialize t s n sy c q adm)"
proof -
  have m: "keeps supply_inv (upd_token t (\<lambda>s. s\<lparr>tk_name := n, tk_symbol := sy, currency := c,
      quote_token := q, next_quote_token := q, supply_cap := U128_MAX\<rparr>))"
    using supply_fits by (auto simp: keeps_def supply_inv_def supply_ok_def)
  have c: "keeps supply_inv (set_code t)"
    by (auto simp: keeps_def set_code_def supply_inv_def)
  show ?thesis
    unfolding initialize_def by (intro m c keeping) simp
qed

lemma supply_factory [keeping]:
  "keeps supply_inv (create_token s call)" "keeps supply_inv (create_token_with_logo s call u)"
  "keeps supply_inv (create_token_reserved_address a n sy c q adm)"
  unfolding create_token_with_logo_def create_token_def create_token_reserved_address_def by (intro keeping)+

lemma supply_guard [keeping]: "keeps supply_inv (claim s to bytes)" "keeps supply_inv (burn_blocked_receipt s bytes)"
  unfolding claim_def burn_blocked_receipt_def by (intro keeping)+

section \<open>The machine\<close>

lemma keeps_void [keeping, intro]: "keeps I m \<Longrightarrow> keeps I (void m)"
  unfolding void_def by (intro keeping)

lemma supply_dispatch: "is_tip20_prefix t \<Longrightarrow> keeps supply_inv (tip20_dispatch t s c)"
  unfolding tip20_dispatch_def by (intro keeping) (cases c; simp; intro keeping)

lemma keeps_on_token: "(is_tip20_prefix t \<Longrightarrow> keeps I (m t)) \<Longrightarrow> keeps I (on_token t m)"
  by (auto simp: keeps_def on_token_def from_address_def runs split: if_splits)

lemma supply_machine: "keeps supply_inv (system_exec c)"
proof (cases c)
  case (TokenCall t s tc)
  then show ?thesis
    by (simp add: keeps_on_token supply_dispatch)
next
  case (ReserveTransfer t a to v s)
  then show ?thesis
    by simp (intro keeps_on_token keeping)
qed (simp_all add: keeps_on_token keeps_void supply_transfers supply_fees supply_guard supply_factory
    keeps_supply_ledger tip403_exec_ledger keeps_supply_tokens keychain_exec_tokens register_tokens)

interpretation conservation: invariant_machine system_exec supply_inv
  by unfold_locales (rule supply_machine)

text \<open>C2: in every history of the machine, whatever calls fail or succeed, the balances of a token add up
  to its total supply, which never exceeds the supply cap, which never exceeds the largest 128-bit
  number.\<close>

theorem supply_conserved:
  assumes "supply_inv w"
  shows "(\<Sum>a\<in>UNIV. bal (run_ops system_exec cs w) t a) = total_supply (tokens (run_ops system_exec cs w) t)
    \<and> total_supply (tokens (run_ops system_exec cs w) t) \<le> supply_cap (tokens (run_ops system_exec cs w) t)
    \<and> supply_cap (tokens (run_ops system_exec cs w) t) \<le> U128_MAX"
  using conservation.run_ops_inv [OF assms, of cs] by (simp add: supply_inv_def supply_ok_def)

section \<open>A sample token\<close>

definition sample_token_address :: address where
  "sample_token_address = 0x20C0000000000000000000000000000000000001"

definition sample_token :: tip20_storage where
  "sample_token = empty_token\<lparr>currency := ''USD'', quote_token := PATH_USD_ADDRESS, next_quote_token := PATH_USD_ADDRESS,
     transfer_policy_id_slot := 1, total_supply := 100, supply_cap := U128_MAX, balances := (\<lambda>_. 0)(0x111 := 100)\<rparr>"

definition sample_token_world :: "hardfork \<Rightarrow> world" where
  "sample_token_world f = (empty_world f)\<lparr>has_code := (\<lambda>a. a = sample_token_address),
     tokens := (\<lambda>_. empty_token)(sample_token_address := sample_token)\<rparr>"

lemma sample_token_sel [simp]:
  "balances sample_token = (\<lambda>_. 0)(0x111 := 100)" "total_supply sample_token = 100" "supply_cap sample_token = U128_MAX"
  "paused sample_token = False" "transfer_policy_id_slot sample_token = 1"
  "quote_token sample_token = PATH_USD_ADDRESS" "next_quote_token sample_token = PATH_USD_ADDRESS"
  "roles sample_token = (\<lambda>_ _. False)" "permit_nonces sample_token = (\<lambda>_. 0)" "currency sample_token = ''USD''"
  by (simp_all add: sample_token_def empty_token_def)

lemma sample_token_world_sel [simp]:
  "spec (sample_token_world f) = f" "keychain (sample_token_world f) = empty_keychain"
  "registry (sample_token_world f) = empty_registry" "has_code (sample_token_world f) = (\<lambda>a. a = sample_token_address)"
  "tokens (sample_token_world f) = (\<lambda>_. empty_token)(sample_token_address := sample_token)"
  "logs (sample_token_world f) = []" "guard (sample_token_world f) = \<lparr>guard_nonce = 0, guard_balances = \<lambda>_. 0\<rparr>"
  by (simp_all add: sample_token_world_def)

lemma sample_supply: "supply_inv (sample_token_world f)"
proof -
  have "(\<Sum>a\<in>UNIV. ((\<lambda>_. 0)((0x111 :: address) := 100)) a) = (100 :: nat)"
    using sum_upd [of "\<lambda>_. 0" "0x111 :: address" 100] by simp
  then show ?thesis
    by (simp add: supply_inv_def supply_ok_def empty_token_def U128_MAX_def)
qed

lemma sample_prefix [simp]: "is_tip20_prefix sample_token_address"
  by (simp add: is_tip20_prefix_def sample_token_address_def TIP20_TOKEN_PREFIX_def)

lemma sample_resolve: "\<not> is_virtual a \<Longrightarrow> resolve (sample_token_world f) a = Inr (direct a)"
  by (simp add: resolve_def resolve_recipient_def decode_virtual_def)

lemma sample_authorized: "is_authorized_as (sample_token_world f) (transfer_policy_id (sample_token_world f) sample_token_address) a r = Inr True"
  by (simp add: is_authorized_as_def transfer_policy_id_def registered_token_transfer_policy_id_def empty_registry_def
      legacy_transfer_policy_id_def builtin_authorization_def ALLOW_ALL_POLICY_ID_def)

lemma sample_validate_transfer:
  "\<not> is_virtual to \<Longrightarrow> to \<noteq> 0 \<Longrightarrow> \<not> is_tip20_prefix to \<Longrightarrow> to \<noteq> RECEIVE_POLICY_GUARD_ADDRESS \<Longrightarrow>
    validate_transfer sample_token_address None from to v m (sample_token_world f) = Inr (Some (direct to), sample_token_world f)"
  by (simp add: validate_transfer_def sample_resolve check_not_paused_def validate_def ensure_transfer_authorized_def
      is_transfer_authorized_def sample_authorized check_and_update_spending_limit_def authorize_transfer_def
      validate_inbound_or_block_def check_receive_policy_def empty_registry_def empty_keychain_def run_defs direct_def)

lemma sample_transfer:
  "\<exists>w'. system_exec (TokenCall sample_token_address 0x111 (TransferCall 0x222 30)) (sample_token_world T8) = Inr ((), w')
    \<and> balances (tokens w' sample_token_address) = (\<lambda>_. 0)(0x111 := 70, 0x222 := 30)"
proof -
  have "validate_transfer sample_token_address None 0x111 0x222 30 0 (sample_token_world T8) = Inr (Some (direct 0x222), sample_token_world T8)"
    by (rule sample_validate_transfer) (simp_all add: is_virtual_def VIRTUAL_MAGIC_def is_tip20_prefix_def TIP20_TOKEN_PREFIX_def RECEIVE_POLICY_GUARD_ADDRESS_def)
  then show ?thesis
    by (simp add: on_token_def from_address_def tip20_dispatch_def void_def transfer_def finish_transfer_def transfer_core_def
        handle_rewards_on_transfer_def update_rewards_def decrement_balance_def sdec_def increment_balance_def sinc_def set_balance_def
        map_err_def emit_hop_def build_virtual_transfer_event_def checked_sub_def checked_add_def direct_def run_defs fork_order)
qed

theorem supply_conserved_witness:
  "\<exists>w'. w' = run_ops system_exec [TokenCall sample_token_address 0x111 (TransferCall 0x222 30)] (sample_token_world T8)
    \<and> bal w' sample_token_address 0x111 = 70 \<and> bal w' sample_token_address 0x222 = 30
    \<and> (\<Sum>a\<in>UNIV. bal w' sample_token_address a) = total_supply (tokens w' sample_token_address)
    \<and> total_supply (tokens w' sample_token_address) \<le> U128_MAX"
  using supply_conserved [OF sample_supply, of "[TokenCall sample_token_address 0x111 (TransferCall 0x222 30)]" T8 sample_token_address]
    sample_transfer
  by auto

end
