(* ===== verification/Tip20_Authority.thy ===== *)
theory Tip20_Authority
  imports Tip20_Supply
begin

text \<open>
  Who may take funds from an account. A balance of a token goes down only in a call of its owner, of a
  spender with a large enough allowance, of the holder of a burning role, of a system contract that is
  implicitly approved, of the fee collection, or, for the accounts of the fee manager, the guard and the
  token contract itself, of their own payouts.
\<close>

section \<open>Operations that debit only given accounts\<close>

definition no_debit :: "(address \<Rightarrow> address \<Rightarrow> bool) \<Rightarrow> world \<Rightarrow> world \<Rightarrow> bool" where
  "no_debit P w w' = (\<forall>t a. bal w' t a < bal w t a \<longrightarrow> P t a)"

interpretation debits: step_relation "no_debit P" for P
  by unfold_locales (auto simp: no_debit_def, meson le_less_trans not_le)

named_theorems debiting \<open>operations that debit only given accounts\<close>

lemma no_debit_ledger: "ledger w' = ledger w \<Longrightarrow> no_debit P w w'"
  by (simp add: no_debit_def ledger_def fun_eq_iff)

lemma debits_ledger: "preserves ledger m \<Longrightarrow> steps (no_debit P) m"
  by (auto simp: steps_def intro: no_debit_ledger preservesD)

lemmas debits_tokens = debits_ledger [OF preserves_ledger]
lemmas debits_rewards = debits_ledger [OF preserves_non_reward_ledger]

lemma debits_emits [debiting]:
  "steps (no_debit P) (emit20 t e)" "steps (no_debit P) (emit_hop t r v)" "steps (no_debit P) (emit_roles t re)"
  "steps (no_debit P) (emit_event a ev)" "steps (no_debit P) (emit_guard ge)"
  "steps (no_debit P) (check_and_update_spending_limit t a v)" "steps (no_debit P) (refund_spending_limit a t v)"
  "steps (no_debit P) (authorize_approve a t v v')" "steps (no_debit P) (write_receipt k v)"
  "steps (no_debit P) (set_token_transfer_policy t p)" "steps (no_debit P) (store_blocked t orig to rec v reason kind memo)"
  by (rule debits_tokens, intro frame)+

lemma debits_hooks [debiting]:
  "steps (no_debit P) (update_rewards t a)" "steps (no_debit P) (opted_in_add t v)" "steps (no_debit P) (opted_in_sub t v)"
  "steps (no_debit P) (write_reward_info t a info)"
  by (rule debits_rewards, intro frame)+

lemma debits_upd_token [debiting]: "(\<And>s. balances (f s) = balances s) \<Longrightarrow> steps (no_debit P) (upd_token t f)"
  by (auto simp: steps_def no_debit_def split: if_splits)

lemma debits_supply [debiting]: "steps (no_debit P) (reduce_supply t v)" "steps (no_debit P) (consume_allowance t a s v)"
proof -
  show "steps (no_debit P) (reduce_supply t v)"
    by (auto simp: steps_def no_debit_def reduce_supply_run split: if_splits)
qed (intro debits_ledger frame)

lemma no_debit_nr:
  assumes "non_reward w' = (non_reward w)(t := s)" "\<And>a. balances s a < bal w t a \<Longrightarrow> P t a"
  shows "no_debit P w w'"
proof -
  have "bal w' u a = (if u = t then balances s a else bal w u a)" for u a
    using arg_cong [OF fun_cong [OF assms(1), of u], of balances] by (simp add: non_reward_def split: if_splits)
  then show ?thesis
    using assms(2) by (auto simp: no_debit_def split: if_splits)
qed

lemma debits_transfer_core [debiting]: "P t from \<Longrightarrow> steps (no_debit P) (transfer_core t from to v)"
  by (rule stepsI, drule transfer_core_run, erule conjE, erule no_debit_nr)
    (auto simp: moved_def credit_def debit_def split: if_splits)

lemma debits_mint_core [debiting]: "steps (no_debit P) (mint_core t to s v)"
  by (rule stepsI, drule mint_core_run, erule conjE, erule no_debit_nr) (auto simp: credit_def split: if_splits)

lemma debits_moves [debiting]: "P t a \<Longrightarrow> steps (no_debit P) (decrement_balance t a v)" "steps (no_debit P) (increment_balance t b v)"
  by (auto simp: steps_def no_debit_def decrement_balance_run increment_balance_run debit_def credit_def split: if_splits)

lemma debits_inbound [debiting]:
  "(ms = None \<Longrightarrow> P t orig) \<Longrightarrow> steps (no_debit P) (validate_inbound_or_block t orig to v ms memo)"
  unfolding validate_inbound_or_block_def divert_def by (intro debits.compose debiting) simp_all

section \<open>The entry points\<close>

lemma debits_validate [debiting]:
  "P t from \<Longrightarrow> steps (no_debit P) (validate_transfer t sp from to v memo)"
  "steps (no_debit P) (validate_mint t s to v memo role)"
  unfolding validate_transfer_def validate_mint_def by (intro debits.compose debiting; simp)+

lemma debits_finish [debiting]:
  "P t from \<Longrightarrow> steps (no_debit P) (finish_transfer t from to v memo r)"
  "steps (no_debit P) (finish_mint t to v memo c)"
  unfolding finish_transfer_def finish_mint_def by (intro debits.compose debiting; simp)+

lemma debits_transfers [debiting]:
  "P t s \<Longrightarrow> steps (no_debit P) (transfer t s to v)" "P t s \<Longrightarrow> steps (no_debit P) (transfer_with_memo t s to v m)"
  "P t from \<Longrightarrow> steps (no_debit P) (transfer_from t s from to v)"
  "P t from \<Longrightarrow> steps (no_debit P) (transfer_from_with_memo t s from to v m)"
  "P t from \<Longrightarrow> steps (no_debit P) (system_transfer_from t s from v)"
  "P t from \<Longrightarrow> steps (no_debit P) (channel_reserve_transfer t from r v s)"
  unfolding transfer_def transfer_with_memo_def transfer_from_def transfer_from_with_memo_def system_transfer_from_def
    channel_reserve_transfer_def
  by (intro debits.compose debiting; simp)+

lemma debits_mints [debiting]: "steps (no_debit P) (mint t s to v)" "steps (no_debit P) (mint_with_memo t s to v m)"
  unfolding mint_def mint_with_role_def mint_with_memo_def by (intro debits.compose debiting)+

lemma debits_burns [debiting]:
  "P t s \<Longrightarrow> steps (no_debit P) (burn t s v)" "P t s \<Longrightarrow> steps (no_debit P) (burn_with_memo t s v m)"
  "P t (if c then owner else RECEIVE_POLICY_GUARD_ADDRESS) \<Longrightarrow> steps (no_debit P) (burn_blocked t s owner v c)"
  "P t owner \<Longrightarrow> steps (no_debit P) (burn_at t s owner v)"
  unfolding burn_def burn_with_memo_def burn_core_def burn_blocked_def burn_at_def
  by (intro debits.compose debiting; assumption)+

lemma debits_allowances [debiting]:
  "steps (no_debit P) (approve t s sp v)" "steps (no_debit P) (permit t ow sp v dl vv r sg)"
  unfolding approve_def permit_def set_allowance_def by (intro debits.compose debiting; simp)+

lemma debits_roles [debiting]:
  "steps (no_debit P) (grant_role t s r a)" "steps (no_debit P) (revoke_role t s r a)" "steps (no_debit P) (renounce_role t s r)"
  "steps (no_debit P) (set_role_admin t s r ar)" "steps (no_debit P) (initialize_roles t)" "steps (no_debit P) (grant_default_admin t s a)"
  unfolding grant_role_def revoke_role_def renounce_role_def set_role_admin_def initialize_roles_def grant_default_admin_def
    grant_role_internal_def revoke_role_internal_def set_role_admin_internal_def write_role_def
  by (intro debits.compose debiting; simp)+

lemma debits_admin [debiting]:
  "steps (no_debit P) (change_transfer_policy_id t s p)" "steps (no_debit P) (pause t s)" "steps (no_debit P) (unpause t s)"
  "steps (no_debit P) (set_logo_uri t s u)" "steps (no_debit P) (write_logo_uri t s u)" "steps (no_debit P) (set_next_quote_token t s q)"
  "steps (no_debit P) (complete_quote_token_update t s)" "steps (no_debit P) (set_supply_cap t s cap)"
  unfolding change_transfer_policy_id_def pause_def unpause_def set_logo_uri_def write_logo_uri_def set_next_quote_token_def
    complete_quote_token_update_def set_supply_cap_def
  by (intro debits.compose debiting; simp)+

lemma debits_claim_rewards [debiting]:
  assumes "P t t"
  shows "steps (no_debit P) (claim_rewards t s)"
proof (rule stepsI)
  fix w v w'
  assume "claim_rewards t s w = Inr (v, w')"
  then obtain d w1 w2 info where u: "update_rewards t s w = Inr (d, w1)" and i: "write_reward_info t s info w1 = Inr ((), w2)"
    and pay: "only_if (v > 0) (pay_reward t s d (bal w2 t t) v) w2 = Inr ((), w')"
    using claim_rewards_run by blast
  have "no_debit P w2 w'"
  proof (cases "v > 0")
    case True
    then have "pay_reward t s d (bal w2 t t) v w2 = Inr ((), w')"
      using pay by simp
    from pay_reward_run [OF this] show ?thesis
      by (elim conjE no_debit_nr) (use assms in \<open>auto simp: credit_def debit_def split: if_splits\<close>)
  qed (use pay debits.refl in auto)
  then show "no_debit P w w'"
    using debits.trans stepsD [OF debits_hooks(1) u] stepsD [OF debits_hooks(4) i] by blast
qed

lemma debits_rewarding [debiting]:
  "P t s \<Longrightarrow> steps (no_debit P) (distribute_reward t s v)" "steps (no_debit P) (set_reward_recipient t s r)"
  unfolding distribute_reward_def set_reward_recipient_def by (intro debits.compose debiting; simp)+

lemma debits_fees [debiting]:
  "P t a \<Longrightarrow> steps (no_debit P) (transfer_fee_pre_tx t a v)"
  "P t TIP_FEE_MANAGER_ADDRESS \<Longrightarrow> steps (no_debit P) (transfer_fee_post_tx t a r v)"
  unfolding transfer_fee_pre_tx_def transfer_fee_post_tx_def by (intro debits.compose debiting; simp)+

lemma debits_release [debiting]:
  "P t RECEIVE_POLICY_GUARD_ADDRESS \<Longrightarrow> steps (no_debit P) (release_blocked_funds t orig rcv to v mode auth)"
  unfolding release_blocked_funds_def by (intro debits.compose debiting)

lemma debits_init [debiting]: "steps (no_debit P) (initialize t s n sy c q adm)"
proof -
  have "steps (no_debit P) (set_code t)"
    by (auto simp: steps_def set_code_def no_debit_def)
  then show ?thesis
    unfolding initialize_def by (intro debits.compose debiting; simp)
qed

lemma debits_factory [debiting]:
  "steps (no_debit P) (create_token s call)" "steps (no_debit P) (create_token_with_logo s call u)"
  "steps (no_debit P) (create_token_reserved_address a n sy c q adm)"
  unfolding create_token_with_logo_def create_token_def create_token_reserved_address_def by (intro debits.compose debiting)+

section \<open>Authority over a balance\<close>

text \<open>The right to lower the balance of \<open>a\<close> in the token \<open>t\<close>, by the call that claims it.\<close>

fun token_debit_right :: "world \<Rightarrow> address \<Rightarrow> address \<Rightarrow> tip20_call \<Rightarrow> address \<Rightarrow> bool" where
  "token_debit_right w t s (TransferCall to v) a = (a = s)"
| "token_debit_right w t s (TransferWithMemoCall to v m) a = (a = s)"
| "token_debit_right w t s (TransferFromCall from to v) a = (a = from \<and> v \<le> get_allowance w t from s)"
| "token_debit_right w t s (TransferFromWithMemoCall from to v m) a = (a = from \<and> v \<le> get_allowance w t from s)"
| "token_debit_right w t s (BurnCall v) a = (a = s \<and> has_role_internal w t s ISSUER_ROLE)"
| "token_debit_right w t s (BurnWithMemoCall v m) a = (a = s \<and> has_role_internal w t s ISSUER_ROLE)"
| "token_debit_right w t s (BurnBlockedCall from v) a =
    (a = from \<and> has_role_internal w t s BURN_BLOCKED_ROLE \<and> check_burn_address w t from = Inr ()
     \<and> is_authorized_as w (transfer_policy_id w t) from (transfer_or w AuthSender) = Inr False)"
| "token_debit_right w t s (BurnAtCall from v) a =
    (a = from \<and> has_role_internal w t s BURN_AT_ROLE \<and> check_burn_address w t from = Inr ())"
| "token_debit_right w t s (DistributeRewardCall v) a = (a = s)"
| "token_debit_right w t s ClaimRewardsCall a = (a = t)"
| "token_debit_right w t s _ a = False"

fun debit_right :: "world \<Rightarrow> system_call \<Rightarrow> address \<Rightarrow> address \<Rightarrow> bool" where
  "debit_right w (TokenCall u s c) t a = (u = t \<and> token_debit_right w t s c a)"
| "debit_right w (SystemTransfer u caller from v) t a =
    (u = t \<and> a = from \<and> (T5 \<le> spec w \<longrightarrow> is_implicitly_approved caller (spec w)))"
| "debit_right w (ReserveTransfer u from to v s) t a =
    (u = t \<and> a = from \<and> TIP20_CHANNEL_RESERVE_ADDRESS \<in> {from, to})"
| "debit_right w (FeePreTx u from v) t a = (u = t \<and> a = from)"
| "debit_right w (FeePostTx u to refund v) t a = (u = t \<and> a = TIP_FEE_MANAGER_ADDRESS)"
| "debit_right w (GuardClaim s to bytes) t a =
    (a = RECEIVE_POLICY_GUARD_ADDRESS \<and> (case resolve_receipt w bytes of Inl e \<Rightarrow> False
      | Inr (r, receiver, mode) \<Rightarrow> rc_token r = t \<and> authority mode r = s \<and> 0 < guard_balances (guard w) (receipt_key w r)))"
| "debit_right w (GuardBurn s bytes) t a =
    (a = RECEIVE_POLICY_GUARD_ADDRESS \<and> (case resolve_receipt w bytes of Inl e \<Rightarrow> False
      | Inr (r, receiver, mode) \<Rightarrow> rc_token r = t \<and> has_role_internal w t s BURN_BLOCKED_ROLE
          \<and> 0 < guard_balances (guard w) (receipt_key w r)))"
| "debit_right w _ t a = False"

lemma check_role_ok: "check_role w t a r = Inr () \<longleftrightarrow> has_role_internal w t a r"
  by (simp add: check_role_def)

lemma consume_allowance_enough: "consume_allowance t a s v w = Inr ((), w') \<Longrightarrow> v \<le> get_allowance w t a s"
  by (auto simp: consume_allowance_def runs)

lemma validate_transfer_allowance:
  "validate_transfer t (Some s) from to v memo w = Inr (r, w') \<Longrightarrow> v \<le> get_allowance w t from s"
  using validate_transfer_run consume_allowance_enough by fastforce

lemma burn_core_role: "burn_core t s v w = Inr (x, w') \<Longrightarrow> has_role_internal w t s ISSUER_ROLE"
  unfolding burn_core_def by (auto simp: runs only_if_def check_role_ok split: if_splits)

lemma burn_blocked_rights:
  "burn_blocked t s owner v c w = Inr (x, w') \<Longrightarrow> has_role_internal w t s BURN_BLOCKED_ROLE
    \<and> (c \<longrightarrow> check_burn_address w t owner = Inr ()) \<and> is_authorized_as w (transfer_policy_id w t) owner (transfer_or w AuthSender) = Inr False"
  unfolding burn_blocked_def by (auto simp: runs only_if_def check_role_ok split: if_splits)

lemma burn_at_rights:
  "burn_at t s owner v w = Inr (x, w') \<Longrightarrow> has_role_internal w t s BURN_AT_ROLE \<and> check_burn_address w t owner = Inr ()"
  unfolding burn_at_def by (auto simp: runs check_role_ok)

text \<open>A guard that a successful call passed.\<close>

lemma token_call_guard:
  assumes "tip20_handle t s c w = Inr (x, w')"
  shows "(\<exists>a. token_debit_right w t s c a) \<or> (\<forall>P. steps (no_debit P) (tip20_handle t s c))"
  using assms
  by (cases c)
    (auto simp: void_def rbind_eq_Inr transfer_from_def transfer_from_with_memo_def burn_def burn_with_memo_def rseq_eq_Inr
      intro!: debits.bind debiting debits.basic
      dest!: validate_transfer_allowance burn_core_role burn_blocked_rights burn_at_rights)

lemma token_call_debits:
  assumes "tip20_handle t s c w = Inr (x, w')" "token_debit_right w t s c b"
  shows "no_debit (\<lambda>u a. u = t \<and> token_debit_right w t s c a) w w'"
proof -
  have "steps (no_debit (\<lambda>u a. u = t \<and> token_debit_right w t s c a)) (tip20_handle t s c)"
    using assms(2) by (cases c) (auto simp: void_def intro!: debits.bind debiting debits.basic)
  then show ?thesis
    using assms(1) by (rule stepsD)
qed

lemma token_call_authority:
  assumes "tip20_dispatch t s c w = Inr (x, w')"
  shows "no_debit (\<lambda>u a. u = t \<and> token_debit_right w t s c a) w w'"
proof -
  have run: "tip20_handle t s c w = Inr (x, w')"
    using assms by (auto simp: tip20_dispatch_def runs)
  show ?thesis
    using token_call_guard [OF run] token_call_debits [OF run] run unfolding steps_def by blast
qed

lemma on_token_run: "on_token t m w = Inr (x, w') \<longleftrightarrow> is_tip20_prefix t \<and> m t w = Inr (x, w')"
  by (auto simp: on_token_def from_address_def runs split: if_splits)

lemma claim_run:
  assumes "claim s to bytes w = Inr (x, w')"
  obtains r rcv mode where "resolve_receipt w bytes = Inr (r, rcv, mode)" "to \<noteq> RECEIVE_POLICY_GUARD_ADDRESS"
    "authority mode r = s" "0 < guard_balances (guard w) (receipt_key w r)" "is_tip20_prefix (rc_token r)"
    "rseq (release_blocked_funds (rc_token r) (rc_originator r) rcv to (guard_balances (guard w) (receipt_key w r)) mode s)
       (emit_guard (ReceiptClaimed r rcv s to (guard_balances (guard w) (receipt_key w r))))
       (w\<lparr>guard := (guard w)\<lparr>guard_balances := (guard_balances (guard w))(receipt_key w r := 0)\<rparr>\<rparr>) = Inr (x, w')"
proof -
  obtain r rcv mode where rr: "resolve_receipt w bytes = Inr (r, rcv, mode)"
    using assms by (cases "resolve_receipt w bytes") (auto simp: claim_def runs)
  then show ?thesis
    using assms that [OF rr]
    by (auto simp: claim_def rseq_eq_Inr [of "ensure _ _"] rbind_eq_Inr ensure_eq_Inr Let_def rd_eq_Inr from_address_def
        rseq_eq_Inr [of "write_receipt _ _"] write_receipt_def split: if_splits)
qed

lemma burn_receipt_run:
  assumes "burn_blocked_receipt s bytes w = Inr (x, w')"
  obtains r rcv mode w1 where "resolve_receipt w bytes = Inr (r, rcv, mode)"
    "0 < guard_balances (guard w) (receipt_key w r)" "is_tip20_prefix (rc_token r)"
    "burn_blocked (rc_token r) s (policy_subject mode (rc_originator r) rcv) (guard_balances (guard w) (receipt_key w r)) False w
       = Inr ((), w1)"
    "rseq (write_receipt (receipt_key w r) 0)
       (emit_guard (ReceiptBurned r rcv s (guard_balances (guard w) (receipt_key w r)))) w1 = Inr (x, w')"
proof -
  obtain r rcv mode where rr: "resolve_receipt w bytes = Inr (r, rcv, mode)"
    using assms by (cases "resolve_receipt w bytes") (auto simp: burn_blocked_receipt_def runs)
  then show ?thesis
    using assms that [OF rr]
    by (auto simp: burn_blocked_receipt_def rseq_eq_Inr [of "ensure _ _"] rbind_eq_Inr ensure_eq_Inr rd_eq_Inr from_address_def
        rseq_eq_Inr [of "burn_blocked _ _ _ _ _"] split: if_splits)
qed

lemma guard_authority:
  "claim s to bytes w = Inr (x, w') \<Longrightarrow> no_debit (debit_right w (GuardClaim s to bytes)) w w'"
  "burn_blocked_receipt s bytes w = Inr (x, w') \<Longrightarrow> no_debit (debit_right w (GuardBurn s bytes)) w w'"
proof -
  assume "claim s to bytes w = Inr (x, w')"
  then show "no_debit (debit_right w (GuardClaim s to bytes)) w w'"
  proof (rule claim_run)
    fix r rcv mode
    let ?v = "guard_balances (guard w) (receipt_key w r)"
    let ?w = "w\<lparr>guard := (guard w)\<lparr>guard_balances := (guard_balances (guard w))(receipt_key w r := 0)\<rparr>\<rparr>"
    assume r: "resolve_receipt w bytes = Inr (r, rcv, mode)" "authority mode r = s" "0 < ?v"
      and run: "rseq (release_blocked_funds (rc_token r) (rc_originator r) rcv to ?v mode s)
        (emit_guard (ReceiptClaimed r rcv s to ?v)) ?w = Inr (x, w')"
    have "steps (no_debit (debit_right w (GuardClaim s to bytes)))
        (rseq (release_blocked_funds (rc_token r) (rc_originator r) rcv to ?v mode s) (emit_guard (ReceiptClaimed r rcv s to ?v)))"
      using r by (intro debits.compose debiting) simp
    from stepsD [OF this run] show ?thesis
      by (simp add: no_debit_def)
  qed
next
  assume "burn_blocked_receipt s bytes w = Inr (x, w')"
  then show "no_debit (debit_right w (GuardBurn s bytes)) w w'"
  proof (rule burn_receipt_run)
    fix r rcv mode w1
    let ?v = "guard_balances (guard w) (receipt_key w r)"
    assume r: "resolve_receipt w bytes = Inr (r, rcv, mode)" "0 < ?v"
      and run: "burn_blocked (rc_token r) s (policy_subject mode (rc_originator r) rcv) ?v False w = Inr ((), w1)"
      and rest: "rseq (write_receipt (receipt_key w r) 0) (emit_guard (ReceiptBurned r rcv s ?v)) w1 = Inr (x, w')"
    have "no_debit (debit_right w (GuardBurn s bytes)) w w1"
      using run by (rule stepsD [rotated]) (intro debiting, use r burn_blocked_rights [OF run] in simp)
    moreover have "no_debit (debit_right w (GuardBurn s bytes)) w1 w'"
      using rest by (rule stepsD [rotated]) (intro debits.compose debiting)
    ultimately show ?thesis
      by (rule debits.trans)
  qed
qed

lemma system_call_authority:
  assumes "system_exec c w = Inr (x, w')"
  shows "no_debit (debit_right w c) w w'"
proof (cases c)
  case (TokenCall t s tc)
  then show ?thesis
    using assms token_call_authority [of t s tc w x w'] by (auto simp: on_token_run no_debit_def)
next
  case (SystemTransfer t caller "from" v)
  then have run: "void (system_transfer_from t caller from v) w = Inr (x, w')"
    using assms by (simp add: on_token_run)
  then have "T5 \<le> spec w \<longrightarrow> is_implicitly_approved caller (spec w)"
    by (auto simp: void_def system_transfer_from_def runs)
  then have "steps (no_debit (debit_right w c)) (void (system_transfer_from t caller from v))"
    unfolding void_def SystemTransfer by (intro debits.compose debiting) simp
  then show ?thesis
    using run by (rule stepsD)
next
  case (ReserveTransfer t "from" to v s)
  then obtain r where r: "resolve w to = Inr r" and run: "channel_reserve_transfer t from r v s w = Inr (x, w')"
    using assms by (auto simp: on_token_run runs)
  have "TIP20_CHANNEL_RESERVE_ADDRESS \<in> {from, to}"
    using run r by (auto simp: channel_reserve_transfer_def runs resolve_def original_address_def direct_def split: if_splits)
  then have "steps (no_debit (debit_right w c)) (channel_reserve_transfer t from r v s)"
    by (intro debiting) (simp add: ReserveTransfer)
  then show ?thesis
    using run by (rule stepsD)
next
  case (FeePreTx t a v)
  then show ?thesis
    using assms stepsD [OF debits_fees(1) [of "debit_right w c" t a v]] by (simp add: on_token_run)
next
  case (FeePostTx t a r v)
  then show ?thesis
    using assms stepsD [OF debits_fees(2) [of "debit_right w c" t a r v]] by (simp add: on_token_run)
next
  case (RegistryCall rc)
  then show ?thesis
    using assms preservesD [OF tip403_exec_ledger] by (intro no_debit_ledger) simp
next
  case (KeychainCall kc)
  then show ?thesis
    using assms preservesD [OF keychain_exec_tokens] by (intro no_debit_ledger ledger_tokens) simp
next
  case (RegisterMaster a salt)
  then show ?thesis
    using assms preservesD [OF register_tokens] by (intro no_debit_ledger ledger_tokens) (auto simp: void_def rbind_eq_Inr)
next
  case (GuardClaim s to bytes)
  then show ?thesis
    using assms guard_authority(1) [of s to bytes w x w'] by simp
next
  case (GuardBurn s bytes)
  then show ?thesis
    using assms guard_authority(2) [of s bytes w x w'] by simp
qed (use assms stepsD [OF debits_factory(1)] stepsD [OF debits_factory(2)] stepsD [OF debits_factory(3)]
    in \<open>auto simp: void_def rbind_eq_Inr\<close>)

text \<open>C3: a balance goes down only in a call that has the right to debit it: a transfer, a burn by an issuer or a reward
  distribution by the owner; a transfer by a spender with sufficient allowance; a burn by the holder of the role on an
  account that is not protected (and, for \<open>burnBlocked\<close>, not authorized to send); a transfer by a system contract, which
  from T5 on is an implicitly approved one; a transfer into or out of the channel reserve; the fee collection and the
  refund by the fee manager; a claim of rewards, paid by the token contract; and, for the balance of the guard, a claim made
  by the authority of a funded receipt of the token, to an address of its choice, or a burn of such a receipt by a holder of
  \<open>BURN_BLOCKED_ROLE\<close>.\<close>

theorem balance_decrease_authorized:
  assumes "system_exec c w = Inr (x, w')" "bal w' t a < bal w t a"
  shows "debit_right w c t a"
  using system_call_authority [OF assms(1)] assms(2) by (simp add: no_debit_def)

theorem balance_decrease_authorized_witness:
  "\<exists>w'. system_exec (TokenCall sample_token_address 0x111 (TransferCall 0x222 30)) (sample_token_world T8) = Inr ((), w')
    \<and> bal w' sample_token_address 0x111 = 70
    \<and> debit_right (sample_token_world T8) (TokenCall sample_token_address 0x111 (TransferCall 0x222 30)) sample_token_address 0x111"
proof -
  obtain w' where run: "system_exec (TokenCall sample_token_address 0x111 (TransferCall 0x222 30)) (sample_token_world T8) = Inr ((), w')"
    and b: "bal w' sample_token_address 0x111 = 70"
    using sample_transfer by auto
  have "bal w' sample_token_address 0x111 < bal (sample_token_world T8) sample_token_address 0x111"
    using b by simp
  with balance_decrease_authorized [OF run this] run b show ?thesis
    by blast
qed

end
