(* ===== verification/Tip20_Pause.thy ===== *)
theory Tip20_Pause
  imports Tip20_Authority
begin

text \<open>
  The pause switch. While a token is paused, from T3 on, no call moves, creates or destroys its units,
  other than the refund of a fee that was collected before; only a holder of the unpause role ends it.
\<close>

section \<open>Calls on other tokens\<close>

definition touches :: "address \<Rightarrow> world \<Rightarrow> world \<Rightarrow> bool" where
  "touches t w w' = (\<forall>u. u \<noteq> t \<longrightarrow> tokens w' u = tokens w u)"

interpretation touch: step_relation "touches t" for t
  by unfold_locales (auto simp: touches_def)

named_theorems touching \<open>operations on one token\<close>

lemma touch_tokens: "preserves tokens m \<Longrightarrow> steps (touches t) m"
  by (auto simp: steps_def touches_def preserves_def)

lemma touch_emits [touching]:
  "steps (touches t) (emit20 u e)" "steps (touches t) (emit_hop u r v)" "steps (touches t) (emit_roles u re)"
  "steps (touches t) (emit_event a ev)" "steps (touches t) (emit_guard ge)"
  "steps (touches t) (check_and_update_spending_limit u a v)" "steps (touches t) (refund_spending_limit a u v)"
  "steps (touches t) (authorize_approve a u v v')" "steps (touches t) (write_receipt k v)"
  "steps (touches t) (set_token_transfer_policy u p)" "steps (touches t) (store_blocked u orig to rec v reason kind memo)"
  by (rule touch_tokens, intro frame)+

lemma touch_upd [touching]: "steps (touches t) (upd_token t f)"
  by (simp add: steps_def touches_def)

lemma touch_setters [touching]:
  "steps (touches t) (set_allowance t a s v)" "steps (touches t) (set_balance t a v)" "steps (touches t) (set_total_supply t v)"
  "steps (touches t) (write_role t a r b)" "steps (touches t) (set_role_admin_internal t r ar)"
  "steps (touches t) (write_reward_info t a info)" "steps (touches t) (set_opted_in_supply t v)"
  unfolding set_allowance_def set_balance_def set_total_supply_def write_role_def set_role_admin_internal_def
    write_reward_info_def set_opted_in_supply_def
  by (rule touch_upd)+

lemma touch_hooks [touching]:
  "steps (touches t) (opted_in_add t v)" "steps (touches t) (opted_in_sub t v)" "steps (touches t) (update_rewards t a)"
  "steps (touches t) (increment_balance t a v)" "steps (touches t) (decrement_balance t a v)"
  "steps (touches t) (reduce_supply t v)" "steps (touches t) (consume_allowance t a s v)"
  unfolding opted_in_add_def opted_in_sub_def update_rewards_def accrue_def increment_balance_def sinc_def
    decrement_balance_def sdec_def reduce_supply_def consume_allowance_def
  by (intro touch.compose touching)+

lemma touch_core [touching]:
  "steps (touches t) (transfer_core t from to v)" "steps (touches t) (mint_core t to s v)"
  unfolding transfer_core_def mint_core_def handle_rewards_on_transfer_def handle_rewards_on_mint_def
  by (intro touch.compose touching)+

lemma touch_validate [touching]:
  "steps (touches t) (validate_inbound_or_block t orig to' v ms memo)" "steps (touches t) (validate_transfer t sp from to v memo)"
  "steps (touches t) (validate_mint t s to v memo role)"
  unfolding validate_transfer_def validate_mint_def validate_inbound_or_block_def divert_def by (intro touch.compose touching)+

lemma touch_finish [touching]:
  "steps (touches t) (finish_transfer t from to v memo r)" "steps (touches t) (finish_mint t to v memo c)"
  "steps (touches t) (burn_core t s v)" "steps (touches t) (write_logo_uri t s u)"
  "steps (touches t) (pay_reward t s d b v)"
  unfolding finish_transfer_def finish_mint_def burn_core_def write_logo_uri_def pay_reward_def by (intro touch.compose touching)+

lemma touch_handle [touching]: "steps (touches t) (tip20_handle t s c)"
  by (cases c; simp only: tip20_handle.simps void_def transfer_def transfer_from_def transfer_with_memo_def
      transfer_from_with_memo_def approve_def permit_def mint_def mint_with_role_def mint_with_memo_def burn_def
      burn_with_memo_def burn_blocked_def burn_at_def change_transfer_policy_id_def set_supply_cap_def set_logo_uri_def
      pause_def unpause_def set_next_quote_token_def complete_quote_token_update_def distribute_reward_def
      set_reward_recipient_def claim_rewards_def grant_role_def revoke_role_def renounce_role_def set_role_admin_def
      grant_role_internal_def revoke_role_internal_def; intro touch.compose touching)

lemma touch_payments [touching]:
  "steps (touches t) (system_transfer_from t s from v)" "steps (touches t) (channel_reserve_transfer t from r v s)"
  "steps (touches t) (transfer_fee_pre_tx t a v)" "steps (touches t) (transfer_fee_post_tx t a r' v)"
  "steps (touches t) (release_blocked_funds t orig rcv to v mode auth)" "steps (touches t) (burn_blocked t s owner v c)"
  unfolding system_transfer_from_def channel_reserve_transfer_def transfer_fee_pre_tx_def transfer_fee_post_tx_def
    release_blocked_funds_def burn_blocked_def
  by (intro touch.compose touching)+

section \<open>Calls that move nothing\<close>

definition holdings :: "world \<Rightarrow> address \<Rightarrow> (address \<Rightarrow> u256) \<times> u256 \<times> bool" where
  "holdings w t = (balances (tokens w t), total_supply (tokens w t), paused (tokens w t))"

lemma holdings_slotless:
  assumes "slotless w' = slotless w"
  shows "holdings w' = holdings w"
proof
  fix t
  have "slotless w' t = slotless w t"
    using assms by simp
  then show "holdings w' t = holdings w t"
    by (cases "tokens w t"; cases "tokens w' t"; simp add: slotless_def holdings_def)
qed

lemma holdings_tokens: "preserves tokens m \<Longrightarrow> preserves holdings m"
  by (auto simp: preserves_def holdings_def fun_eq_iff)

lemma holdings_emits [frame]:
  "preserves holdings (emit20 u e)" "preserves holdings (emit_roles u re)" "preserves holdings (emit_event a ev)"
  "preserves holdings (authorize_approve a u v v')" "preserves holdings (set_token_transfer_policy u p)"
  by (rule holdings_tokens, intro frame)+

lemma holdings_upd [frame]:
  "(\<And>s. balances (f s) = balances s \<and> total_supply (f s) = total_supply s \<and> paused (f s) = paused s) \<Longrightarrow>
    preserves holdings (upd_token t f)"
  by (simp add: preserves_def holdings_def fun_eq_iff)

lemma holdings_allowances: "preserves holdings (approve t s sp v)" "preserves holdings (permit t ow sp v dl vv r sg)"
  unfolding approve_def permit_def set_allowance_def by (intro frame; simp)+

lemma holdings_roles:
  "preserves holdings (grant_role t s r a)" "preserves holdings (revoke_role t s r a)" "preserves holdings (renounce_role t s r)"
  "preserves holdings (set_role_admin t s r ar)" "preserves holdings (initialize_roles t)" "preserves holdings (grant_default_admin t s a)"
  unfolding grant_role_def revoke_role_def renounce_role_def set_role_admin_def initialize_roles_def grant_default_admin_def
    grant_role_internal_def revoke_role_internal_def set_role_admin_internal_def write_role_def
  by (intro frame; simp)+

lemma holdings_admin:
  "preserves holdings (change_transfer_policy_id t s p)" "preserves holdings (set_logo_uri t s u)" "preserves holdings (write_logo_uri t s u)"
  "preserves holdings (set_next_quote_token t s q)" "preserves holdings (complete_quote_token_update t s)"
  "preserves holdings (set_supply_cap t s cap)"
  unfolding change_transfer_policy_id_def set_logo_uri_def write_logo_uri_def set_next_quote_token_def
    complete_quote_token_update_def set_supply_cap_def
  by (intro frame; simp)+

lemma holdings_factory:
  "preserves holdings (create_token s call)" "preserves holdings (create_token_with_logo s call u)"
  "preserves holdings (create_token_reserved_address a n sy c q adm)"
proof -
  have code: "preserves holdings (set_code t)" for t
    by (simp add: preserves_def set_code_def holdings_def fun_eq_iff)
  have "preserves holdings (initialize t s n sy c q adm)" for t s n sy c q adm
    unfolding initialize_def by (intro code holdings_roles frame; simp)
  then show "preserves holdings (create_token s call)" "preserves holdings (create_token_with_logo s call u)"
      "preserves holdings (create_token_reserved_address a n sy c q adm)"
    unfolding create_token_with_logo_def create_token_def create_token_reserved_address_def
    by (intro holdings_admin frame; simp)+
qed

section \<open>Calls that fail while the token is paused\<close>

lemma not_paused_checked: "check_not_paused w t = Inr () \<longleftrightarrow> \<not> paused (tokens w t)"
  by (simp add: check_not_paused_def)

lemma validate_unpaused: "validate_transfer t sp from to v memo w = Inr (r, w') \<Longrightarrow> \<not> paused (tokens w t)"
  by (blast dest: validate_transfer_run)

lemma moves_unpaused:
  "transfer t s to v w = Inr (b, w') \<Longrightarrow> \<not> paused (tokens w t)"
  "transfer_with_memo t s to v m w = Inr (x, w') \<Longrightarrow> \<not> paused (tokens w t)"
  "transfer_from t s from to v w = Inr (b, w') \<Longrightarrow> \<not> paused (tokens w t)"
  "transfer_from_with_memo t s from to v m w = Inr (b, w') \<Longrightarrow> \<not> paused (tokens w t)"
  "system_transfer_from t s from v w = Inr (b, w') \<Longrightarrow> \<not> paused (tokens w t)"
  unfolding transfer_def transfer_with_memo_def transfer_from_def transfer_from_with_memo_def system_transfer_from_def
  by (auto simp: runs dest!: validate_unpaused)

lemma payments_unpaused:
  "channel_reserve_transfer t from r v s w = Inr (x, w') \<Longrightarrow> \<not> paused (tokens w t)"
  "transfer_fee_pre_tx t a v w = Inr (x, w') \<Longrightarrow> \<not> paused (tokens w t)"
  "release_blocked_funds t orig rcv to v mode auth w = Inr (x, w') \<Longrightarrow> \<not> paused (tokens w t)"
  "burn_at t s a v w = Inr (x, w') \<Longrightarrow> \<not> paused (tokens w t)"
  "claim_rewards t s w = Inr (v, w') \<Longrightarrow> \<not> paused (tokens w t)"
  unfolding channel_reserve_transfer_def transfer_fee_pre_tx_def release_blocked_funds_def burn_at_def claim_rewards_def
  by (auto simp: runs not_paused_checked)

lemma supply_changes_unpaused:
  assumes "T3 \<le> spec w"
  shows "mint t s to v w = Inr (x, w') \<Longrightarrow> \<not> paused (tokens w t)"
    "mint_with_memo t s to v m w = Inr (x, w') \<Longrightarrow> \<not> paused (tokens w t)"
    "burn_core t s v w = Inr (x, w') \<Longrightarrow> \<not> paused (tokens w t)"
    "burn_blocked t s a v c w = Inr (x, w') \<Longrightarrow> \<not> paused (tokens w t)"
  using assms validate_mint_run unfolding mint_def mint_with_role_def mint_with_memo_def burn_core_def burn_blocked_def
  by (fastforce simp: rbind_eq_Inr runs not_paused_checked)+

lemma rewards_unpaused:
  "distribute_reward t s v w = Inr (x, w') \<Longrightarrow> \<not> paused (tokens w t) \<or> w' = w"
  "set_reward_recipient t s r w = Inr (x, w') \<Longrightarrow> \<not> paused (tokens w t) \<or> w' = w"
  unfolding distribute_reward_def set_reward_recipient_def
  by (auto simp: rbind_eq_Inr rseq_eq_Inr rd_eq_Inr not_paused_checked split: if_splits)

lemma paused_token_call:
  assumes "tip20_handle t s c w = Inr (x, w')" "paused (tokens w t)" "T3 \<le> spec w" "c \<noteq> UnpauseCall"
  shows "holdings w' t = holdings w t"
proof -
  have "preserves holdings (tip20_handle t s c) \<or> c = PauseCall \<or> w' = w"
    using assms moves_unpaused payments_unpaused rewards_unpaused supply_changes_unpaused
    by (cases c) (fastforce simp: void_def rbind_eq_Inr burn_def burn_with_memo_def rseq_eq_Inr
        intro!: holdings_allowances holdings_roles holdings_admin frame)+
  moreover have "holdings w' t = holdings w t" if "c = PauseCall"
    using that assms by (auto simp: pause_def runs holdings_def)
  ultimately show ?thesis
    using assms(1) by (auto dest: preservesD)
qed

lemma touched_holdings: "touches u w w' \<Longrightarrow> u \<noteq> t \<Longrightarrow> holdings w' t = holdings w t"
  by (simp add: touches_def holdings_def)

text \<open>A call on the token fails while it is paused, a call on another token does not touch it.\<close>

lemma frozen_by:
  assumes "m w = Inr (x, w')" "steps (touches u) m" "u = t \<Longrightarrow> \<not> paused (tokens w t)" "paused (tokens w t)"
  shows "holdings w' t = holdings w t"
  using stepsD [OF assms(2,1)] assms(3,4) touched_holdings [of u w w' t] by blast

lemma paused_guard:
  assumes "paused (tokens w t)" "T3 \<le> spec w"
  shows "claim s to bytes w = Inr (x, w') \<Longrightarrow> holdings w' t = holdings w t"
    "burn_blocked_receipt s bytes w = Inr (x, w') \<Longrightarrow> holdings w' t = holdings w t"
proof -
  assume "claim s to bytes w = Inr (x, w')"
  then show "holdings w' t = holdings w t"
  proof (rule claim_run)
    fix r rcv mode
    let ?v = "guard_balances (guard w) (receipt_key w r)"
    let ?w = "w\<lparr>guard := (guard w)\<lparr>guard_balances := (guard_balances (guard w))(receipt_key w r := 0)\<rparr>\<rparr>"
    let ?rel = "release_blocked_funds (rc_token r) (rc_originator r) rcv to ?v mode s"
    let ?m = "rseq ?rel (emit_guard (ReceiptClaimed r rcv s to ?v))"
    assume run: "?m ?w = Inr (x, w')"
    have "holdings w' t = holdings ?w t"
    proof (rule frozen_by [where m = ?m and w = ?w, OF run])
      show "steps (touches (rc_token r)) ?m"
        by (intro touch.compose touching)
      show "\<not> paused (tokens ?w t)" if "rc_token r = t"
        using run payments_unpaused(3) [of t _ _ _ _ _ _ ?w] that unfolding rseq_eq_Inr by blast
    qed (use assms in simp)
    then show ?thesis
      by (simp add: holdings_def)
  qed
next
  assume "burn_blocked_receipt s bytes w = Inr (x, w')"
  then show "holdings w' t = holdings w t"
  proof (rule burn_receipt_run)
    fix r rcv mode w1
    let ?v = "guard_balances (guard w) (receipt_key w r)"
    let ?m = "burn_blocked (rc_token r) s (policy_subject mode (rc_originator r) rcv) ?v False"
    assume run: "?m w = Inr ((), w1)"
      and rest: "rseq (write_receipt (receipt_key w r) 0) (emit_guard (ReceiptBurned r rcv s ?v)) w1 = Inr (x, w')"
    have "holdings w1 t = holdings w t"
      by (rule frozen_by [where m = ?m, OF run touch_payments(6)]) (use assms run supply_changes_unpaused(4) in auto)
    moreover have "tokens w' = tokens w1"
      using rest by (rule preservesD [rotated]) (intro frame)
    ultimately show ?thesis
      by (simp add: holdings_def)
  qed
qed

lemma paused_system_call:
  assumes "paused (tokens w t)" "T3 \<le> spec w" "system_exec c w = Inr (x, w')"
    "\<forall>s. c \<noteq> TokenCall t s UnpauseCall" "\<forall>a r v. c \<noteq> FeePostTx t a r v"
  shows "holdings w' t = holdings w t"
proof (cases c)
  case (TokenCall u s tc)
  then have run: "tip20_handle u s tc w = Inr (x, w')"
    using assms(3) by (auto simp: on_token_run tip20_dispatch_def runs)
  show ?thesis
  proof (cases "u = t")
    case True
    then show ?thesis
      using paused_token_call run assms TokenCall by blast
  next
    case False
    then show ?thesis
      using touched_holdings stepsD [OF touch_handle run] by metis
  qed
next
  case (SystemTransfer u caller "from" v)
  then obtain b where run: "system_transfer_from u caller from v w = Inr (b, w')"
    using assms(3) by (auto simp: on_token_run void_def rbind_eq_Inr)
  show ?thesis
    using stepsD [OF touch_payments(1) run] moves_unpaused(5) [OF run] touched_holdings assms(1) by metis
next
  case (ReserveTransfer u "from" to v s)
  then obtain r where run: "channel_reserve_transfer u from r v s w = Inr (x, w')"
    using assms(3) by (auto simp: on_token_run runs)
  show ?thesis
    using stepsD [OF touch_payments(2) run] payments_unpaused(1) [OF run] touched_holdings assms(1) by metis
next
  case (FeePreTx u a v)
  then have run: "transfer_fee_pre_tx u a v w = Inr (x, w')"
    using assms(3) by (simp add: on_token_run)
  show ?thesis
    using stepsD [OF touch_payments(3) run] payments_unpaused(2) [OF run] touched_holdings assms(1) by metis
next
  case (FeePostTx u a r v)
  then have "u \<noteq> t" and run: "transfer_fee_post_tx u a r v w = Inr (x, w')"
    using assms by (auto simp: on_token_run)
  then show ?thesis
    using stepsD [OF touch_payments(4) run] touched_holdings by metis
next
  case (RegistryCall rc)
  then show ?thesis
    using assms(3) preservesD [OF tip403_exec_slotless] holdings_slotless by (metis system_exec.simps(11))
next
  case (KeychainCall kc)
  then show ?thesis
    using assms(3) preservesD [OF keychain_exec_tokens] by (simp add: holdings_def)
next
  case (RegisterMaster a salt)
  then show ?thesis
    using assms(3) preservesD [OF register_tokens] by (auto simp: holdings_def void_def rbind_eq_Inr)
next
  case (GuardClaim s to bytes)
  then show ?thesis
    using assms paused_guard by simp
next
  case (GuardBurn s bytes)
  then show ?thesis
    using assms paused_guard by simp
qed (use assms(3) holdings_factory in \<open>fastforce simp: void_def rbind_eq_Inr preserves_def\<close>)+

text \<open>C11: from T3 on, a call on a paused token leaves every balance, the total supply and the pause in
  place, whatever the call and whoever makes it, unless it is an unpause or the refund of a fee.\<close>

theorem paused_token_frozen:
  assumes "paused (tokens w t)" "T3 \<le> spec w" "system_exec c w = Inr (x, w')"
    "\<forall>s. c \<noteq> TokenCall t s UnpauseCall" "\<forall>a r v. c \<noteq> FeePostTx t a r v"
  shows "balances (tokens w' t) = balances (tokens w t) \<and> total_supply (tokens w' t) = total_supply (tokens w t)
    \<and> paused (tokens w' t)"
  using paused_system_call [OF assms] assms(1) by (simp add: holdings_def)

text \<open>An approval goes through while the token is paused.\<close>

definition sample_paused_world :: world where
  "sample_paused_world = (sample_token_world T8)\<lparr>tokens := (\<lambda>_. empty_token)(sample_token_address := sample_token\<lparr>paused := True\<rparr>)\<rparr>"

theorem paused_token_frozen_witness:
  "\<exists>w'. system_exec (TokenCall sample_token_address 0x111 (ApproveCall 0x222 5)) sample_paused_world = Inr ((), w')
    \<and> get_allowance w' sample_token_address 0x111 0x222 = 5 \<and> bal w' sample_token_address 0x111 = 100
    \<and> paused (tokens w' sample_token_address)"
proof -
  let ?c = "TokenCall sample_token_address 0x111 (ApproveCall 0x222 5)"
  obtain w' where run: "system_exec ?c sample_paused_world = Inr ((), w')" and a: "get_allowance w' sample_token_address 0x111 0x222 = 5"
    by (simp add: on_token_def from_address_def tip20_dispatch_def void_def approve_def authorize_approve_def empty_keychain_def
        set_allowance_def get_allowance_def sample_paused_world_def run_defs fork_order)
  have "paused (tokens sample_paused_world sample_token_address)" "T3 \<le> spec sample_paused_world"
    by (simp_all add: sample_paused_world_def fork_order)
  from paused_token_frozen [OF this run] run a show ?thesis
    by (simp add: sample_paused_world_def)
qed

end
