(* ===== verification/Tip20_Transfers.thy ===== *)
theory Tip20_Transfers
  imports Tip20_Pause
begin

text \<open>
  What a transfer does and when it fails, and that a fee that was collected can be refunded.
\<close>

section \<open>What a transfer does\<close>

lemma spending_world:
  assumes "check_and_update_spending_limit t a v w = Inr (x, w')"
  shows "\<exists>k l. w' = w\<lparr>keychain := k, logs := l\<rparr>"
proof -
  let ?f = "\<lambda>w :: world. w\<lparr>keychain := empty_keychain, logs := []\<rparr>"
  have upd: "preserves ?f (upd_keychain f)" "preserves ?f (emit_kc ev)" for f ev
    by (simp_all add: preserves_def upd_keychain_def emit_kc_def)
  have "preserves ?f (check_and_update_spending_limit t a v)"
    unfolding check_and_update_spending_limit_def authorize_transfer_def verify_and_update_spending_def write_remaining_def
      write_limit_def
    by (intro upd frame)
  then have "?f w' = ?f w"
    using assms by (rule preservesD)
  then have "w' = w\<lparr>keychain := keychain w', logs := logs w'\<rparr>"
    by (cases w; cases w'; simp)
  then show ?thesis
    by blast
qed

lemma policy_type_world [simp]: "policy_type (w\<lparr>keychain := k, logs := l\<rparr>) d = policy_type w d"
  by (simp add: policy_type_def)

lemma policy_data_world [simp]:
  "get_policy_data (w\<lparr>keychain := k, logs := l\<rparr>) p = get_policy_data w p"
  "is_authorized_simple_inner (w\<lparr>keychain := k, logs := l\<rparr>) p a d = is_authorized_simple_inner w p a d"
  by (simp_all add: get_policy_data_def policy_id_counter_def is_authorized_simple_inner_def)

lemma authorized_world [simp]:
  "is_authorized_simple (w\<lparr>keychain := k, logs := l\<rparr>) p a c = is_authorized_simple w p a c"
  "receive_policy_recovery (w\<lparr>keychain := k, logs := l\<rparr>) a m = receive_policy_recovery w a m"
  by (simp_all add: is_authorized_simple_def receive_policy_recovery_def cong: option.case_cong recovery_mode.case_cong)

lemma policy_world [simp]:
  "check_receive_policy (w\<lparr>keychain := k, logs := l\<rparr>) t a b = check_receive_policy w t a b"
  by (simp add: check_receive_policy_def cong: if_cong)

lemma transfer_core_balances:
  assumes "transfer_core t from r v w = Inr (x, w')"
  shows "balances (tokens w' t) = moved (balances (tokens w t)) from (target r) v"
    "total_supply (tokens w' t) = total_supply (tokens w t)"
proof -
  have "non_reward w' t = (non_reward w t)\<lparr>balances := moved (balances (tokens w t)) from (target r) v\<rparr>"
    using transfer_core_run [OF assms] by simp
  from arg_cong [OF this, of balances] arg_cong [OF this, of total_supply]
  show "balances (tokens w' t) = moved (balances (tokens w t)) from (target r) v"
    "total_supply (tokens w' t) = total_supply (tokens w t)"
    by (simp_all add: non_reward_def)
qed

lemma finish_transfer_run:
  assumes "finish_transfer t from to v memo (Some r) w = Inr (x, w')"
  shows "v \<le> bal w t from \<and> balances (tokens w' t) = moved (balances (tokens w t)) from (target r) v
    \<and> total_supply (tokens w' t) = total_supply (tokens w t)"
proof -
  obtain w1 where w1: "transfer_core t from r v w = Inr ((), w1)"
    and rest: "rseq (case memo of None \<Rightarrow> ok () | Some m \<Rightarrow> emit20 t (TransferWithMemo from to v m)) (emit_hop t r v) w1 = Inr (x, w')"
    using assms unfolding finish_transfer_def by (auto simp: rseq_eq_Inr [of "transfer_core t from r v"])
  have "tokens w' = tokens w1"
    using rest by (rule preservesD [rotated]) (intro frame)
  then show ?thesis
    using transfer_core_run [OF w1] transfer_core_balances [OF w1] by simp
qed

lemma blocked_transfer_run:
  assumes "validate_inbound_or_block t from r v None memo w = Inr (True, w')"
  shows "v \<le> bal w t from \<and> balances (tokens w' t) = moved (balances (tokens w t)) from RECEIVE_POLICY_GUARD_ADDRESS v
    \<and> total_supply (tokens w' t) = total_supply (tokens w t)"
proof -
  obtain kind w1 where d: "divert t from v None w = Inr (kind, w1)" and w': "tokens w' = tokens w1"
    using validate_inbound_run [OF assms] by auto
  obtain w2 where w2: "transfer_core t from (direct RECEIVE_POLICY_GUARD_ADDRESS) v w = Inr ((), w2)" "tokens w1 = tokens w2"
    using divert_tokens [OF d] by auto
  have "finish_transfer t from 0 v None (Some (direct RECEIVE_POLICY_GUARD_ADDRESS)) w = Inr ((), w2)"
    using w2 by (simp add: finish_transfer_def rseq_def rbind_def emit_hop_def build_virtual_transfer_event_def direct_def)
  from finish_transfer_run [OF this] show ?thesis
    using w2 w' by (simp add: direct_def)
qed

definition landing :: "world \<Rightarrow> address \<Rightarrow> address \<Rightarrow> recipient \<Rightarrow> address" where
  "landing w t from r =
    (if T6 \<le> spec w \<and> check_receive_policy w t from (target r) \<noteq> Inr None then RECEIVE_POLICY_GUARD_ADDRESS else target r)"

lemma transfer_run:
  assumes "validate_transfer t None from to v memo w = Inr (c, w1)" "finish_transfer t from to v m c w1 = Inr (x, w')"
  shows "\<exists>r. resolve w to = Inr r \<and> v \<le> bal w t from \<and> balances (tokens w' t) = moved (balances (tokens w t)) from (landing w t from r) v
    \<and> total_supply (tokens w' t) = total_supply (tokens w t)"
proof -
  obtain r w2 blocked where r: "resolve w to = Inr r" and spend: "check_and_update_spending_limit t from v w = Inr ((), w2)"
    and inb: "validate_inbound_or_block t from r v None memo w2 = Inr (blocked, w1)" and c: "c = (if blocked then None else Some r)"
    using validate_transfer_run [OF assms(1)] by auto
  obtain k l where w2: "w2 = w\<lparr>keychain := k, logs := l\<rparr>"
    using spending_world [OF spend] by blast
  have "v \<le> bal w t from \<and> balances (tokens w' t) = moved (balances (tokens w t)) from (landing w t from r) v
    \<and> total_supply (tokens w' t) = total_supply (tokens w t)"
  proof (cases blocked)
    case True
    then have "w' = w1" "landing w t from r = RECEIVE_POLICY_GUARD_ADDRESS"
      using assms(2) c validate_inbound_run [OF inb] by (auto simp: finish_transfer_def landing_def w2)
    then show ?thesis
      using blocked_transfer_run [of t "from" r v memo w2 w1] inb True by (simp add: w2)
  next
    case False
    then have "w1 = w2"
      using validate_inbound_run [OF inb] by simp
    moreover have "landing w t from r = target r"
      using inb False
      by (auto simp: validate_inbound_or_block_def landing_def w2 runs split: if_splits option.splits)
        (metis option.exhaust surj_pair)
    ultimately show ?thesis
      using finish_transfer_run [of t "from" to v m r w1 x w'] assms(2) c False by (simp add: w2)
  qed
  then show ?thesis
    using r by blast
qed

text \<open>C6: a successful transfer takes exactly the amount from the sender, who had it, and gives it to the
  account that the recipient resolves to, or to the guard when the recipient's receive policy blocks the
  transfer; no other balance of the token changes, nor its supply, nor any other token.\<close>

theorem transfer_exact:
  assumes "transfer t s to v w = Inr (b, w')"
  shows "\<exists>r. resolve w to = Inr r \<and> v \<le> bal w t s
    \<and> balances (tokens w' t) = moved (balances (tokens w t)) s (landing w t s r) v
    \<and> total_supply (tokens w' t) = total_supply (tokens w t) \<and> (\<forall>u. u \<noteq> t \<longrightarrow> tokens w' u = tokens w u)"
proof -
  obtain c w1 where c: "validate_transfer t None s to v 0 w = Inr (c, w1)" and w': "finish_transfer t s to v None c w1 = Inr ((), w')"
    using assms unfolding transfer_def rbind_eq_Inr by (auto simp: rseq_eq_Inr)
  have "touches t w w'"
    using touch.trans stepsD [OF touch_validate(2) c] stepsD [OF touch_finish(1) w'] by blast
  then show ?thesis
    using transfer_run [OF c w'] by (auto simp: touches_def)
qed

section \<open>When a transfer fails\<close>

lemma update_rewards_T8: "T8 \<le> spec w \<Longrightarrow> update_rewards t a w = Inr (0, w)"
  by (simp add: update_rewards_def)

lemma decrement_balance_eq:
  "decrement_balance t a v w = (if v \<le> bal w t a
    then Inr ((), w\<lparr>tokens := (tokens w)(t := (tokens w t)\<lparr>balances := debit (balances (tokens w t)) a v\<rparr>)\<rparr>)
    else Inl (TIP20 (InsufficientBalance (bal w t a) v t)))"
  by (simp add: decrement_balance_def sdec_def set_balance_def map_err_def ok_or_def checked_sub_def debit_def rbind_def err_def)

lemma increment_balance_eq:
  "bal w t a + v < 2 ^ 256 \<Longrightarrow> increment_balance t a v w =
    Inr ((), w\<lparr>tokens := (tokens w)(t := (tokens w t)\<lparr>balances := credit (balances (tokens w t)) a v\<rparr>)\<rparr>)"
  using increment_balance_run by blast

text \<open>No balance of a conserved ledger can overflow by a move.\<close>

lemma moved_fits:
  assumes "supply_inv w" "v \<le> bal w t a"
  shows "debit (balances (tokens w t)) a v b + v < 2 ^ 256"
proof -
  have "debit (balances (tokens w t)) a v b + v \<le> (\<Sum>x\<in>UNIV. bal w t x)"
  proof (cases "a = b")
    case True
    then show ?thesis
      using assms(2) member_le_UNIV_sum [of "balances (tokens w t)" b] by (simp add: debit_def)
  next
    case False
    then show ?thesis
      using assms(2) pair_le_UNIV_sum [of a b "balances (tokens w t)"] by (simp add: debit_def)
  qed
  also have "\<dots> \<le> U128_MAX"
    using assms(1) supply_fits [OF assms(1), of t] by (simp add: supply_inv_def supply_ok_def)
  also have "\<dots> < 2 ^ 256"
    by (simp add: U128_MAX_def)
  finally show ?thesis .
qed

lemma transfer_core_eq:
  assumes "T8 \<le> spec w" "supply_inv w" "target r \<noteq> 0"
  shows "transfer_core t a r v w = (if v \<le> bal w t a
    then Inr ((), w\<lparr>tokens := (tokens w)(t := (tokens w t)\<lparr>balances := moved (balances (tokens w t)) a (target r) v\<rparr>),
      logs := logs w @ [(t, TIP20Event (build_transfer_event r a v))]\<rparr>)
    else Inl (TIP20 (InsufficientBalance (bal w t a) v t)))"
  using assms moved_fits [of w v t a "target r"]
  by (simp add: transfer_core_def handle_rewards_on_transfer_def update_rewards_T8 decrement_balance_eq increment_balance_eq moved_def)

lemma root_spending: "transaction_key (keychain w) = 0 \<Longrightarrow> check_and_update_spending_limit t a v w = Inr ((), w)"
  by (simp add: check_and_update_spending_limit_def authorize_transfer_def)

text \<open>C14: from T8 on, in a transaction signed by the root key, a transfer that passes the pause, recipient,
  policy and receive-policy checks succeeds exactly when the sender's balance covers the amount, and then
  changes nothing but the two balances and the log; otherwise it fails with \<open>InsufficientBalance\<close>, which
  reports the balance, the amount and the token.\<close>

theorem transfer_decided_by_balance:
  assumes "T8 \<le> spec w" "supply_inv w" "transaction_key (keychain w) = 0"
    and "resolve w to = Inr r" "\<not> paused (tokens w t)" "validate r = Inr ()"
    and "ensure_transfer_authorized w t s (target r) = Inr ()"
    and "target r \<noteq> RECEIVE_POLICY_GUARD_ADDRESS" "check_receive_policy w t s (target r) = Inr None"
  shows "transfer t s to v w = (if v \<le> bal w t s
    then Inr (True, w\<lparr>tokens := (tokens w)(t := (tokens w t)\<lparr>balances := moved (balances (tokens w t)) s (target r) v\<rparr>),
      logs := logs w @ [(t, TIP20Event (build_transfer_event r s v))]
        @ (case build_virtual_transfer_event r v of None \<Rightarrow> [] | Some hop \<Rightarrow> [(t, TIP20Event hop)])\<rparr>)
    else Inl (TIP20 (InsufficientBalance (bal w t s) v t)))"
proof -
  have "T6 \<le> spec w"
    by (rule order_trans [OF _ assms(1)]) (simp add: fork_order)
  moreover have "target r \<noteq> 0"
    using assms(6) by (simp add: validate_def split: if_splits)
  ultimately show ?thesis
    using assms
    by (simp add: transfer_def validate_transfer_def not_paused_checked root_spending validate_inbound_or_block_def
        finish_transfer_def transfer_core_eq emit_hop_def rseq_def rbind_def split: option.split)
qed

section \<open>Refunds of fees\<close>

lemma refund_spending_runs: "\<exists>k l. refund_spending_limit a t v w = Inr ((), w\<lparr>keychain := k, logs := l\<rparr>)"
proof -
  let ?f = "\<lambda>w :: world. w\<lparr>keychain := empty_keychain, logs := []\<rparr>"
  have upd: "preserves ?f (upd_keychain f)" for f
    by (simp add: preserves_def upd_keychain_def)
  have p: "preserves ?f (refund_spending_limit a t v)"
    unfolding refund_spending_limit_def write_remaining_def write_limit_def by (intro upd frame)
  have "\<exists>w'. refund_spending_limit a t v w = Inr ((), w')"
    by (auto simp: refund_spending_limit_def write_remaining_def write_limit_def upd_keychain_def rbind_def Let_def
        split: sum.split)
  then obtain w' where run: "refund_spending_limit a t v w = Inr ((), w')"
    by blast
  have "?f w' = ?f w"
    using p run by (rule preservesD)
  then have "w' = w\<lparr>keychain := keychain w', logs := logs w'\<rparr>"
    by (cases w; cases w'; simp)
  then show ?thesis
    using run by metis
qed

lemma fee_pre_tx_run:
  assumes "transfer_fee_pre_tx t a v w = Inr (x, w')"
  shows "v \<le> bal w t a \<and> balances (tokens w' t) = credit (debit (balances (tokens w t)) a v) TIP_FEE_MANAGER_ADDRESS v"
proof -
  have p: "check_not_paused w t = Inr ()"
    using assms by (cases "check_not_paused w t") (simp_all add: transfer_fee_pre_tx_def)
  then have "rseq (check_and_update_spending_limit t a v) (rbind (update_rewards t a) (\<lambda>d.
      rseq (only_if (d \<noteq> 0) (opted_in_sub t v)) (rseq (decrement_balance t a v) (increment_balance t TIP_FEE_MANAGER_ADDRESS v)))) w
    = Inr (x, w')"
    using assms by (simp add: transfer_fee_pre_tx_def)
  then obtain w1 d w2 w3 where w1: "check_and_update_spending_limit t a v w = Inr ((), w1)" and w2: "update_rewards t a w1 = Inr (d, w2)"
    and w3: "only_if (d \<noteq> 0) (opted_in_sub t v) w2 = Inr ((), w3)"
    and mv: "rseq (decrement_balance t a v) (increment_balance t TIP_FEE_MANAGER_ADDRESS v) w3 = Inr (x, w')"
    unfolding rseq_eq_Inr [of "check_and_update_spending_limit t a v"] rbind_eq_Inr rseq_eq_Inr [of "only_if _ _"] by blast
  have "preserves non_reward (rseq (check_and_update_spending_limit t a v) (rbind (update_rewards t a) (\<lambda>d. only_if (d \<noteq> 0) (opted_in_sub t v))))"
    by (intro frame preserves_non_reward)
  moreover have "rseq (check_and_update_spending_limit t a v) (rbind (update_rewards t a) (\<lambda>d. only_if (d \<noteq> 0) (opted_in_sub t v))) w = Inr ((), w3)"
    using w1 w2 w3 by (simp add: rseq_def rbind_def)
  ultimately have "non_reward w3 t = non_reward w t"
    by (auto dest: preservesD)
  then show ?thesis
    using mv non_reward_fields(1) [of w3 t w] by (auto simp: runs decrement_balance_run increment_balance_run)
qed

text \<open>C13: once the maximum fee was taken from the payer, the refund of any part of it goes through in
  every later state that conserves the supply and in which the fee manager still holds what it held after
  the collection: it credits the payer with exactly the refund. This is so from T8 on, with an access key
  as with the root key.\<close>

theorem fee_refund_goes_through:
  assumes "transfer_fee_pre_tx t a v w = Inr ((), w1)" "supply_inv w2" "T8 \<le> spec w2"
    and "bal w1 t TIP_FEE_MANAGER_ADDRESS \<le> bal w2 t TIP_FEE_MANAGER_ADDRESS" "refund \<le> v"
  shows "\<exists>w3. transfer_fee_post_tx t a refund spent w2 = Inr ((), w3)
    \<and> balances (tokens w3 t) = credit (debit (balances (tokens w2 t)) TIP_FEE_MANAGER_ADDRESS refund) a refund"
proof (cases "refund = 0")
  case True
  then show ?thesis
    by (simp add: transfer_fee_post_tx_def credit_def debit_def)
next
  case False
  have "refund \<le> bal w2 t TIP_FEE_MANAGER_ADDRESS"
    using fee_pre_tx_run [OF assms(1)] assms(4,5) by (simp add: credit_def)
  moreover note moved_fits [OF assms(2) this, of a]
  moreover have "T1C \<le> spec w2"
    by (rule order_trans [OF _ assms(3)]) (simp add: fork_order)
  moreover obtain k l where "refund_spending_limit a t refund (w2\<lparr>logs := logs w2 @ [(t, TIP20Event (Transfer a TIP_FEE_MANAGER_ADDRESS spent))]\<rparr>)
      = Inr ((), w2\<lparr>keychain := k, logs := l\<rparr>)"
    using refund_spending_runs [of a t refund "w2\<lparr>logs := logs w2 @ [(t, TIP20Event (Transfer a TIP_FEE_MANAGER_ADDRESS spent))]\<rparr>"]
    by auto
  ultimately show ?thesis
    using assms(3) False
    by (simp add: transfer_fee_post_tx_def update_rewards_T8 decrement_balance_eq increment_balance_eq rseq_def rbind_def)
qed

section \<open>A sample transfer and a sample fee\<close>

lemma sample_transfer_run:
  obtains w' where "transfer sample_token_address 0x111 0x222 30 (sample_token_world T8) = Inr (True, w')"
proof -
  have "validate_transfer sample_token_address None 0x111 0x222 30 0 (sample_token_world T8) = Inr (Some (direct 0x222), sample_token_world T8)"
    by (rule sample_validate_transfer)
      (simp_all add: is_virtual_def VIRTUAL_MAGIC_def is_tip20_prefix_def TIP20_TOKEN_PREFIX_def RECEIVE_POLICY_GUARD_ADDRESS_def)
  then show ?thesis
    using that transfer_core_eq [OF _ sample_supply, of T8 "direct 0x222" sample_token_address "0x111" 30]
    by (simp add: transfer_def finish_transfer_def emit_hop_def build_virtual_transfer_event_def direct_def rseq_def rbind_def fork_order)
qed

theorem transfer_exact_witness:
  "\<exists>w'. transfer sample_token_address 0x111 0x222 30 (sample_token_world T8) = Inr (True, w')
    \<and> bal w' sample_token_address 0x111 = 70 \<and> bal w' sample_token_address 0x222 = 30"
proof -
  obtain w' where run: "transfer sample_token_address 0x111 0x222 30 (sample_token_world T8) = Inr (True, w')"
    by (rule sample_transfer_run)
  obtain r where "resolve (sample_token_world T8) 0x222 = Inr r"
    and m: "balances (tokens w' sample_token_address) = moved (bal (sample_token_world T8) sample_token_address) 0x111
        (landing (sample_token_world T8) sample_token_address 0x111 r) 30"
    using transfer_exact [OF run] by blast
  then have "r = direct 0x222"
    using sample_resolve [of "0x222" T8] by (simp add: is_virtual_def VIRTUAL_MAGIC_def)
  then have "landing (sample_token_world T8) sample_token_address 0x111 r = 0x222"
    by (simp add: landing_def check_receive_policy_def empty_registry_def direct_def)
  then show ?thesis
    using run m by (simp add: moved_def credit_def debit_def)
qed

theorem transfer_decided_by_balance_witness:
  "transfer sample_token_address 0x111 0x222 130 (sample_token_world T8) = Inl (TIP20 (InsufficientBalance 100 130 sample_token_address))"
proof -
  let ?w = "sample_token_world T8"
  have r: "resolve ?w 0x222 = Inr (direct 0x222)"
    by (rule sample_resolve) (simp add: is_virtual_def VIRTUAL_MAGIC_def)
  have "T8 \<le> spec ?w" "transaction_key (keychain ?w) = 0" "\<not> paused (tokens ?w sample_token_address)"
    by (simp_all add: empty_keychain_def)
  moreover have "validate (direct 0x222) = Inr ()" "target (direct 0x222) \<noteq> RECEIVE_POLICY_GUARD_ADDRESS"
    by (simp_all add: validate_def direct_def is_tip20_prefix_def TIP20_TOKEN_PREFIX_def RECEIVE_POLICY_GUARD_ADDRESS_def)
  moreover have "ensure_transfer_authorized ?w sample_token_address 0x111 (target (direct 0x222)) = Inr ()"
    by (simp add: ensure_transfer_authorized_def is_transfer_authorized_def sample_authorized)
  moreover have "check_receive_policy ?w sample_token_address 0x111 (target (direct 0x222)) = Inr None"
    by (simp add: check_receive_policy_def empty_registry_def)
  ultimately show ?thesis
    using transfer_decided_by_balance [of ?w "0x222" "direct 0x222" sample_token_address "0x111" 130] sample_supply r by simp
qed

theorem fee_refund_goes_through_witness:
  "\<exists>w1 w3. transfer_fee_pre_tx sample_token_address 0x111 50 (sample_token_world T8) = Inr ((), w1)
    \<and> transfer_fee_post_tx sample_token_address 0x111 20 30 w1 = Inr ((), w3)
    \<and> bal w3 sample_token_address 0x111 = 70 \<and> bal w3 sample_token_address TIP_FEE_MANAGER_ADDRESS = 30"
proof -
  have fm: "TIP_FEE_MANAGER_ADDRESS \<noteq> 0x111"
    by (simp add: TIP_FEE_MANAGER_ADDRESS_def)
  obtain w1 where run: "transfer_fee_pre_tx sample_token_address 0x111 50 (sample_token_world T8) = Inr ((), w1)" and s1: "spec w1 = T8"
    using fm by (simp add: transfer_fee_pre_tx_def check_not_paused_def root_spending empty_keychain_def update_rewards_T8
        decrement_balance_eq increment_balance_eq debit_def rseq_def rbind_def)
  note pre = fee_pre_tx_run [OF run]
  have inv: "supply_inv w1"
    using keepsD [OF supply_fees(1) run sample_supply] .
  have "T8 \<le> spec w1"
    by (simp add: s1)
  from fee_refund_goes_through [OF run inv this order_refl, of 20 30] run pre fm show ?thesis
    by (auto simp: credit_def debit_def)
qed

end
