(* ===== verification/Tip20_Frames.thy ===== *)
theory Tip20_Frames
  imports Tip20_Runs
begin

text \<open>
  Observations of the state that no token operation changes, or only those of the quote token: one frame
  lemma per operation for all of them.
\<close>

section \<open>Observations of the identity of tokens\<close>

text \<open>What a token is, apart from its ledger, its roles and its rewards.\<close>

definition identity :: "tip20_storage \<Rightarrow> string \<times> string \<times> string \<times> address \<times> address" where
  "identity s = (tk_name s, tk_symbol s, currency s, quote_token s, next_quote_token s)"

definition plain_obs :: "(world \<Rightarrow> 'b) \<Rightarrow> bool" where
  "plain_obs f = (contract_obs f \<and>
    (\<forall>w t s. identity s = identity (tokens w t) \<longrightarrow> f (w\<lparr>tokens := (tokens w)(t := s)\<rparr>) = f w))"

lemma plain_contract [frame]: "plain_obs f \<Longrightarrow> contract_obs f"
  by (simp add: plain_obs_def)

lemma plain_upd [frame]:
  "plain_obs f \<Longrightarrow> (\<And>s. identity (g s) = identity s) \<Longrightarrow> preserves f (upd_token t g)"
  by (simp add: preserves_def plain_obs_def)

lemma plain_setters [frame]:
  "plain_obs f \<Longrightarrow> preserves f (set_allowance t a s v)" "plain_obs f \<Longrightarrow> preserves f (set_balance t a v)"
  "plain_obs f \<Longrightarrow> preserves f (set_total_supply t v)" "plain_obs f \<Longrightarrow> preserves f (write_role t a r b)"
  "plain_obs f \<Longrightarrow> preserves f (set_role_admin_internal t r ar)" "plain_obs f \<Longrightarrow> preserves f (write_reward_info t a info)"
  "plain_obs f \<Longrightarrow> preserves f (set_opted_in_supply t v)"
  unfolding set_allowance_def set_balance_def set_total_supply_def write_role_def set_role_admin_internal_def
    write_reward_info_def set_opted_in_supply_def
  by (rule plain_upd; simp add: identity_def)+

lemma plain_hooks [frame]:
  "plain_obs f \<Longrightarrow> preserves f (opted_in_add t v)" "plain_obs f \<Longrightarrow> preserves f (opted_in_sub t v)"
  "plain_obs f \<Longrightarrow> preserves f (update_rewards t a)" "plain_obs f \<Longrightarrow> preserves f (increment_balance t a v)"
  "plain_obs f \<Longrightarrow> preserves f (decrement_balance t a v)" "plain_obs f \<Longrightarrow> preserves f (reduce_supply t v)"
  "plain_obs f \<Longrightarrow> preserves f (consume_allowance t a s v)"
  unfolding opted_in_add_def opted_in_sub_def update_rewards_def accrue_def increment_balance_def sinc_def
    decrement_balance_def sdec_def reduce_supply_def consume_allowance_def
  by (intro frame; assumption)+

lemma plain_core [frame]:
  "plain_obs f \<Longrightarrow> preserves f (transfer_core t from to v)" "plain_obs f \<Longrightarrow> preserves f (mint_core t to s v)"
  unfolding transfer_core_def mint_core_def handle_rewards_on_transfer_def handle_rewards_on_mint_def
  by (intro frame; assumption)+

lemma plain_validate [frame]:
  "plain_obs f \<Longrightarrow> preserves f (validate_inbound_or_block t orig to' v ms memo)"
  "plain_obs f \<Longrightarrow> preserves f (validate_transfer t sp from to v memo)"
  "plain_obs f \<Longrightarrow> preserves f (validate_mint t s to v memo role)"
  unfolding validate_transfer_def validate_mint_def validate_inbound_or_block_def divert_def by (intro frame; assumption)+

lemma plain_finish [frame]:
  "plain_obs f \<Longrightarrow> preserves f (finish_transfer t from to v memo r)" "plain_obs f \<Longrightarrow> preserves f (finish_mint t to v memo c)"
  "plain_obs f \<Longrightarrow> preserves f (burn_core t s v)" "plain_obs f \<Longrightarrow> preserves f (write_logo_uri t s u)"
  "plain_obs f \<Longrightarrow> preserves f (pay_reward t s d b v)"
  unfolding finish_transfer_def finish_mint_def burn_core_def write_logo_uri_def pay_reward_def
  by (intro frame; (assumption | simp add: identity_def))+

lemma plain_transfer [frame]: "plain_obs f \<Longrightarrow> preserves f (transfer t s to v)"
  unfolding transfer_def by (intro frame; assumption)

lemma plain_payments [frame]:
  "plain_obs f \<Longrightarrow> preserves f (system_transfer_from t s from v)" "plain_obs f \<Longrightarrow> preserves f (channel_reserve_transfer t from r v s)"
  "plain_obs f \<Longrightarrow> preserves f (transfer_fee_pre_tx t a v)" "plain_obs f \<Longrightarrow> preserves f (transfer_fee_post_tx t a r' v)"
  "plain_obs f \<Longrightarrow> preserves f (release_blocked_funds t orig rcv to v mode auth)" "plain_obs f \<Longrightarrow> preserves f (burn_blocked t s owner v c)"
  unfolding system_transfer_from_def channel_reserve_transfer_def transfer_fee_pre_tx_def transfer_fee_post_tx_def
    release_blocked_funds_def burn_blocked_def
  by (intro frame; assumption)+

lemma plain_guard [frame]:
  "plain_obs f \<Longrightarrow> preserves f (claim s to bytes)" "plain_obs f \<Longrightarrow> preserves f (burn_blocked_receipt s bytes)"
  unfolding claim_def burn_blocked_receipt_def by (intro frame; assumption)+

lemma plain_handle:
  assumes f: "plain_obs f" and "c \<noteq> CompleteQuoteTokenUpdateCall" "\<And>q. c \<noteq> SetNextQuoteTokenCall q"
  shows "preserves f (tip20_handle t s c)"
proof (cases c)
  case (SetNextQuoteTokenCall q)
  then show ?thesis
    using assms by simp
next
  case CompleteQuoteTokenUpdateCall
  then show ?thesis
    using assms by simp
qed (simp only: tip20_handle.simps void_def transfer_from_def transfer_with_memo_def
    transfer_from_with_memo_def approve_def permit_def mint_def mint_with_role_def mint_with_memo_def burn_def
    burn_with_memo_def burn_at_def change_transfer_policy_id_def set_supply_cap_def set_logo_uri_def
    pause_def unpause_def distribute_reward_def set_reward_recipient_def claim_rewards_def grant_role_def revoke_role_def
    renounce_role_def set_role_admin_def grant_role_internal_def revoke_role_internal_def;
    intro frame; (rule f | simp add: identity_def))+

section \<open>Observations of no token\<close>

definition outer_obs :: "(world \<Rightarrow> 'b) \<Rightarrow> bool" where
  "outer_obs f = (\<forall>w hc r g k tk l.
    f (w\<lparr>has_code := hc, registry := r, guard := g, keychain := k, tokens := tk, logs := l\<rparr>) = f w)"

lemma outer_obs_upd:
  assumes "outer_obs f"
  shows "f (w\<lparr>registry := r, guard := g, keychain := k, logs := l\<rparr>) = f w" "f (w\<lparr>tokens := tk\<rparr>) = f w"
    "f (w\<lparr>has_code := hc\<rparr>) = f w"
proof -
  have all: "f (w\<lparr>has_code := hc, registry := r, guard := g, keychain := k, tokens := tk, logs := l\<rparr>) = f w" for hc r g k tk l
    using assms by (simp add: outer_obs_def)
  show "f (w\<lparr>registry := r, guard := g, keychain := k, logs := l\<rparr>) = f w"
    using all [of l "tokens w" k g r "has_code w"] by simp
  show "f (w\<lparr>tokens := tk\<rparr>) = f w" "f (w\<lparr>has_code := hc\<rparr>) = f w"
    using all [of "logs w" tk "keychain w" "guard w" "registry w" "has_code w"]
      all [of "logs w" "tokens w" "keychain w" "guard w" "registry w" hc] by simp_all
qed

lemma outer_plain: "outer_obs f \<Longrightarrow> plain_obs f"
  using outer_obs_upd unfolding plain_obs_def contract_obs_def by metis

lemma outer_observations [simp]:
  "outer_obs fee_manager" "outer_obs dex" "outer_obs channel_reserve" "outer_obs validator_config" "outer_obs validator_config_v2"
  "outer_obs recover_primitive" "outer_obs chain_id" "outer_obs config_commitment" "outer_obs spec" "outer_obs keccak256" "outer_obs timestamp" "outer_obs recover_signer"
  by (simp_all add: outer_obs_def)

lemmas plain_observations [frame, simp] = outer_observations [THEN outer_plain]

lemma outer_quotes:
  assumes f: "outer_obs f"
  shows "preserves f (set_next_quote_token t s q)" "preserves f (complete_quote_token_update t s)"
    "preserves f (initialize t s n sy c q adm)"
proof -
  have u: "preserves f (upd_token t g)" "preserves f (set_code t)" for t g
    using outer_obs_upd [OF f] by (simp_all add: preserves_def set_code_def)
  note p = plain_contract [OF outer_plain [OF f]]
  show "preserves f (set_next_quote_token t s q)" "preserves f (complete_quote_token_update t s)"
      "preserves f (initialize t s n sy c q adm)"
    unfolding set_next_quote_token_def complete_quote_token_update_def initialize_def initialize_roles_def
      grant_default_admin_def grant_role_internal_def set_role_admin_internal_def write_role_def
    by (intro u frame p)+
qed

lemma outer_factory:
  assumes f: "outer_obs f"
  shows "preserves f (create_token s call)" "preserves f (create_token_with_logo s call u)"
    "preserves f (create_token_reserved_address a n sy c q adm)"
  unfolding create_token_with_logo_def create_token_def create_token_reserved_address_def
  by (intro outer_quotes f frame plain_finish outer_plain)+

lemma outer_handle:
  assumes "outer_obs f"
  shows "preserves f (tip20_handle t s c)"
  using plain_handle [OF outer_plain [OF assms], of c] outer_quotes [OF assms] by (cases c) simp_all

text \<open>A system call changes the storage of the contracts it concerns; only a transaction boundary changes
  the clock and the hardfork, and only a registration the masters.\<close>

lemma outer_exec:
  assumes f: "outer_obs f"
    and t: "\<And>k orig time sp w. c = KeychainCall (NewTransaction k orig time sp) \<Longrightarrow> f (w\<lparr>timestamp := time, spec := sp\<rparr>) = f w"
    and d: "\<And>w d l. f (w\<lparr>addr_data := d, logs := l\<rparr>) = f w"
  shows "preserves f (system_exec c)"
proof -
  note p = outer_plain [OF f] and k = plain_contract [OF outer_plain [OF f]]
  have leg: "preserves f (delete_legacy_transfer_policy_id t)" for t
    using outer_obs_upd [OF f] by (simp add: preserves_def delete_legacy_transfer_policy_id_def)
  show ?thesis
    by (cases c) (simp_all add: on_token_def tip20_dispatch_def void_def tip403_exec_frame k leg keychain_exec_frame t
        register_frame d frame outer_factory f outer_handle p)
qed

end
