(* ===== verification/Tip20_Quotes.thy ===== *)
theory Tip20_Quotes
  imports Tip20_Transfers Tip20_Frames
begin

text \<open>
  The graph of quote tokens. The loop of \<open>complete_quote_token_update\<close> follows it without a bound. It
  terminates because in every history a deployed token quotes a deployed token (or pathUSD, or, for the
  reserved addresses, nothing) and no chain of quotes is a cycle.
\<close>

section \<open>Operations that leave the graph alone\<close>

definition quotes :: "world \<Rightarrow> (address \<Rightarrow> bool) \<times> (address \<Rightarrow> address \<times> address)" where
  "quotes w = (has_code w, \<lambda>t. (quote_token (tokens w t), next_quote_token (tokens w t)))"

lemma plain_quotes [frame, simp]: "plain_obs quotes"
  by (simp add: plain_obs_def contract_obs_def quotes_def identity_def fun_eq_iff)

section \<open>Chains of quotes\<close>

inductive chain_ends :: "world \<Rightarrow> address \<Rightarrow> bool" for w where
  stop: "a = PATH_USD_ADDRESS \<or> \<not> is_tip20_prefix a \<Longrightarrow> chain_ends w a"
| follow: "chain_ends w (quote_token (tokens w a)) \<Longrightarrow> chain_ends w a"

definition settled :: "world \<Rightarrow> address \<Rightarrow> bool" where
  "settled w a = (a = 0 \<or> a = PATH_USD_ADDRESS \<or> is_tip20 w a)"

definition quote_inv :: "world \<Rightarrow> bool" where
  "quote_inv w = (\<forall>t. is_tip20 w t \<longrightarrow>
    chain_ends w t \<and> settled w (quote_token (tokens w t)) \<and> settled w (next_quote_token (tokens w t)))"

lemma walk_terminates: "chain_ends w a \<Longrightarrow> \<exists>r. walk_quotes w self a = Some r"
proof (induction rule: chain_ends.induct)
  case (stop a)
  then show ?case
    by (subst walk_quotes.simps) auto
next
  case (follow a)
  then show ?case
    by (subst walk_quotes.simps) auto
qed

lemma walk_not_gas: "chain_ends w a \<Longrightarrow> walk_quotes w self a = Some r \<Longrightarrow> r \<noteq> Inl OutOfGas"
proof (induction rule: chain_ends.induct)
  case (stop a)
  then show ?case
    by (subst (asm) walk_quotes.simps) (auto split: if_splits)
next
  case (follow a)
  then show ?case
    by (subst (asm) (2) walk_quotes.simps) (auto split: if_splits)
qed

lemma zero_no_token [simp]: "\<not> is_tip20_prefix 0"
  using token_not_zero by blast

lemma settled_ends: "quote_inv w \<Longrightarrow> settled w a \<Longrightarrow> chain_ends w a"
  by (auto simp: quote_inv_def settled_def intro: chain_ends.stop)

text \<open>A successful walk visits neither the token itself nor any token whose quote changed.\<close>

lemma walk_avoids:
  assumes "chain_ends w a" "walk_quotes w self a = Some (Inr ())"
    and same: "\<And>u. u \<noteq> self \<Longrightarrow> quote_token (tokens w' u) = quote_token (tokens w u)"
  shows "chain_ends w' a"
  using assms(1,2)
proof (induction rule: chain_ends.induct)
  case (follow a)
  show ?case
  proof (cases "a = PATH_USD_ADDRESS \<or> \<not> is_tip20_prefix a")
    case False
    then have "a \<noteq> self \<and> walk_quotes w self (quote_token (tokens w a)) = Some (Inr ())"
      using follow.prems by (subst (asm) walk_quotes.simps) (simp split: if_splits)
    then show ?thesis
      using follow.IH chain_ends.follow [of w' a] same by simp
  qed (rule chain_ends.stop)
qed (rule chain_ends.stop)

lemma quotes_fields:
  assumes "quotes w' = quotes w"
  shows "has_code w' = has_code w" "quote_token (tokens w' t) = quote_token (tokens w t)"
    "next_quote_token (tokens w' t) = next_quote_token (tokens w t)"
  using assms by (auto simp: quotes_def fun_eq_iff)

lemma chain_ends_same:
  assumes "chain_ends w a" "\<And>u. quote_token (tokens w' u) = quote_token (tokens w u)"
  shows "chain_ends w' a"
  using assms(1)
proof (induction rule: chain_ends.induct)
  case (follow a)
  then show ?case
    using chain_ends.follow [of w' a] by (simp add: assms(2))
qed (rule chain_ends.stop)

lemma code_same:
  assumes "has_code w' = has_code w"
  shows "is_tip20 w' t = is_tip20 w t" "settled w' t = settled w t"
  using assms by (simp_all add: settled_def is_tip20_def)

lemma quote_inv_quotes:
  assumes "quotes w' = quotes w" "quote_inv w"
  shows "quote_inv w'"
  using assms(2) chain_ends_same [of w _ w'] quotes_fields [OF assms(1)] code_same [OF quotes_fields(1) [OF assms(1)]]
  by (simp add: quote_inv_def)

lemma keeps_quotes: "preserves quotes m \<Longrightarrow> keeps quote_inv m"
  unfolding keeps_def preserves_def using quote_inv_quotes by metis

section \<open>Updates of the graph\<close>

lemma set_next_quote_keeps: "keeps quote_inv (set_next_quote_token t s q)"
  unfolding keeps_def
proof (intro allI impI)
  fix w x w'
  assume inv: "quote_inv w" and run: "set_next_quote_token t s q w = Inr (x, w')"
  obtain l where q: "is_tip20 w q" and w': "w' = w\<lparr>tokens := (tokens w)(t := (tokens w t)\<lparr>next_quote_token := q\<rparr>), logs := l\<rparr>"
    using run by (auto simp: set_next_quote_token_def runs only_if_def split: if_splits)
  have "chain_ends w' a" if "chain_ends w a" for a
    by (rule chain_ends_same [OF that]) (simp add: w')
  moreover have "is_tip20 w' u = is_tip20 w u" "settled w' u = settled w u" for u
    by (rule code_same; simp add: w')+
  ultimately show "quote_inv w'"
    using inv q by (auto simp: quote_inv_def settled_def w')
qed

lemma complete_quote_inv:
  assumes inv: "quote_inv w" and dep: "is_tip20 w t" and run: "complete_quote_token_update t s w = Inr (x, w')"
  shows "quote_inv w'"
proof -
  let ?n = "next_quote_token (tokens w t)"
  obtain l where chain: "check_quote_chain w t ?n = Inr ()"
    and w': "w' = w\<lparr>tokens := (tokens w)(t := (tokens w t)\<lparr>quote_token := ?n\<rparr>), logs := l\<rparr>"
    using run by (auto simp: complete_quote_token_update_def runs)
  have "chain_ends w ?n"
    using inv dep settled_ends by (simp add: quote_inv_def)
  moreover have "walk_quotes w t ?n = Some (Inr ())"
    using chain by (simp add: check_quote_chain_def split: option.splits)
  ultimately have new: "chain_ends w' ?n"
    by (rule walk_avoids) (simp add: w')
  have qt: "quote_token (tokens w' u) = (if u = t then ?n else quote_token (tokens w u))" for u
    by (simp add: w')
  have "chain_ends w a \<Longrightarrow> chain_ends w' a" for a
  proof (induction rule: chain_ends.induct)
    case (follow a)
    then show ?case
      using chain_ends.follow [of w' a] new by (simp add: qt split: if_splits)
  qed (rule chain_ends.stop)
  moreover have "is_tip20 w' u = is_tip20 w u" "settled w' u = settled w u" for u
    by (rule code_same; simp add: w')+
  ultimately show "quote_inv w'"
    using inv by (auto simp: quote_inv_def w')
qed

lemma initialize_quotes:
  assumes "initialize t s n sy c q adm w = Inr (x, w')"
  shows "quotes w' = ((has_code w)(t := True), (snd (quotes w))(t := (q, q)))"
proof -
  let ?w = "w\<lparr>has_code := (has_code w)(t := True), tokens := (tokens w)(t := (tokens w t)\<lparr>tk_name := n, tk_symbol := sy,
    currency := c, quote_token := q, next_quote_token := q, supply_cap := U128_MAX\<rparr>)\<rparr>"
  let ?rest = "rseq (if T9 \<le> spec w then set_token_transfer_policy t ALLOW_ALL_POLICY_ID
          else upd_token t (\<lambda>s. s\<lparr>transfer_policy_id_slot := ALLOW_ALL_POLICY_ID\<rparr>))
   (rseq (initialize_roles t) (grant_default_admin t s adm))"
  have "preserves quotes ?rest"
    unfolding initialize_roles_def grant_default_admin_def grant_role_internal_def by (intro frame; simp add: identity_def)
  moreover have "?rest ?w = Inr (x, w')"
    using assms by (simp add: initialize_def set_code_def)
  ultimately have "quotes w' = quotes ?w"
    by (rule preservesD)
  then show ?thesis
    by (simp add: quotes_def fun_eq_iff)
qed

text \<open>A new token quotes a deployed one, so no chain passes through the new token.\<close>

lemma deploy_inv:
  assumes inv: "quote_inv w" and t: "is_tip20_prefix t" "\<not> has_code w t" and q: "settled w q"
    and w': "quotes w' = ((has_code w)(t := True), (snd (quotes w))(t := (q, q)))"
  shows "quote_inv w'"
proof -
  have code: "has_code w' = (has_code w)(t := True)"
    and qt: "quote_token (tokens w' u) = (if u = t then q else quote_token (tokens w u))"
    and nq: "next_quote_token (tokens w' u) = (if u = t then q else next_quote_token (tokens w u))" for u
    using arg_cong [OF w', of fst] fun_cong [OF arg_cong [OF w', of snd], of u] by (auto simp: quotes_def)
  have old: "chain_ends w a \<Longrightarrow> settled w a \<Longrightarrow> chain_ends w' a" for a
  proof (induction rule: chain_ends.induct)
    case (follow a)
    show ?case
    proof (cases "a = PATH_USD_ADDRESS \<or> \<not> is_tip20_prefix a")
      case False
      then have "is_tip20 w a" "a \<noteq> t"
        using follow.prems t by (auto simp: settled_def is_tip20_def)
      then have "chain_ends w' (quote_token (tokens w' a))"
        using follow.IH inv by (simp add: quote_inv_def qt)
      then show ?thesis
        by (rule chain_ends.follow)
    qed (rule chain_ends.stop)
  qed (rule chain_ends.stop)
  have mono: "settled w a \<Longrightarrow> settled w' a" for a
    by (auto simp: settled_def is_tip20_def code)
  have "chain_ends w' t"
    using old [OF settled_ends [OF inv q] q] chain_ends.follow [of w' t] by (simp add: qt)
  moreover have "chain_ends w' u" if "is_tip20 w u" for u
    using that inv old by (simp add: quote_inv_def settled_def is_tip20_def split: if_splits)
  ultimately show ?thesis
    using inv mono q unfolding quote_inv_def
    by (auto simp: is_tip20_def qt nq code split: if_splits)
qed

lemma factory_keeps:
  "keeps quote_inv (create_token s call)" "keeps quote_inv (create_token_with_logo s call u)"
  "keeps quote_inv (create_token_reserved_address a n sy c q adm)"
proof -
  show c: "keeps quote_inv (create_token s call)"
    unfolding keeps_def
  proof (intro allI impI)
    fix w x w'
    assume inv: "quote_inv w" and run: "create_token s call w = Inr (x, w')"
    obtain t w1 where ch: "create_token_checks w s call = Inr t" and q: "quotes w' = quotes w1"
      and i: "initialize t s (ct_name call) (ct_symbol call) (ct_currency call) (ct_quote_token call) (ct_admin call) w = Inr ((), w1)"
      using run by (auto simp: create_token_def runs quotes_def)
    have "is_tip20_prefix t" "\<not> has_code w t" "settled w (ct_quote_token call)"
      using ch by (auto simp: create_token_checks_def Let_def from_address_def is_tip20_def settled_def split: if_splits prod.splits)
    then have "quote_inv w1"
      using deploy_inv inv initialize_quotes [OF i] by blast
    then show "quote_inv w'"
      using q quote_inv_quotes by blast
  qed
  show "keeps quote_inv (create_token_with_logo s call u)"
    unfolding create_token_with_logo_def by (intro c keeping keeps_quotes plain_finish plain_quotes)
  show "keeps quote_inv (create_token_reserved_address a n sy c q adm)"
    unfolding keeps_def
  proof (intro allI impI)
    fix w x w'
    assume inv: "quote_inv w" and run: "create_token_reserved_address a n sy c q adm w = Inr (x, w')"
    obtain t w1 where ch: "reserved_checks w a c q = Inr t" and eq: "quotes w' = quotes w1"
      and i: "initialize t adm n sy c q adm w = Inr ((), w1)"
      using run by (auto simp: create_token_reserved_address_def runs quotes_def)
    have "is_tip20_prefix t" "\<not> has_code w t" "settled w q"
      using ch by (auto simp: reserved_checks_def from_address_def is_tip20_def settled_def is_tip20_prefix_def
          TIP20_TOKEN_PREFIX_def split: if_splits)
    then have "quote_inv w1"
      using deploy_inv inv initialize_quotes [OF i] by blast
    then show "quote_inv w'"
      using eq quote_inv_quotes by blast
  qed
qed

section \<open>The machine\<close>

lemma quotes_other: "preserves quotes (tip403_exec rc)" "preserves quotes (keychain_exec kc)"
  "preserves quotes (register_virtual_master a salt)"
proof -
  show "preserves quotes (tip403_exec rc)"
    by (rule tip403_exec_frame)
      (simp_all add: plain_contract preserves_def delete_legacy_transfer_policy_id_def quotes_def fun_eq_iff)
  show "preserves quotes (keychain_exec kc)" "preserves quotes (register_virtual_master a salt)"
    by (rule keychain_exec_frame register_frame; simp add: plain_contract quotes_def)+
qed

lemma quotes_dispatch: "is_tip20_prefix t \<Longrightarrow> keeps quote_inv (tip20_dispatch t s c)"
  unfolding keeps_def
proof (intro allI impI)
  fix w x w'
  assume t: "is_tip20_prefix t" and inv: "quote_inv w" and run: "tip20_dispatch t s c w = Inr (x, w')"
  have dep: "is_tip20 w t" and h: "tip20_handle t s c w = Inr (x, w')"
    using run t by (auto simp: tip20_dispatch_def runs is_tip20_def)
  show "quote_inv w'"
  proof (cases "c = CompleteQuoteTokenUpdateCall \<or> (\<exists>q. c = SetNextQuoteTokenCall q)")
    case True
    then show ?thesis
      using complete_quote_inv [OF inv dep] keepsD [OF set_next_quote_keeps _ inv] h by auto
  next
    case False
    then show ?thesis
      using keepsD [OF keeps_quotes [OF plain_handle [OF plain_quotes]] h inv] by blast
  qed
qed

lemma quotes_machine: "keeps quote_inv (system_exec c)"
proof (cases c)
  case (TokenCall t s tc)
  then show ?thesis
    by (simp add: keeps_on_token quotes_dispatch)
next
  case (ReserveTransfer t a to v s)
  then show ?thesis
    by simp (intro keeps_on_token keeping keeps_quotes plain_payments plain_quotes)
qed (simp_all add: keeps_on_token keeps_void factory_keeps keeps_quotes plain_payments plain_guard quotes_other)

interpretation quoting: invariant_machine system_exec quote_inv
  by unfold_locales (rule quotes_machine)

text \<open>C8: the unbounded loop of \<open>complete_quote_token_update\<close> terminates. In every history of the machine
  the walk from the next quote token of a deployed token ends, so the update never runs out of gas for
  lack of an end of the chain; and the chain of quotes of every deployed token ends.\<close>

theorem quote_walk_terminates:
  assumes "quote_inv w" "is_tip20 (run_ops system_exec cs w) t"
  shows "(\<exists>r. walk_quotes (run_ops system_exec cs w) t (next_quote_token (tokens (run_ops system_exec cs w) t)) = Some r)
    \<and> complete_quote_token_update t s (run_ops system_exec cs w) \<noteq> Inl OutOfGas
    \<and> chain_ends (run_ops system_exec cs w) t"
proof -
  let ?w = "run_ops system_exec cs w"
  have inv: "quote_inv ?w"
    by (rule quoting.run_ops_inv [OF assms(1)])
  then obtain r where r: "walk_quotes ?w t (next_quote_token (tokens ?w t)) = Some r" and ends: "chain_ends ?w t"
    using assms(2) settled_ends walk_terminates unfolding quote_inv_def by blast
  have "r \<noteq> Inl OutOfGas"
    using walk_not_gas [OF _ r] inv assms(2) settled_ends unfolding quote_inv_def by blast
  then have "complete_quote_token_update t s ?w \<noteq> Inl OutOfGas"
    using r by (auto simp: complete_quote_token_update_def check_quote_chain_def check_role_def rseq_eq_Inl rbind_eq_Inl rd_def
        split: if_splits sum.splits)
  then show ?thesis
    using r ends by blast
qed

lemma sample_quotes: "quote_inv (sample_token_world f)"
proof -
  have "chain_ends (sample_token_world f) sample_token_address"
    by (rule chain_ends.follow, rule chain_ends.stop) simp
  then show ?thesis
    by (simp add: quote_inv_def is_tip20_def settled_def)
qed

theorem quote_walk_terminates_witness:
  "\<exists>r. walk_quotes (sample_token_world T8) sample_token_address PATH_USD_ADDRESS = Some r"
  using quote_walk_terminates [OF sample_quotes, of "[]" T8 sample_token_address 0] by (simp add: is_tip20_def)

end
