(* ===== verification/Fee_Pools.thy ===== *)
theory Fee_Pools
  imports Fee_Manager Tip20_Quotes
begin

text \<open>
  What the operations of the fee AMM do to the pools: the value of a share, the liquidity reserved for the
  pending fee swap, and the shares of the providers.
\<close>

section \<open>What the operations do to the pools\<close>

lemmas amm_defs = M_RATE_def N_RATE_def SCALE_def MIN_LIQUIDITY_def

lemma compute_amount_out_Inr: "compute_amount_out a = Inr v \<longleftrightarrow> v = a * M_RATE div SCALE \<and> a * M_RATE < 2 ^ 256"
  by (auto simp: compute_amount_out_def eok_or_eq_Inr)

lemma apply_swap_Inr:
  "apply_swap p a v = Inr p' \<longleftrightarrow> v \<le> reserve_validator_token p \<and> a < 2 ^ 128 \<and> v < 2 ^ 128 \<and> reserve_user_token p + a < 2 ^ 128
    \<and> p' = p\<lparr>reserve_user_token := reserve_user_token p + a, reserve_validator_token := reserve_validator_token p - v\<rparr>"
  by (auto simp: apply_swap_def runs)

lemma fee_swap_run:
  assumes "execute_fee_swap u v a w = Inr (x, w')"
  defines "i \<equiv> pool_id w u v" and "p \<equiv> read_pool w (pool_id w u v)"
  shows "x = a * M_RATE div SCALE" "x \<le> reserve_validator_token p" "reserve_user_token p + a < 2 ^ 128"
    "w' = w\<lparr>fee_manager := (fee_manager w)\<lparr>pools := (pools (fee_manager w))(i :=
       p\<lparr>reserve_user_token := reserve_user_token p + a, reserve_validator_token := reserve_validator_token p - x\<rparr>)\<rparr>\<rparr>"
  using assms(1) by (auto simp: execute_fee_swap_def runs compute_amount_out_Inr apply_swap_Inr write_pool_def i_def p_def)

lemma fee_manager_kept [simp]:
  "transfer t a to v w = Inr (b, w') \<Longrightarrow> fee_manager w' = fee_manager w"
  "system_transfer_from t a f v w = Inr (b, w') \<Longrightarrow> fee_manager w' = fee_manager w"
  by (erule preservesD [rotated], intro frame)+

lemma rebalance_amount_in_Inr:
  "rebalance_amount_in a = Inr v \<longleftrightarrow> v = a * N_RATE div SCALE + 1 \<and> a * N_RATE < 2 ^ 256 \<and> a * N_RATE div SCALE + 1 < 2 ^ 256"
  by (auto simp: rebalance_amount_in_def runs SCALE_def bind_eq_Some_conv)

lemma rebalance_run:
  assumes "rebalance_swap s u v out to w = Inr (x, w')"
  defines "p \<equiv> read_pool w (pool_id w u v)"
  defines "p' \<equiv> p\<lparr>reserve_validator_token := reserve_validator_token p + x, reserve_user_token := reserve_user_token p - out\<rparr>"
  defines "wp \<equiv> w\<lparr>fee_manager := (fee_manager w)\<lparr>pools := (pools (fee_manager w))(pool_id w u v := p')\<rparr>\<rparr>"
  obtains b1 w1 b2 w2 where "x = out * N_RATE div SCALE + 1" "out \<le> reserve_user_token p"
    "reserve_validator_token p + x < 2 ^ 128" "is_tip20_prefix u" "is_tip20_prefix v"
    "check_reservation w (pool_id w u v) (reserve_validator_token p + x) = Inr ()"
    "system_transfer_from v TIP_FEE_MANAGER_ADDRESS s x wp = Inr (b1, w1)"
    "transfer u TIP_FEE_MANAGER_ADDRESS to out w1 = Inr (b2, w2)" "tokens w' = tokens w2" "fee_manager w' = fee_manager wp"
proof -
  have "\<exists>b1 w1 b2 w2. x = out * N_RATE div SCALE + 1 \<and> out \<le> reserve_user_token p \<and>
    reserve_validator_token p + x < 2 ^ 128 \<and> is_tip20_prefix u \<and> is_tip20_prefix v \<and>
    check_reservation w (pool_id w u v) (reserve_validator_token p + x) = Inr () \<and>
    system_transfer_from v TIP_FEE_MANAGER_ADDRESS s x wp = Inr (b1, w1) \<and>
    transfer u TIP_FEE_MANAGER_ADDRESS to out w1 = Inr (b2, w2) \<and> tokens w' = tokens w2 \<and> fee_manager w' = fee_manager wp"
    using assms(1) unfolding rebalance_swap_def
    by (auto simp: runs rebalance_amount_in_Inr write_pool_def emit_amm_def from_address_def wp_def p'_def p_def split: if_splits)
  then show ?thesis
    using that by blast
qed

lemma check_pair_run:
  "check_pair u v a w = Inr (x, w') \<longleftrightarrow> u \<noteq> v \<and> a \<noteq> 0 \<and> validate_usd_currency w u = Inr () \<and> validate_usd_currency w v = Inr () \<and> w' = w"
  by (auto simp: check_pair_def runs)

lemma amm_mint_run:
  assumes "amm_mint s u v a to w = Inr (l, w')"
  defines "i \<equiv> pool_id w u v" and "fm \<equiv> fee_manager w"
  defines "p \<equiv> read_pool w (pool_id w u v)"
  obtains total b1 w1 where "mint_shares p (lp_total_supply fm i) a = Inr (total, l)" "l \<noteq> 0" "u \<noteq> v"
    "reserve_validator_token p + a < 2 ^ 128" "is_tip20_prefix u" "is_tip20_prefix v"
    "system_transfer_from v TIP_FEE_MANAGER_ADDRESS s a (w\<lparr>fee_manager := fm\<lparr>lp_total_supply := (lp_total_supply fm)(i := total)\<rparr>\<rparr>)
       = Inr (b1, w1)" "tokens w' = tokens w1"
    "fee_manager w' = fm\<lparr>pools := (pools fm)(i := p\<lparr>reserve_validator_token := reserve_validator_token p + a\<rparr>),
       lp_total_supply := (lp_total_supply fm)(i := total + l),
       liquidity_balances := (liquidity_balances fm)(i := (liquidity_balances fm i)(to := liquidity_balances fm i to + l))\<rparr>"
proof -
  let ?auth = "only_if (T8 \<le> spec w)
           (rseq (rd (\<lambda>w. ensure_authorized_as w u
                    [(s, transfer_or w AuthSender), (TIP_FEE_MANAGER_ADDRESS, transfer_or w AuthRecipient), (to, transfer_or w AuthRecipient)]))
                 (rd (\<lambda>w. ensure_authorized_as w v [(to, transfer_or w AuthRecipient)]))) :: unit M"
  have auth: "w2 = w" if "?auth w = Inr (x, w2)" for x w2
    using that by (auto simp: runs only_if_def split: if_splits)
  have pre: "u \<noteq> v" "is_tip20_prefix u" "is_tip20_prefix v"
    using assms(1) by (auto simp: amm_mint_def rseq_eq_Inr [of "check_pair u v a"] check_pair_run runs from_address_def split: if_splits)
  have "\<exists>total b1 w1. mint_shares p (lp_total_supply fm i) a = Inr (total, l) \<and> l \<noteq> 0 \<and>
    reserve_validator_token p + a < 2 ^ 128 \<and>
    system_transfer_from v TIP_FEE_MANAGER_ADDRESS s a (w\<lparr>fee_manager := fm\<lparr>lp_total_supply := (lp_total_supply fm)(i := total)\<rparr>\<rparr>)
       = Inr (b1, w1) \<and> tokens w' = tokens w1 \<and>
    fee_manager w' = fm\<lparr>pools := (pools fm)(i := p\<lparr>reserve_validator_token := reserve_validator_token p + a\<rparr>),
       lp_total_supply := (lp_total_supply fm)(i := total + l),
       liquidity_balances := (liquidity_balances fm)(i := (liquidity_balances fm i)(to := liquidity_balances fm i to + l))\<rparr>"
    using assms(1) pre unfolding amm_mint_def
    by (auto simp: rseq_eq_Inr rbind_eq_Inr check_pair_run rd_eq_Inr from_address_def ensure_eq_Inr ok_or_eq_Inr
        set_lp_total_supply_def write_pool_def set_liquidity_balances_def get_total_supply_def get_liquidity_balances_def emit_amm_def
        i_def p_def fm_def dest!: auth)
  then show ?thesis
    using that pre by blast
qed

lemma amm_burn_run:
  assumes "amm_burn s u v l to w = Inr (x, w')"
  defines "i \<equiv> pool_id w u v" and "fm \<equiv> fee_manager w"
  defines "p \<equiv> read_pool w (pool_id w u v)"
  defines "au \<equiv> l * reserve_user_token p div lp_total_supply fm i" and "av \<equiv> l * reserve_validator_token p div lp_total_supply fm i"
  defines "fm' \<equiv> fm\<lparr>liquidity_balances := (liquidity_balances fm)(i := (liquidity_balances fm i)(s := liquidity_balances fm i s - l)),
       lp_total_supply := (lp_total_supply fm)(i := lp_total_supply fm i - l),
       pools := (pools fm)(i := p\<lparr>reserve_user_token := reserve_user_token p - au,
         reserve_validator_token := reserve_validator_token p - av\<rparr>)\<rparr>"
  obtains b1 w1 b2 w2 where "x = (au, av)" "l \<le> liquidity_balances fm i s" "l \<le> lp_total_supply fm i" "0 < lp_total_supply fm i"
    "u \<noteq> v" "au \<le> reserve_user_token p" "av \<le> reserve_validator_token p" "is_tip20_prefix u" "is_tip20_prefix v"
    "check_reservation w i (reserve_validator_token p - av) = Inr ()"
    "transfer u TIP_FEE_MANAGER_ADDRESS to au (w\<lparr>fee_manager := fm'\<rparr>) = Inr (b1, w1)"
    "transfer v TIP_FEE_MANAGER_ADDRESS to av w1 = Inr (b2, w2)" "tokens w' = tokens w2" "fee_manager w' = fm'"
proof -
  let ?auth = "only_if (T8 \<le> spec w)
           (rseq (rd (\<lambda>w. ensure_authorized_as w u [(s, transfer_or w AuthSender)]))
                 (rd (\<lambda>w. ensure_authorized_as w v [(s, transfer_or w AuthSender)]))) :: unit M"
  have auth: "w2 = w" if "?auth w = Inr (x, w2)" for x w2
    using that by (auto simp: runs only_if_def split: if_splits)
  have pre: "u \<noteq> v" "is_tip20_prefix u" "is_tip20_prefix v"
    using assms(1) by (auto simp: amm_burn_def rseq_eq_Inr [of "check_pair u v l"] check_pair_run runs from_address_def split: if_splits)
  have calc: "calculate_burn_amounts w q j l = Inr y \<longleftrightarrow> lp_total_supply (fee_manager w) j \<noteq> 0 \<and>
      l * reserve_user_token q < 2 ^ 256 \<and> l * reserve_validator_token q < 2 ^ 256 \<and>
      y = (l * reserve_user_token q div lp_total_supply (fee_manager w) j, l * reserve_validator_token q div lp_total_supply (fee_manager w) j)"
    for q j y
    by (auto simp: calculate_burn_amounts_def get_total_supply_def Let_def runs bind_eq_Some_conv)
  have "\<exists>b1 w1 b2 w2. x = (au, av) \<and> l \<le> liquidity_balances fm i s \<and> l \<le> lp_total_supply fm i \<and> 0 < lp_total_supply fm i \<and>
    au \<le> reserve_user_token p \<and> av \<le> reserve_validator_token p \<and>
    check_reservation w i (reserve_validator_token p - av) = Inr () \<and>
    transfer u TIP_FEE_MANAGER_ADDRESS to au (w\<lparr>fee_manager := fm'\<rparr>) = Inr (b1, w1) \<and>
    transfer v TIP_FEE_MANAGER_ADDRESS to av w1 = Inr (b2, w2) \<and> tokens w' = tokens w2 \<and> fee_manager w' = fm'"
    using assms(1) pre unfolding amm_burn_def
    by (auto simp: rseq_eq_Inr rbind_eq_Inr check_pair_run rd_eq_Inr from_address_def ensure_eq_Inr ok_or_eq_Inr calc
        set_lp_total_supply_def write_pool_def set_liquidity_balances_def get_total_supply_def get_liquidity_balances_def emit_amm_def
        i_def p_def fm_def fm'_def au_def av_def dest!: auth)
  then show ?thesis
    using that pre by blast
qed

section \<open>The other calls\<close>

lemma void_run: "void m w = Inr (x, w') \<longleftrightarrow> (\<exists>y. m w = Inr (y, w'))"
  by (auto simp: void_def runs)

lemma outside_fee_manager: "preserves fee_manager (system_exec c)"
  by (rule outer_exec) simp_all

text \<open>Preferences and distributions leave the pools, the shares and the reservations alone.\<close>

definition lp_state :: "world \<Rightarrow> (b256 \<Rightarrow> pool) \<times> (b256 \<Rightarrow> u256) \<times> (b256 \<Rightarrow> address \<Rightarrow> u256) \<times> (b256 \<Rightarrow> u128)" where
  "lp_state w = (pools (fee_manager w), lp_total_supply (fee_manager w), liquidity_balances (fee_manager w),
    pending_fee_swap_reservation (fee_manager w))"

lemma plain_lp_state [frame]: "plain_obs lp_state"
  by (rule outer_plain) (simp add: outer_obs_def lp_state_def)

lemma lp_state_upd [frame]:
  "(\<And>f. pools (g f) = pools f \<and> lp_total_supply (g f) = lp_total_supply f \<and> liquidity_balances (g f) = liquidity_balances f
    \<and> pending_fee_swap_reservation (g f) = pending_fee_swap_reservation f) \<Longrightarrow> preserves lp_state (upd_fees g)"
  by (simp add: preserves_def lp_state_def)

lemma lp_state_frame:
  "preserves lp_state (set_validator_token s t ben)" "preserves lp_state (set_user_token s t)"
  "preserves lp_state (distribute_fees v t)"
  unfolding set_validator_token_def set_user_token_def distribute_fees_def emit_fee_def
  by (intro frame; simp)+

lemma lp_state_other:
  assumes "fee_exec ben c w = Inr (x, w')" "\<And>s u v a to. c \<noteq> AmmMintCall s u v a to"
    "\<And>s u v l to. c \<noteq> AmmBurnCall s u v l to" "\<And>s u v a to. c \<noteq> RebalanceSwapCall s u v a to"
  shows "lp_state w' = lp_state w"
proof (cases c)
  case (OutsideCall sc)
  then have "fee_manager w' = fee_manager w"
    using assms(1) preservesD [OF outside_fee_manager] by simp
  then show ?thesis
    by (simp add: lp_state_def)
qed (use assms preservesD [OF lp_state_frame(1)] preservesD [OF lp_state_frame(2)] preservesD [OF lp_state_frame(3)] in auto)

section \<open>The value of a share\<close>

text \<open>The value of a pool in units of \<open>1 / SCALE\<close> validator tokens, user tokens counted at the rebalancing
  rate.\<close>

definition pool_value :: "pool \<Rightarrow> nat" where
  "pool_value p = SCALE * reserve_validator_token p + N_RATE * reserve_user_token p"

lemma swap_value:
  assumes "x = a * M_RATE div SCALE" "x \<le> reserve_validator_token p"
  shows "pool_value p \<le> pool_value (p\<lparr>reserve_user_token := reserve_user_token p + a, reserve_validator_token := reserve_validator_token p - x\<rparr>)"
proof -
  have "SCALE * x \<le> a * M_RATE"
    unfolding assms(1) by (metis mult.commute div_times_less_eq_dividend)
  also have "\<dots> \<le> N_RATE * a"
    by (simp add: amm_defs)
  finally have "SCALE * x \<le> N_RATE * a" .
  moreover have "SCALE * (reserve_validator_token p - x) + SCALE * x = SCALE * reserve_validator_token p"
    using assms(2) by (simp add: add_mult_distrib2 [symmetric])
  ultimately show ?thesis
    by (simp add: pool_value_def add_mult_distrib2)
qed

lemma rebalance_value:
  assumes "x = out * N_RATE div SCALE + 1" "out \<le> reserve_user_token p"
  shows "pool_value p \<le> pool_value (p\<lparr>reserve_validator_token := reserve_validator_token p + x, reserve_user_token := reserve_user_token p - out\<rparr>)"
proof -
  have "out * N_RATE \<le> SCALE * x"
    using dividend_less_div_times [of SCALE "out * N_RATE"] unfolding assms(1) by (simp add: SCALE_def algebra_simps)
  moreover have "N_RATE * (reserve_user_token p - out) + N_RATE * out = N_RATE * reserve_user_token p"
    using assms(2) by (simp add: add_mult_distrib2 [symmetric])
  ultimately show ?thesis
    by (simp add: pool_value_def add_mult_distrib2 mult.commute)
qed

lemma share_rest:
  fixes r l s :: nat
  assumes "l \<le> s"
  shows "r * (s - l) \<le> (r - l * r div s) * s"
proof -
  have "(r - l * r div s) * s = r * s - l * r div s * s"
    by (simp add: diff_mult_distrib)
  moreover have "r * (s - l) = r * s - l * r"
    by (simp add: diff_mult_distrib2 mult.commute)
  ultimately show ?thesis
    using div_times_less_eq_dividend [of "l * r" s] by (simp add: diff_le_mono2)
qed

lemma burn_value:
  assumes "l \<le> s"
  shows "pool_value p * (s - l) \<le> pool_value (p\<lparr>reserve_user_token := reserve_user_token p - l * reserve_user_token p div s,
    reserve_validator_token := reserve_validator_token p - l * reserve_validator_token p div s\<rparr>) * s"
  using share_rest [OF assms, of "reserve_user_token p"] share_rest [OF assms, of "reserve_validator_token p"]
  by (simp add: pool_value_def add_mult_distrib mult.assoc add_mono)

lemma mint_value:
  assumes "mint_shares p s a = Inr (tot, l)" "p' = p\<lparr>reserve_validator_token := reserve_validator_token p + a\<rparr>"
  shows "pool_value p * (tot + l) \<le> pool_value p' * s + (SCALE - 1) * (tot + l - s)"
proof (cases "reserve_user_token p = 0 \<and> reserve_validator_token p = 0")
  case False
  let ?u = "reserve_user_token p" and ?v = "reserve_validator_token p"
  let ?d = "?v + N_RATE * ?u div SCALE"
  have l: "tot = s" "l = a * s div ?d"
    using assms(1) False by (auto simp: mint_shares_def pro_rata_shares_def runs bind_eq_Some_conv split: if_splits)
  have "N_RATE * ?u \<le> SCALE * (N_RATE * ?u div SCALE) + (SCALE - 1)"
    using mult_div_mod_eq [of SCALE "N_RATE * ?u"] mod_less_divisor [of SCALE "N_RATE * ?u"] by (simp add: SCALE_def)
  then have "pool_value p \<le> SCALE * ?d + (SCALE - 1)"
    by (simp add: pool_value_def add_mult_distrib2)
  then have "pool_value p * l \<le> (SCALE * ?d + (SCALE - 1)) * l"
    by (rule mult_le_mono1)
  also have "\<dots> = SCALE * (l * ?d) + (SCALE - 1) * l"
    by (simp only: add_mult_distrib add_mult_distrib2 mult_ac add_ac)
  also have "\<dots> \<le> SCALE * (a * s) + (SCALE - 1) * l"
    unfolding l(2) by (simp add: div_times_less_eq_dividend)
  finally show ?thesis
    by (simp add: l(1) assms(2) pool_value_def add_mult_distrib add_mult_distrib2 mult.assoc)
qed (simp add: pool_value_def)

text \<open>What a call does to one pool and its shares.\<close>

definition share_kept :: "world \<Rightarrow> world \<Rightarrow> b256 \<Rightarrow> bool" where
  "share_kept w w' i =
    (pool_value (read_pool w i) * get_total_supply w' i
      \<le> pool_value (read_pool w' i) * get_total_supply w i + (SCALE - 1) * (get_total_supply w' i - get_total_supply w i))"

lemma share_kept_fields:
  "lp_state w' = lp_state w \<Longrightarrow> share_kept w w' i"
  by (simp add: share_kept_def lp_state_def read_pool_def get_total_supply_def)

lemma share_kept_at:
  assumes "pools (fee_manager w') = (pools (fee_manager w))(j := p')"
    "lp_total_supply (fee_manager w') = (lp_total_supply (fee_manager w))(j := s')"
    "pool_value (read_pool w j) * s' \<le> pool_value p' * get_total_supply w j + (SCALE - 1) * (s' - get_total_supply w j)"
  shows "share_kept w w' i"
  using assms by (cases "i = j") (simp_all add: share_kept_def read_pool_def get_total_supply_def)

lemma share_kept_calls:
  assumes "fee_exec ben c w = Inr (x, w')"
  shows "share_kept w w' i"
proof (cases c)
  case (AmmMintCall s u v a to)
  then obtain l where run: "amm_mint s u v a to w = Inr (l, w')"
    using assms by (auto simp: void_run)
  show ?thesis
    using run
  proof (rule amm_mint_run)
    fix tot b1 w1
    let ?p = "read_pool w (pool_id w u v)"
    assume sh: "mint_shares ?p (lp_total_supply (fee_manager w) (pool_id w u v)) a = Inr (tot, l)"
      and fm: "fee_manager w' = (fee_manager w)\<lparr>pools := (pools (fee_manager w))(pool_id w u v :=
          ?p\<lparr>reserve_validator_token := reserve_validator_token ?p + a\<rparr>),
        lp_total_supply := (lp_total_supply (fee_manager w))(pool_id w u v := tot + l),
        liquidity_balances := (liquidity_balances (fee_manager w))(pool_id w u v :=
          (liquidity_balances (fee_manager w) (pool_id w u v))(to := liquidity_balances (fee_manager w) (pool_id w u v) to + l))\<rparr>"
    show ?thesis
      by (rule share_kept_at [of w' w "pool_id w u v"])
        (use mint_value [OF sh HOL.refl] in \<open>simp_all add: fm get_total_supply_def\<close>)
  qed
next
  case (AmmBurnCall s u v l to)
  then obtain y where run: "amm_burn s u v l to w = Inr (y, w')"
    using assms by (auto simp: void_run)
  show ?thesis
    using run
  proof (rule amm_burn_run)
    let ?i = "pool_id w u v" and ?p = "read_pool w (pool_id w u v)" and ?fm = "fee_manager w"
    let ?s = "lp_total_supply ?fm ?i"
    assume l: "l \<le> ?s"
      and fm: "fee_manager w' = ?fm\<lparr>liquidity_balances := (liquidity_balances ?fm)(?i := (liquidity_balances ?fm ?i)(s := liquidity_balances ?fm ?i s - l)),
       lp_total_supply := (lp_total_supply ?fm)(?i := ?s - l),
       pools := (pools ?fm)(?i := ?p\<lparr>reserve_user_token := reserve_user_token ?p - l * reserve_user_token ?p div ?s,
         reserve_validator_token := reserve_validator_token ?p - l * reserve_validator_token ?p div ?s\<rparr>)\<rparr>"
    show ?thesis
      by (rule share_kept_at [of w' w ?i]) (use trans_le_add1 [OF burn_value [OF l, of ?p]] in \<open>simp_all add: fm get_total_supply_def\<close>)
  qed
next
  case (RebalanceSwapCall s u v out to)
  then obtain y where run: "rebalance_swap s u v out to w = Inr (y, w')"
    using assms by (auto simp: void_run)
  show ?thesis
    using run
  proof (rule rebalance_run)
    let ?i = "pool_id w u v" and ?p = "read_pool w (pool_id w u v)"
    let ?p' = "?p\<lparr>reserve_validator_token := reserve_validator_token ?p + y, reserve_user_token := reserve_user_token ?p - out\<rparr>"
    assume y: "y = out * N_RATE div SCALE + 1" and out: "out \<le> reserve_user_token ?p"
      and fm: "fee_manager w' = fee_manager (w\<lparr>fee_manager := (fee_manager w)\<lparr>pools := (pools (fee_manager w))(?i := ?p')\<rparr>\<rparr>)"
    show ?thesis
      by (rule share_kept_at [of w' w ?i, where s' = "get_total_supply w ?i"])
        (use mult_le_mono1 [OF rebalance_value [OF y out]] fm in \<open>simp_all add: get_total_supply_def\<close>)
  qed
qed (use lp_state_other [OF assms] share_kept_fields in auto)

text \<open>The settlement of fees only adds value.\<close>

definition value_up :: "world \<Rightarrow> world \<Rightarrow> bool" where
  "value_up w w' = (lp_total_supply (fee_manager w') = lp_total_supply (fee_manager w)
    \<and> (\<forall>i. pool_value (read_pool w i) \<le> pool_value (read_pool w' i)))"

interpretation appreciation: step_relation value_up
  by unfold_locales (auto simp: value_up_def intro: order_trans)

lemma value_up_lp_state: "preserves lp_state m \<Longrightarrow> steps value_up m"
  by (auto simp: steps_def preserves_def value_up_def lp_state_def read_pool_def)

lemma value_up_swap: "steps value_up (execute_fee_swap u v a)"
proof (rule stepsI)
  fix w x w'
  assume "execute_fee_swap u v a w = Inr (x, w')"
  note r = fee_swap_run [OF this]
  show "value_up w w'"
    using swap_value [OF r(1,2)] by (simp add: value_up_def r(4) read_pool_def)
qed

lemma value_up_settlement: "steps value_up (collect_fee_post_tx payer a r t ben)"
proof -
  have f: "steps value_up (transfer_fee_post_tx t payer r a)" for t
    by (intro value_up_lp_state frame)
  have i: "steps value_up (increment_collected_fees ben v x)" for v x
    unfolding increment_collected_fees_def fee_sinc_def by (intro value_up_lp_state frame) simp
  show ?thesis
    unfolding collect_fee_post_tx_def settle_fee_def by (intro f i value_up_swap appreciation.compose)
qed

lemma value_up_share: "value_up w w' \<Longrightarrow> share_kept w w' i"
  by (simp add: value_up_def share_kept_def get_total_supply_def mult_le_mono1)

text \<open>C25: no call of a liquidity provider, of an arbitrageur or of the fee settlement lowers the value of a
  share of any pool (user tokens counted at the rebalancing rate), but for the rounding of a deposit, which
  costs the existing shares together less than one unit of the validator token. Swaps, rebalancing and
  withdrawals never lower it.\<close>

theorem share_value_kept:
  assumes "fee_exec ben c w = Inr (x, w') \<or> collect_fee_post_tx payer a r t ben w = Inr (y, w')"
  shows "pool_value (read_pool w i) * get_total_supply w' i
    \<le> pool_value (read_pool w' i) * get_total_supply w i + (SCALE - 1) * (get_total_supply w' i - get_total_supply w i)"
  using assms share_kept_calls value_up_share stepsD [OF value_up_settlement] unfolding share_kept_def by blast

section \<open>Shares and supply\<close>

definition lp_ok :: "u256 \<Rightarrow> (address \<Rightarrow> u256) \<Rightarrow> bool" where
  "lp_ok s b = (if s = 0 then \<forall>a. b a = 0 else (\<Sum>a\<in>UNIV. b a) + MIN_LIQUIDITY \<le> s)"

definition lp_inv :: "world \<Rightarrow> bool" where
  "lp_inv w = (\<forall>i. lp_ok (lp_total_supply (fee_manager w) i) (liquidity_balances (fee_manager w) i))"

lemma lp_inv_same: "lp_state w' = lp_state w \<Longrightarrow> lp_inv w \<Longrightarrow> lp_inv w'"
  by (simp add: lp_inv_def lp_state_def)

lemma lp_ok_mint:
  assumes "lp_ok s b" "mint_shares p s a = Inr (tot, l)" "l \<noteq> 0"
  shows "lp_ok (tot + l) (b(to := b to + l))"
proof -
  have tot: "tot = s + MIN_LIQUIDITY \<or> tot = s \<and> s \<noteq> 0"
    using assms(2,3) by (auto simp: mint_shares_def initial_shares_def pro_rata_shares_def runs bind_eq_Some_conv split: if_splits)
  have "(\<Sum>x\<in>UNIV. (b(to := b to + l)) x) = (\<Sum>x\<in>UNIV. b x) + l"
    by (rule sum_upd_add)
  moreover have "(\<Sum>x\<in>UNIV. b x) \<le> s \<and> (s \<noteq> 0 \<longrightarrow> (\<Sum>x\<in>UNIV. b x) + MIN_LIQUIDITY \<le> s)"
    using assms(1) by (auto simp: lp_ok_def split: if_splits)
  ultimately show ?thesis
    unfolding lp_ok_def using tot assms(3) by auto
qed

lemma lp_ok_burn:
  assumes "lp_ok s b" "l \<le> b a" "0 < s"
  shows "lp_ok (s - l) (b(a := b a - l))"
proof -
  have sum: "(\<Sum>x\<in>UNIV. (b(a := b a - l)) x) + l = (\<Sum>x\<in>UNIV. b x)"
    using assms(2) by (rule sum_upd_sub)
  have "(\<Sum>x\<in>UNIV. b x) + MIN_LIQUIDITY \<le> s"
    using assms(1,3) by (simp add: lp_ok_def)
  then have "(\<Sum>x\<in>UNIV. (b(a := b a - l)) x) + MIN_LIQUIDITY \<le> s - l" "s - l \<noteq> 0"
    using sum by (auto simp: MIN_LIQUIDITY_def)
  then show ?thesis
    by (simp add: lp_ok_def del: fun_upd_apply)
qed

lemma lp_inv_calls: "keeps lp_inv (fee_exec ben c)"
  unfolding keeps_def
proof (intro allI impI)
  fix w x w'
  assume inv: "lp_inv w" and run: "fee_exec ben c w = Inr (x, w')"
  let ?fm = "fee_manager w"
  show "lp_inv w'"
  proof (cases c)
    case (AmmMintCall s u v a to)
    then obtain l where "amm_mint s u v a to w = Inr (l, w')"
      using run by (auto simp: void_run)
    then show ?thesis
    proof (rule amm_mint_run)
      fix tot
      let ?i = "pool_id w u v" and ?p = "read_pool w (pool_id w u v)"
      assume sh: "mint_shares ?p (lp_total_supply ?fm ?i) a = Inr (tot, l)" "l \<noteq> 0"
        and fm: "fee_manager w' = ?fm\<lparr>pools := (pools ?fm)(?i := ?p\<lparr>reserve_validator_token := reserve_validator_token ?p + a\<rparr>),
          lp_total_supply := (lp_total_supply ?fm)(?i := tot + l),
          liquidity_balances := (liquidity_balances ?fm)(?i := (liquidity_balances ?fm ?i)(to := liquidity_balances ?fm ?i to + l))\<rparr>"
      show ?thesis
        using inv lp_ok_mint [OF _ sh, of "liquidity_balances ?fm ?i" to] by (simp add: lp_inv_def fm)
    qed
  next
    case (AmmBurnCall s u v l to)
    then obtain y where "amm_burn s u v l to w = Inr (y, w')"
      using run by (auto simp: void_run)
    then show ?thesis
    proof (rule amm_burn_run)
      let ?i = "pool_id w u v" and ?p = "read_pool w (pool_id w u v)"
      let ?s = "lp_total_supply ?fm ?i"
      assume l: "l \<le> liquidity_balances ?fm ?i s" "0 < ?s"
        and fm: "fee_manager w' = ?fm\<lparr>liquidity_balances := (liquidity_balances ?fm)(?i := (liquidity_balances ?fm ?i)(s := liquidity_balances ?fm ?i s - l)),
         lp_total_supply := (lp_total_supply ?fm)(?i := ?s - l),
         pools := (pools ?fm)(?i := ?p\<lparr>reserve_user_token := reserve_user_token ?p - l * reserve_user_token ?p div ?s,
           reserve_validator_token := reserve_validator_token ?p - l * reserve_validator_token ?p div ?s\<rparr>)\<rparr>"
      show ?thesis
        using inv lp_ok_burn [of ?s "liquidity_balances ?fm ?i" l s] l by (simp add: lp_inv_def fm)
    qed
  next
    case (RebalanceSwapCall s u v out to)
    then obtain y where "rebalance_swap s u v out to w = Inr (y, w')"
      using run by (auto simp: void_run)
    then show ?thesis
      by (rule rebalance_run) (use inv in \<open>simp add: lp_inv_def\<close>)
  qed (use lp_state_other [OF run] lp_inv_same inv in auto)
qed

interpretation shares: invariant_machine "fee_exec ben" lp_inv for ben
  by unfold_locales (rule lp_inv_calls)

text \<open>C26: in every history the shares of the providers of a pool and the locked minimum together are at most
  the supply of shares, and a pool without supply has no shares; so no withdrawal can exceed the supply and
  the locked minimum can never be withdrawn.\<close>

theorem lp_shares_backed:
  assumes "lp_inv w"
  shows "(if get_total_supply (run_ops (fee_exec ben) cs w) i = 0
      then \<forall>a. get_liquidity_balances (run_ops (fee_exec ben) cs w) i a = 0
      else (\<Sum>a\<in>UNIV. get_liquidity_balances (run_ops (fee_exec ben) cs w) i a) + MIN_LIQUIDITY
        \<le> get_total_supply (run_ops (fee_exec ben) cs w) i)"
  using shares.run_ops_inv [OF assms, of ben cs] by (simp add: lp_inv_def lp_ok_def get_total_supply_def get_liquidity_balances_def)

section \<open>Reserved liquidity\<close>

text \<open>A call within a transaction does not start a new one.\<close>

fun within_tx :: "fee_call \<Rightarrow> bool" where
  "within_tx (OutsideCall (KeychainCall (NewTransaction k orig time f))) = False"
| "within_tx _ = True"

text \<open>What settles the fee of the transaction: the fork, the hash function, the validator's token, the
  intermediate token and the reservations.\<close>

definition settlement :: "address \<Rightarrow> world \<Rightarrow> hardfork \<times> (preimage \<Rightarrow> b256) \<times> address \<times> address \<times> (b256 \<Rightarrow> u128)" where
  "settlement ben w = (spec w, keccak256 w, get_validator_token w ben, two_hop_intermediate (fee_manager w),
    pending_fee_swap_reservation (fee_manager w))"

lemma plain_settlement [frame]: "plain_obs (settlement ben)"
  by (rule outer_plain) (simp add: outer_obs_def settlement_def get_validator_token_def)

lemma settlement_upd [frame]:
  "(\<And>f. validator_tokens (g f) ben = validator_tokens f ben \<and> two_hop_intermediate (g f) = two_hop_intermediate f
    \<and> pending_fee_swap_reservation (g f) = pending_fee_swap_reservation f) \<Longrightarrow> preserves (settlement ben) (upd_fees g)"
  by (simp add: preserves_def settlement_def get_validator_token_def)

lemma settlement_frames:
  "preserves (settlement ben) (set_validator_token s t ben)" "preserves (settlement ben) (set_user_token s t)"
  "preserves (settlement ben) (distribute_fees v t)" "preserves (settlement ben) (rebalance_swap s u v out to)"
  "preserves (settlement ben) (amm_mint s u v a to)" "preserves (settlement ben) (amm_burn s u v l to)"
proof -
  show "preserves (settlement ben) (set_validator_token s t ben)"
  proof (cases "s = ben")
    case False
    then show ?thesis
      unfolding set_validator_token_def emit_fee_def by (intro frame; simp)
  qed (auto simp: preserves_def set_validator_token_def runs)
qed (unfold set_user_token_def distribute_fees_def rebalance_swap_def amm_mint_def amm_burn_def emit_fee_def emit_amm_def
    check_pair_def write_pool_def set_lp_total_supply_def set_liquidity_balances_def, (intro frame; simp)+)

lemma settlement_calls:
  assumes "within_tx c"
  shows "preserves (settlement ben) (fee_exec ben c)"
proof (cases c)
  case (OutsideCall sc)
  have "preserves (settlement ben) (system_exec sc)"
    by (rule outer_exec) (use assms OutsideCall in \<open>simp_all add: outer_obs_def settlement_def get_validator_token_def\<close>)
  then show ?thesis
    using OutsideCall by simp
qed (simp_all add: settlement_frames void_def preserves_rbind)

section \<open>A sample pool\<close>

definition sample_pair_hash :: "preimage \<Rightarrow> b256" where
  "sample_pair_hash p = (case p of AbiAddressPair u v \<Rightarrow> if u = sample_token_address then 1 else 2 | _ \<Rightarrow> 0)"

definition sample_pool_world :: world where
  "sample_pool_world = (sample_token_world T8)\<lparr>keccak256 := sample_pair_hash, fee_manager := empty_fee_manager\<lparr>
     pools := (pools empty_fee_manager)(1 := \<lparr>reserve_user_token = 0, reserve_validator_token = 1000\<rparr>),
     lp_total_supply := (\<lambda>_. 0)(1 := 2000), liquidity_balances := (\<lambda>_ _. 0)(1 := (\<lambda>_. 0)(0x333 := 1000))\<rparr>\<rparr>"

lemma sample_pool_sel [simp]:
  "spec sample_pool_world = T8" "keccak256 sample_pool_world = sample_pair_hash" "keychain sample_pool_world = empty_keychain"
  "registry sample_pool_world = empty_registry" "has_code sample_pool_world = (\<lambda>a. a = sample_token_address)"
  "tokens sample_pool_world = (\<lambda>_. empty_token)(sample_token_address := sample_token)"
  "pools (fee_manager sample_pool_world) 1 = \<lparr>reserve_user_token = 0, reserve_validator_token = 1000\<rparr>"
  "lp_total_supply (fee_manager sample_pool_world) = (\<lambda>_. 0)(1 := 2000)"
  "liquidity_balances (fee_manager sample_pool_world) = (\<lambda>_ _. 0)(1 := (\<lambda>_. 0)(0x333 := 1000))"
  "validator_tokens (fee_manager sample_pool_world) = (\<lambda>_. 0)" "user_tokens (fee_manager sample_pool_world) = (\<lambda>_. 0)"
  "collected_fees (fee_manager sample_pool_world) = (\<lambda>_ _. 0)" "two_hop_intermediate (fee_manager sample_pool_world) = 0"
  "pending_fee_swap_reservation (fee_manager sample_pool_world) = (\<lambda>_. 0)"
  by (simp_all add: sample_pool_world_def empty_fee_manager_def)

lemma sample_pair_ids [simp]:
  "sample_pair_hash (AbiAddressPair sample_token_address PATH_USD_ADDRESS) = 1"
  "sample_pair_hash (AbiAddressPair PATH_USD_ADDRESS PATH_USD_ADDRESS) = 2"
  "sample_token_address \<noteq> PATH_USD_ADDRESS"
  by (simp_all add: sample_pair_hash_def sample_token_address_def PATH_USD_ADDRESS_def)

lemma sample_rate: "compute_amount_out 30 = Inr 29"
  by (simp add: compute_amount_out_Inr amm_defs)

lemma sample_settlement:
  obtains w' where "collect_fee_post_tx 0x111 30 0 sample_token_address 0x444 sample_pool_world = Inr (29, w')"
    "read_pool w' 1 = \<lparr>reserve_user_token = 30, reserve_validator_token = 971\<rparr>" "get_total_supply w' 1 = 2000"
proof
  let ?w = "sample_pool_world\<lparr>logs := logs sample_pool_world @ [(sample_token_address, TIP20Event (Transfer 0x111 TIP_FEE_MANAGER_ADDRESS 30))]\<rparr>"
  have "apply_swap \<lparr>reserve_user_token = 0, reserve_validator_token = 1000\<rparr> 30 29 = Inr \<lparr>reserve_user_token = 30, reserve_validator_token = 971\<rparr>"
    by (simp add: apply_swap_Inr)
  then have "execute_fee_swap sample_token_address PATH_USD_ADDRESS 30 ?w
      = Inr (29, ?w\<lparr>fee_manager := (fee_manager sample_pool_world)\<lparr>pools := (pools (fee_manager sample_pool_world))(1 :=
          \<lparr>reserve_user_token = 30, reserve_validator_token = 971\<rparr>)\<rparr>\<rparr>)"
    by (simp add: execute_fee_swap_def sample_rate pool_id_def read_pool_def write_pool_def upd_fees_def run_defs)
  then show "collect_fee_post_tx 0x111 30 0 sample_token_address 0x444 sample_pool_world
      = Inr (29, ?w\<lparr>fee_manager := (fee_manager sample_pool_world)\<lparr>pools := (pools (fee_manager sample_pool_world))(1 :=
          \<lparr>reserve_user_token = 30, reserve_validator_token = 971\<rparr>),
          collected_fees := (\<lambda>_ _. 0)(0x444 := (\<lambda>_. 0)(PATH_USD_ADDRESS := 29))\<rparr>\<rparr>)"
    by (simp add: collect_fee_post_tx_def from_address_def transfer_fee_post_tx_def get_validator_token_def
        DEFAULT_FEE_TOKEN_def settle_fee_def sample_rate increment_collected_fees_def fee_sinc_def upd_fees_def checked_add_def run_defs)
qed (simp_all add: read_pool_def get_total_supply_def)

theorem share_value_kept_witness:
  "\<exists>w'. collect_fee_post_tx 0x111 30 0 sample_token_address 0x444 sample_pool_world = Inr (29, w')
    \<and> pool_value (read_pool sample_pool_world 1) * 2000 \<le> pool_value (read_pool w' 1) * 2000"
proof -
  obtain w' where w': "collect_fee_post_tx 0x111 30 0 sample_token_address 0x444 sample_pool_world = Inr (29, w')"
      "get_total_supply w' 1 = 2000"
    by (rule sample_settlement)
  then show ?thesis
    using share_value_kept [OF disjI2 [OF w'(1)], of 1]
    by (simp add: get_total_supply_def)
qed

lemma sample_lp_inv: "lp_inv sample_pool_world"
proof -
  have "(\<Sum>a\<in>UNIV. ((\<lambda>_. 0)((0x333 :: address) := 1000)) a) = (1000 :: nat)"
    using sum_upd [of "\<lambda>_. 0" "0x333 :: address" 1000] by simp
  then show ?thesis
    by (simp add: lp_inv_def lp_ok_def MIN_LIQUIDITY_def)
qed

theorem lp_shares_backed_witness:
  "let w' = run_ops (fee_exec 0x444) [SetUserTokenCall 0x111 sample_token_address, AmmBurnCall 0x333 sample_token_address PATH_USD_ADDRESS 1001 0x333]
      sample_pool_world
   in get_total_supply w' 1 = 2000 \<and> (\<Sum>a\<in>UNIV. get_liquidity_balances w' 1 a) + MIN_LIQUIDITY \<le> 2000"
proof -
  let ?cs = "[SetUserTokenCall 0x111 sample_token_address, AmmBurnCall 0x333 sample_token_address PATH_USD_ADDRESS 1001 0x333]"
  have "get_total_supply (run_ops (fee_exec 0x444) ?cs sample_pool_world) 1 = 2000"
    by (simp add: set_user_token_def is_tip20_def validate_usd_currency_def upd_fees_def emit_fee_def void_def amm_burn_def check_pair_def
        from_address_def get_total_supply_def get_liquidity_balances_def empty_token_def USD_CURRENCY_def
        is_tip20_prefix_def TIP20_TOKEN_PREFIX_def PATH_USD_ADDRESS_def sample_token_address_def run_defs)
  then show ?thesis
    using lp_shares_backed [OF sample_lp_inv, of "0x444" ?cs 1] by (simp add: Let_def)
qed

end
