(* ===== verification/Fee_Settlement.thy ===== *)
theory Fee_Settlement
  imports Fee_Pools
begin

text \<open>
  The liquidity that the collection of the maximum fee reserves is still there when the fee is settled,
  whatever the calls of the transaction do.
\<close>

section \<open>Reservations\<close>

definition reserved_ok :: "world \<Rightarrow> bool" where
  "reserved_ok w = (\<forall>i. pending_fee_swap_reservation (fee_manager w) i \<le> reserve_validator_token (read_pool w i))"

lemma settlement_fields:
  assumes "settlement ben w' = settlement ben w"
  shows "spec w' = spec w" "keccak256 w' = keccak256 w" "get_validator_token w' ben = get_validator_token w ben"
    "two_hop_intermediate (fee_manager w') = two_hop_intermediate (fee_manager w)"
    "pending_fee_swap_reservation (fee_manager w') = pending_fee_swap_reservation (fee_manager w)"
  using assms by (simp_all add: settlement_def)

lemma reserved_at:
  assumes "reserved_ok w" "pending_fee_swap_reservation (fee_manager w') = pending_fee_swap_reservation (fee_manager w)"
    "pools (fee_manager w') = (pools (fee_manager w))(i := p')"
    "pending_fee_swap_reservation (fee_manager w) i \<le> reserve_validator_token p'"
  shows "reserved_ok w'"
  using assms by (simp add: reserved_ok_def read_pool_def)

lemma reserved_grows:
  assumes "reserved_ok w" "pending_fee_swap_reservation (fee_manager w') = pending_fee_swap_reservation (fee_manager w)"
    "pools (fee_manager w') = (pools (fee_manager w))(i := p')"
    "reserve_validator_token (read_pool w i) \<le> reserve_validator_token p'"
  shows "reserved_ok w'"
  by (rule reserved_at [OF assms(1-3)]) (use assms(1,4) in \<open>auto simp: reserved_ok_def intro: order_trans\<close>)

lemma reserved_calls:
  assumes c: "within_tx c"
  shows "keeps (\<lambda>w. T1C \<le> spec w \<and> reserved_ok w) (fee_exec ben c)"
  unfolding keeps_def
proof (intro allI impI)
  fix w x w'
  assume inv: "T1C \<le> spec w \<and> reserved_ok w" and run: "fee_exec ben c w = Inr (x, w')"
  note st = settlement_fields [OF preservesD [OF settlement_calls [OF c] run]]
  have "reserved_ok w'"
  proof (cases c)
    case (AmmMintCall s u v a to)
    then obtain l where "amm_mint s u v a to w = Inr (l, w')"
      using run by (auto simp: void_run)
    then show ?thesis
      by (rule amm_mint_run) (rule reserved_grows [of w w' "pool_id w u v"], use inv in blast, rule st(5), simp, simp)
  next
    case (AmmBurnCall s u v l to)
    then obtain y where "amm_burn s u v l to w = Inr (y, w')"
      using run by (auto simp: void_run)
    then show ?thesis
      by (rule amm_burn_run)
        (rule reserved_at [of w w' "pool_id w u v"], use inv in blast, rule st(5), simp,
          use inv in \<open>simp add: check_reservation_def split: if_splits\<close>)
  next
    case (RebalanceSwapCall s u v out to)
    then obtain y where "rebalance_swap s u v out to w = Inr (y, w')"
      using run by (auto simp: void_run)
    then show ?thesis
      by (rule rebalance_run) (rule reserved_grows [of w w' "pool_id w u v"], use inv in blast, rule st(5), simp, simp)
  qed (use lp_state_other [OF run] inv in \<open>auto simp: reserved_ok_def lp_state_def read_pool_def\<close>)
  then show "T1C \<le> spec w' \<and> reserved_ok w'"
    using inv st(1) by simp
qed

lemma within_transaction:
  fixes ben :: address
  assumes "T1C \<le> spec w" "reserved_ok w" "\<forall>c\<in>set cs. within_tx c"
  defines "w' \<equiv> run_ops (fee_exec ben) cs w"
  shows "reserved_ok w'" "settlement ben w' = settlement ben w"
proof -
  have "T1C \<le> spec w' \<and> reserved_ok w'"
    unfolding w'_def by (rule run_ops_keeps [where I = "\<lambda>w. T1C \<le> spec w \<and> reserved_ok w"]) (use assms reserved_calls in auto)
  then show "reserved_ok w'"
    by simp
  show "settlement ben w' = settlement ben w"
    unfolding w'_def
  proof (rule run_ops_keeps [where I = "\<lambda>v. settlement ben v = settlement ben w"])
    show "keeps (\<lambda>v. settlement ben v = settlement ben w) (fee_exec ben c)" if "c \<in> set cs" for c
      using settlement_calls assms(3) that by (intro preserves_keeps) auto
  qed simp
qed

section \<open>What the collection reserves\<close>

lemma reserve_amount: "amount_out_u128 a = Inr v \<longleftrightarrow> v = a * M_RATE div SCALE \<and> a * M_RATE < 2 ^ 256 \<and> v < 2 ^ 128"
  by (auto simp: amount_out_u128_def runs compute_amount_out_Inr)

lemma collect_run:
  assumes "collect_fee_pre_tx payer u m ben False w = Inr (x, w1)"
  obtains route inter data w0 where "plan_fee_route w0 u (get_validator_token w ben) m = Inr (Some route, inter, data)"
    "reserve_fee_liquidity u (get_validator_token w ben) m route w0 = Inr ((), w1)"
    "fee_manager w0 = fee_manager w" "keccak256 w0 = keccak256 w" "spec w0 = spec w" "quotes w0 = quotes w"
    "transfer_fee_pre_tx u payer m w = Inr ((), w0)" "is_tip20_prefix u"
proof -
  let ?auth = "(if T8 \<le> spec w then rd (\<lambda>w. ensure_authorized_as w u [(payer, transfer_or w AuthSender)])
          else rd (\<lambda>w. ensure_transfer_authorized w u payer TIP_FEE_MANAGER_ADDRESS)) :: unit M"
  have auth: "w2 = w" if "?auth w = Inr (x, w2)" for x w2
    using that by (auto simp: runs split: if_splits)
  have "\<exists>route inter data w0. transfer_fee_pre_tx u payer m w = Inr ((), w0) \<and> is_tip20_prefix u \<and>
      plan_fee_route w0 u (get_validator_token w ben) m = Inr (Some route, inter, data) \<and>
      reserve_fee_liquidity u (get_validator_token w ben) m route w0 = Inr ((), w1)"
    using assms unfolding collect_fee_pre_tx_def
    by (auto simp: rbind_eq_Inr rseq_eq_Inr rd_eq_Inr from_address_def ok_or_eq_Inr dest!: auth split: if_splits)
  then obtain route inter data w0 where pre: "transfer_fee_pre_tx u payer m w = Inr ((), w0)" and u: "is_tip20_prefix u"
    and p: "plan_fee_route w0 u (get_validator_token w ben) m = Inr (Some route, inter, data)"
    and r: "reserve_fee_liquidity u (get_validator_token w ben) m route w0 = Inr ((), w1)"
    by blast
  have "fee_manager w0 = fee_manager w" "keccak256 w0 = keccak256 w" "spec w0 = spec w" "quotes w0 = quotes w"
    using pre by (rule preservesD [rotated], intro frame)+
  then show ?thesis
    using that [OF p r] pre u by blast
qed

text \<open>The three routes, with what each reserves.\<close>

lemma collect_reserves:
  assumes run: "collect_fee_pre_tx payer u m ben False w = Inr (x, w1)" and f: "T1C \<le> spec w"
    and none: "pending_fee_swap_reservation (fee_manager w) = (\<lambda>_. 0)" "two_hop_intermediate (fee_manager w) = 0"
  defines "vt \<equiv> get_validator_token w ben" and "q \<equiv> quote_token (tokens w u)"
    and "out \<equiv> (\<lambda>a. a * M_RATE div SCALE)"
  obtains (same) "u = vt" "reserved_ok w1" "settlement ben w1 = settlement ben w"
  | (direct) "u \<noteq> vt" "m * M_RATE < 2 ^ 256" "reserved_ok w1" "settlement ben w1 =
      (spec w, keccak256 w, vt, 0, (\<lambda>_. 0)(pool_id w u vt := out m))"
  | (twohop) "u \<noteq> vt" "m * M_RATE < 2 ^ 256" "q \<noteq> 0" "reserved_ok w1" "settlement ben w1 =
      (spec w, keccak256 w, vt, q, (\<lambda>_. 0)(pool_id w u q := out m, pool_id w q vt := out (out m)))"
proof -
  obtain route inter data w0 where plan: "plan_fee_route w0 u vt m = Inr (Some route, inter, data)"
    and res: "reserve_fee_liquidity u vt m route w0 = Inr ((), w1)"
    and w0: "fee_manager w0 = fee_manager w" "keccak256 w0 = keccak256 w" "spec w0 = spec w" "quotes w0 = quotes w"
    and u: "is_tip20_prefix u"
    using collect_run [OF run] unfolding vt_def by metis
  have q0: "quote_token (tokens w0 u) = q"
    using quotes_fields(2) [OF w0(4)] by (simp add: q_def)
  have ids: "pool_id w0 a b = pool_id w a b" for a b
    by (simp add: pool_id_def w0)
  note plan_unfold = plan_fee_route_def runs compute_amount_out_Inr Let_def has_enough_reserve_validator_token_def get_pool_def
    ids from_address_def q0
  show ?thesis
  proof (cases route)
    case SameToken
    then have "u = vt" "w1 = w0"
      using plan res by (auto simp: plan_unfold reserve_fee_liquidity_def split: if_splits)
    then show ?thesis
      using same none w0 by (simp add: reserved_ok_def settlement_def get_validator_token_def)
  next
    case Direct
    then have p: "u \<noteq> vt" "out m \<le> reserve_validator_token (read_pool w0 (pool_id w u vt))" "m * M_RATE < 2 ^ 256"
      using plan by (auto simp: plan_unfold out_def split: if_splits)
    have "w1 = w0\<lparr>fee_manager := (fee_manager w0)\<lparr>pending_fee_swap_reservation :=
        (pending_fee_swap_reservation (fee_manager w0))(pool_id w u vt := out m)\<rparr>\<rparr>"
      using res Direct f w0 by (auto simp: reserve_fee_liquidity_def runs reserve_amount ids reserve_pool_liquidity_def out_def)
    then show ?thesis
      using direct p none w0 by (simp add: reserved_ok_def settlement_def read_pool_def vt_def get_validator_token_def)
  next
    case (TwoHop mid)
    then have p: "u \<noteq> vt" "mid = q" "q \<noteq> 0" "out m \<le> reserve_validator_token (read_pool w0 (pool_id w u q))"
      "out (out m) \<le> reserve_validator_token (read_pool w0 (pool_id w q vt))" "m * M_RATE < 2 ^ 256"
      using plan by (auto simp: plan_unfold out_def split: if_splits)
    have "w1 = w0\<lparr>fee_manager := (fee_manager w0)\<lparr>pending_fee_swap_reservation :=
        (pending_fee_swap_reservation (fee_manager w0))(pool_id w u q := out m, pool_id w q vt := out (out m)),
        two_hop_intermediate := q\<rparr>\<rparr>"
      using res TwoHop p(2)
      by (auto simp: reserve_fee_liquidity_def runs reserve_amount ids reserve_pool_liquidity_def out_def pool_id_def w0)
    then show ?thesis
      using twohop p none w0 by (simp add: reserved_ok_def settlement_def read_pool_def vt_def get_validator_token_def)
  qed
qed

section \<open>Settlement\<close>

lemma amount_out_le: "a * M_RATE div SCALE \<le> a"
proof -
  have "a * M_RATE \<le> a * SCALE"
    by (simp add: amm_defs)
  then have "a * M_RATE div SCALE \<le> a * SCALE div SCALE"
    by (rule div_le_mono)
  then show ?thesis
    by (simp add: SCALE_def)
qed

lemma amount_out_mono: "a \<le> b \<Longrightarrow> a * M_RATE div SCALE \<le> b * M_RATE div SCALE"
  by (simp add: div_le_mono)

lemma swap_goes_through:
  assumes "a * M_RATE div SCALE \<le> reserve_validator_token (read_pool w (pool_id w u v))" "a * M_RATE < 2 ^ 256"
    "reserve_user_token (read_pool w (pool_id w u v)) + a < 2 ^ 128"
  shows "\<exists>p. execute_fee_swap u v a w = Inr (a * M_RATE div SCALE, w\<lparr>fee_manager := (fee_manager w)\<lparr>pools :=
    (pools (fee_manager w))(pool_id w u v := p)\<rparr>\<rparr>)"
proof -
  let ?p = "read_pool w (pool_id w u v)" and ?x = "a * M_RATE div SCALE"
  let ?p' = "?p\<lparr>reserve_user_token := reserve_user_token ?p + a, reserve_validator_token := reserve_validator_token ?p - ?x\<rparr>"
  have "compute_amount_out a = Inr ?x"
    using assms(2) by (simp add: compute_amount_out_Inr)
  moreover have "?x < 2 ^ 128"
    using amount_out_le [of a] assms(3) by linarith
  then have "apply_swap ?p a ?x = Inr ?p'"
    using assms by (simp add: apply_swap_Inr)
  ultimately show ?thesis
    by (auto simp: execute_fee_swap_def rd_def rbind_def rseq_def write_pool_def)
qed

lemma amount_out_fits:
  assumes "a \<le> m" "m * M_RATE < 2 ^ 256"
  shows "a * M_RATE < 2 ^ 256" "compute_amount_out a = Inr (a * M_RATE div SCALE)"
proof -
  show "a * M_RATE < 2 ^ 256"
    using mult_le_mono1 [OF assms(1), of M_RATE] assms(2) by (rule le_less_trans)
  then show "compute_amount_out a = Inr (a * M_RATE div SCALE)"
    by (simp add: compute_amount_out_Inr)
qed

lemma settle_direct:
  assumes "u \<noteq> v" "m * M_RATE < 2 ^ 256" "a \<le> m" "reserve_user_token (read_pool w (pool_id w u v)) + m < 2 ^ 128"
    "m * M_RATE div SCALE \<le> reserve_validator_token (read_pool w (pool_id w u v))"
  shows "\<exists>w'. settle_fee u v 0 a w = Inr (a * M_RATE div SCALE, w')"
proof -
  note fit = amount_out_fits [OF assms(3,2)]
  obtain w' where "execute_fee_swap u v a w = Inr (a * M_RATE div SCALE, w')"
    using swap_goes_through [of a w u v] order_trans [OF amount_out_mono [OF assms(3)] assms(5)] fit(1) assms(3,4) by fastforce
  then show ?thesis
    using assms(1) fit(2) by (simp add: settle_fee_def only_if_def rseq_def rbind_def rd_def)
qed

lemma settle_two_hops:
  assumes "u \<noteq> v" "q \<noteq> 0" "m * M_RATE < 2 ^ 256" "a \<le> m" "\<And>i. reserve_user_token (read_pool w i) + m < 2 ^ 128"
    and ne: "pool_id w u q \<noteq> pool_id w q v"
    and "m * M_RATE div SCALE \<le> reserve_validator_token (read_pool w (pool_id w u q))"
    and "(m * M_RATE div SCALE) * M_RATE div SCALE \<le> reserve_validator_token (read_pool w (pool_id w q v))"
  shows "\<exists>w'. settle_fee u v q a w = Inr ((a * M_RATE div SCALE) * M_RATE div SCALE, w')"
proof -
  let ?out = "\<lambda>a. a * M_RATE div SCALE"
  have less: "?out a \<le> m"
    using amount_out_le [of a] assms(4) by linarith
  note fit = amount_out_fits [OF assms(4,3)] and fit' = amount_out_fits [OF less assms(3)]
  have fits: "reserve_user_token (read_pool w i) + b < 2 ^ 128" if "b \<le> m" for i b
    using assms(5) [of i] that by linarith
  obtain p where one: "execute_fee_swap u q a w = Inr (?out a, w\<lparr>fee_manager := (fee_manager w)\<lparr>pools :=
      (pools (fee_manager w))(pool_id w u q := p)\<rparr>\<rparr>)"
    using swap_goes_through [OF order_trans [OF amount_out_mono [OF assms(4)] assms(7)] fit(1)] fits [OF assms(4)] by blast
  let ?w = "w\<lparr>fee_manager := (fee_manager w)\<lparr>pools := (pools (fee_manager w))(pool_id w u q := p)\<rparr>\<rparr>"
  have same: "read_pool ?w (pool_id ?w q v) = read_pool w (pool_id w q v)"
    using ne by (simp add: read_pool_def pool_id_def)
  obtain w' where "execute_fee_swap q v (?out a) ?w = Inr (?out (?out a), w')"
    using swap_goes_through [of "?out a" ?w q v] fit'(1) fits [OF less]
      order_trans [OF amount_out_mono [OF amount_out_mono [OF assms(4)]] assms(8)] unfolding same by blast
  then show ?thesis
    using one assms(1,2) fit(2) fit'(2) by (simp add: settle_fee_def only_if_def rseq_def rbind_def rd_def ebind_def)
qed

text \<open>C27: from T1C on, a fee that was collected with a liquidity check can be settled. Whatever calls the
  transaction makes between collection and settlement, deposits, withdrawals, rebalancing and changes of
  preferences included, the fee swap of any amount up to the collected maximum goes through and yields the
  amount at the fixed rate, once per hop. The hypotheses on the state are that no reservation and no intermediate
  token is left from before the collection, that no reserve comes within the maximum of the limit of 128 bits, and that
  the two pools of a two-hop route have different identifiers. Before T1C nothing is reserved.\<close>

theorem fee_settlement_goes_through:
  assumes "collect_fee_pre_tx payer u m ben False w = Inr (x, w1)" "T1C \<le> spec w"
    and "pending_fee_swap_reservation (fee_manager w) = (\<lambda>_. 0)" "two_hop_intermediate (fee_manager w) = 0"
    and "\<forall>c\<in>set cs. within_tx c" "w2 = run_ops (fee_exec ben) cs w1" "actual \<le> m"
    and "\<forall>i. reserve_user_token (read_pool w2 i) + m < 2 ^ 128"
    and "pool_id w u (quote_token (tokens w u)) \<noteq> pool_id w (quote_token (tokens w u)) (get_validator_token w ben)"
  shows "\<exists>w3. settle_fee u (get_validator_token w2 ben) (two_hop_intermediate (fee_manager w2)) actual w2
    = Inr (if u = get_validator_token w ben then actual
           else if two_hop_intermediate (fee_manager w2) = 0 then actual * M_RATE div SCALE
           else (actual * M_RATE div SCALE) * M_RATE div SCALE, w3)"
proof -
  let ?vt = "get_validator_token w ben" and ?q = "quote_token (tokens w u)" and ?out = "\<lambda>a. a * M_RATE div SCALE"
  have calls: "reserved_ok w2" "settlement ben w2 = settlement ben w1" if "reserved_ok w1" "spec w1 = spec w"
    using within_transaction [OF _ that(1) assms(5), of ben] assms(2) that(2) unfolding assms(6) by auto
  show ?thesis
    using assms(1-4)
  proof (rule collect_reserves)
    assume r: "reserved_ok w1" and st: "settlement ben w1 = settlement ben w" and eq: "u = ?vt"
    have "settlement ben w2 = settlement ben w"
      using calls(2) [OF r settlement_fields(1) [OF st]] st by (rule trans)
    then have "get_validator_token w2 ben = u"
      using eq settlement_fields(3) by metis
    then show ?thesis
      using eq by (simp add: settle_fee_def ok_def)
  next
    assume ne: "u \<noteq> ?vt" and m: "m * M_RATE < 2 ^ 256" and r: "reserved_ok w1"
      and st: "settlement ben w1 = (spec w, keccak256 w, ?vt, 0, (\<lambda>_. 0)(pool_id w u ?vt := ?out m))"
    have r2: "reserved_ok w2" and s2: "settlement ben w2 = settlement ben w1"
      using calls [OF r] st by (simp_all add: settlement_def)
    have id: "pool_id w2 u ?vt = pool_id w u ?vt" and vt: "get_validator_token w2 ben = ?vt"
      and hop: "two_hop_intermediate (fee_manager w2) = 0"
      and pend: "pending_fee_swap_reservation (fee_manager w2) (pool_id w u ?vt) = ?out m"
      using s2 st by (simp_all add: settlement_def pool_id_def)
    have "?out m \<le> reserve_validator_token (read_pool w2 (pool_id w u ?vt))"
      using r2 pend by (metis reserved_ok_def)
    then show ?thesis
      using settle_direct [OF ne m assms(7), of w2] assms(8) ne vt hop id by simp
  next
    assume ne: "u \<noteq> ?vt" and m: "m * M_RATE < 2 ^ 256" and q: "?q \<noteq> 0" and r: "reserved_ok w1"
      and st: "settlement ben w1 = (spec w, keccak256 w, ?vt, ?q, (\<lambda>_. 0)(pool_id w u ?q := ?out m, pool_id w ?q ?vt := ?out (?out m)))"
    have r2: "reserved_ok w2" and s2: "settlement ben w2 = settlement ben w1"
      using calls [OF r] st by (simp_all add: settlement_def)
    have id: "pool_id w2 a b = pool_id w a b" and vt: "get_validator_token w2 ben = ?vt"
      and hop: "two_hop_intermediate (fee_manager w2) = ?q"
      and pend: "pending_fee_swap_reservation (fee_manager w2) (pool_id w u ?q) = ?out m"
        "pending_fee_swap_reservation (fee_manager w2) (pool_id w ?q ?vt) = ?out (?out m)" for a b
      using s2 st assms(9) by (simp_all add: settlement_def pool_id_def)
    have "?out m \<le> reserve_validator_token (read_pool w2 (pool_id w u ?q))"
        "?out (?out m) \<le> reserve_validator_token (read_pool w2 (pool_id w ?q ?vt))"
      using r2 pend by (metis reserved_ok_def)+
    then show ?thesis
      using settle_two_hops [OF ne q m assms(7), of w2] assms(8,9) ne vt hop q id by simp
  qed
qed

lemma sample_collection:
  obtains w1 where "collect_fee_pre_tx 0x111 sample_token_address 50 0x444 False sample_pool_world = Inr (sample_token_address, w1)"
    "\<And>i. reserve_user_token (read_pool w1 i) = 0" "two_hop_intermediate (fee_manager w1) = 0"
proof -
  let ?w = sample_pool_world and ?t = sample_token_address
  have pools: "reserve_user_token (pools (fee_manager ?w) i) = 0" for i
    by (simp add: sample_pool_world_def empty_fee_manager_def)
  have "is_authorized_as ?w (transfer_policy_id ?w ?t) 0x111 r = Inr True" for r
    by (simp add: is_authorized_as_def transfer_policy_id_def registered_token_transfer_policy_id_def empty_registry_def
        legacy_transfer_policy_id_def builtin_authorization_def ALLOW_ALL_POLICY_ID_def)
  then have auth: "ensure_authorized_as ?w ?t [(0x111, r)] = Inr ()" for r
    by (simp add: ensure_authorized_as_def)
  have "TIP_FEE_MANAGER_ADDRESS \<noteq> 0x111"
    by (simp add: TIP_FEE_MANAGER_ADDRESS_def)
  then obtain w' where pre: "transfer_fee_pre_tx ?t 0x111 50 ?w = Inr ((), w')"
    and same: "spec w' = T8" "keccak256 w' = sample_pair_hash" "fee_manager w' = fee_manager ?w"
    by (simp add: transfer_fee_pre_tx_def check_not_paused_def root_spending empty_keychain_def update_rewards_T8
        decrement_balance_eq increment_balance_eq debit_def rseq_def rbind_def)
  have out: "compute_amount_out 50 = Inr 49" "amount_out_u128 50 = Inr 49"
    by (simp_all add: compute_amount_out_Inr reserve_amount amm_defs)
  have "plan_fee_route w' ?t PATH_USD_ADDRESS 50 = Inr (Some Direct, None, [((?t, PATH_USD_ADDRESS), 1000)])"
    by (simp add: plan_fee_route_def out get_pool_def read_pool_def pool_id_def same has_enough_reserve_validator_token_def Let_def)
  then show ?thesis
    using that auth pre pools
    by (simp add: collect_fee_pre_tx_def from_address_def get_validator_token_def DEFAULT_FEE_TOKEN_def reserve_fee_liquidity_def
        reserve_pool_liquidity_def upd_fees_def out same read_pool_def fork_order run_defs)
qed

theorem fee_settlement_goes_through_witness:
  "\<exists>w1 w3. collect_fee_pre_tx 0x111 sample_token_address 50 0x444 False sample_pool_world = Inr (sample_token_address, w1)
    \<and> settle_fee sample_token_address (get_validator_token w1 0x444) (two_hop_intermediate (fee_manager w1)) 30 w1 = Inr (29, w3)"
proof -
  obtain w1 where run: "collect_fee_pre_tx 0x111 sample_token_address 50 0x444 False sample_pool_world = Inr (sample_token_address, w1)"
    and small: "\<And>i. reserve_user_token (read_pool w1 i) = 0" and hop: "two_hop_intermediate (fee_manager w1) = 0"
    by (rule sample_collection) blast
  have vt: "get_validator_token sample_pool_world 0x444 = PATH_USD_ADDRESS" "quote_token (tokens sample_pool_world sample_token_address) = PATH_USD_ADDRESS"
    by (simp_all add: get_validator_token_def DEFAULT_FEE_TOKEN_def)
  show ?thesis
    using fee_settlement_goes_through [OF run, where cs = "[]" and actual = 30] small hop vt run
    by (simp add: pool_id_def fork_order amm_defs)
qed

end
