(* ===== verification/Dex_Prices.thy ===== *)
theory Dex_Prices
  imports World
begin

text \<open>
  Prices and fill arithmetic of the stablecoin exchange (\<open>stablecoin_dex/orderbook.rs\<close>): ticks and scaled
  prices, the conversion between base and quote amounts with its rounding, and the arithmetic of a trade
  at one resting order. A tick is an \<open>i16\<close> and is modelled as an integer; all arithmetic on it stays far
  inside the type but for the conversion of a price out of range. The lemmas bound the rounding.
\<close>

section \<open>Ticks and prices\<close>

definition MIN_TICK :: i16 where
  "MIN_TICK = -2000"

definition MAX_TICK :: i16 where
  "MAX_TICK = 2000"

definition PRICE_SCALE :: u32 where
  "PRICE_SCALE = 100000"

definition MIN_PRICE :: u32 where
  "MIN_PRICE = 98000"

definition MAX_PRICE :: u32 where
  "MAX_PRICE = 102000"

definition TICK_SPACING :: i16 where
  "TICK_SPACING = 10"

definition MIN_ORDER_AMOUNT :: u128 where
  "MIN_ORDER_AMOUNT = 100000000"

lemmas tick_defs = MIN_TICK_def MAX_TICK_def PRICE_SCALE_def MIN_PRICE_def MAX_PRICE_def TICK_SPACING_def

definition tick_to_price :: "i16 \<Rightarrow> u32" where
  "tick_to_price tick = nat (int PRICE_SCALE + tick)"

text \<open>The conversions \<open>as i32\<close> and \<open>as i16\<close> keep the low bits in two's complement. The subtraction of two \<open>i32\<close>
  values wraps, so the low 16 bits of the result are those of the difference of the integers.\<close>

definition as_i16 :: "int \<Rightarrow> i16" where
  "as_i16 x = signed_take_bit 15 x"

lemma as_i16_id: "- 32768 \<le> x \<Longrightarrow> x < 32768 \<Longrightarrow> as_i16 x = x"
  by (simp add: as_i16_def signed_take_bit_int_eq_self)

lemma as_i16_range: "- 32768 \<le> as_i16 x" "as_i16 x < 32768"
  using signed_take_bit_int_greater_eq_minus_exp [of 15 x] signed_take_bit_int_less_exp [of 15 x] by (simp_all add: as_i16_def)

definition price_to_tick :: "u32 \<Rightarrow> i16 R" where
  "price_to_tick price =
    (if \<not> (MIN_PRICE \<le> price \<and> price \<le> MAX_PRICE)
     then Inl (StablecoinDEX (TickOutOfBounds (as_i16 (int price - int PRICE_SCALE))))
     else Inr (as_i16 (int price - int PRICE_SCALE)))"

definition validate_tick_spacing :: "i16 \<Rightarrow> unit R" where
  "validate_tick_spacing tick =
    (if tick mod TICK_SPACING \<noteq> 0 then Inl (StablecoinDEX InvalidTick) else Inr ())"

definition dex_tick_to_price :: "world \<Rightarrow> i16 \<Rightarrow> u32 R" where
  "dex_tick_to_price w tick =
    ebind (if T2 \<le> spec w then validate_tick_spacing tick else Inr ()) (\<lambda>_. Inr (tick_to_price tick))"

definition dex_price_to_tick :: "world \<Rightarrow> u32 \<Rightarrow> i16 R" where
  "dex_price_to_tick w price =
    ebind (price_to_tick price) (\<lambda>tick.
    ebind (if T2 \<le> spec w then validate_tick_spacing tick else Inr ()) (\<lambda>_. Inr tick))"

section \<open>Base and quote amounts\<close>

datatype (plugins only: code size) rounding_direction = Down | Up

definition base_to_quote :: "u128 \<Rightarrow> i16 \<Rightarrow> rounding_direction \<Rightarrow> u128 option" where
  "base_to_quote base_amount tick rounding =
    (let numerator = base_amount * tick_to_price tick in
     try_into 128 (case rounding of Down \<Rightarrow> numerator div PRICE_SCALE | Up \<Rightarrow> div_ceil numerator PRICE_SCALE))"

definition quote_to_base :: "u128 \<Rightarrow> i16 \<Rightarrow> rounding_direction \<Rightarrow> u128 option" where
  "quote_to_base quote_amount tick rounding =
    (let numerator = quote_amount * PRICE_SCALE in
     try_into 128 (case rounding of Down \<Rightarrow> numerator div tick_to_price tick | Up \<Rightarrow> div_ceil numerator (tick_to_price tick)))"

definition taker_output :: "u128 \<Rightarrow> i16 \<Rightarrow> bool \<Rightarrow> u128 option" where
  "taker_output fill_amount tick is_bid =
    (if is_bid then base_to_quote fill_amount tick Down else Some fill_amount)"

section \<open>One resting order\<close>

record order_step =
  fill_amount :: u128
  accumulate :: u128
  next_amount :: u128

definition step_exact_in :: "u128 \<Rightarrow> order \<Rightarrow> bool \<Rightarrow> order_step option" where
  "step_exact_in amount_in ord is_bid =
    (let remaining = ord_remaining ord; tick = ord_tick ord in
     Option.bind
      (if is_bid then Some (min amount_in remaining, saturating_sub amount_in remaining)
       else
         Option.bind (quote_to_base amount_in tick Down) (\<lambda>base_out.
         Option.bind
          (if base_out > remaining
           then Option.bind (base_to_quote remaining tick Up) (\<lambda>quote_needed. checked_sub amount_in quote_needed)
           else Some 0) (\<lambda>next.
         Some (min base_out remaining, next))))
      (\<lambda>(fill, next).
       Option.bind (taker_output fill tick (ord_is_bid ord)) (\<lambda>out.
       Some \<lparr>fill_amount = fill, accumulate = out, next_amount = next\<rparr>)))"

definition step_exact_out :: "u128 \<Rightarrow> order \<Rightarrow> bool \<Rightarrow> order_step option" where
  "step_exact_out amount_out ord is_bid =
    (let remaining = ord_remaining ord; tick = ord_tick ord in
     Option.bind
      (if is_bid then
         Option.bind (quote_to_base amount_out tick Up) (\<lambda>base_needed.
         let fill = min base_needed remaining in Some (fill, fill, base_needed))
       else
         let fill = min amount_out remaining in
         Option.bind (base_to_quote fill tick Up) (\<lambda>amount_in. Some (fill, amount_in, amount_out)))
      (\<lambda>(fill, acc, demand).
       Option.bind
        (if demand > remaining
         then Option.bind (taker_output remaining tick (ord_is_bid ord)) (\<lambda>received. checked_sub amount_out received)
         else Some 0) (\<lambda>next.
       Some \<lparr>fill_amount = fill, accumulate = acc, next_amount = next\<rparr>)))"

section \<open>Rounding\<close>

lemma price_bounds: "MIN_TICK \<le> t \<Longrightarrow> t \<le> MAX_TICK \<Longrightarrow> MIN_PRICE \<le> tick_to_price t \<and> tick_to_price t \<le> MAX_PRICE"
  by (simp add: tick_defs tick_to_price_def le_nat_iff nat_le_iff)

lemma scale_pos [simp]: "0 < PRICE_SCALE"
  by (simp add: PRICE_SCALE_def)

lemma div_ceil_bounds:
  assumes "0 < d"
  shows "n \<le> d * div_ceil n d" "d * div_ceil n d < n + d"
proof -
  let ?m = "n + d - 1"
  have "d * (?m div d) + ?m mod d = ?m" "?m mod d < d"
    using assms by (simp_all del: add_diff_assoc2)
  then show "n \<le> d * div_ceil n d" "d * div_ceil n d < n + d"
    using assms unfolding div_ceil_def by linarith+
qed

lemma base_to_quote_Some:
  "base_to_quote b t Down = Some q \<longleftrightarrow> q = b * tick_to_price t div PRICE_SCALE \<and> q < 2 ^ 128"
  "base_to_quote b t Up = Some q \<longleftrightarrow> q = div_ceil (b * tick_to_price t) PRICE_SCALE \<and> q < 2 ^ 128"
  by (auto simp: base_to_quote_def Let_def try_into_def)

lemma quote_to_base_Some:
  "quote_to_base q t Down = Some b \<longleftrightarrow> b = q * PRICE_SCALE div tick_to_price t \<and> b < 2 ^ 128"
  "quote_to_base q t Up = Some b \<longleftrightarrow> b = div_ceil (q * PRICE_SCALE) (tick_to_price t) \<and> b < 2 ^ 128"
  by (auto simp: quote_to_base_def Let_def try_into_def)

lemma price_pos: "MIN_TICK \<le> t \<Longrightarrow> 0 < tick_to_price t"
  by (simp add: tick_defs tick_to_price_def)

lemma rounding_gap:
  "base_to_quote b t Down = Some lo \<Longrightarrow> base_to_quote b t Up = Some hi \<Longrightarrow> lo \<le> hi \<and> hi \<le> lo + 1"
proof -
  assume "base_to_quote b t Down = Some lo" "base_to_quote b t Up = Some hi"
  then have lo: "lo = b * tick_to_price t div PRICE_SCALE" and hi: "hi = div_ceil (b * tick_to_price t) PRICE_SCALE"
    by (simp_all add: base_to_quote_Some)
  let ?n = "b * tick_to_price t"
  have n: "PRICE_SCALE * (?n div PRICE_SCALE) + ?n mod PRICE_SCALE = ?n" "?n mod PRICE_SCALE < PRICE_SCALE"
    by simp_all
  have "PRICE_SCALE * lo < PRICE_SCALE * hi + PRICE_SCALE" "PRICE_SCALE * hi < PRICE_SCALE * lo + 2 * PRICE_SCALE"
    using n div_ceil_bounds [OF scale_pos, of ?n] unfolding lo hi by linarith+
  then have "PRICE_SCALE * lo < PRICE_SCALE * (hi + 1)" "PRICE_SCALE * hi < PRICE_SCALE * (lo + 2)"
    by (simp_all add: algebra_simps)
  then have "lo < hi + 1" "hi < lo + 2"
    unfolding mult_less_cancel1 by blast+
  then show "lo \<le> hi \<and> hi \<le> lo + 1"
    by simp
qed

lemma quote_covers:
  assumes "quote_to_base q t Down = Some b" "c \<le> b" "0 < tick_to_price t"
  shows "div_ceil (c * tick_to_price t) PRICE_SCALE \<le> q"
proof -
  have "b * tick_to_price t \<le> q * PRICE_SCALE"
    using assms(1) by (simp add: quote_to_base_Some)
  then have "c * tick_to_price t \<le> q * PRICE_SCALE"
    using mult_le_mono1 [OF assms(2)] le_trans by blast
  then show ?thesis
    by (simp add: div_ceil_le_iff mult.commute)
qed

text \<open>C28: ticks and prices are inverse to each other: the exchange converts a price to a tick exactly when
  the tick is in range and the exchange converts it back to that price. From T2 on both conversions reject ticks
  that are not aligned, so this holds for the aligned ones; before T2 it holds for all.\<close>

theorem tick_price_inverse:
  "dex_price_to_tick w price = Inr tick \<longleftrightarrow>
    MIN_TICK \<le> tick \<and> tick \<le> MAX_TICK \<and> dex_tick_to_price w tick = Inr price"
proof -
  have "price_to_tick price = Inr tick \<longleftrightarrow> MIN_TICK \<le> tick \<and> tick \<le> MAX_TICK \<and> tick_to_price tick = price"
    by (auto simp: price_to_tick_def tick_to_price_def tick_defs as_i16_id)
  then show ?thesis
    by (auto simp: dex_price_to_tick_def dex_tick_to_price_def runs)
qed

end
