(* ===== verification/Dex_Book.thy ===== *)
theory Dex_Book
  imports Dex_Prices
begin

text \<open>
  The storage of the exchange: order records in their three layouts (\<open>stablecoin_dex/order\<close>), tick levels,
  and the bitmaps that mark the ticks with orders (\<open>stablecoin_dex/orderbook.rs\<close>). A record here is a value of
  \<open>stored_order\<close>, whose constructor is its layout. The slots that the code keeps for it, with the version byte, the
  forks and the clearing of old slots, are in \<open>Dex_Layout\<close>, which proves that they implement these records. The
  lemmas here show that the search over the bitmap words finds the nearest active tick.
\<close>

unbundle bit_operations_syntax

section \<open>Orders\<close>

definition new_order :: "u128 \<Rightarrow> address \<Rightarrow> b256 \<Rightarrow> u128 \<Rightarrow> i16 \<Rightarrow> bool \<Rightarrow> bool \<Rightarrow> i16 \<Rightarrow> order" where
  "new_order i m k a t b f ft =
    \<lparr>ord_id = i, ord_maker = m, ord_book_key = k, ord_is_bid = b, ord_tick = t, ord_amount = a, ord_remaining = a,
     ord_prev = 0, ord_next = 0, ord_is_flip = f, ord_flip_tick = ft\<rparr>"

definition new_flip :: "u128 \<Rightarrow> address \<Rightarrow> b256 \<Rightarrow> u128 \<Rightarrow> i16 \<Rightarrow> bool \<Rightarrow> i16 \<Rightarrow> hardfork \<Rightarrow> order option" where
  "new_flip i m k a t b ft sp =
    (let invalid = (if b then ft < t \<or> (\<not> T5 \<le> sp \<and> ft = t) else ft > t \<or> (\<not> T5 \<le> sp \<and> ft = t)) in
     if invalid then None else Some (new_order i m k a t b True ft))"

definition create_flipped_order :: "order \<Rightarrow> u128 \<Rightarrow> order" where
  "create_flipped_order ord new_id =
    \<lparr>ord_id = new_id, ord_maker = ord_maker ord, ord_book_key = ord_book_key ord, ord_is_bid = (\<not> ord_is_bid ord),
     ord_tick = ord_flip_tick ord, ord_amount = ord_amount ord, ord_remaining = ord_amount ord, ord_prev = 0, ord_next = 0,
     ord_is_flip = True, ord_flip_tick = ord_tick ord\<rparr>"

definition pack_flags :: "bool \<Rightarrow> bool \<Rightarrow> 8 word" where
  "pack_flags b f = (if b then 1 else 0) OR (if f then 2 else 0)"

definition flag_is_bid :: "8 word \<Rightarrow> bool" where
  "flag_is_bid m = (m AND 1 \<noteq> 0)"

definition flag_is_flip :: "8 word \<Rightarrow> bool" where
  "flag_is_flip m = (m AND 2 \<noteq> 0)"

definition compact_of :: "order \<Rightarrow> compact_order" where
  "compact_of ord =
    \<lparr>co_maker = ord_maker ord, co_metadata = pack_flags (ord_is_bid ord) (ord_is_flip ord), co_tick = ord_tick ord,
     co_flip_tick = ord_flip_tick ord, co_amount = ord_amount ord, co_remaining = ord_remaining ord,
     co_prev = ord_prev ord, co_next = ord_next ord\<rparr>"

definition into_order :: "compact_order \<Rightarrow> u128 \<Rightarrow> b256 \<Rightarrow> order" where
  "into_order c i k =
    \<lparr>ord_id = i, ord_maker = co_maker c, ord_book_key = k, ord_is_bid = flag_is_bid (co_metadata c), ord_tick = co_tick c,
     ord_amount = co_amount c, ord_remaining = co_remaining c, ord_prev = co_prev c, ord_next = co_next c,
     ord_is_flip = flag_is_flip (co_metadata c), ord_flip_tick = co_flip_tick c\<rparr>"

definition book_id_from_index :: "u32 \<Rightarrow> u32" where
  "book_id_from_index index = index + 1"

definition book_id_index :: "u32 \<Rightarrow> u32 option" where
  "book_id_index i = checked_sub i 1"

definition book_key_for_index :: "world \<Rightarrow> u32 \<Rightarrow> b256 R" where
  "book_key_for_index w index =
    (if index < length (book_keys (dex w)) then Inr (book_keys (dex w) ! index) else Inl (StablecoinDEX PairDoesNotExist))"

definition read_with_book_key :: "world \<Rightarrow> u128 \<Rightarrow> b256 option \<Rightarrow> order R" where
  "read_with_book_key w i known_book =
    (case orders (dex w) i of
       LegacyOrder ord \<Rightarrow> Inr ord
     | V1Order c k \<Rightarrow> Inr (into_order c i k)
     | V2Order c index \<Rightarrow>
         ebind (case known_book of None \<Rightarrow> book_key_for_index w index | Some k \<Rightarrow> Inr k) (\<lambda>k. Inr (into_order c i k)))"

definition read_in_book :: "world \<Rightarrow> u128 \<Rightarrow> b256 \<Rightarrow> order R" where
  "read_in_book w i k = read_with_book_key w i (Some k)"

definition read_order :: "world \<Rightarrow> u128 \<Rightarrow> order R" where
  "read_order w i = read_with_book_key w i None"

definition upd_dex :: "(dex_storage \<Rightarrow> dex_storage) \<Rightarrow> unit M" where
  "upd_dex f = modify (\<lambda>w. w\<lparr>dex := f (dex w)\<rparr>)"

definition upd_order :: "u128 \<Rightarrow> (stored_order \<Rightarrow> stored_order) \<Rightarrow> unit M" where
  "upd_order i f = upd_dex (\<lambda>d. d\<lparr>orders := (orders d)(i := f (orders d i))\<rparr>)"

definition store_layout :: "hardfork \<Rightarrow> order \<Rightarrow> u32 \<Rightarrow> stored_order" where
  "store_layout sp ord bid =
    (if \<not> T8 \<le> sp then LegacyOrder ord
     else case book_id_index bid of
       Some index \<Rightarrow> V2Order (compact_of ord) index
     | None \<Rightarrow> V1Order (compact_of ord) (ord_book_key ord))"

definition write_in_book :: "u128 \<Rightarrow> order \<Rightarrow> u32 \<Rightarrow> unit M" where
  "write_in_book i ord bid = rbind (gets spec) (\<lambda>sp. upd_order i (\<lambda>_. store_layout sp ord bid))"

definition delete_order :: "u128 \<Rightarrow> unit M" where
  "delete_order i = upd_order i (\<lambda>_. LegacyOrder zero_order)"

primrec set_remaining :: "u128 \<Rightarrow> stored_order \<Rightarrow> stored_order" where
  "set_remaining v (LegacyOrder ord) = LegacyOrder (ord\<lparr>ord_remaining := v\<rparr>)"
| "set_remaining v (V1Order c k) = V1Order (c\<lparr>co_remaining := v\<rparr>) k"
| "set_remaining v (V2Order c i) = V2Order (c\<lparr>co_remaining := v\<rparr>) i"

primrec set_prev :: "u128 \<Rightarrow> stored_order \<Rightarrow> stored_order" where
  "set_prev v (LegacyOrder ord) = LegacyOrder (ord\<lparr>ord_prev := v\<rparr>)"
| "set_prev v (V1Order c k) = V1Order (c\<lparr>co_prev := v\<rparr>) k"
| "set_prev v (V2Order c i) = V2Order (c\<lparr>co_prev := v\<rparr>) i"

primrec set_next :: "u128 \<Rightarrow> stored_order \<Rightarrow> stored_order" where
  "set_next v (LegacyOrder ord) = LegacyOrder (ord\<lparr>ord_next := v\<rparr>)"
| "set_next v (V1Order c k) = V1Order (c\<lparr>co_next := v\<rparr>) k"
| "set_next v (V2Order c i) = V2Order (c\<lparr>co_next := v\<rparr>) i"

section \<open>Levels\<close>

definition upd_book :: "b256 \<Rightarrow> (orderbook \<Rightarrow> orderbook) \<Rightarrow> unit M" where
  "upd_book k f = upd_dex (\<lambda>d. d\<lparr>books := (books d)(k := f (books d k))\<rparr>)"

definition tick_level_of :: "orderbook \<Rightarrow> i16 \<Rightarrow> bool \<Rightarrow> tick_level" where
  "tick_level_of b tick is_bid = (if is_bid then bids b tick else asks b tick)"

definition set_tick_level :: "i16 \<Rightarrow> bool \<Rightarrow> tick_level \<Rightarrow> orderbook \<Rightarrow> orderbook" where
  "set_tick_level tick is_bid l b =
    (if is_bid then b\<lparr>bids := (bids b)(tick := l)\<rparr> else b\<lparr>asks := (asks b)(tick := l)\<rparr>)"

definition read_level :: "world \<Rightarrow> b256 \<Rightarrow> i16 \<Rightarrow> bool \<Rightarrow> tick_level" where
  "read_level w k tick is_bid =
    (let l = tick_level_of (books (dex w) k) tick is_bid in if T12 \<le> spec w then l\<lparr>tl_total_liquidity := 0\<rparr> else l)"

definition write_level :: "b256 \<Rightarrow> i16 \<Rightarrow> bool \<Rightarrow> tick_level \<Rightarrow> unit M" where
  "write_level k tick is_bid l =
    rbind (gets spec) (\<lambda>sp.
    upd_book k (\<lambda>b. set_tick_level tick is_bid
      (if T12 \<le> sp then l\<lparr>tl_total_liquidity := tl_total_liquidity (tick_level_of b tick is_bid)\<rparr> else l) b))"

definition delete_level :: "b256 \<Rightarrow> i16 \<Rightarrow> bool \<Rightarrow> unit M" where
  "delete_level k tick is_bid = write_level k tick is_bid empty_level"

section \<open>Bitmaps\<close>

definition calc_tick_word_idx :: "i16 \<Rightarrow> i16 R" where
  "calc_tick_word_idx tick =
    (if \<not> (MIN_TICK \<le> tick \<and> tick \<le> MAX_TICK) then Inl (StablecoinDEX InvalidTick) else Inr (tick div 256))"

definition bit_index :: "i16 \<Rightarrow> nat" where
  "bit_index tick = nat (tick mod 256)"

definition bitmap_of :: "orderbook \<Rightarrow> bool \<Rightarrow> i16 \<Rightarrow> b256" where
  "bitmap_of b is_bid = (if is_bid then bid_bitmap b else ask_bitmap b)"

definition set_bitmap_word :: "bool \<Rightarrow> i16 \<Rightarrow> b256 \<Rightarrow> orderbook \<Rightarrow> orderbook" where
  "set_bitmap_word is_bid i v b =
    (if is_bid then b\<lparr>bid_bitmap := (bid_bitmap b)(i := v)\<rparr> else b\<lparr>ask_bitmap := (ask_bitmap b)(i := v)\<rparr>)"

definition set_tick_bit :: "b256 \<Rightarrow> i16 \<Rightarrow> bool \<Rightarrow> unit M" where
  "set_tick_bit k tick is_bid =
    rbind (rd (\<lambda>_. calc_tick_word_idx tick)) (\<lambda>i.
    upd_book k (\<lambda>b. set_bitmap_word is_bid i (bitmap_of b is_bid i OR push_bit (bit_index tick) 1) b))"

definition delete_tick_bit :: "b256 \<Rightarrow> i16 \<Rightarrow> bool \<Rightarrow> unit M" where
  "delete_tick_bit k tick is_bid =
    rbind (rd (\<lambda>_. calc_tick_word_idx tick)) (\<lambda>i.
    upd_book k (\<lambda>b. set_bitmap_word is_bid i (bitmap_of b is_bid i AND NOT (push_bit (bit_index tick) 1)) b))"

definition is_tick_initialized :: "world \<Rightarrow> b256 \<Rightarrow> i16 \<Rightarrow> bool \<Rightarrow> bool R" where
  "is_tick_initialized w k tick is_bid =
    ebind (calc_tick_word_idx tick) (\<lambda>i.
    Inr (bitmap_of (books (dex w) k) is_bid i AND push_bit (bit_index tick) 1 \<noteq> 0))"

definition trailing_zeros :: "b256 \<Rightarrow> nat" where
  "trailing_zeros v = length (takeWhile (\<lambda>n. \<not> bit v n) [0..<256])"

definition leading_zeros :: "b256 \<Rightarrow> nat" where
  "leading_zeros v = length (takeWhile (\<lambda>n. \<not> bit v n) (rev [0..<256]))"

function next_ask_from :: "(i16 \<Rightarrow> b256) \<Rightarrow> i16 \<Rightarrow> i16 \<times> bool" where
  "next_ask_from bitmap next_tick =
    (let word_index = next_tick div 256 in
     if word_index > MAX_TICK div 256 then (next_tick, False)
     else
       let b = bit_index next_tick;
           mask = (if b = 0 then -1 else push_bit b (-1));
           masked_word = bitmap word_index AND mask
       in
       if masked_word \<noteq> 0 then
         let found_tick = word_index * 256 + int (trailing_zeros masked_word) in (found_tick, found_tick \<le> MAX_TICK)
       else
         let next_word_index = word_index + 1 in
         if next_word_index > MAX_TICK div 256 then (next_word_index * 256, False)
         else next_ask_from bitmap (next_word_index * 256))"
  by pat_completeness auto
termination
  by (relation "measure (\<lambda>(_, t). nat (MAX_TICK div 256 + 1 - t div 256))") (auto simp: Let_def)

declare next_ask_from.simps [simp del]

definition next_initialized_ask_tick :: "orderbook \<Rightarrow> i16 \<Rightarrow> i16 \<times> bool" where
  "next_initialized_ask_tick b tick =
    (if tick \<ge> MAX_TICK then (MAX_TICK, False) else next_ask_from (ask_bitmap b) (tick + 1))"

function next_bid_from :: "(i16 \<Rightarrow> b256) \<Rightarrow> i16 \<Rightarrow> i16 \<times> bool" where
  "next_bid_from bitmap next_tick =
    (let word_index = next_tick div 256 in
     if word_index < MIN_TICK div 256 then (next_tick, False)
     else
       let b = bit_index next_tick;
           mask = (if b = 255 then -1 else drop_bit (255 - b) (-1));
           masked_word = bitmap word_index AND mask
       in
       if masked_word \<noteq> 0 then
         let found_tick = word_index * 256 + int (255 - leading_zeros masked_word) in (found_tick, found_tick \<ge> MIN_TICK)
       else
         let prev_word_index = word_index - 1 in
         if prev_word_index < MIN_TICK div 256 then (prev_word_index * 256 + 255, False)
         else next_bid_from bitmap (prev_word_index * 256 + 255))"
  by pat_completeness auto
termination
  by (relation "measure (\<lambda>(_, t). nat (t div 256 + 1 - MIN_TICK div 256))") (auto simp: Let_def)

declare next_bid_from.simps [simp del]

definition next_initialized_bid_tick :: "orderbook \<Rightarrow> i16 \<Rightarrow> i16 \<times> bool" where
  "next_initialized_bid_tick b tick =
    (if tick \<le> MIN_TICK then (MIN_TICK, False) else next_bid_from (bid_bitmap b) (tick - 1))"

definition next_initialized_tick :: "orderbook \<Rightarrow> i16 \<Rightarrow> bool \<Rightarrow> i16 \<times> bool" where
  "next_initialized_tick b tick is_bid =
    (if is_bid then next_initialized_bid_tick b tick else next_initialized_ask_tick b tick)"

section \<open>Records and updates\<close>

lemma flags_roundtrip [simp]: "flag_is_bid (pack_flags b f) = b" "flag_is_flip (pack_flags b f) = f"
  by (cases b; cases f; simp add: flag_is_bid_def flag_is_flip_def pack_flags_def)+

lemma compact_roundtrip [simp]: "into_order (compact_of ord) (ord_id ord) (ord_book_key ord) = ord"
  by (simp add: into_order_def compact_of_def)

lemma upd_dex_run [runs]: "upd_dex f w = Inr (x, w') \<longleftrightarrow> w' = w\<lparr>dex := f (dex w)\<rparr>"
  by (auto simp: upd_dex_def runs)

lemma upd_order_run [runs]:
  "upd_order i f w = Inr (x, w') \<longleftrightarrow> w' = w\<lparr>dex := (dex w)\<lparr>orders := (orders (dex w))(i := f (orders (dex w) i))\<rparr>\<rparr>"
  by (auto simp: upd_order_def runs)

lemma upd_book_run [runs]:
  "upd_book k f w = Inr (x, w') \<longleftrightarrow> w' = w\<lparr>dex := (dex w)\<lparr>books := (books (dex w))(k := f (books (dex w) k))\<rparr>\<rparr>"
  by (auto simp: upd_book_def runs)

section \<open>The nearest active tick\<close>

definition active :: "(i16 \<Rightarrow> b256) \<Rightarrow> i16 \<Rightarrow> bool" where
  "active bitmap t = bit (bitmap (t div 256)) (bit_index t)"

lemma bit_index_less: "bit_index t < 256"
  by (simp add: bit_index_def nat_less_iff)

lemma tick_split: "t div 256 * 256 + int (bit_index t) = t"
  by (simp add: bit_index_def)

lemma tick_join: "n < 256 \<Longrightarrow> (i * 256 + int n) div 256 = i" "n < 256 \<Longrightarrow> bit_index (i * 256 + int n) = n"
  by (simp_all add: bit_index_def)

lemma trailing_zeros:
  assumes "v \<noteq> 0"
  shows "trailing_zeros v < 256" "bit v (trailing_zeros v)" "n < trailing_zeros v \<Longrightarrow> \<not> bit v n"
proof -
  let ?t = "takeWhile (\<lambda>n. \<not> bit v n) [0..<256]"
  obtain k where k: "bit v k" "k < 256"
    using assms bit_imp_le_length [of v] by (auto simp: bit_eq_iff)
  show less: "trailing_zeros v < 256"
  proof (rule ccontr)
    assume "\<not> trailing_zeros v < 256"
    then have "?t = [0..<256]"
      unfolding trailing_zeros_def using takeWhile_eq_take [of "\<lambda>n. \<not> bit v n" "[0..<256]"] by simp
    then show False
      using k unfolding takeWhile_eq_all_conv by simp
  qed
  then show "bit v (trailing_zeros v)"
    using nth_length_takeWhile [of "\<lambda>n. \<not> bit v n" "[0..<256]"] by (simp add: trailing_zeros_def)
  show "\<not> bit v n" if "n < trailing_zeros v"
    using that less nth_mem [of n ?t] set_takeWhileD [of "?t ! n" "\<lambda>n. \<not> bit v n" "[0..<256]"] takeWhile_nth [of n "\<lambda>n. \<not> bit v n" "[0..<256]"]
    by (simp add: trailing_zeros_def)
qed

lemma leading_zeros:
  assumes "v \<noteq> 0"
  shows "leading_zeros v < 256" "bit v (255 - leading_zeros v)" "255 - leading_zeros v < n \<Longrightarrow> \<not> bit v n"
proof -
  let ?r = "rev [0..<256]" let ?t = "takeWhile (\<lambda>n. \<not> bit v n) ?r"
  have nth: "?r ! n = 255 - n" if "n < 256" for n
    using that by (simp add: rev_nth)
  obtain k where k: "bit v k" "k < 256"
    using assms bit_imp_le_length [of v] by (auto simp: bit_eq_iff)
  show less: "leading_zeros v < 256"
  proof (rule ccontr)
    assume "\<not> leading_zeros v < 256"
    then have "?t = ?r"
      unfolding leading_zeros_def using takeWhile_eq_take [of "\<lambda>n. \<not> bit v n" ?r] by simp
    then show False
      using k unfolding takeWhile_eq_all_conv by simp
  qed
  then show "bit v (255 - leading_zeros v)"
    using nth_length_takeWhile [of "\<lambda>n. \<not> bit v n" ?r] nth [OF less] by (simp add: leading_zeros_def)
  show "\<not> bit v n" if n: "255 - leading_zeros v < n"
  proof
    assume "bit v n"
    then have "n < 256"
      using bit_imp_le_length [of v n] by simp
    then have "255 - n < leading_zeros v" "?t ! (255 - n) = n"
      using n less takeWhile_nth [of "255 - n" "\<lambda>n. \<not> bit v n" ?r] nth [of "255 - n"] by (simp_all add: leading_zeros_def)
    then have "n \<in> set ?t"
      unfolding leading_zeros_def by (metis nth_mem)
    then show False
      using \<open>bit v n\<close> by (auto dest: set_takeWhileD)
  qed
qed

lemma same_word:
  fixes i m :: int
  assumes "i * 256 \<le> m" "m < i * 256 + 256"
  shows "m div 256 = i"
proof (rule int_div_pos_eq [where r = "m - i * 256"])
  show "m = 256 * i + (m - i * 256)"
    by (rule diff_add_cancel [symmetric, THEN trans]) (rule trans [OF add.commute], simp only: mult.commute)
  show "0 \<le> m - i * 256"
    using assms(1) by (simp only: diff_ge_0_iff_ge)
  show "m - i * 256 < 256"
    using assms(2) by (simp only: diff_less_eq add.commute)
qed

lemma found_in_word:
  fixes i :: int and v :: b256
  assumes "v \<noteq> 0" "\<forall>j<256. bit v j \<longleftrightarrow> bit (bm i) j \<and> P j"
  shows "active bm (i * 256 + int (trailing_zeros v))" "P (trailing_zeros v)"
    "i * 256 \<le> m \<Longrightarrow> m < i * 256 + int (trailing_zeros v) \<Longrightarrow> P (bit_index m) \<Longrightarrow> \<not> active bm m"
    "active bm (i * 256 + int (255 - leading_zeros v))" "P (255 - leading_zeros v)"
    "m < i * 256 + 256 \<Longrightarrow> i * 256 + int (255 - leading_zeros v) < m \<Longrightarrow> P (bit_index m) \<Longrightarrow> \<not> active bm m"
proof -
  note tz = trailing_zeros [OF assms(1)] and lz = leading_zeros [OF assms(1)]
  have l: "255 - leading_zeros v < 256"
    by simp
  show "active bm (i * 256 + int (trailing_zeros v))" "P (trailing_zeros v)"
    using tz assms(2) [rule_format, OF tz(1)] by (simp_all add: active_def tick_join)
  show "active bm (i * 256 + int (255 - leading_zeros v))" "P (255 - leading_zeros v)"
    using lz assms(2) [rule_format, OF l] tick_join [OF l, of i] by (simp_all add: active_def)
  have here: "active bm m \<longleftrightarrow> bit v (bit_index m)" "m = i * 256 + int (bit_index m)"
    if "i * 256 \<le> m" "m < i * 256 + 256" "P (bit_index m)" for m
    using same_word [OF that(1,2)] tick_split [of m] assms(2) [rule_format, OF bit_index_less [of m]] that(3) by (simp_all add: active_def)
  show "\<not> active bm m" if "i * 256 \<le> m" "m < i * 256 + int (trailing_zeros v)" "P (bit_index m)"
  proof -
    have m: "m < i * 256 + 256"
      using that(2) tz(1) by linarith
    then have "bit_index m < trailing_zeros v"
      using here(2) [OF that(1) m that(3)] that(2) by linarith
    then show ?thesis
      using here(1) [OF that(1) m that(3)] tz(3) by blast
  qed
  show "\<not> active bm m" if "m < i * 256 + 256" "i * 256 + int (255 - leading_zeros v) < m" "P (bit_index m)"
  proof -
    have m: "i * 256 \<le> m"
      using that(2) by linarith
    then have "255 - leading_zeros v < bit_index m"
      using here(2) [OF m that(1,3)] that(2) by linarith
    then show ?thesis
      using here(1) [OF m that(1,3)] lz(3) by blast
  qed
qed

lemma none_in_word:
  assumes "v = 0" "\<forall>j<256. bit v j \<longleftrightarrow> bit (bm i) j \<and> P j"
    "i * 256 \<le> m" "m < i * 256 + 256" "P (bit_index m)"
  shows "\<not> active bm m"
  using assms(2) [rule_format, OF bit_index_less [of m]] assms(1,5) same_word [OF assms(3,4)] by (simp add: active_def)

definition nearest_above :: "(i16 \<Rightarrow> b256) \<Rightarrow> i16 \<Rightarrow> i16 \<times> bool \<Rightarrow> bool" where
  "nearest_above bm n r = (case r of (t, found) \<Rightarrow>
    (found \<longrightarrow> n \<le> t \<and> t \<le> MAX_TICK \<and> active bm t) \<and> (\<forall>m. n \<le> m \<longrightarrow> m \<le> MAX_TICK \<longrightarrow> (found \<longrightarrow> m < t) \<longrightarrow> \<not> active bm m))"

lemma nearest_above_skip:
  "nearest_above bm n' r \<Longrightarrow> n \<le> n' \<Longrightarrow> (\<And>m. n \<le> m \<Longrightarrow> m < n' \<Longrightarrow> \<not> active bm m) \<Longrightarrow> nearest_above bm n r"
  by (fastforce simp: nearest_above_def split: prod.splits)

lemma next_ask_from_nearest: "nearest_above bm n (next_ask_from bm n)"
proof (induction bm n rule: next_ask_from.induct)
  case (1 bm n)
  define i b v where "i = n div 256" and "b = bit_index n" and "v = bm i AND (if b = 0 then -1 else push_bit b (-1))"
  have bits: "\<forall>j<256. bit v j \<longleftrightarrow> bit (bm i) j \<and> b \<le> j"
    by (auto simp: v_def bit_simps)
  have n: "n = i * 256 + int b" "b < 256"
    using tick_split [of n] bit_index_less [of n] by (simp_all add: i_def b_def)
  have above: "i * 256 \<le> m" "m < i * 256 + 256 \<Longrightarrow> b \<le> bit_index m" if "n \<le> m" for m
    using that n tick_split [of m] same_word [of i m] by auto
  have eq: "next_ask_from bm n = (if i > MAX_TICK div 256 then (n, False)
      else if v \<noteq> 0 then (i * 256 + int (trailing_zeros v), i * 256 + int (trailing_zeros v) \<le> MAX_TICK)
      else if i + 1 > MAX_TICK div 256 then (i * 256 + 256, False) else next_ask_from bm (i * 256 + 256))"
    by (subst next_ask_from.simps) (simp add: Let_def v_def i_def b_def distrib_right)
  consider "i > MAX_TICK div 256" | "\<not> i > MAX_TICK div 256" "v \<noteq> 0" | "\<not> i > MAX_TICK div 256" "v = 0"
    by blast
  then show ?case
  proof cases
    case 1
    then show ?thesis
      using n unfolding eq by (simp add: nearest_above_def tick_defs)
  next
    case 2
    note f = found_in_word [where bm = bm and i = i and P = "\<lambda>j. b \<le> j", OF 2(2) bits]
    have "\<not> active bm m" if "n \<le> m" "m < i * 256 + int (trailing_zeros v)" for m
      using f(3) [OF above(1) [OF that(1)] that(2)] above(2) [OF that(1)] that(2) trailing_zeros(1) [OF 2(2)] by fastforce
    then show ?thesis
      using 2 f(1,2) n unfolding eq by (force simp: nearest_above_def)
  next
    case 3
    have "\<not> active bm m" if "n \<le> m" "m < i * 256 + 256" for m
      using none_in_word [where bm = bm and i = i and P = "\<lambda>j. b \<le> j", OF 3(2) bits above(1) [OF that(1)] that(2)] above(2) [OF that] by blast
    moreover have "nearest_above bm (i * 256 + 256) (next_ask_from bm n)"
    proof (cases "i + 1 > MAX_TICK div 256")
      case True
      then show ?thesis
        using 3 unfolding eq by (simp add: nearest_above_def tick_defs)
    next
      case False
      then have "nearest_above bm ((i + 1) * 256) (next_ask_from bm ((i + 1) * 256))"
        using "1.IH" [OF i_def _ b_def refl refl] 3 by (simp add: v_def)
      then show ?thesis
        using False 3 unfolding eq by (simp add: distrib_right)
    qed
    moreover have "n \<le> i * 256 + 256"
      using n by linarith
    ultimately show ?thesis
      using nearest_above_skip by blast
  qed
qed

definition nearest_below :: "(i16 \<Rightarrow> b256) \<Rightarrow> i16 \<Rightarrow> i16 \<times> bool \<Rightarrow> bool" where
  "nearest_below bm n r = (case r of (t, found) \<Rightarrow>
    (found \<longrightarrow> t \<le> n \<and> MIN_TICK \<le> t \<and> active bm t) \<and> (\<forall>m. m \<le> n \<longrightarrow> MIN_TICK \<le> m \<longrightarrow> (found \<longrightarrow> t < m) \<longrightarrow> \<not> active bm m))"

lemma nearest_below_skip:
  "nearest_below bm n' r \<Longrightarrow> n' \<le> n \<Longrightarrow> (\<And>m. n' < m \<Longrightarrow> m \<le> n \<Longrightarrow> \<not> active bm m) \<Longrightarrow> nearest_below bm n r"
  by (cases r) (simp add: nearest_below_def, metis not_le order_trans)

lemma next_bid_from_nearest: "nearest_below bm n (next_bid_from bm n)"
proof (induction bm n rule: next_bid_from.induct)
  case (1 bm n)
  define i b v where "i = n div 256" and "b = bit_index n" and "v = bm i AND (if b = 255 then -1 else drop_bit (255 - b) (-1))"
  have n: "n = i * 256 + int b" "b < 256"
    using tick_split [of n] bit_index_less [of n] by (simp_all add: i_def b_def)
  have bits: "\<forall>j<256. bit v j \<longleftrightarrow> bit (bm i) j \<and> j \<le> b"
    using n(2) by (auto simp: v_def bit_simps)
  have below: "m < i * 256 + 256" "i * 256 \<le> m \<Longrightarrow> bit_index m \<le> b" if "m \<le> n" for m
    using that n tick_split [of m] same_word [of i m] by auto
  have eq: "next_bid_from bm n = (if i < MIN_TICK div 256 then (n, False)
      else if v \<noteq> 0 then (i * 256 + int (255 - leading_zeros v), i * 256 + int (255 - leading_zeros v) \<ge> MIN_TICK)
      else if i - 1 < MIN_TICK div 256 then (i * 256 - 1, False) else next_bid_from bm (i * 256 - 1))"
    by (subst next_bid_from.simps) (simp add: Let_def v_def i_def b_def left_diff_distrib)
  consider "i < MIN_TICK div 256" | "\<not> i < MIN_TICK div 256" "v \<noteq> 0" | "\<not> i < MIN_TICK div 256" "v = 0"
    by blast
  then show ?case
  proof cases
    case 1
    then show ?thesis
      using n unfolding eq by (simp add: nearest_below_def tick_defs)
  next
    case 2
    note f = found_in_word [where bm = bm and i = i and P = "\<lambda>j. j \<le> b", OF 2(2) bits]
    have "\<not> active bm m" if "m \<le> n" "i * 256 + int (255 - leading_zeros v) < m" for m
      using f(6) [OF below(1) [OF that(1)] that(2)] below(2) [OF that(1)] that(2) by fastforce
    then show ?thesis
      using 2 f(4,5) n unfolding eq by (force simp: nearest_below_def)
  next
    case 3
    have "\<not> active bm m" if "i * 256 - 1 < m" "m \<le> n" for m
      using none_in_word [where bm = bm and i = i and P = "\<lambda>j. j \<le> b", OF 3(2) bits _ below(1) [OF that(2)]] below(2) [OF that(2)] that(1) by fastforce
    moreover have "nearest_below bm (i * 256 - 1) (next_bid_from bm n)"
    proof (cases "i - 1 < MIN_TICK div 256")
      case True
      then show ?thesis
        using 3 unfolding eq by (simp add: nearest_below_def tick_defs)
    next
      case False
      then have "nearest_below bm ((i - 1) * 256 + 255) (next_bid_from bm ((i - 1) * 256 + 255))"
        using "1.IH" [OF i_def _ b_def refl refl] 3 by (simp add: v_def)
      then show ?thesis
        using False 3 unfolding eq by (simp add: left_diff_distrib)
    qed
    moreover have "i * 256 - 1 \<le> n"
      using n by linarith
    ultimately show ?thesis
      using nearest_below_skip by blast
  qed
qed

definition beyond :: "bool \<Rightarrow> i16 \<Rightarrow> i16 \<Rightarrow> bool" where
  "beyond is_bid a t = (if is_bid then t < a else a < t)"

lemma is_tick_initialized_iff:
  "is_tick_initialized w k t is_bid = Inr True \<longleftrightarrow> MIN_TICK \<le> t \<and> t \<le> MAX_TICK \<and> active (bitmap_of (books (dex w) k) is_bid) t"
proof -
  have "v AND push_bit (bit_index t) 1 \<noteq> 0 \<longleftrightarrow> bit v (bit_index t)" for v :: b256
    by (simp add: push_bit_eq_mult and_exp_eq_0_iff_not_bit)
  then show ?thesis
    by (auto simp: is_tick_initialized_def calc_tick_word_idx_def active_def)
qed

lemma nearest_tick:
  assumes "MIN_TICK \<le> tick" "tick \<le> MAX_TICK" "next_initialized_tick b tick is_bid = (t, found)"
  shows "found \<longleftrightarrow> (\<exists>m. beyond is_bid tick m \<and> MIN_TICK \<le> m \<and> m \<le> MAX_TICK \<and> active (bitmap_of b is_bid) m)"
    "found \<Longrightarrow> beyond is_bid tick t \<and> MIN_TICK \<le> t \<and> t \<le> MAX_TICK \<and> active (bitmap_of b is_bid) t"
    "found \<Longrightarrow> beyond is_bid tick m \<Longrightarrow> MIN_TICK \<le> m \<Longrightarrow> m \<le> MAX_TICK \<Longrightarrow> active (bitmap_of b is_bid) m \<Longrightarrow> m = t \<or> beyond is_bid t m"
proof -
  have "(found \<longleftrightarrow> (\<exists>m. beyond is_bid tick m \<and> MIN_TICK \<le> m \<and> m \<le> MAX_TICK \<and> active (bitmap_of b is_bid) m))
    \<and> (found \<longrightarrow> beyond is_bid tick t \<and> MIN_TICK \<le> t \<and> t \<le> MAX_TICK \<and> active (bitmap_of b is_bid) t)
    \<and> (found \<longrightarrow> (\<forall>m. beyond is_bid tick m \<and> beyond is_bid m t \<and> MIN_TICK \<le> m \<and> m \<le> MAX_TICK \<longrightarrow> \<not> active (bitmap_of b is_bid) m))"
  proof (cases is_bid)
    case True
    have "nearest_below (bid_bitmap b) (tick - 1) (t, found)"
      using assms next_bid_from_nearest [of "bid_bitmap b" "tick - 1"] True
      by (auto simp: next_initialized_tick_def next_initialized_bid_tick_def nearest_below_def split: if_splits)
    then show ?thesis
      using True assms(1,2) by (fastforce simp: nearest_below_def beyond_def bitmap_of_def)
  next
    case False
    have "nearest_above (ask_bitmap b) (tick + 1) (t, found)"
      using assms next_ask_from_nearest [of "ask_bitmap b" "tick + 1"] False
      by (auto simp: next_initialized_tick_def next_initialized_ask_tick_def nearest_above_def split: if_splits)
    then show ?thesis
      using False assms(1,2) by (force simp: nearest_above_def beyond_def bitmap_of_def add1_zle_eq)
  qed
  moreover have "beyond is_bid m t \<or> m = t \<or> beyond is_bid t m" for m
    by (auto simp: beyond_def)
  ultimately show "found \<longleftrightarrow> (\<exists>m. beyond is_bid tick m \<and> MIN_TICK \<le> m \<and> m \<le> MAX_TICK \<and> active (bitmap_of b is_bid) m)"
    "found \<Longrightarrow> beyond is_bid tick t \<and> MIN_TICK \<le> t \<and> t \<le> MAX_TICK \<and> active (bitmap_of b is_bid) t"
    "found \<Longrightarrow> beyond is_bid tick m \<Longrightarrow> MIN_TICK \<le> m \<Longrightarrow> m \<le> MAX_TICK \<Longrightarrow> active (bitmap_of b is_bid) m \<Longrightarrow> m = t \<or> beyond is_bid t m"
    by blast+
qed

text \<open>C30: the search over the words of the bitmap returns the nearest tick with orders beyond the given one,
  upwards for asks and downwards for bids, and reports that there is none exactly when no tick beyond the
  given one has orders.\<close>

theorem nearest_tick_found:
  assumes "MIN_TICK \<le> tick" "tick \<le> MAX_TICK" "next_initialized_tick (books (dex w) k) tick is_bid = (t, found)"
  shows "found = (\<exists>m. beyond is_bid tick m \<and> is_tick_initialized w k m is_bid = Inr True)
    \<and> (found \<longrightarrow> beyond is_bid tick t \<and> is_tick_initialized w k t is_bid = Inr True
        \<and> (\<forall>m. beyond is_bid tick m \<and> beyond is_bid m t \<longrightarrow> is_tick_initialized w k m is_bid \<noteq> Inr True))"
proof -
  have "\<not> beyond is_bid m t" if "m = t \<or> beyond is_bid t m" for m
    using that by (auto simp: beyond_def split: if_splits)
  then show ?thesis
    using nearest_tick [OF assms] unfolding is_tick_initialized_iff by blast
qed

section \<open>Samples\<close>

definition sample_bitmap_world :: world where
  "sample_bitmap_world = (empty_world T8)\<lparr>dex := empty_dex\<lparr>books := (\<lambda>_. empty_book)(7 := empty_book\<lparr>ask_bitmap := (\<lambda>_. 0)(0 := 1024)\<rparr>)\<rparr>\<rparr>"

lemma sample_search: "next_initialized_tick (books (dex sample_bitmap_world) 7) (- 20) False = (10, True)"
proof -
  have "trailing_zeros 1024 = 10"
    by code_simp
  moreover have "(1024 :: b256) AND mask 236 = 1024" "(1024 :: b256) AND push_bit 0 (-1) = 1024"
    by code_simp+
  ultimately show ?thesis
    by (simp add: next_initialized_tick_def next_initialized_ask_tick_def next_ask_from.simps bit_index_def sample_bitmap_world_def tick_defs Let_def)
qed

theorem nearest_tick_found_witness:
  "next_initialized_tick (books (dex sample_bitmap_world) 7) (- 20) False = (10, True)
    \<and> is_tick_initialized sample_bitmap_world 7 10 False = Inr True"
  using nearest_tick_found [OF _ _ sample_search] sample_search by (simp add: tick_defs)

end
