(* ===== verification/Net_Addr.thy ===== *)
theory Net_Addr
  imports Prelude
begin

text \<open>
  IP and socket addresses of the Rust standard library, as the validator configuration uses them: parsing a
  text as \<open>std::net::IpAddr\<close> or \<open>std::net::SocketAddr\<close>, and printing an \<open>IpAddr\<close>. A parser returns the value
  and the unread rest. IPv4 addresses are their four octets, IPv6 addresses their eight 16-bit segments. The
  main result is that a printed address parses as the same address.
\<close>

section \<open>Parsing\<close>

datatype (plugins only: code size) ip_addr = V4 "nat list" | V6 "nat list"

datatype (plugins only: code size) socket_addr = SocketV4 "nat list" u16 | SocketV6 "nat list" u32 u16

definition to_digit :: "nat \<Rightarrow> char \<Rightarrow> nat option" where
  "to_digit radix c =
    (let n = of_char c :: nat;
         d = (if 48 \<le> n \<and> n \<le> 57 then n - 48
              else if 97 \<le> n \<and> n \<le> 122 then n - 87
              else if 65 \<le> n \<and> n \<le> 90 then n - 55
              else radix)
     in if d < radix then Some d else None)"

fun read_digits :: "nat \<Rightarrow> string \<Rightarrow> nat list \<times> string" where
  "read_digits radix [] = ([], [])"
| "read_digits radix (c # s) =
    (case to_digit radix c of
       None \<Rightarrow> ([], c # s)
     | Some d \<Rightarrow> (d # fst (read_digits radix s), snd (read_digits radix s)))"

text \<open>The number must fit \<open>w\<close> bits; with a bound on the digits, one digit too many is an error.\<close>

definition read_number :: "nat \<Rightarrow> nat option \<Rightarrow> bool \<Rightarrow> nat \<Rightarrow> string \<Rightarrow> (nat \<times> string) option" where
  "read_number radix max_digits allow_zero_prefix w s =
    (let ds = fst (read_digits radix s); v = foldl (\<lambda>v d. v * radix + d) 0 ds in
     if ds = [] \<or> (case max_digits of None \<Rightarrow> False | Some m \<Rightarrow> length ds > m) \<or> (\<not> allow_zero_prefix \<and> length ds > 1 \<and> hd ds = 0) \<or> v \<ge> 2 ^ w
     then None else Some (v, snd (read_digits radix s)))"

definition read_given_char :: "char \<Rightarrow> string \<Rightarrow> string option" where
  "read_given_char c s = (case s of [] \<Rightarrow> None | x # r \<Rightarrow> if x = c then Some r else None)"

definition read_separator :: "char \<Rightarrow> nat \<Rightarrow> (string \<Rightarrow> ('a \<times> string) option) \<Rightarrow> string \<Rightarrow> ('a \<times> string) option" where
  "read_separator c i p s = (if i > 0 then Option.bind (read_given_char c s) p else p s)"

fun read_octets :: "nat \<Rightarrow> nat \<Rightarrow> string \<Rightarrow> (nat list \<times> string) option" where
  "read_octets 0 i s = Some ([], s)"
| "read_octets (Suc n) i s =
    (case read_separator CHR ''.'' i (read_number 10 (Some 3) False 8) s of
       None \<Rightarrow> None
     | Some (x, r) \<Rightarrow> map_option (apfst (Cons x)) (read_octets n (i + 1) r))"

definition read_ipv4_addr :: "string \<Rightarrow> (nat list \<times> string) option" where
  "read_ipv4_addr s = read_octets 4 0 s"

text \<open>Groups of an IPv6 address, of which the last two may be written as an IPv4 address. The flag tells
  whether they were.\<close>

fun read_groups :: "nat \<Rightarrow> nat \<Rightarrow> string \<Rightarrow> nat list \<times> bool \<times> string" where
  "read_groups 0 i s = ([], False, s)"
| "read_groups (Suc n) i s =
    (case (if n > 0 then read_separator CHR '':'' i read_ipv4_addr s else None) of
       Some (os, r) \<Rightarrow> ([256 * os ! 0 + os ! 1, 256 * os ! 2 + os ! 3], True, r)
     | None \<Rightarrow>
         (case read_separator CHR '':'' i (read_number 16 (Some 4) True 16) s of
            None \<Rightarrow> ([], False, s)
          | Some (g, r) \<Rightarrow> apfst (Cons g) (read_groups n (i + 1) r)))"

definition read_ipv6_addr :: "string \<Rightarrow> (nat list \<times> string) option" where
  "read_ipv6_addr s =
    (case read_groups 8 0 s of (front, front_ipv4, r) \<Rightarrow>
     if length front = 8 then Some (front, r)
     else if front_ipv4 then None
     else Option.bind (Option.bind (read_given_char CHR '':'' r) (read_given_char CHR '':'')) (\<lambda>r.
       case read_groups (8 - (length front + 1)) 0 r of (back, _, r) \<Rightarrow>
       Some (front @ replicate (8 - length front - length back) 0 @ back, r)))"

definition read_ip_addr :: "string \<Rightarrow> (ip_addr \<times> string) option" where
  "read_ip_addr s =
    (case read_ipv4_addr s of
       Some (os, r) \<Rightarrow> Some (V4 os, r)
     | None \<Rightarrow> map_option (apfst V6) (read_ipv6_addr s))"

definition read_port :: "string \<Rightarrow> (u16 \<times> string) option" where
  "read_port s = Option.bind (read_given_char CHR '':'' s) (read_number 10 None True 16)"

definition read_scope_id :: "string \<Rightarrow> (u32 \<times> string) option" where
  "read_scope_id s = Option.bind (read_given_char CHR ''%'' s) (read_number 10 None True 32)"

definition read_socket_addr_v4 :: "string \<Rightarrow> (socket_addr \<times> string) option" where
  "read_socket_addr_v4 s =
    Option.bind (read_ipv4_addr s) (\<lambda>(os, r).
    Option.bind (read_port r) (\<lambda>(port, r).
    Some (SocketV4 os port, r)))"

definition read_socket_addr_v6 :: "string \<Rightarrow> (socket_addr \<times> string) option" where
  "read_socket_addr_v6 s =
    Option.bind (read_given_char CHR ''['' s) (\<lambda>r.
    Option.bind (read_ipv6_addr r) (\<lambda>(segments, r).
    let (scope_id, r) = (case read_scope_id r of None \<Rightarrow> (0, r) | Some x \<Rightarrow> x) in
    Option.bind (read_given_char CHR '']'' r) (\<lambda>r.
    Option.bind (read_port r) (\<lambda>(port, r).
    Some (SocketV6 segments scope_id port, r)))))"

definition read_socket_addr :: "string \<Rightarrow> (socket_addr \<times> string) option" where
  "read_socket_addr s = (case read_socket_addr_v4 s of None \<Rightarrow> read_socket_addr_v6 s | Some x \<Rightarrow> Some x)"

definition parse_with :: "(string \<Rightarrow> ('a \<times> string) option) \<Rightarrow> string \<Rightarrow> 'a option" where
  "parse_with p s = (case p s of Some (x, []) \<Rightarrow> Some x | _ \<Rightarrow> None)"

definition parse_ip_addr :: "string \<Rightarrow> ip_addr option" where
  "parse_ip_addr = parse_with read_ip_addr"

definition parse_socket_addr :: "string \<Rightarrow> socket_addr option" where
  "parse_socket_addr = parse_with read_socket_addr"

definition socket_ip :: "socket_addr \<Rightarrow> ip_addr" where
  "socket_ip a = (case a of SocketV4 os port \<Rightarrow> V4 os | SocketV6 segments scope_id port \<Rightarrow> V6 segments)"

definition v6_octets :: "nat list \<Rightarrow> nat list" where
  "v6_octets segments = concat (map (\<lambda>s. [s div 256, s mod 256]) segments)"

section \<open>Printing\<close>

definition digit_char :: "nat \<Rightarrow> char" where
  "digit_char d = (if d < 10 then char_of (48 + d) else char_of (87 + d))"

text \<open>The digits of a number in a base, without leading zeros.\<close>

fun digits_of :: "nat \<Rightarrow> nat \<Rightarrow> nat list" where
  "digits_of radix n = (if n < radix \<or> radix < 2 then [n] else digits_of radix (n div radix) @ [n mod radix])"

declare digits_of.simps [simp del]

definition show_number :: "nat \<Rightarrow> nat \<Rightarrow> string" where
  "show_number radix n = map digit_char (digits_of radix n)"

fun joined :: "char \<Rightarrow> nat \<Rightarrow> string list \<Rightarrow> string" where
  "joined c i [] = []"
| "joined c i (x # xs) = (if i > 0 then c # x else x) @ joined c (i + 1) xs"

definition show_ipv4 :: "nat list \<Rightarrow> string" where
  "show_ipv4 os = joined CHR ''.'' 0 (map (show_number 10) os)"

definition show_segments :: "nat list \<Rightarrow> string" where
  "show_segments gs = joined CHR '':'' 0 (map (show_number 16) gs)"

text \<open>The longest run of zero segments, the first of equally long ones: a start and a length.\<close>

fun zero_run :: "nat \<Rightarrow> nat list \<Rightarrow> nat \<times> nat \<Rightarrow> nat \<times> nat \<Rightarrow> nat \<times> nat" where
  "zero_run i [] current longest = longest"
| "zero_run i (g # gs) current longest =
    (if g = 0 then
       let current = (if snd current = 0 then (i, 1) else (fst current, snd current + 1)) in
       zero_run (i + 1) gs current (if snd current > snd longest then current else longest)
     else zero_run (i + 1) gs (0, 0) longest)"

definition is_ipv4_mapped :: "nat list \<Rightarrow> bool" where
  "is_ipv4_mapped gs = (take 6 gs = [0, 0, 0, 0, 0, 65535])"

definition show_ipv6 :: "nat list \<Rightarrow> string" where
  "show_ipv6 gs =
    (if is_ipv4_mapped gs then ''::ffff:'' @ show_ipv4 [gs ! 6 div 256, gs ! 6 mod 256, gs ! 7 div 256, gs ! 7 mod 256]
     else let (start, len) = zero_run 0 gs (0, 0) (0, 0) in
       if len > 1 then show_segments (take start gs) @ ''::'' @ show_segments (drop (start + len) gs)
       else show_segments gs)"

definition show_ip_addr :: "ip_addr \<Rightarrow> string" where
  "show_ip_addr a = (case a of V4 os \<Rightarrow> show_ipv4 os | V6 gs \<Rightarrow> show_ipv6 gs)"

definition ip_wf :: "ip_addr \<Rightarrow> bool" where
  "ip_wf a = (case a of V4 os \<Rightarrow> length os = 4 \<and> (\<forall>x\<in>set os. x < 256) | V6 gs \<Rightarrow> length gs = 8 \<and> (\<forall>x\<in>set gs. x < 65536))"

section \<open>Numbers\<close>

lemma to_digit_char:
  assumes "d < radix" "radix \<le> 16"
  shows "to_digit radix (digit_char d) = Some d"
proof -
  have "\<forall>d<16. (if d < 10 then 48 + d else 87 + d) < (256 :: nat)"
    by simp
  then show ?thesis
    using assms by (auto simp: to_digit_def digit_char_def Let_def)
qed

lemma digits_bound: "2 \<le> radix \<Longrightarrow> d \<in> set (digits_of radix n) \<Longrightarrow> d < radix"
proof (induction radix n rule: digits_of.induct)
  case (1 radix n)
  then show ?case
    by (subst (asm) digits_of.simps [of radix n]) (auto split: if_splits)
qed

lemma digits_value: "2 \<le> radix \<Longrightarrow> foldl (\<lambda>v d. v * radix + d) 0 (digits_of radix n) = n"
proof (induction radix n rule: digits_of.induct)
  case (1 radix n)
  then show ?case
    by (subst digits_of.simps [of radix n]) auto
qed

lemma digits_nonempty [simp]: "digits_of radix n \<noteq> []"
  by (subst digits_of.simps) simp

lemma digits_zero: "2 \<le> radix \<Longrightarrow> hd (digits_of radix n) = 0 \<Longrightarrow> digits_of radix n = [0]"
proof (induction radix n rule: digits_of.induct)
  case (1 radix n)
  show ?case
  proof (cases "n < radix")
    case True
    then show ?thesis
      using "1.prems" by (simp add: digits_of.simps [of radix])
  next
    case False
    then have "digits_of radix n = digits_of radix (n div radix) @ [n mod radix]"
      using "1.prems"(1) by (subst digits_of.simps) simp
    moreover have "digits_of radix (n div radix) \<noteq> [0]"
    proof
      assume "digits_of radix (n div radix) = [0]"
      then have "n div radix = 0"
        using digits_value [OF "1.prems"(1), of "n div radix"] by simp
      then show False
        using False "1.prems"(1) by (simp add: div_eq_0_iff)
    qed
    ultimately show ?thesis
      using "1.IH" "1.prems" False by simp
  qed
qed

lemma digits_length: "2 \<le> radix \<Longrightarrow> n < radix ^ Suc k \<Longrightarrow> length (digits_of radix n) \<le> Suc k"
proof (induction k arbitrary: n)
  case 0
  then show ?case
    by (subst digits_of.simps) simp
next
  case (Suc k)
  then have "n div radix < radix ^ Suc k"
    by (simp add: less_mult_imp_div_less mult.commute)
  then show ?case
    using Suc by (subst digits_of.simps) (auto intro: le_SucI)
qed

text \<open>A character that ends a number.\<close>

definition ends_number :: "nat \<Rightarrow> string \<Rightarrow> bool" where
  "ends_number radix s = (case s of [] \<Rightarrow> True | c # r \<Rightarrow> to_digit radix c = None)"

lemma read_digits_map:
  "radix \<le> 16 \<Longrightarrow> \<forall>d\<in>set ds. d < radix \<Longrightarrow> ends_number radix s \<Longrightarrow> read_digits radix (map digit_char ds @ s) = (ds, s)"
  by (induction ds) (auto simp: to_digit_char ends_number_def split: list.splits)

lemma read_number_show:
  assumes "2 \<le> radix" "radix \<le> 16" "n < radix ^ Suc k" "n < 2 ^ w" "ends_number radix s"
  shows "read_number radix (Some (Suc k)) z w (show_number radix n @ s) = Some (n, s)"
proof -
  have "read_digits radix (show_number radix n @ s) = (digits_of radix n, s)"
    unfolding show_number_def using assms(1,2,5) digits_bound by (intro read_digits_map) auto
  moreover have "length (digits_of radix n) \<le> 1" if "hd (digits_of radix n) = 0"
    using digits_zero [OF assms(1) that] by simp
  ultimately show ?thesis
    using assms digits_length [OF assms(1,3)] digits_value [OF assms(1), of n] by (force simp: read_number_def)
qed

section \<open>A printed address parses\<close>

lemma ends_number_cases [simp]:
  "ends_number radix []" "radix \<le> 16 \<Longrightarrow> ends_number radix (CHR ''.'' # s)" "radix \<le> 16 \<Longrightarrow> ends_number radix (CHR '':'' # s)"
  by (simp_all add: ends_number_def to_digit_def)

lemma joined_ends: "i > 0 \<Longrightarrow> radix \<le> 16 \<Longrightarrow> c = CHR ''.'' \<or> c = CHR '':'' \<Longrightarrow> ends_number radix s \<Longrightarrow> ends_number radix (joined c i xs @ s)"
  by (cases xs) auto

lemma separator_given [simp]: "read_separator c 0 p s = p s" "i > 0 \<Longrightarrow> read_separator c i p (c # s) = p s"
  by (simp_all add: read_separator_def read_given_char_def)

lemma read_octets_show:
  "\<forall>x\<in>set os. x < 256 \<Longrightarrow> ends_number 10 s \<Longrightarrow>
    read_octets (length os) i (joined CHR ''.'' i (map (show_number 10) os) @ s) = Some (os, s)"
proof (induction os arbitrary: i)
  case (Cons x os)
  let ?r = "joined CHR ''.'' (i + 1) (map (show_number 10) os) @ s"
  have "read_number 10 (Some (Suc 2)) False 8 (show_number 10 x @ ?r) = Some (x, ?r)"
    using Cons.prems by (intro read_number_show joined_ends) auto
  then show ?case
    using Cons by (cases "i = 0") (auto simp: numeral_3_eq_3 numeral_2_eq_2)
qed simp

lemma read_ipv4_show:
  assumes "length os = 4" "\<forall>x\<in>set os. x < 256" "ends_number 10 s"
  shows "read_ipv4_addr (show_ipv4 os @ s) = Some (os, s)"
  using read_octets_show [OF assms(2,3), of 0] assms(1) by (simp add: read_ipv4_addr_def show_ipv4_def)

text \<open>A text without a dot does not start with an IPv4 address.\<close>

lemma read_digits_rest: "set (snd (read_digits radix s)) \<subseteq> set s"
  by (induction s) (auto split: option.splits)

lemma read_ipv4_dot: "CHR ''.'' \<notin> set s \<Longrightarrow> read_ipv4_addr s = None"
proof -
  assume s: "CHR ''.'' \<notin> set s"
  have "read_given_char CHR ''.'' r = None" if "read_number 10 (Some 3) False 8 s = Some (x, r)" for x r
    using that s read_digits_rest [of 10 s]
    by (auto simp: read_number_def read_given_char_def Let_def split: if_splits list.splits)
  then show ?thesis
    by (auto simp: read_ipv4_addr_def numeral_eq_Suc read_separator_def split: option.splits)
qed

lemma read_ipv4_start: "to_digit 10 c = None \<Longrightarrow> read_ipv4_addr (c # s) = None"
  by (simp add: read_ipv4_addr_def numeral_eq_Suc read_separator_def read_number_def)

lemma read_ipv4_colon: "read_ipv4_addr (CHR '':'' # s) = None"
  by (rule read_ipv4_start) (simp add: to_digit_def)

lemma show_number_dot: "2 \<le> radix \<Longrightarrow> radix \<le> 16 \<Longrightarrow> c = CHR ''.'' \<or> c = CHR '':'' \<Longrightarrow> c \<notin> set (show_number radix n)"
proof
  assume *: "2 \<le> radix" "radix \<le> 16" "c = CHR ''.'' \<or> c = CHR '':''" "c \<in> set (show_number radix n)"
  then obtain d where "d \<in> set (digits_of radix n)" "c = digit_char d"
    by (auto simp: show_number_def)
  then have "to_digit 16 c = Some d"
    using to_digit_char [of d 16] digits_bound [of radix d n] * by simp
  then show False
    using *(3) by (auto simp: to_digit_def)
qed

lemma joined_dot: "CHR ''.'' \<notin> set (joined CHR '':'' i (map (show_number 16) gs))"
  using show_number_dot [of 16 "CHR ''.''"] by (induction gs arbitrary: i) auto

text \<open>What follows the groups: nothing, or a double colon.\<close>

definition stops :: "string \<Rightarrow> bool" where
  "stops s \<longleftrightarrow> s = [] \<or> (\<exists>r. s = CHR '':'' # CHR '':'' # r)"

lemma stops_group: "stops s \<Longrightarrow> read_separator CHR '':'' i (read_number 16 (Some 4) True 16) s = None"
  by (auto simp: stops_def read_separator_def read_given_char_def read_number_def to_digit_def)

lemma read_groups_show:
  "\<forall>x\<in>set gs. x < 65536 \<Longrightarrow> CHR ''.'' \<notin> set s \<Longrightarrow> stops s \<Longrightarrow> length gs \<le> n \<Longrightarrow>
    read_groups n i (joined CHR '':'' i (map (show_number 16) gs) @ s) = (gs, False, s)"
proof (induction gs arbitrary: i n)
  case Nil
  have "read_separator CHR '':'' i read_ipv4_addr s = None"
    using Nil(3) by (auto simp: stops_def read_separator_def read_given_char_def read_ipv4_colon)
      (simp add: read_ipv4_addr_def numeral_eq_Suc read_separator_def read_number_def)
  then show ?case
    using stops_group [OF Nil(3), of i] by (cases n) auto
next
  case (Cons g gs)
  obtain m where n: "n = Suc m"
    using Cons.prems(4) by (cases n) auto
  let ?r = "joined CHR '':'' (i + 1) (map (show_number 16) gs) @ s"
  have "ends_number 16 s"
    using Cons.prems(3) by (auto simp: stops_def)
  then have "ends_number 16 ?r"
    by (intro joined_ends) auto
  then have "read_number 16 (Some 4) True 16 (show_number 16 g @ ?r) = Some (g, ?r)"
    using Cons.prems(1) read_number_show [of 16 g 3 16 ?r True] by simp
  moreover have "read_ipv4_addr (show_number 16 g @ ?r) = None"
    using Cons.prems(2) show_number_dot [of 16 "CHR ''.''" g] joined_dot by (intro read_ipv4_dot) auto
  ultimately show ?case
    using Cons n by (cases "i = 0") auto
qed

definition zeros_at :: "nat list \<Rightarrow> nat \<times> nat \<Rightarrow> bool" where
  "zeros_at gs p \<longleftrightarrow> fst p + snd p \<le> length gs \<and> (\<forall>k < snd p. gs ! (fst p + k) = 0)"

lemma zero_run_zeros:
  "rest = drop i gs \<Longrightarrow> i \<le> length gs \<Longrightarrow> zeros_at gs current \<Longrightarrow> snd current = 0 \<or> fst current + snd current = i \<Longrightarrow>
    zeros_at gs longest \<Longrightarrow> zeros_at gs (zero_run i rest current longest)"
proof (induction i rest current longest rule: zero_run.induct)
  case (2 i g rest current longest)
  have i: "i < length gs" "gs ! i = g" "rest = drop (i + 1) gs"
    using "2.prems"(1) by (metis drop_eq_Nil list.distinct(1) not_less, metis nth_via_drop, metis add.commute drop_drop drop0 drop_Suc_Cons plus_1_eq_Suc)
  show ?case
  proof (cases "g = 0")
    case True
    define c where "c = (if snd current = 0 then (i, 1) else (fst current, snd current + 1))"
    have "zeros_at gs c" "fst c + snd c = i + 1"
      using "2.prems"(3,4) i True by (auto simp: zeros_at_def c_def less_Suc_eq)
    then show ?thesis
      using "2.IH"(1) [OF True c_def] "2.prems"(5) i True by (simp add: c_def [symmetric] Let_def)
  next
    case False
    then show ?thesis
      using "2.IH"(2) "2.prems"(5) i by (simp add: zeros_at_def)
  qed
qed simp

lemma zeros_split: "zeros_at gs (start, len) \<Longrightarrow> take start gs @ replicate len 0 @ drop (start + len) gs = gs"
  by (rule nth_equalityI) (auto simp: zeros_at_def nth_append min_def dest: spec [of _ "_ - start"])

lemma read_ipv6_show:
  assumes "length gs = 8" "\<forall>x\<in>set gs. x < 65536" "\<not> is_ipv4_mapped gs"
  shows "read_ipv6_addr (show_ipv6 gs) = Some (gs, []) \<and> CHR ''.'' \<notin> set (show_ipv6 gs)"
proof -
  obtain start len where run: "zero_run 0 gs (0, 0) (0, 0) = (start, len)"
    by fastforce
  then have z: "zeros_at gs (start, len)"
    using zero_run_zeros [of gs 0 gs "(0, 0)" "(0, 0)"] by (simp add: zeros_at_def)
  show ?thesis
  proof (cases "len > 1")
    case False
    then have "show_ipv6 gs = show_segments gs"
      using run assms(3) by (simp add: show_ipv6_def)
    then show ?thesis
      using read_groups_show [OF assms(2), of "[]" 8 0] assms(1) joined_dot [of 0 gs]
      by (simp add: read_ipv6_addr_def show_segments_def stops_def)
  next
    case True
    let ?a = "take start gs" and ?b = "drop (start + len) gs"
    have s: "show_ipv6 gs = show_segments ?a @ ''::'' @ show_segments ?b"
      using run True assms(3) by (simp add: show_ipv6_def)
    have sub: "\<forall>x\<in>set ?a. x < 65536" "\<forall>x\<in>set ?b. x < 65536"
      using assms(2) by (auto dest: in_set_takeD in_set_dropD)
    have n: "length ?a + length ?b + len = 8" "length ?a = start" "start + len \<le> 8"
      using z assms(1) by (auto simp: zeros_at_def)
    have "read_groups 8 0 (show_segments ?a @ ''::'' @ show_segments ?b) = (?a, False, ''::'' @ show_segments ?b)"
      unfolding show_segments_def
      by (rule read_groups_show [OF sub(1)]) (use n joined_dot in \<open>auto simp: stops_def\<close>)
    moreover have "read_groups (8 - (length ?a + 1)) 0 (show_segments ?b) = (?b, False, [])"
      using read_groups_show [OF sub(2), of "[]" "8 - (length ?a + 1)" 0] n True by (simp add: show_segments_def stops_def)
    moreover have "?a @ replicate (8 - length ?a - length ?b) 0 @ ?b = gs"
      using zeros_split [OF z] n by (metis add_diff_cancel_left' diff_diff_left)
    ultimately show ?thesis
      using n True joined_dot by (auto simp: s read_ipv6_addr_def read_given_char_def show_segments_def)
  qed
qed

lemma read_ipv6_mapped:
  assumes "length gs = 8" "\<forall>x\<in>set gs. x < 65536" "is_ipv4_mapped gs"
  shows "read_ipv6_addr (show_ipv6 gs) = Some (gs, [])"
proof -
  obtain g h where "drop 6 gs = [g, h]"
  proof -
    have "\<exists>g h. xs = [g, h]" if "length xs = Suc (Suc 0)" for xs :: "nat list"
      using that by (auto simp: length_Suc_conv)
    from this [of "drop 6 gs"] show ?thesis
      using assms(1) that by simp blast
  qed
  then have gs: "gs = [0, 0, 0, 0, 0, 65535, g, h]"
    using append_take_drop_id [of 6 gs] assms(3) by (simp add: is_ipv4_mapped_def)
  let ?os = "[g div 256, g mod 256, h div 256, h mod 256]"
  have os: "length ?os = 4" "\<forall>x\<in>set ?os. x < 256"
    using assms(2) gs by auto
  have v4: "read_ipv4_addr (show_ipv4 ?os) = Some (?os, [])"
    using read_ipv4_show [OF os, of "[]"] by simp
  have "read_groups 8 0 (CHR '':'' # r) = ([], False, CHR '':'' # r)" for r
    using read_groups.simps(2) [of 7 0 "CHR '':'' # r"] by (simp add: read_ipv4_colon read_number_def to_digit_def)
  moreover have "read_groups 6 (Suc 0) (CHR '':'' # show_ipv4 ?os) = ([g, h], True, [])"
    using v4 read_groups.simps(2) [of 5 "Suc 0" "CHR '':'' # show_ipv4 ?os"] by simp
  then have "read_groups 7 0 (''ffff:'' @ show_ipv4 ?os) = ([65535, g, h], True, [])"
    using read_groups.simps(2) [of 6 0 "''ffff:'' @ show_ipv4 ?os"] by (simp add: read_ipv4_start read_number_def to_digit_def)
  moreover have "replicate 5 0 = [0, 0, 0, 0, 0 :: nat]"
    by (simp add: eval_nat_numeral)
  ultimately show ?thesis
    using assms(3) by (simp add: show_ipv6_def read_ipv6_addr_def read_given_char_def gs)
qed

theorem ip_addr_roundtrip:
  assumes "ip_wf a"
  shows "parse_ip_addr (show_ip_addr a) = Some a"
proof (cases a)
  case (V4 os)
  then show ?thesis
    using assms read_ipv4_show [of os "[]"] by (simp add: ip_wf_def parse_ip_addr_def parse_with_def read_ip_addr_def show_ip_addr_def)
next
  case (V6 gs)
  have "read_ipv4_addr (show_ipv6 gs) = None"
  proof (cases "is_ipv4_mapped gs")
    case True
    then show ?thesis
      by (simp add: show_ipv6_def read_ipv4_colon)
  next
    case False
    then show ?thesis
      using read_ipv6_show [of gs] V6 assms by (intro read_ipv4_dot) (simp add: ip_wf_def)
  qed
  then show ?thesis
    using V6 assms read_ipv6_show [of gs] read_ipv6_mapped [of gs]
    by (cases "is_ipv4_mapped gs") (simp_all add: ip_wf_def parse_ip_addr_def parse_with_def read_ip_addr_def show_ip_addr_def)
qed

section \<open>Parsed addresses are well formed\<close>

lemma read_number_bound: "read_number radix m z w s = Some (v, r) \<Longrightarrow> v < 2 ^ w"
  by (auto simp: read_number_def Let_def split: if_splits)

lemma read_separator_some: "read_separator c i p s = Some x \<Longrightarrow> \<exists>r. p r = Some x"
  by (auto simp: read_separator_def bind_eq_Some_conv split: if_splits)

lemma read_octets_wf: "read_octets n i s = Some (os, r) \<Longrightarrow> length os = n \<and> (\<forall>x\<in>set os. x < 256)"
proof (induction n arbitrary: i s os r)
  case (Suc n)
  then obtain x s' os' where "read_separator CHR ''.'' i (read_number 10 (Some 3) False 8) s = Some (x, s')"
      "read_octets n (i + 1) s' = Some (os', r)" "os = x # os'"
    by (auto split: option.splits)
  then show ?case
    using Suc.IH read_separator_some read_number_bound by fastforce
qed simp

lemma read_ipv4_wf: "read_ipv4_addr s = Some (os, r) \<Longrightarrow> length os = 4 \<and> (\<forall>x\<in>set os. x < 256)"
  unfolding read_ipv4_addr_def by (rule read_octets_wf)

lemma read_groups_wf: "read_groups n i s = (gs, f, r) \<Longrightarrow> length gs \<le> n \<and> (\<forall>x\<in>set gs. x < 65536)"
proof (induction n arbitrary: i s gs f r)
  case (Suc n)
  show ?case
  proof (cases "if n > 0 then read_separator CHR '':'' i read_ipv4_addr s else None")
    case None
    show ?thesis
    proof (cases "read_separator CHR '':'' i (read_number 16 (Some 4) True 16) s")
      case None': None
      then show ?thesis
        using Suc.prems None by simp
    next
      case (Some y)
      then obtain g r' where y: "read_separator CHR '':'' i (read_number 16 (Some 4) True 16) s = Some (g, r')"
        by (cases y) auto
      then have "g < 65536"
        using read_separator_some [OF y] read_number_bound by fastforce
      then show ?thesis
        using Suc.prems None y Suc.IH [of "i + 1" r'] by (cases "read_groups n (i + 1) r'") auto
    qed
  next
    case (Some y)
    then obtain os r' where y: "n > 0" "read_separator CHR '':'' i read_ipv4_addr s = Some (os, r')"
      by (cases y) (auto split: if_splits)
    then have "length os = 4" "\<forall>x\<in>set os. x < 256"
      using read_separator_some [OF y(2)] read_ipv4_wf by blast+
    then have "os ! 0 < 256" "os ! 1 < 256" "os ! 2 < 256" "os ! 3 < 256"
      by auto
    then show ?thesis
      using Suc.prems y by auto
  qed
qed simp

lemma read_ipv6_wf: "read_ipv6_addr s = Some (gs, r) \<Longrightarrow> length gs = 8 \<and> (\<forall>x\<in>set gs. x < 65536)"
proof -
  assume run: "read_ipv6_addr s = Some (gs, r)"
  obtain front f r1 where front: "read_groups 8 0 s = (front, f, r1)"
    by (cases "read_groups 8 0 s") auto
  note wf = read_groups_wf [OF front]
  show ?thesis
  proof (cases "length front = 8")
    case True
    then show ?thesis
      using run front wf by (simp add: read_ipv6_addr_def)
  next
    case False
    then obtain r2 where r2: "(case read_groups (8 - (length front + 1)) 0 r2 of (rear, _, r) \<Rightarrow>
        Some (front @ replicate (8 - length front - length rear) 0 @ rear, r)) = Some (gs, r)"
      using run front by (auto simp: read_ipv6_addr_def bind_eq_Some_conv split: if_splits)
    obtain rear f' r3 where "read_groups (8 - (length front + 1)) 0 r2 = (rear, f', r3)"
      by (cases "read_groups (8 - (length front + 1)) 0 r2") auto
    then have rear: "read_groups (8 - (length front + 1)) 0 r2 = (rear, f', r3)"
        "gs = front @ replicate (8 - length front - length rear) 0 @ rear"
      using r2 by auto
    then show ?thesis
      using wf read_groups_wf [OF rear(1)] False by auto
  qed
qed

lemma socket_ip_wf: "parse_socket_addr s = Some a \<Longrightarrow> ip_wf (socket_ip a)"
  by (auto simp: parse_socket_addr_def parse_with_def read_socket_addr_def read_socket_addr_v4_def read_socket_addr_v6_def
      bind_eq_Some_conv socket_ip_def ip_wf_def Let_def dest: read_ipv4_wf read_ipv6_wf
      split: option.splits list.splits prod.splits) (blast dest: read_ipv6_wf)+

text \<open>A port may have any number of leading zeros, so the text of a socket address may be of any length.\<close>

lemma socket_leading_zeros:
  assumes "p < 2 ^ 16" "length os = 4" "\<forall>x\<in>set os. x < 256"
  shows "parse_socket_addr (show_ipv4 os @ CHR '':'' # replicate k CHR ''0'' @ show_number 10 p) = Some (SocketV4 os p)"
proof -
  have v4: "read_ipv4_addr (show_ipv4 os @ CHR '':'' # r) = Some (os, CHR '':'' # r)" for r
    using assms(2,3) by (rule read_ipv4_show) simp
  have "digit_char 0 = CHR ''0''"
    by code_simp
  then have t: "replicate k CHR ''0'' @ show_number 10 p = map digit_char (replicate k 0 @ digits_of 10 p)"
    by (simp add: show_number_def)
  have "read_digits 10 (map digit_char (replicate k 0 @ digits_of 10 p)) = (replicate k 0 @ digits_of 10 p, [])"
    using read_digits_map [of 10 "replicate k 0 @ digits_of 10 p" "[]"] digits_bound [of 10 _ p] by (auto simp: set_replicate_conv_if)
  moreover have "foldl (\<lambda>v d. v * 10 + d) 0 (replicate k 0 @ ds) = foldl (\<lambda>v d. v * 10 + d) (0 :: nat) ds" for ds
    by (induction k) simp_all
  ultimately have "read_number 10 None True 16 (replicate k CHR ''0'' @ show_number 10 p) = Some (p, [])"
    unfolding t read_number_def using assms(1) digits_value [of 10 p] by (simp del: map_append foldl_append)
  then show ?thesis
    using v4 by (simp add: parse_socket_addr_def parse_with_def read_socket_addr_def read_socket_addr_v4_def read_port_def read_given_char_def)
qed

end
