(* ===== verification/Dex_Layout.thy ===== *)
theory Dex_Layout
  imports Dex_Book Net_Addr
begin

text \<open>
  The storage slots of an order (\<open>stablecoin_dex/order/storage.rs\<close>). The fields of a record are packed into 32-byte
  slots (\<open>storage/packing.rs\<close> and the \<open>Storable\<close> macro), an order has one of three layouts, and from T8 on the
  version byte of slot 0 tells which. The operations here read and write the slots of one order; the slots are
  counted from the base slot of the order, and the records of different orders do not overlap. The lemmas show that
  these operations implement the reads and writes of whole records in \<open>Dex_Book\<close>, on which the rest of the exchange is built.
\<close>

unbundle bit_operations_syntax

section \<open>Packed slots\<close>

type_synonym slots = "nat \<Rightarrow> b256"

record field_location =
  offset_slots :: nat
  offset_bytes :: nat
  field_size :: nat

definition create_element_mask :: "nat \<Rightarrow> b256" where
  "create_element_mask byte_count = (if byte_count \<ge> 32 then - 1 else push_bit (byte_count * 8) 1 - 1)"

definition span_error :: "nat \<Rightarrow> nat \<Rightarrow> tempo_error" where
  "span_error bytes offset =
    Fatal (''Value of '' @ show_number 10 bytes @ '' bytes at offset '' @ show_number 10 offset
      @ '' would span slot boundary (max offset: '' @ show_number 10 (32 - bytes) @ '')'')"

definition extract_from_word :: "b256 \<Rightarrow> nat \<Rightarrow> nat \<Rightarrow> b256 R" where
  "extract_from_word slot_value offset bytes =
    (if offset + bytes > 32 then Inl (span_error bytes offset)
     else Inr (drop_bit (offset * 8) slot_value AND create_element_mask bytes))"

definition insert_into_word :: "b256 \<Rightarrow> b256 \<Rightarrow> nat \<Rightarrow> nat \<Rightarrow> b256 R" where
  "insert_into_word current field_value offset bytes =
    (if offset + bytes > 32 then Inl (span_error bytes offset)
     else
       let shift_bits = offset * 8;
           clear_mask = NOT (push_bit shift_bits (create_element_mask bytes));
           cleared = current AND clear_mask;
           positioned = push_bit shift_bits (field_value AND create_element_mask bytes)
       in Inr (cleared OR positioned))"

text \<open>A field shares the slot of the field before it if it fits there.\<close>

fun field_locations :: "nat \<Rightarrow> nat \<Rightarrow> nat list \<Rightarrow> field_location list" where
  "field_locations slot used [] = []"
| "field_locations slot used (bytes # sizes) =
    (if used + bytes \<le> 32
     then \<lparr>offset_slots = slot, offset_bytes = used, field_size = bytes\<rparr> # field_locations slot (used + bytes) sizes
     else \<lparr>offset_slots = slot + 1, offset_bytes = 0, field_size = bytes\<rparr> # field_locations (slot + 1) bytes sizes)"

text \<open>A record is stored slot by slot. From T4 on a slot starts from zero, before from what it holds.\<close>

fun store_fields :: "hardfork \<Rightarrow> (field_location \<times> b256) list \<Rightarrow> slots \<Rightarrow> slots R" where
  "store_fields sp [] s = Inr s"
| "store_fields sp ((loc, v) # rest) s =
    ebind (insert_into_word (if offset_bytes loc = 0 \<and> T4 \<le> sp then 0 else s (offset_slots loc)) v (offset_bytes loc) (field_size loc))
      (\<lambda>x. store_fields sp rest (s(offset_slots loc := x)))"

fun load_fields :: "slots \<Rightarrow> field_location list \<Rightarrow> b256 list R" where
  "load_fields s [] = Inr []"
| "load_fields s (loc # locs) =
    ebind (extract_from_word (s (offset_slots loc)) (offset_bytes loc) (field_size loc)) (\<lambda>v.
    ebind (load_fields s locs) (\<lambda>vs. Inr (v # vs)))"

text \<open>The words of the field types that are not words.\<close>

definition word_of_i16 :: "i16 \<Rightarrow> b256" where
  "word_of_i16 x = word_of_int (take_bit 16 x)"

definition i16_of_word :: "b256 \<Rightarrow> i16" where
  "i16_of_word v = as_i16 (uint v)"

definition word_of_bool :: "bool \<Rightarrow> b256" where
  "word_of_bool b = (if b then 1 else 0)"

section \<open>The layouts of an order\<close>

definition legacy_locations :: "field_location list" where
  "legacy_locations = field_locations 0 0 [16, 20, 32, 1, 2, 16, 16, 16, 16, 1, 2]"

definition legacy_words :: "order \<Rightarrow> b256 list" where
  "legacy_words ord =
    [of_nat (ord_id ord), ucast (ord_maker ord), ord_book_key ord, word_of_bool (ord_is_bid ord), word_of_i16 (ord_tick ord),
     of_nat (ord_amount ord), of_nat (ord_remaining ord), of_nat (ord_prev ord), of_nat (ord_next ord),
     word_of_bool (ord_is_flip ord), word_of_i16 (ord_flip_tick ord)]"

definition legacy_of_words :: "b256 list \<Rightarrow> order" where
  "legacy_of_words v =
    \<lparr>ord_id = unat (v ! 0), ord_maker = ucast (v ! 1), ord_book_key = v ! 2, ord_is_bid = (v ! 3 \<noteq> 0), ord_tick = i16_of_word (v ! 4),
     ord_amount = unat (v ! 5), ord_remaining = unat (v ! 6), ord_prev = unat (v ! 7), ord_next = unat (v ! 8),
     ord_is_flip = (v ! 9 \<noteq> 0), ord_flip_tick = i16_of_word (v ! 10)\<rparr>"

definition v1_locations :: "field_location list" where
  "v1_locations = field_locations 0 0 [20, 1, 2, 2, 6, 1, 16, 16, 16, 16, 32]"

definition v1_words :: "compact_order \<Rightarrow> b256 \<Rightarrow> b256 list" where
  "v1_words c k =
    [ucast (co_maker c), ucast (co_metadata c), word_of_i16 (co_tick c), word_of_i16 (co_flip_tick c), 0, 1,
     of_nat (co_amount c), of_nat (co_remaining c), of_nat (co_prev c), of_nat (co_next c), k]"

definition v1_of_words :: "b256 list \<Rightarrow> compact_order \<times> b256" where
  "v1_of_words v =
    (\<lparr>co_maker = ucast (v ! 0), co_metadata = ucast (v ! 1), co_tick = i16_of_word (v ! 2), co_flip_tick = i16_of_word (v ! 3),
      co_amount = unat (v ! 6), co_remaining = unat (v ! 7), co_prev = unat (v ! 8), co_next = unat (v ! 9)\<rparr>, v ! 10)"

definition v2_locations :: "field_location list" where
  "v2_locations = field_locations 0 0 [20, 1, 2, 2, 4, 2, 1, 16, 16, 16, 16]"

definition v2_words :: "compact_order \<Rightarrow> u32 \<Rightarrow> b256 list" where
  "v2_words c index =
    [ucast (co_maker c), ucast (co_metadata c), word_of_i16 (co_tick c), word_of_i16 (co_flip_tick c), of_nat index, 0, 2,
     of_nat (co_amount c), of_nat (co_remaining c), of_nat (co_prev c), of_nat (co_next c)]"

definition v2_of_words :: "b256 list \<Rightarrow> compact_order \<times> u32" where
  "v2_of_words v =
    (\<lparr>co_maker = ucast (v ! 0), co_metadata = ucast (v ! 1), co_tick = i16_of_word (v ! 2), co_flip_tick = i16_of_word (v ! 3),
      co_amount = unat (v ! 7), co_remaining = unat (v ! 8), co_prev = unat (v ! 9), co_next = unat (v ! 10)\<rparr>, unat (v ! 4))"

definition slot_count :: "field_location list \<Rightarrow> nat" where
  "slot_count locs = offset_slots (last locs) + 1"

section \<open>Operations on the slots of an order\<close>

datatype (plugins only: code size) order_version = OvLegacy | OvV1 | OvV2

definition order_version_of_slot :: "b256 \<Rightarrow> order_version R" where
  "order_version_of_slot slot0 =
    ebind (extract_from_word slot0 (offset_bytes (v1_locations ! 5)) 1) (\<lambda>version.
      if version = 0 then Inr OvLegacy
      else if version = 1 then Inr OvV1
      else if version = 2 then Inr OvV2
      else Inl (Fatal (''unknown stablecoin DEX order storage version '' @ show_number 10 (unat version))))"

definition version_and_slot :: "hardfork \<Rightarrow> slots \<Rightarrow> (order_version \<times> b256 option) R" where
  "version_and_slot sp s =
    (if \<not> T8 \<le> sp then Inr (OvLegacy, None)
     else ebind (order_version_of_slot (s 0)) (\<lambda>version. Inr (version, Some (s 0))))"

definition slots_version :: "hardfork \<Rightarrow> slots \<Rightarrow> order_version R" where
  "slots_version sp s = ebind (version_and_slot sp s) (\<lambda>(version, _). Inr version)"

definition version_slots :: "order_version \<Rightarrow> nat" where
  "version_slots version =
    slot_count (case version of OvLegacy \<Rightarrow> legacy_locations | OvV1 \<Rightarrow> v1_locations | OvV2 \<Rightarrow> v2_locations)"

definition maker_in_slots :: "hardfork \<Rightarrow> slots \<Rightarrow> address R" where
  "maker_in_slots sp s =
    ebind (slots_version sp s) (\<lambda>version.
      let loc = (case version of OvLegacy \<Rightarrow> legacy_locations ! 1 | _ \<Rightarrow> v1_locations ! 0) in
      ebind (extract_from_word (s (offset_slots loc)) (offset_bytes loc) 20) (\<lambda>v. Inr (ucast v)))"

definition u128_field :: "hardfork \<Rightarrow> field_location \<Rightarrow> field_location \<Rightarrow> slots \<Rightarrow> field_location R" where
  "u128_field sp legacy compact s =
    ebind (slots_version sp s) (\<lambda>version. Inr (case version of OvLegacy \<Rightarrow> legacy | _ \<Rightarrow> compact))"

definition remaining_slot :: "hardfork \<Rightarrow> slots \<Rightarrow> field_location R" where
  "remaining_slot sp = u128_field sp (legacy_locations ! 6) (v1_locations ! 7)"

definition prev_slot :: "hardfork \<Rightarrow> slots \<Rightarrow> field_location R" where
  "prev_slot sp = u128_field sp (legacy_locations ! 7) (v1_locations ! 8)"

definition next_slot :: "hardfork \<Rightarrow> slots \<Rightarrow> field_location R" where
  "next_slot sp = u128_field sp (legacy_locations ! 8) (v1_locations ! 9)"

definition write_u128 :: "field_location \<Rightarrow> u128 \<Rightarrow> slots \<Rightarrow> slots R" where
  "write_u128 loc v s =
    ebind (insert_into_word (s (offset_slots loc)) (of_nat v) (offset_bytes loc) 16) (\<lambda>x. Inr (s(offset_slots loc := x)))"

definition read_slots :: "hardfork \<Rightarrow> (u32 \<Rightarrow> b256 R) \<Rightarrow> u128 \<Rightarrow> b256 option \<Rightarrow> slots \<Rightarrow> order R" where
  "read_slots sp key_for_index i known_book s =
    ebind (slots_version sp s) (\<lambda>version.
      case version of
        OvLegacy \<Rightarrow> ebind (load_fields s legacy_locations) (\<lambda>v. Inr (legacy_of_words v))
      | OvV1 \<Rightarrow> ebind (load_fields s v1_locations) (\<lambda>v. Inr (case v1_of_words v of (c, k) \<Rightarrow> into_order c i k))
      | OvV2 \<Rightarrow> ebind (load_fields s v2_locations) (\<lambda>v. case v2_of_words v of (c, index) \<Rightarrow>
          ebind (case known_book of None \<Rightarrow> key_for_index index | Some k \<Rightarrow> Inr k) (\<lambda>k. Inr (into_order c i k))))"

definition clear_slots :: "nat \<Rightarrow> nat \<Rightarrow> slots \<Rightarrow> slots" where
  "clear_slots first after s = fold (\<lambda>j s. s(j := 0)) [first..<after] s"

definition write_slots :: "hardfork \<Rightarrow> (b256 \<Rightarrow> u32 option R) \<Rightarrow> order \<Rightarrow> u32 option \<Rightarrow> slots \<Rightarrow> slots R" where
  "write_slots sp key_index value known_id s =
    (if \<not> T8 \<le> sp then store_fields sp (zip legacy_locations (legacy_words value)) s
     else
       ebind (version_and_slot sp s) (\<lambda>(old_version, slot0).
       ebind (case known_id of None \<Rightarrow> key_index (ord_book_key value) | Some bid \<Rightarrow> Inr (book_id_index bid)) (\<lambda>book_index.
       ebind (case book_index of
           Some index \<Rightarrow> ebind (store_fields sp (zip v2_locations (v2_words (compact_of value) index)) s) (\<lambda>s. Inr (s, version_slots OvV2))
         | None \<Rightarrow> ebind (store_fields sp (zip v1_locations (v1_words (compact_of value) (ord_book_key value))) s)
             (\<lambda>s. Inr (s, version_slots OvV1))) (\<lambda>(s, new_slots).
       Inr (if (case slot0 of None \<Rightarrow> True | Some v \<Rightarrow> v \<noteq> 0) then clear_slots new_slots (version_slots old_version) s else s)))))"

definition delete_slots :: "hardfork \<Rightarrow> slots \<Rightarrow> slots R" where
  "delete_slots sp s = ebind (slots_version sp s) (\<lambda>version. Inr (clear_slots 0 (version_slots version) s))"

section \<open>Packed words\<close>

text \<open>Insertion and extraction without the check of the bounds.\<close>

definition put_field :: "b256 \<Rightarrow> b256 \<Rightarrow> nat \<Rightarrow> nat \<Rightarrow> b256" where
  "put_field x v off n = (x AND NOT (push_bit (off * 8) (mask (n * 8)))) OR push_bit (off * 8) (take_bit (n * 8) v)"

definition get_field :: "b256 \<Rightarrow> nat \<Rightarrow> nat \<Rightarrow> b256" where
  "get_field x off n = take_bit (n * 8) (drop_bit (off * 8) x)"

lemma element_mask: "n \<le> 32 \<Longrightarrow> create_element_mask n = mask (n * 8)"
proof (cases "n = 32")
  case True
  have "(mask (LENGTH(256)) :: b256) = - 1"
    by (rule mask_full)
  then show ?thesis
    using True by (simp add: create_element_mask_def)
qed (simp add: create_element_mask_def mask_eq_exp_minus_1 push_bit_eq_mult)

lemma insert_into_word_eq [simp]: "off + n \<le> 32 \<Longrightarrow> insert_into_word x v off n = Inr (put_field x v off n)"
  by (simp add: insert_into_word_def put_field_def element_mask take_bit_eq_mask Let_def)

lemma extract_from_word_eq [simp]: "off + n \<le> 32 \<Longrightarrow> extract_from_word x off n = Inr (get_field x off n)"
  by (simp add: extract_from_word_def get_field_def element_mask take_bit_eq_mask)

lemma bit_put_field:
  "off + n \<le> 32 \<Longrightarrow> bit (put_field x v off n) k \<longleftrightarrow> (if off * 8 \<le> k \<and> k < (off + n) * 8 then bit v (k - off * 8) else bit x k)"
  by (auto simp: put_field_def bit_simps not_le dest: bit_imp_le_length)

lemma bit_get_field: "bit (get_field x off n) k \<longleftrightarrow> k < n * 8 \<and> bit x (k + off * 8)"
  by (auto simp: get_field_def bit_simps ac_simps)

lemma get_put_same [simp]: "off + n \<le> 32 \<Longrightarrow> get_field (put_field x v off n) off n = take_bit (n * 8) v"
  by (rule bit_word_eqI) (auto simp: bit_get_field bit_put_field bit_take_bit_iff)

lemma get_put_other [simp]:
  "off' + n' \<le> 32 \<Longrightarrow> off + n \<le> off' \<or> off' + n' \<le> off \<Longrightarrow> get_field (put_field x v off' n') off n = get_field x off n"
  by (rule bit_word_eqI) (auto simp: bit_get_field bit_put_field)

lemma get_zero [simp]: "get_field 0 off n = 0"
  by (simp add: get_field_def)

lemma put_zero [simp]: "put_field 0 0 off n = 0"
  by (simp add: put_field_def)

text \<open>The words of the field types are read back.\<close>

lemma read_u128 [simp]: "v < 2 ^ 128 \<Longrightarrow> unat (take_bit 128 (of_nat v :: b256)) = v"
  by (simp add: unsigned_take_bit_eq take_bit_nat_eq_self unat_of_nat)

lemma read_u32 [simp]: "v < 2 ^ 32 \<Longrightarrow> unat (take_bit 32 (of_nat v :: b256)) = v"
  by (simp add: unsigned_take_bit_eq take_bit_nat_eq_self unat_of_nat)

lemma read_address [simp]: "ucast (take_bit 160 (ucast (m :: address) :: b256)) = m"
  by (rule bit_word_eqI) (auto simp: bit_simps)

lemma read_byte [simp]: "ucast (take_bit 8 (ucast (m :: 8 word) :: b256)) = m"
  by (rule bit_word_eqI) (auto simp: bit_simps)

lemma read_word [simp]: "take_bit 256 (v :: b256) = v"
  by (rule bit_word_eqI) (auto simp: bit_simps)

lemma read_bool [simp]: "take_bit 8 (word_of_bool b) = 0 \<longleftrightarrow> \<not> b"
  by (simp add: word_of_bool_def)

lemma read_i16 [simp]:
  assumes "- 32768 \<le> t" "t < 32768"
  shows "i16_of_word (take_bit 16 (word_of_i16 t)) = t"
proof -
  have "uint (take_bit 16 (word_of_i16 t)) = take_bit 16 t"
    by (simp add: word_of_i16_def unsigned_take_bit_eq uint_word_of_int_eq)
  then show ?thesis
    using assms by (simp add: i16_of_word_def as_i16_def signed_take_bit_take_bit signed_take_bit_int_eq_self)
qed

section \<open>Records in slots\<close>

definition typed_i16 :: "i16 \<Rightarrow> bool" where
  "typed_i16 t \<longleftrightarrow> - 32768 \<le> t \<and> t < 32768"

definition typed_order :: "order \<Rightarrow> bool" where
  "typed_order ord \<longleftrightarrow> ord_id ord < 2 ^ 128 \<and> ord_amount ord < 2 ^ 128 \<and> ord_remaining ord < 2 ^ 128 \<and> ord_prev ord < 2 ^ 128
    \<and> ord_next ord < 2 ^ 128 \<and> typed_i16 (ord_tick ord) \<and> typed_i16 (ord_flip_tick ord)"

definition typed_compact :: "compact_order \<Rightarrow> bool" where
  "typed_compact c \<longleftrightarrow> co_amount c < 2 ^ 128 \<and> co_remaining c < 2 ^ 128 \<and> co_prev c < 2 ^ 128 \<and> co_next c < 2 ^ 128
    \<and> typed_i16 (co_tick c) \<and> typed_i16 (co_flip_tick c)"

fun typed_record :: "stored_order \<Rightarrow> bool" where
  "typed_record (LegacyOrder ord) = typed_order ord"
| "typed_record (V1Order c k) = typed_compact c"
| "typed_record (V2Order c index) = (typed_compact c \<and> index < 2 ^ 32)"

fun record_version :: "stored_order \<Rightarrow> order_version" where
  "record_version (LegacyOrder ord) = OvLegacy"
| "record_version (V1Order c k) = OvV1"
| "record_version (V2Order c index) = OvV2"

text \<open>The slots that hold nothing but a record.\<close>

fun encode :: "stored_order \<Rightarrow> slots" where
  "encode (LegacyOrder ord) = (\<lambda>_. 0)(
     0 := put_field 0 (of_nat (ord_id ord)) 0 16,
     1 := put_field 0 (ucast (ord_maker ord)) 0 20,
     2 := put_field 0 (ord_book_key ord) 0 32,
     3 := put_field (put_field (put_field 0 (word_of_bool (ord_is_bid ord)) 0 1) (word_of_i16 (ord_tick ord)) 1 2) (of_nat (ord_amount ord)) 3 16,
     4 := put_field (put_field 0 (of_nat (ord_remaining ord)) 0 16) (of_nat (ord_prev ord)) 16 16,
     5 := put_field (put_field (put_field 0 (of_nat (ord_next ord)) 0 16) (word_of_bool (ord_is_flip ord)) 16 1) (word_of_i16 (ord_flip_tick ord)) 17 2)"
| "encode (V1Order c k) = (\<lambda>_. 0)(
     0 := put_field (put_field (put_field (put_field (put_field (put_field 0 (ucast (co_maker c)) 0 20) (ucast (co_metadata c)) 20 1)
       (word_of_i16 (co_tick c)) 21 2) (word_of_i16 (co_flip_tick c)) 23 2) 0 25 6) 1 31 1,
     1 := put_field (put_field 0 (of_nat (co_amount c)) 0 16) (of_nat (co_remaining c)) 16 16,
     2 := put_field (put_field 0 (of_nat (co_prev c)) 0 16) (of_nat (co_next c)) 16 16,
     3 := put_field 0 k 0 32)"
| "encode (V2Order c index) = (\<lambda>_. 0)(
     0 := put_field (put_field (put_field (put_field (put_field (put_field (put_field 0 (ucast (co_maker c)) 0 20) (ucast (co_metadata c)) 20 1)
       (word_of_i16 (co_tick c)) 21 2) (word_of_i16 (co_flip_tick c)) 23 2) (of_nat index) 25 4) 0 29 2) 2 31 1,
     1 := put_field (put_field 0 (of_nat (co_amount c)) 0 16) (of_nat (co_remaining c)) 16 16,
     2 := put_field (put_field 0 (of_nat (co_prev c)) 0 16) (of_nat (co_next c)) 16 16)"

lemmas location_defs = legacy_locations_def v1_locations_def v2_locations_def

lemma version_slots_eq [simp]: "version_slots OvLegacy = 6" "version_slots OvV1 = 4" "version_slots OvV2 = 3"
  by (simp_all add: version_slots_def slot_count_def location_defs)

lemma encode_rest: "version_slots (record_version so) \<le> j \<Longrightarrow> encode so j = 0"
  by (cases so) auto

lemma version_byte: "order_version_of_slot (encode so 0) = Inr (record_version so)"
  by (cases so) (simp_all add: order_version_of_slot_def location_defs ebind_def)

lemma legacy_loads:
  assumes "typed_order ord"
  shows "\<exists>v. load_fields (encode (LegacyOrder ord)) legacy_locations = Inr v \<and> legacy_of_words v = ord"
  using assms by (simp add: location_defs ebind_def legacy_of_words_def typed_order_def typed_i16_def del: One_nat_def)

lemma v1_loads:
  assumes "typed_compact c"
  shows "\<exists>v. load_fields (encode (V1Order c k)) v1_locations = Inr v \<and> v1_of_words v = (c, k)"
  using assms by (simp add: location_defs ebind_def v1_of_words_def typed_compact_def typed_i16_def del: One_nat_def)

lemma v2_loads:
  assumes "typed_compact c" "index < 2 ^ 32"
  shows "\<exists>v. load_fields (encode (V2Order c index)) v2_locations = Inr v \<and> v2_of_words v = (c, index)"
  using assms by (simp add: location_defs ebind_def v2_of_words_def typed_compact_def typed_i16_def del: One_nat_def)

section \<open>Writing over a record\<close>

text \<open>Fields written over the same fields replace them.\<close>

lemma put_same [simp]: "off + n \<le> 32 \<Longrightarrow> put_field (put_field x a off n) b off n = put_field x b off n"
  by (rule bit_word_eqI) (simp add: bit_put_field)

lemma put_swap:
  "off + n \<le> off' \<Longrightarrow> off' + n' \<le> 32 \<Longrightarrow> put_field (put_field x a off' n') b off n = put_field (put_field x b off n) a off' n'"
  by (rule bit_word_eqI) (auto simp: bit_put_field)

lemma repack2:
  assumes "n1 + n2 \<le> 32"
  shows "put_field (put_field (put_field (put_field x a 0 n1) b n1 n2) a' 0 n1) b' n1 n2 = put_field (put_field x a' 0 n1) b' n1 n2"
  using assms by (intro bit_word_eqI) (auto simp: bit_put_field)

lemma repack3:
  assumes "n1 + n2 = m" "m + n3 \<le> 32"
  shows "put_field (put_field (put_field (put_field (put_field (put_field x a 0 n1) b n1 n2) c m n3) a' 0 n1) b' n1 n2) c' m n3
    = put_field (put_field (put_field x a' 0 n1) b' n1 n2) c' m n3"
  using assms by (intro bit_word_eqI) (auto simp: bit_put_field)

lemmas repack = put_same repack2 repack3

lemma legacy_stores: "store_fields sp (zip legacy_locations (legacy_words ord)) (encode (LegacyOrder old)) = Inr (encode (LegacyOrder ord))"
  by (cases "T4 \<le> sp") (simp_all add: location_defs legacy_words_def ebind_def repack fun_eq_iff del: One_nat_def)

lemma v1_stores:
  "T4 \<le> sp \<Longrightarrow> store_fields sp (zip v1_locations (v1_words c k)) s = Inr (\<lambda>j. if j < version_slots OvV1 then encode (V1Order c k) j else s j)"
  by (auto simp: location_defs v1_words_def ebind_def fun_eq_iff)

lemma v2_stores:
  "T4 \<le> sp \<Longrightarrow> store_fields sp (zip v2_locations (v2_words c index)) s = Inr (\<lambda>j. if j < version_slots OvV2 then encode (V2Order c index) j else s j)"
  by (auto simp: location_defs v2_words_def ebind_def fun_eq_iff)

lemma clear_slots_eq: "clear_slots a b s = (\<lambda>j. if a \<le> j \<and> j < b then 0 else s j)"
  unfolding clear_slots_def by (induction b) (auto simp: fun_eq_iff)

lemma encode_zero: "encode (LegacyOrder zero_order) = (\<lambda>_. 0)"
  by (simp add: zero_order_def word_of_bool_def word_of_i16_def fun_eq_iff)

text \<open>The slots \<open>s\<close> hold the record \<open>so\<close> of the order \<open>i\<close>.\<close>

definition stored :: "u128 \<Rightarrow> hardfork \<Rightarrow> stored_order \<Rightarrow> slots \<Rightarrow> bool" where
  "stored i sp so s \<longleftrightarrow> s = encode so \<and> typed_record so \<and> (\<not> T8 \<le> sp \<longrightarrow> record_version so = OvLegacy)
    \<and> (\<forall>ord. so = LegacyOrder ord \<longrightarrow> ord = zero_order \<or> ord_id ord = i \<and> i \<noteq> 0)"

lemma storedD:
  assumes "stored i sp so s"
  shows "s = encode so" "typed_record so" "\<not> T8 \<le> sp \<Longrightarrow> record_version so = OvLegacy"
    "so = LegacyOrder ord \<Longrightarrow> ord = zero_order \<or> ord_id ord = i \<and> i \<noteq> 0"
  using assms by (auto simp: stored_def)

lemma stored_version: "stored i sp so s \<Longrightarrow> slots_version sp s = Inr (record_version so)"
  using version_byte [of so] storedD(1,3) [of i sp so s] by (auto simp: slots_version_def version_and_slot_def ebind_def)

lemma stored_slot0:
  assumes "stored i sp so s"
  shows "s 0 \<noteq> 0 \<or> s = (\<lambda>_. 0)"
proof (cases so)
  case (LegacyOrder ord)
  have "get_field (s 0) 0 16 = take_bit 128 (of_nat (ord_id ord))"
    using storedD(1) [OF assms] LegacyOrder by simp
  moreover have "ord_id ord < 2 ^ 128"
    using storedD(2) [OF assms] LegacyOrder by (simp add: typed_order_def)
  ultimately have "s 0 = 0 \<Longrightarrow> ord_id ord = 0"
    using read_u128 [of "ord_id ord"] by (metis get_zero unat_0)
  then show ?thesis
    using storedD(1,4) [OF assms] LegacyOrder encode_zero by blast
next
  case (V1Order c k)
  then have "get_field (s 0) 31 1 = 1"
    using storedD(1) [OF assms] by simp
  then show ?thesis
    by auto
next
  case (V2Order c index)
  then have "get_field (s 0) 31 1 = 2"
    using storedD(1) [OF assms] by simp
  then show ?thesis
    by auto
qed

section \<open>The operations implement those on records\<close>

text \<open>Reading a record, as \<open>read_with_book_key\<close> does.\<close>

definition read_record :: "(u32 \<Rightarrow> b256 R) \<Rightarrow> u128 \<Rightarrow> b256 option \<Rightarrow> stored_order \<Rightarrow> order R" where
  "read_record key_for_index i known_book so =
    (case so of
       LegacyOrder ord \<Rightarrow> Inr ord
     | V1Order c k \<Rightarrow> Inr (into_order c i k)
     | V2Order c index \<Rightarrow>
         ebind (case known_book of None \<Rightarrow> key_for_index index | Some k \<Rightarrow> Inr k) (\<lambda>k. Inr (into_order c i k)))"

lemma stored_read:
  assumes "stored i sp so s"
  shows "read_slots sp key_for_index i known s = read_record key_for_index i known so"
proof (cases so)
  case (LegacyOrder ord)
  then show ?thesis
    using stored_version [OF assms] legacy_loads [of ord] storedD(1,2) [OF assms]
    by (auto simp: read_slots_def read_record_def ebind_def simp del: encode.simps)
next
  case (V1Order c k)
  then show ?thesis
    using stored_version [OF assms] v1_loads [of c k] storedD(1,2) [OF assms]
    by (auto simp: read_slots_def read_record_def ebind_def simp del: encode.simps)
next
  case (V2Order c index)
  then show ?thesis
    using stored_version [OF assms] v2_loads [of c index] storedD(1,2) [OF assms]
    by (auto simp: read_slots_def read_record_def ebind_def simp del: encode.simps)
qed

lemma typed_layout: "typed_order ord \<Longrightarrow> bid < 2 ^ 32 \<Longrightarrow> typed_record (store_layout sp ord bid)"
  by (auto simp: store_layout_def typed_order_def typed_compact_def compact_of_def book_id_index_def checked_sub_def split: option.splits)

lemma store_over:
  assumes "stored i sp so s" "n = version_slots (record_version so')" "s1 = (\<lambda>j. if j < n then encode so' j else s j)"
  shows "(if s 0 \<noteq> 0 then clear_slots n (version_slots (record_version so)) s1 else s1) = encode so'"
  using assms encode_rest [of so'] encode_rest [of so] stored_slot0 [OF assms(1)] storedD(1) [OF assms(1)]
  by (auto simp: clear_slots_eq fun_eq_iff simp del: encode.simps)

lemma stored_write:
  assumes st: "stored i sp so s" and ord: "ord_id ord = i" "i \<noteq> 0" "typed_order ord" "bid < 2 ^ 32"
  shows "write_slots sp key_index ord (Some bid) s = Inr (encode (store_layout sp ord bid)) \<and> stored i sp (store_layout sp ord bid) (encode (store_layout sp ord bid))"
proof
  show "stored i sp (store_layout sp ord bid) (encode (store_layout sp ord bid))"
    using ord typed_layout [OF ord(3,4)] by (auto simp: stored_def store_layout_def split: option.splits)
  show "write_slots sp key_index ord (Some bid) s = Inr (encode (store_layout sp ord bid))"
  proof (cases "T8 \<le> sp")
    case False
    then obtain old where "so = LegacyOrder old"
      using storedD(3) [OF st] by (cases so) auto
    then show ?thesis
      using False legacy_stores storedD(1) [OF st] by (simp add: write_slots_def store_layout_def del: encode.simps)
  next
    case True
    then have t4: "T4 \<le> sp" and v: "version_and_slot sp s = Inr (record_version so, Some (s 0))"
      using version_byte [of so] storedD(1) [OF st] by (auto simp: version_and_slot_def ebind_def fork_order simp del: encode.simps)
    show ?thesis
    proof (cases "book_id_index bid")
      case None
      then show ?thesis
        using True v v1_stores [OF t4, of "compact_of ord" "ord_book_key ord" s] store_over [OF st, of _ "V1Order (compact_of ord) (ord_book_key ord)"]
        by (simp add: write_slots_def store_layout_def ebind_def del: encode.simps)
    next
      case (Some index)
      then show ?thesis
        using True v v2_stores [OF t4, of "compact_of ord" index s] store_over [OF st, of _ "V2Order (compact_of ord) index"]
        by (simp add: write_slots_def store_layout_def ebind_def del: encode.simps)
    qed
  qed
qed

text \<open>Updates of one field, of an order that exists.\<close>

lemma stored_same:
  assumes "stored i sp so s" "so \<noteq> LegacyOrder zero_order" "typed_record so'" "record_version so' = record_version so"
    "\<And>ord'. so' = LegacyOrder ord' \<Longrightarrow> \<exists>ord. so = LegacyOrder ord \<and> ord_id ord' = ord_id ord"
  shows "stored i sp so' (encode so')"
  using assms unfolding stored_def by metis

lemma put_front2: "put_field (put_field (put_field x a 0 16) b 16 16) v 0 16 = put_field (put_field x v 0 16) b 16 16"
  by (simp add: put_swap)

lemma put_front3:
  "put_field (put_field (put_field (put_field x a 0 16) b 16 1) c 17 2) v 0 16 = put_field (put_field (put_field x v 0 16) b 16 1) c 17 2"
  by (rule bit_word_eqI) (auto simp: bit_put_field)

lemmas field_defs = location_defs write_u128_def ebind_def put_front2 put_front3 fun_eq_iff

lemma legacy_writes:
  "write_u128 (legacy_locations ! 6) v (encode (LegacyOrder ord)) = Inr (encode (LegacyOrder (ord\<lparr>ord_remaining := v\<rparr>)))"
  "write_u128 (legacy_locations ! 7) v (encode (LegacyOrder ord)) = Inr (encode (LegacyOrder (ord\<lparr>ord_prev := v\<rparr>)))"
  "write_u128 (legacy_locations ! 8) v (encode (LegacyOrder ord)) = Inr (encode (LegacyOrder (ord\<lparr>ord_next := v\<rparr>)))"
  by (simp_all add: field_defs del: One_nat_def)

lemma v1_writes:
  "write_u128 (v1_locations ! 7) v (encode (V1Order c k)) = Inr (encode (V1Order (c\<lparr>co_remaining := v\<rparr>) k))"
  "write_u128 (v1_locations ! 8) v (encode (V1Order c k)) = Inr (encode (V1Order (c\<lparr>co_prev := v\<rparr>) k))"
  "write_u128 (v1_locations ! 9) v (encode (V1Order c k)) = Inr (encode (V1Order (c\<lparr>co_next := v\<rparr>) k))"
  by (simp_all add: field_defs del: One_nat_def)

lemma v2_writes:
  "write_u128 (v1_locations ! 7) v (encode (V2Order c n)) = Inr (encode (V2Order (c\<lparr>co_remaining := v\<rparr>) n))"
  "write_u128 (v1_locations ! 8) v (encode (V2Order c n)) = Inr (encode (V2Order (c\<lparr>co_prev := v\<rparr>) n))"
  "write_u128 (v1_locations ! 9) v (encode (V2Order c n)) = Inr (encode (V2Order (c\<lparr>co_next := v\<rparr>) n))"
  by (simp_all add: field_defs del: One_nat_def)

lemmas field_writes = legacy_writes v1_writes v2_writes u128_field_def ebind_def

lemma remaining_write:
  assumes st: "stored i sp so s" "so \<noteq> LegacyOrder zero_order" and v: "v < 2 ^ 128"
  shows "\<exists>loc. remaining_slot sp s = Inr loc \<and> write_u128 loc v s = Inr (encode (set_remaining v so))"
    and "stored i sp (set_remaining v so) (encode (set_remaining v so))"
proof -
  show "\<exists>loc. remaining_slot sp s = Inr loc \<and> write_u128 loc v s = Inr (encode (set_remaining v so))"
    using stored_version [OF st(1)] storedD(1) [OF st(1)]
    by (cases so) (simp_all add: remaining_slot_def field_writes del: encode.simps)
  have "typed_record (set_remaining v so)"
    using storedD(2) [OF st(1)] v by (cases so) (simp_all add: typed_order_def typed_compact_def)
  then show "stored i sp (set_remaining v so) (encode (set_remaining v so))"
    by (rule stored_same [OF st]) (cases so; auto)+
qed

lemma prev_write:
  assumes st: "stored i sp so s" "so \<noteq> LegacyOrder zero_order" and v: "v < 2 ^ 128"
  shows "\<exists>loc. prev_slot sp s = Inr loc \<and> write_u128 loc v s = Inr (encode (set_prev v so))"
    and "stored i sp (set_prev v so) (encode (set_prev v so))"
proof -
  show "\<exists>loc. prev_slot sp s = Inr loc \<and> write_u128 loc v s = Inr (encode (set_prev v so))"
    using stored_version [OF st(1)] storedD(1) [OF st(1)]
    by (cases so) (simp_all add: prev_slot_def field_writes del: encode.simps)
  have "typed_record (set_prev v so)"
    using storedD(2) [OF st(1)] v by (cases so) (simp_all add: typed_order_def typed_compact_def)
  then show "stored i sp (set_prev v so) (encode (set_prev v so))"
    by (rule stored_same [OF st]) (cases so; auto)+
qed

lemma next_write:
  assumes st: "stored i sp so s" "so \<noteq> LegacyOrder zero_order" and v: "v < 2 ^ 128"
  shows "\<exists>loc. next_slot sp s = Inr loc \<and> write_u128 loc v s = Inr (encode (set_next v so))"
    and "stored i sp (set_next v so) (encode (set_next v so))"
proof -
  show "\<exists>loc. next_slot sp s = Inr loc \<and> write_u128 loc v s = Inr (encode (set_next v so))"
    using stored_version [OF st(1)] storedD(1) [OF st(1)]
    by (cases so) (simp_all add: next_slot_def field_writes del: encode.simps)
  have "typed_record (set_next v so)"
    using storedD(2) [OF st(1)] v by (cases so) (simp_all add: typed_order_def typed_compact_def)
  then show "stored i sp (set_next v so) (encode (set_next v so))"
    by (rule stored_same [OF st]) (cases so; auto)+
qed

lemma stored_delete:
  assumes "stored i sp so s"
  shows "delete_slots sp s = Inr (\<lambda>_. 0)"
proof -
  have "clear_slots 0 (version_slots (record_version so)) s = (\<lambda>_. 0)"
    using encode_rest [of so] storedD(1) [OF assms] by (auto simp: clear_slots_eq simp del: encode.simps)
  then show ?thesis
    using stored_version [OF assms] by (simp add: delete_slots_def ebind_def)
qed

lemma stored_zero: "stored i sp (LegacyOrder zero_order) (\<lambda>_. 0)"
  unfolding stored_def encode_zero by (simp add: typed_order_def typed_i16_def zero_order_def)

fun record_maker :: "stored_order \<Rightarrow> address" where
  "record_maker (LegacyOrder ord) = ord_maker ord"
| "record_maker (V1Order c k) = co_maker c"
| "record_maker (V2Order c index) = co_maker c"

lemma stored_maker: "stored i sp so s \<Longrightarrow> maker_in_slots sp s = Inr (record_maker so)"
  using stored_version [of i sp so s] storedD(1) [of i sp so s]
  by (cases so) (auto simp: maker_in_slots_def location_defs ebind_def Let_def simp del: One_nat_def)

lemma stored_later: "stored i sp so s \<Longrightarrow> sp \<le> sp' \<Longrightarrow> stored i sp' so s"
  by (auto simp: stored_def dest: order_trans)

section \<open>Histories of a record\<close>

text \<open>What may happen to the slots of an order, with the record that \<open>Dex_Book\<close> keeps for it: the slots start empty, the
  chain upgrades to later forks, the order is written, one of its fields is set, and it is deleted.\<close>

inductive record_history :: "u128 \<Rightarrow> hardfork \<Rightarrow> stored_order \<Rightarrow> slots \<Rightarrow> bool" for i where
  fresh: "record_history i sp (LegacyOrder zero_order) (\<lambda>_. 0)"
| upgraded: "record_history i sp so s \<Longrightarrow> sp \<le> sp' \<Longrightarrow> record_history i sp' so s"
| written: "record_history i sp so s \<Longrightarrow> write_slots sp key_index ord (Some bid) s = Inr s' \<Longrightarrow> ord_id ord = i \<Longrightarrow> i \<noteq> 0 \<Longrightarrow>
    typed_order ord \<Longrightarrow> bid < 2 ^ 32 \<Longrightarrow> record_history i sp (store_layout sp ord bid) s'"
| remaining_set: "record_history i sp so s \<Longrightarrow> so \<noteq> LegacyOrder zero_order \<Longrightarrow> remaining_slot sp s = Inr loc \<Longrightarrow>
    write_u128 loc v s = Inr s' \<Longrightarrow> v < 2 ^ 128 \<Longrightarrow> record_history i sp (set_remaining v so) s'"
| prev_set: "record_history i sp so s \<Longrightarrow> so \<noteq> LegacyOrder zero_order \<Longrightarrow> prev_slot sp s = Inr loc \<Longrightarrow>
    write_u128 loc v s = Inr s' \<Longrightarrow> v < 2 ^ 128 \<Longrightarrow> record_history i sp (set_prev v so) s'"
| next_set: "record_history i sp so s \<Longrightarrow> so \<noteq> LegacyOrder zero_order \<Longrightarrow> next_slot sp s = Inr loc \<Longrightarrow>
    write_u128 loc v s = Inr s' \<Longrightarrow> v < 2 ^ 128 \<Longrightarrow> record_history i sp (set_next v so) s'"
| deleted: "record_history i sp so s \<Longrightarrow> delete_slots sp s = Inr s' \<Longrightarrow> record_history i sp (LegacyOrder zero_order) s'"

lemma history_stored: "record_history i sp so s \<Longrightarrow> stored i sp so s"
proof (induction rule: record_history.induct)
  case (written sp so s key_index ord bid s')
  then show ?case
    using stored_write [OF written(7,3-6)] by auto
next
  case (remaining_set sp so s loc v s')
  then show ?case
    using remaining_write [OF remaining_set(6,2,5)] by auto
next
  case (prev_set sp so s loc v s')
  then show ?case
    using prev_write [OF prev_set(6,2,5)] by auto
next
  case (next_set sp so s loc v s')
  then show ?case
    using next_write [OF next_set(6,2,5)] by auto
next
  case (deleted sp so s s')
  then show ?case
    using stored_delete [OF deleted(3)] stored_zero by simp
qed (auto intro: stored_zero stored_later)

text \<open>C29: an order that is written to its slots reads back as it was written. Whatever happened to the slots before
  (other layouts, other forks, deleted orders), the write succeeds, and the slots then read back as the order under the
  current and every later fork, whether the book is known or found by the index in the record. The slots beyond the
  layout that was written are zero, so nothing of an older and longer layout is left, and a deletion clears all slots. The
  hypotheses are that the order has its own nonzero id and fields of their widths, and that the index of the book, when it
  is set, points to the key of the book.\<close>

theorem order_reads_back:
  assumes "record_history i sp so s" "ord_id ord = i" "i \<noteq> 0" "typed_order ord" "bid < 2 ^ 32"
    "\<forall>index. book_id_index bid = Some index \<longrightarrow> key_for_index index = Inr (ord_book_key ord)"
  shows "\<exists>s'. write_slots sp key_index ord (Some bid) s = Inr s'
    \<and> (\<forall>sp' known. sp \<le> sp' \<and> known \<in> {None, Some (ord_book_key ord)} \<longrightarrow> read_slots sp' key_for_index i known s' = Inr ord)
    \<and> (\<forall>j. (if \<not> T8 \<le> sp then 6 else if book_id_index bid = None then 4 else 3) \<le> j \<longrightarrow> s' j = 0)
    \<and> (\<forall>sp'. sp \<le> sp' \<longrightarrow> delete_slots sp' s' = Inr (\<lambda>_. 0))"
proof -
  let ?so = "store_layout sp ord bid"
  have wr: "write_slots sp key_index ord (Some bid) s = Inr (encode ?so)" and st: "stored i sp ?so (encode ?so)"
    using stored_write [OF history_stored [OF assms(1)] assms(2-5)] by blast+
  have read: "read_slots sp' key_for_index i known (encode ?so) = Inr ord" if "sp \<le> sp'" "known \<in> {None, Some (ord_book_key ord)}" for sp' known
    using stored_read [OF stored_later [OF st that(1)]] that(2) assms(2,6)
    by (auto simp: read_record_def store_layout_def ebind_def simp del: encode.simps split: option.splits)
  have rest: "encode ?so j = 0" if "(if \<not> T8 \<le> sp then 6 else if book_id_index bid = None then 4 else 3) \<le> j" for j
    using that by (intro encode_rest) (auto simp: store_layout_def split: if_splits option.splits)
  show ?thesis
    using wr read rest stored_delete [OF stored_later [OF st]] by blast
qed

text \<open>C40: the slots implement the records. If the slots of an order and its record in the state of the exchange come from
  the same history, then reading the slots gives the result of \<open>read_with_book_key\<close>, and writing the order, setting a
  field of an existing order or deleting the order in the state is matched by the operation on the slots, which succeeds
  and again gives slots and a record of the same history. So the properties of the exchange over records hold for what
  the code keeps in its slots.\<close>

theorem slots_implement_records:
  assumes "record_history i (spec w) (orders (dex w) i) s"
  shows "read_slots (spec w) (book_key_for_index w) i known s = read_with_book_key w i known
    \<and> maker_in_slots (spec w) s = Inr (record_maker (orders (dex w) i))
    \<and> (\<forall>ord bid w'. write_in_book i ord bid w = Inr ((), w') \<and> ord_id ord = i \<and> i \<noteq> 0 \<and> typed_order ord \<and> bid < 2 ^ 32 \<longrightarrow>
        (\<exists>s'. write_slots (spec w) key_index ord (Some bid) s = Inr s' \<and> record_history i (spec w') (orders (dex w') i) s'))
    \<and> (\<forall>f slot v w'. (f, slot) \<in> {(set_remaining, remaining_slot), (set_prev, prev_slot), (set_next, next_slot)}
          \<and> upd_order i (f v) w = Inr ((), w') \<and> orders (dex w) i \<noteq> LegacyOrder zero_order \<and> v < 2 ^ 128 \<longrightarrow>
        (\<exists>loc s'. slot (spec w) s = Inr loc \<and> write_u128 loc v s = Inr s' \<and> record_history i (spec w') (orders (dex w') i) s'))
    \<and> (\<forall>w'. delete_order i w = Inr ((), w') \<longrightarrow>
        (\<exists>s'. delete_slots (spec w) s = Inr s' \<and> record_history i (spec w') (orders (dex w') i) s'))"
proof (intro conjI allI impI; (elim conjE)?)
  let ?so = "orders (dex w) i"
  have st: "stored i (spec w) ?so s"
    by (rule history_stored [OF assms])
  show "read_slots (spec w) (book_key_for_index w) i known s = read_with_book_key w i known"
    using stored_read [OF st] by (simp add: read_record_def read_with_book_key_def)
  show "maker_in_slots (spec w) s = Inr (record_maker ?so)"
    by (rule stored_maker [OF st])
  show "\<exists>s'. write_slots (spec w) key_index ord (Some bid) s = Inr s' \<and> record_history i (spec w') (orders (dex w') i) s'"
    if run: "write_in_book i ord bid w = Inr ((), w')" and ord: "ord_id ord = i" "i \<noteq> 0" "typed_order ord" "bid < 2 ^ 32" for ord bid w'
    using stored_write [OF st ord, of key_index] written [OF assms _ ord, of key_index] run by (auto simp: write_in_book_def runs)
  show "\<exists>loc s'. slot (spec w) s = Inr loc \<and> write_u128 loc v s = Inr s' \<and> record_history i (spec w') (orders (dex w') i) s'"
    if f: "(f, slot) \<in> {(set_remaining, remaining_slot), (set_prev, prev_slot), (set_next, next_slot)}"
      and run: "upd_order i (f v) w = Inr ((), w')" and so: "?so \<noteq> LegacyOrder zero_order" and v: "v < 2 ^ 128" for f slot v w'
    using f remaining_write(1) [OF st so v] prev_write(1) [OF st so v] next_write(1) [OF st so v]
      remaining_set [OF assms so _ _ v] prev_set [OF assms so _ _ v] next_set [OF assms so _ _ v] run
    by (auto simp: runs; blast)
  show "\<exists>s'. delete_slots (spec w) s = Inr s' \<and> record_history i (spec w') (orders (dex w') i) s'"
    if "delete_order i w = Inr ((), w')" for w'
    using that stored_delete [OF st] deleted [OF assms] by (auto simp: delete_order_def runs)
qed

section \<open>A sample order\<close>

definition sample_order :: order where
  "sample_order = new_order 7 0x111 9 100 (- 10) True True 20"

lemma sample_order_typed: "typed_order sample_order"
  by (simp add: sample_order_def new_order_def typed_order_def typed_i16_def)

text \<open>The order is written before T4, and again at T8 to the second book, whose key is found by its index.\<close>

lemma sample_record: "\<exists>s. record_history 7 T3 (LegacyOrder sample_order) s"
proof -
  let ?s = "encode (LegacyOrder sample_order)"
  have "record_history 7 T3 (store_layout T3 sample_order 2) ?s"
    using stored_write [OF stored_zero, of sample_order 7 2 T3] sample_order_typed
    by (intro written [OF fresh, of T3 "\<lambda>_. Inr None" sample_order 2])
      (simp_all add: sample_order_def new_order_def store_layout_def fork_order del: encode.simps)
  then show ?thesis
    by (auto simp: store_layout_def fork_order)
qed

theorem order_reads_back_witness:
  "\<exists>s s'. record_history 7 T8 (LegacyOrder sample_order) s \<and> write_slots T8 (\<lambda>_. Inr None) sample_order (Some 2) s = Inr s'
    \<and> read_slots T8 (\<lambda>index. if index = 1 then Inr 9 else Inl (StablecoinDEX PairDoesNotExist)) 7 None s' = Inr sample_order
    \<and> s' 3 = 0 \<and> s' 5 = 0 \<and> delete_slots T8 s' = Inr (\<lambda>_. 0)"
proof -
  obtain s where "record_history 7 T3 (LegacyOrder sample_order) s"
    using sample_record by blast
  then have h: "record_history 7 T8 (LegacyOrder sample_order) s"
    by (rule upgraded) (simp add: fork_order)
  show ?thesis
    using order_reads_back [OF h, of sample_order 2 "\<lambda>index. if index = 1 then Inr 9 else Inl (StablecoinDEX PairDoesNotExist)" "\<lambda>_. Inr None"]
      h sample_order_typed by (auto simp: sample_order_def new_order_def book_id_index_def checked_sub_def)
qed

definition sample_dex_world :: world where
  "sample_dex_world = (empty_world T3)\<lparr>dex := empty_dex\<lparr>orders := (\<lambda>_. LegacyOrder zero_order)(7 := LegacyOrder sample_order)\<rparr>\<rparr>"

theorem slots_implement_records_witness:
  "\<exists>s s' w'. record_history 7 T3 (LegacyOrder sample_order) s
    \<and> read_slots T3 (book_key_for_index sample_dex_world) 7 None s = Inr sample_order
    \<and> delete_order 7 sample_dex_world = Inr ((), w') \<and> delete_slots T3 s = Inr s' \<and> record_history 7 T3 (LegacyOrder zero_order) s'"
proof -
  have w: "spec sample_dex_world = T3" "orders (dex sample_dex_world) 7 = LegacyOrder sample_order"
    by (simp_all add: sample_dex_world_def empty_world_def)
  obtain s where s: "record_history 7 T3 (LegacyOrder sample_order) s"
    using sample_record by blast
  then have "record_history 7 (spec sample_dex_world) (orders (dex sample_dex_world) 7) s"
    by (simp add: w)
  from slots_implement_records [OF this, of None "\<lambda>_. Inr None"] show ?thesis
    using s by (auto simp: w read_with_book_key_def delete_order_def upd_order_def upd_dex_def run_defs)
qed

end
