(* ===== verification/Dex_Orders.thy ===== *)
theory Dex_Orders
  imports Dex_Book System
begin

text \<open>
  Orders of the stablecoin exchange (\<open>stablecoin_dex/mod.rs\<close>): internal balances, trading pairs, placing
  an order, and cancelling one. An error of an operation reverts the whole call, so the state after an
  error is not kept. The counters of reusable storage slots (\<open>dex_storage_credits\<close>), which only affect
  gas, are left out.
\<close>

section \<open>Counters, balances and transfers\<close>

definition emit_dex :: "dex_event \<Rightarrow> unit M" where
  "emit_dex e = emit_event STABLECOIN_DEX_ADDRESS (StablecoinDEXEvent e)"

definition next_order_id :: "world \<Rightarrow> u128" where
  "next_order_id w = max (next_order_id_slot (dex w)) 1"

definition set_next_order_id :: "u128 \<Rightarrow> unit M" where
  "set_next_order_id i = upd_dex (\<lambda>d. d\<lparr>next_order_id_slot := i mod 2 ^ 128\<rparr>)"

definition increment_next_order_id :: "unit M" where
  "increment_next_order_id = rbind (gets next_order_id) (\<lambda>i. set_next_order_id (i + 1))"

definition dex_balance_of :: "world \<Rightarrow> address \<Rightarrow> address \<Rightarrow> u128" where
  "dex_balance_of w user token = dex_balances (dex w) user token"

definition get_order :: "world \<Rightarrow> u128 \<Rightarrow> order R" where
  "get_order w i =
    ebind (read_order w i) (\<lambda>ord.
    if ord_maker ord \<noteq> 0 \<and> ord_id ord < next_order_id w then Inr ord else Inl (StablecoinDEX OrderDoesNotExist))"

definition dex_set_balance :: "address \<Rightarrow> address \<Rightarrow> u128 \<Rightarrow> unit M" where
  "dex_set_balance user token amount =
    upd_dex (\<lambda>d. d\<lparr>dex_balances := (dex_balances d)(user := (dex_balances d user)(token := amount))\<rparr>)"

definition dex_increment_balance :: "address \<Rightarrow> address \<Rightarrow> u128 \<Rightarrow> unit M" where
  "dex_increment_balance user token amount =
    rbind (gets (\<lambda>w. dex_balance_of w user token)) (\<lambda>current.
    rbind (ok_or (checked_add 128 current amount) under_overflow) (dex_set_balance user token))"

definition dex_sub_balance :: "address \<Rightarrow> address \<Rightarrow> u128 \<Rightarrow> unit M" where
  "dex_sub_balance user token amount =
    rbind (gets (\<lambda>w. dex_balance_of w user token)) (\<lambda>current.
    rbind (ok_or (checked_sub current amount) under_overflow) (dex_set_balance user token))"

definition dex_transfer :: "address \<Rightarrow> address \<Rightarrow> u128 \<Rightarrow> unit M" where
  "dex_transfer token to amount =
    rbind (rd (\<lambda>_. from_address token)) (\<lambda>t. void (transfer t STABLECOIN_DEX_ADDRESS to amount))"

definition dex_transfer_from :: "address \<Rightarrow> address \<Rightarrow> u128 \<Rightarrow> unit M" where
  "dex_transfer_from token sender amount =
    rbind (gets spec) (\<lambda>sp.
    rbind (rd (\<lambda>_. from_address token)) (\<lambda>t.
    if T5 \<le> sp then void (system_transfer_from t STABLECOIN_DEX_ADDRESS sender amount)
    else void (transfer_from t STABLECOIN_DEX_ADDRESS sender STABLECOIN_DEX_ADDRESS amount)))"

definition decrement_balance_or_transfer_from :: "address \<Rightarrow> address \<Rightarrow> u128 \<Rightarrow> bool \<Rightarrow> unit M" where
  "decrement_balance_or_transfer_from sender token amount check_pause =
    rbind (rd (\<lambda>_. from_address token)) (\<lambda>t.
    rseq (rd (\<lambda>w. ensure_transfer_authorized w t sender STABLECOIN_DEX_ADDRESS))
   (rbind (gets spec) (\<lambda>sp.
    rbind (gets (\<lambda>w. dex_balance_of w sender token)) (\<lambda>user_balance.
    if user_balance \<ge> amount then
      rseq (only_if (check_pause \<and> T4 \<le> sp) (rd (\<lambda>w. check_not_paused w t)))
           (dex_sub_balance sender token amount)
    else
      rbind (ok_or (checked_sub amount user_balance) under_overflow) (\<lambda>remaining.
      rseq (dex_transfer_from token sender remaining)
           (dex_set_balance sender token 0))))))"

section \<open>Pairs\<close>

definition compute_book_key :: "world \<Rightarrow> address \<Rightarrow> address \<Rightarrow> b256" where
  "compute_book_key w b q = keccak256 w (PackedAddressPair b q)"

definition is_initialized :: "orderbook \<Rightarrow> bool" where
  "is_initialized b = (book_base b \<noteq> 0)"

definition I16_MIN :: i16 where
  "I16_MIN = -32768"

definition I16_MAX :: i16 where
  "I16_MAX = 32767"

definition init_book :: "address \<Rightarrow> address \<Rightarrow> u32 \<Rightarrow> orderbook \<Rightarrow> orderbook" where
  "init_book b q i bk =
    bk\<lparr>book_base := b, book_quote := q, best_bid_tick := I16_MIN, best_ask_tick := I16_MAX, book_id := i\<rparr>"

definition create_pair :: "address \<Rightarrow> b256 M" where
  "create_pair b =
    rbind (gets (\<lambda>w. is_tip20 w b)) (\<lambda>deployed.
    rseq (ensure deployed (StablecoinDEX InvalidBaseToken))
   (rbind (rd (\<lambda>_. from_address b)) (\<lambda>t.
    rbind (gets (\<lambda>w. quote_token (tokens w t))) (\<lambda>q.
    rseq (rd (\<lambda>w. validate_usd_currency w b))
   (rseq (rd (\<lambda>w. validate_usd_currency w q))
   (rbind (gets (\<lambda>w. compute_book_key w b q)) (\<lambda>k.
    rbind (gets (\<lambda>w. is_initialized (books (dex w) k))) (\<lambda>ini.
    rseq (ensure (\<not> ini) (StablecoinDEX PairAlreadyExists))
   (rbind (gets (\<lambda>w. if T8 \<le> spec w then book_id_from_index (length (book_keys (dex w)) mod 2 ^ 32) else 0)) (\<lambda>i.
    rseq (upd_book k (init_book b q i))
   (rseq (upd_dex (\<lambda>d. d\<lparr>book_keys := book_keys d @ [k]\<rparr>))
   (rseq (emit_dex (PairCreated k b q))
         (ok k)))))))))))))"

definition validate_or_create_pair :: "b256 \<Rightarrow> address \<Rightarrow> unit M" where
  "validate_or_create_pair k token =
    rbind (gets (\<lambda>w. is_initialized (books (dex w) k))) (\<lambda>ini.
    only_if (\<not> ini) (void (create_pair token)))"

definition book_key_index :: "world \<Rightarrow> b256 \<Rightarrow> u32 option R" where
  "book_key_index w k =
    (if \<not> is_initialized (books (dex w) k) then Inl (StablecoinDEX PairDoesNotExist)
     else Inr (book_id_index (book_id (books (dex w) k))))"

definition set_book_index :: "u32 \<Rightarrow> unit M" where
  "set_book_index index =
    rbind (rd (\<lambda>w. book_key_for_index w index)) (\<lambda>k.
    rbind (rd (\<lambda>w. book_key_index w k)) (\<lambda>current.
    case current of
      Some current_index \<Rightarrow> ensure (index = current_index) (StablecoinDEX IndexAlreadySet)
    | None \<Rightarrow> upd_book k (\<lambda>b. b\<lparr>book_id := book_id_from_index index\<rparr>)))"

section \<open>Placing orders\<close>

definition validate_tick :: "i16 \<Rightarrow> dex_error \<Rightarrow> unit M" where
  "validate_tick tick misaligned =
    rseq (ensure (MIN_TICK \<le> tick \<and> tick \<le> MAX_TICK) (StablecoinDEX (TickOutOfBounds tick)))
         (ensure (tick mod TICK_SPACING = 0) (StablecoinDEX misaligned))"

definition escrow :: "bool \<Rightarrow> i16 \<Rightarrow> u128 \<Rightarrow> address \<Rightarrow> address \<Rightarrow> (address \<times> u128 \<times> address) R" where
  "escrow is_bid tick amount b q =
    (if is_bid then
       ebind (eok_or (base_to_quote amount tick Up) (StablecoinDEX DexInsufficientBalance)) (\<lambda>quote_amount.
       Inr (q, quote_amount, b))
     else Inr (b, amount, q))"

definition check_non_escrow :: "address \<Rightarrow> address \<Rightarrow> unit M" where
  "check_non_escrow sender token =
    rbind (rd (\<lambda>_. from_address token)) (\<lambda>t.
    rseq (rd (\<lambda>w. ensure_transfer_authorized w t STABLECOIN_DEX_ADDRESS sender))
   (rbind (gets spec) (\<lambda>sp.
    only_if (T4 \<le> sp) (rd (\<lambda>w. check_not_paused w t)))))"

definition set_best_tick :: "bool \<Rightarrow> i16 \<Rightarrow> orderbook \<Rightarrow> orderbook" where
  "set_best_tick is_bid tick b = (if is_bid then b\<lparr>best_bid_tick := tick\<rparr> else b\<lparr>best_ask_tick := tick\<rparr>)"

definition link_tail :: "u128 \<Rightarrow> order \<Rightarrow> u32 \<Rightarrow> unit M" where
  "link_tail prev_tail ord bid =
    rbind (gets spec) (\<lambda>sp.
    if T8 \<le> sp then upd_order prev_tail (set_next (ord_id ord))
    else
      rbind (rd (\<lambda>w. read_in_book w prev_tail (ord_book_key ord))) (\<lambda>prev_order.
      write_in_book prev_tail (prev_order\<lparr>ord_next := ord_id ord\<rparr>) bid))"

definition commit_order_to_book :: "order \<Rightarrow> unit M" where
  "commit_order_to_book ord =
    (let k = ord_book_key ord; is_bid = ord_is_bid ord; tick = ord_tick ord in
     rbind (gets (\<lambda>w. books (dex w) k)) (\<lambda>book.
     rbind (gets (\<lambda>w. read_level w k tick is_bid)) (\<lambda>level.
     rbind (gets spec) (\<lambda>sp.
     let prev_tail = tl_tail level in
     rbind (if prev_tail = 0 then
              rseq (set_tick_bit k tick is_bid)
             (rseq (only_if (if is_bid then tick > best_bid_tick book else tick < best_ask_tick book)
                      (upd_book k (set_best_tick is_bid tick)))
                   (ok (level\<lparr>tl_head := ord_id ord, tl_tail := ord_id ord\<rparr>, ord)))
            else
              rseq (link_tail prev_tail ord (book_id book))
                   (ok (level\<lparr>tl_tail := ord_id ord\<rparr>, ord\<lparr>ord_prev := prev_tail\<rparr>)))
       (\<lambda>(level, ord).
     rbind (if \<not> T12 \<le> sp
            then rbind (ok_or (checked_add 128 (tl_total_liquidity level) (ord_remaining ord)) under_overflow)
                   (\<lambda>v. ok (level\<lparr>tl_total_liquidity := v\<rparr>))
            else ok level) (\<lambda>level.
     rseq (write_level k tick is_bid level)
          (write_in_book (ord_id ord) ord (book_id book))))))))"

definition place :: "address \<Rightarrow> address \<Rightarrow> u128 \<Rightarrow> bool \<Rightarrow> i16 \<Rightarrow> u128 M" where
  "place sender token amount is_bid tick =
    rbind (rd (\<lambda>_. from_address token)) (\<lambda>t.
    rbind (gets (\<lambda>w. quote_token (tokens w t))) (\<lambda>q.
    rbind (gets (\<lambda>w. compute_book_key w token q)) (\<lambda>k.
    rseq (validate_or_create_pair k token)
   (rseq (validate_tick tick InvalidTick)
   (rseq (ensure (\<not> amount < MIN_ORDER_AMOUNT) (StablecoinDEX (BelowMinimumOrderSize amount)))
   (rbind (rd (\<lambda>_. escrow is_bid tick amount token q)) (\<lambda>(escrow_token, escrow_amount, non_escrow_token).
    rseq (check_non_escrow sender non_escrow_token)
   (rseq (decrement_balance_or_transfer_from sender escrow_token escrow_amount True)
   (rbind (gets next_order_id) (\<lambda>i.
    rseq increment_next_order_id
   (rseq (commit_order_to_book (new_order i sender k amount tick is_bid False 0))
   (rseq (emit_dex (OrderPlaced i sender token amount is_bid tick False 0))
         (ok i)))))))))))))"

definition debit_internal :: "address \<Rightarrow> address \<Rightarrow> u128 \<Rightarrow> unit M" where
  "debit_internal sender token amount =
    rbind (rd (\<lambda>_. from_address token)) (\<lambda>t.
    rseq (rd (\<lambda>w. ensure_transfer_authorized w t sender STABLECOIN_DEX_ADDRESS))
   (rbind (gets spec) (\<lambda>sp.
    rseq (only_if (T4 \<le> sp) (rd (\<lambda>w. check_not_paused w t)))
   (rbind (gets (\<lambda>w. dex_balance_of w sender token)) (\<lambda>user_balance.
    rseq (ensure (\<not> user_balance < amount) (StablecoinDEX DexInsufficientBalance))
         (dex_sub_balance sender token amount))))))"

definition place_flip :: "address \<Rightarrow> address \<Rightarrow> u128 \<Rightarrow> bool \<Rightarrow> i16 \<Rightarrow> i16 \<Rightarrow> bool \<Rightarrow> u128 M" where
  "place_flip sender token amount is_bid tick flip_tick internal_balance_only =
    rbind (rd (\<lambda>_. from_address token)) (\<lambda>t.
    rbind (gets (\<lambda>w. quote_token (tokens w t))) (\<lambda>q.
    rbind (gets (\<lambda>w. compute_book_key w token q)) (\<lambda>k.
    rseq (validate_or_create_pair k token)
   (rseq (validate_tick tick InvalidTick)
   (rseq (validate_tick flip_tick InvalidFlipTick)
   (rbind (gets spec) (\<lambda>sp.
    rseq (ensure (\<not> ((flip_tick = tick \<and> \<not> T5 \<le> sp) \<or> (is_bid \<and> flip_tick < tick) \<or> (\<not> is_bid \<and> flip_tick > tick)))
            (StablecoinDEX InvalidFlipTick))
   (rseq (ensure (\<not> amount < MIN_ORDER_AMOUNT) (StablecoinDEX (BelowMinimumOrderSize amount)))
   (rbind (rd (\<lambda>_. escrow is_bid tick amount token q)) (\<lambda>(escrow_token, escrow_amount, non_escrow_token).
    rseq (check_non_escrow sender non_escrow_token)
   (rseq (if internal_balance_only then debit_internal sender escrow_token escrow_amount
          else decrement_balance_or_transfer_from sender escrow_token escrow_amount True)
   (rbind (gets next_order_id) (\<lambda>i.
    rbind (ok_or (new_flip i sender k amount tick is_bid flip_tick sp) (StablecoinDEX InvalidFlipTick)) (\<lambda>ord.
    rseq (set_next_order_id (i + 1))
   (rseq (commit_order_to_book ord)
   (rseq (emit_dex (OrderPlaced i sender token amount is_bid tick True flip_tick))
         (ok i)))))))))))))))))"

section \<open>Cancelling orders\<close>

definition advance_best_tick :: "b256 \<Rightarrow> i16 \<Rightarrow> bool \<Rightarrow> (i16 \<times> bool) M" where
  "advance_best_tick k tick is_bid =
    rbind (gets (\<lambda>w. next_initialized_tick (books (dex w) k) tick is_bid)) (\<lambda>(next_tick, has_liquidity).
    rseq (upd_book k (set_best_tick is_bid (if has_liquidity then next_tick else if is_bid then I16_MIN else I16_MAX)))
         (ok (next_tick, has_liquidity)))"

definition cancel_active_order :: "order \<Rightarrow> unit M" where
  "cancel_active_order ord =
    (let k = ord_book_key ord; is_bid = ord_is_bid ord; tick = ord_tick ord in
     rbind (gets spec) (\<lambda>sp.
     rbind (gets (\<lambda>w. read_level w k tick is_bid)) (\<lambda>level.
     rbind (if ord_prev ord \<noteq> 0 then rseq (upd_order (ord_prev ord) (set_next (ord_next ord))) (ok level)
            else ok (level\<lparr>tl_head := ord_next ord\<rparr>)) (\<lambda>level.
     rbind (if ord_next ord \<noteq> 0 then rseq (upd_order (ord_next ord) (set_prev (ord_prev ord))) (ok level)
            else ok (level\<lparr>tl_tail := ord_prev ord\<rparr>)) (\<lambda>level.
     rbind (if T12 \<le> sp then ok (level, ord_prev ord = 0 \<or> ord_next ord = 0)
            else rbind (ok_or (checked_sub (tl_total_liquidity level) (ord_remaining ord)) under_overflow)
                   (\<lambda>v. ok (level\<lparr>tl_total_liquidity := v\<rparr>, True))) (\<lambda>(level, changed).
     rseq (only_if (tl_head level = 0)
            (rseq (delete_tick_bit k tick is_bid)
            (rbind (gets (\<lambda>w. books (dex w) k)) (\<lambda>book.
             only_if ((if is_bid then best_bid_tick book else best_ask_tick book) = tick)
               (void (advance_best_tick k tick is_bid))))))
    (rseq (only_if changed (write_level k tick is_bid level))
    (rbind (gets (\<lambda>w. books (dex w) k)) (\<lambda>book.
     rseq (if is_bid
           then rbind (ok_or (base_to_quote (ord_remaining ord) tick Up) under_overflow)
                  (\<lambda>quote_amount. dex_increment_balance (ord_maker ord) (book_quote book) quote_amount)
           else dex_increment_balance (ord_maker ord) (book_base book) (ord_remaining ord))
    (rseq (delete_order (ord_id ord))
          (emit_dex (OrderCancelled (ord_id ord)))))))))))))"

definition cancel :: "address \<Rightarrow> u128 \<Rightarrow> unit M" where
  "cancel sender i =
    rbind (rd (\<lambda>w. read_order w i)) (\<lambda>ord.
    rseq (ensure (ord_maker ord \<noteq> 0) (StablecoinDEX OrderDoesNotExist))
   (rseq (ensure (ord_maker ord = sender) (StablecoinDEX DexUnauthorized))
   (rseq (ensure (ord_remaining ord \<noteq> 0) (StablecoinDEX OrderDoesNotExist))
         (cancel_active_order ord))))"

definition is_authorized_for_token :: "world \<Rightarrow> address \<Rightarrow> address \<Rightarrow> auth_role \<Rightarrow> bool R" where
  "is_authorized_for_token w token a role =
    ebind (from_address token) (\<lambda>t.
    case is_authorized_as w (transfer_policy_id w t) a role of
      Inr authorized \<Rightarrow> Inr authorized
    | Inl e \<Rightarrow> if is_policy_lookup_error w e then Inr False else Inl e)"

definition is_maker_authorized :: "world \<Rightarrow> order \<Rightarrow> bool R" where
  "is_maker_authorized w ord =
    (let book = books (dex w) (ord_book_key ord);
         (token_in, token_out) = (if ord_is_bid ord then (book_quote book, book_base book) else (book_base book, book_quote book))
     in
     ebind (is_authorized_for_token w token_in (ord_maker ord) (transfer_or w AuthSender)) (\<lambda>b.
     if \<not> b then Inr False
     else if T4 \<le> spec w then is_authorized_for_token w token_out (ord_maker ord) (transfer_or w AuthRecipient)
     else Inr True))"

definition cancel_stale_order :: "u128 \<Rightarrow> unit M" where
  "cancel_stale_order i =
    rbind (rd (\<lambda>w. read_order w i)) (\<lambda>ord.
    rseq (ensure (ord_maker ord \<noteq> 0) (StablecoinDEX OrderDoesNotExist))
   (rbind (rd (\<lambda>w. is_maker_authorized w ord)) (\<lambda>authorized.
    if authorized then err (StablecoinDEX OrderNotStale) else cancel_active_order ord)))"

definition withdraw :: "address \<Rightarrow> address \<Rightarrow> u128 \<Rightarrow> unit M" where
  "withdraw user token amount =
    rbind (gets (\<lambda>w. dex_balance_of w user token)) (\<lambda>current_balance.
    rseq (ensure (\<not> current_balance < amount) (StablecoinDEX DexInsufficientBalance))
   (rseq (dex_sub_balance user token amount)
         (dex_transfer token user amount)))"

end
