(* ===== verification/Dex_Swaps.thy ===== *)
theory Dex_Swaps
  imports Dex_Orders
begin

text \<open>
  Trades of the stablecoin exchange (\<open>stablecoin_dex/mod.rs\<close> and the walk of \<open>orderbook.rs\<close>): filling
  resting orders, flipping filled orders, the walk over a book that swaps and quotes share, routes over
  several books, and the calls of the contract. A loop of the code that does not end uses up the gas of the
  transaction: a walk is a partial function, and a walk without value is the error \<open>OutOfGas\<close>.
\<close>

section \<open>Filling orders\<close>

definition is_system_error :: "tempo_error \<Rightarrow> bool" where
  "is_system_error e = (case e of OutOfGas \<Rightarrow> True | Fatal _ \<Rightarrow> True | RustPanic _ \<Rightarrow> True | Panic _ \<Rightarrow> True | StorageDeltaUnderflow _ \<Rightarrow> True | _ \<Rightarrow> False)"

text \<open>A step that runs under a checkpoint: its changes are undone when it fails, and the failure is a value.\<close>

definition attempt :: "'a M \<Rightarrow> (tempo_error + 'a) M" where
  "attempt m = (\<lambda>w. case m w of Inl e \<Rightarrow> Inr (Inl e, w) | Inr (x, w') \<Rightarrow> Inr (Inr x, w'))"

definition flip_in_place :: "order \<Rightarrow> address \<Rightarrow> address \<Rightarrow> unit M" where
  "flip_in_place ord base_token quote_tok =
    (let flipped = create_flipped_order ord (ord_id ord) in
     rbind (rd (\<lambda>_. escrow (ord_is_bid flipped) (ord_tick flipped) (ord_amount flipped) base_token quote_tok))
       (\<lambda>(escrow_token, escrow_amount, non_escrow_token).
     rbind (gets (\<lambda>w. dex_balance_of w (ord_maker flipped) escrow_token)) (\<lambda>user_balance.
     rseq (ensure (\<not> user_balance < escrow_amount) (StablecoinDEX DexInsufficientBalance))
    (rbind (rd (\<lambda>_. from_address escrow_token)) (\<lambda>et.
     rseq (rd (\<lambda>w. check_not_paused w et))
    (rseq (rd (\<lambda>w. ensure_transfer_authorized w et (ord_maker flipped) STABLECOIN_DEX_ADDRESS))
    (rbind (rd (\<lambda>_. from_address non_escrow_token)) (\<lambda>nt.
     rseq (rd (\<lambda>w. check_not_paused w nt))
    (rseq (rd (\<lambda>w. ensure_transfer_authorized w nt STABLECOIN_DEX_ADDRESS (ord_maker flipped)))
    (rseq (dex_sub_balance (ord_maker flipped) escrow_token escrow_amount)
    (rseq (commit_order_to_book flipped)
          (emit_dex (OrderFlipped (ord_id flipped) (ord_maker flipped) base_token (ord_amount flipped)
             (ord_is_bid flipped) (ord_tick flipped) (ord_flip_tick flipped))))))))))))))"

text \<open>Before T1C checkpoints have no effect: of a flip that fails, the pair that it created stays.\<close>

definition attempt_flip :: "order \<Rightarrow> address \<Rightarrow> address \<Rightarrow> (tempo_error + unit) M" where
  "attempt_flip ord base_token quote_tok =
    (let flip = void (place_flip (ord_maker ord) base_token (ord_amount ord) (\<not> ord_is_bid ord) (ord_flip_tick ord) (ord_tick ord) True) in
     rbind (gets spec) (\<lambda>sp.
     if T5 \<le> sp then attempt (flip_in_place ord base_token quote_tok)
     else if T1C \<le> sp then attempt flip
     else
       rbind (gets (\<lambda>w. compute_book_key w base_token (quote_token (tokens w base_token)))) (\<lambda>k.
       rbind (attempt (rbind (rd (\<lambda>_. from_address base_token)) (\<lambda>_. validate_or_create_pair k base_token))) (\<lambda>r.
       case r of Inl e \<Rightarrow> ok (Inl e) | Inr _ \<Rightarrow> attempt flip))))"

definition pay_maker :: "order \<Rightarrow> orderbook \<Rightarrow> u128 \<Rightarrow> unit M" where
  "pay_maker ord book fill =
    (if ord_is_bid ord then dex_increment_balance (ord_maker ord) (book_base book) fill
     else
       rbind (ok_or (base_to_quote fill (ord_tick ord) Up) under_overflow)
         (\<lambda>quote_amount. dex_increment_balance (ord_maker ord) (book_quote book) quote_amount))"

definition partial_fill_order :: "order \<Rightarrow> tick_level \<Rightarrow> u128 \<Rightarrow> address \<Rightarrow> unit M" where
  "partial_fill_order ord level fill taker =
    (let k = ord_book_key ord in
     rbind (gets (\<lambda>w. books (dex w) k)) (\<lambda>book.
     rseq (upd_order (ord_id ord) (set_remaining (ord_remaining ord - fill)))
    (rseq (pay_maker ord book fill)
    (rbind (gets spec) (\<lambda>sp.
     rseq (only_if (\<not> T12 \<le> sp)
            (rbind (ok_or (checked_sub (tl_total_liquidity level) fill) under_overflow) (\<lambda>v.
             write_level k (ord_tick ord) (ord_is_bid ord) (level\<lparr>tl_total_liquidity := v\<rparr>))))
          (emit_dex (OrderFilled (ord_id ord) (ord_maker ord) taker fill True)))))))"

definition settle_flip :: "order \<Rightarrow> orderbook \<Rightarrow> unit M" where
  "settle_flip ord book =
    (if ord_is_flip ord then
       rbind (attempt_flip ord (book_base book) (book_quote book)) (\<lambda>res.
       rbind (gets spec) (\<lambda>sp.
       case res of
         Inl e \<Rightarrow>
           if is_system_error e \<and> T1A \<le> sp then err e
           else rseq (only_if (T5 \<le> sp) (emit_dex (FlipFailed (ord_id ord) (ord_maker ord) e)))
                     (delete_order (ord_id ord))
       | Inr _ \<Rightarrow> only_if (\<not> T5 \<le> sp) (delete_order (ord_id ord))))
     else delete_order (ord_id ord))"

definition advance_level :: "b256 \<Rightarrow> order \<Rightarrow> tick_level \<Rightarrow> u128 \<Rightarrow> (tick_level \<times> order) option M" where
  "advance_level k ord level fill =
    (let is_bid = ord_is_bid ord; tick = ord_tick ord in
     if ord_next ord = 0 then
       rseq (delete_level k tick is_bid)
      (rseq (delete_tick_bit k tick is_bid)
      (rbind (advance_best_tick k tick is_bid) (\<lambda>(next_tick, has_liquidity).
       if \<not> has_liquidity then ok None
       else
         rbind (gets (\<lambda>w. read_level w k next_tick is_bid)) (\<lambda>new_level.
         rbind (rd (\<lambda>w. read_in_book w (tl_head new_level) k)) (\<lambda>next_ord.
         ok (Some (new_level, next_ord)))))))
     else
       rseq (upd_order (ord_next ord) (set_prev 0))
      (rbind (gets spec) (\<lambda>sp.
       rbind (if \<not> T12 \<le> sp
              then rbind (ok_or (checked_sub (tl_total_liquidity level) fill) under_overflow)
                     (\<lambda>v. ok (level\<lparr>tl_head := ord_next ord, tl_total_liquidity := v\<rparr>))
              else ok (level\<lparr>tl_head := ord_next ord\<rparr>)) (\<lambda>level.
       rseq (write_level k tick is_bid level)
      (rbind (rd (\<lambda>w. read_in_book w (ord_next ord) k)) (\<lambda>next_ord.
       ok (Some (level, next_ord))))))))"

definition fill_order :: "b256 \<Rightarrow> order \<Rightarrow> tick_level \<Rightarrow> address \<Rightarrow> (tick_level \<times> order) option M" where
  "fill_order k ord level taker =
    rbind (gets (\<lambda>w. books (dex w) k)) (\<lambda>book.
    let fill = ord_remaining ord in
    rseq (pay_maker ord book fill)
   (rseq (emit_dex (OrderFilled (ord_id ord) (ord_maker ord) taker fill False))
   (rseq (settle_flip ord book)
         (advance_level k ord level fill))))"

section \<open>The walk over resting orders\<close>

datatype (plugins only: code size) fill = Partial u128 | Full

text \<open>One iteration of the loop: the settlement returns the next order and the level it is at. The result
  tells how to go on: with an order and an amount, or not at all.\<close>

definition walk_step ::
  "(u128 \<Rightarrow> order \<Rightarrow> bool \<Rightarrow> order_step option) \<Rightarrow> ('l \<Rightarrow> order \<Rightarrow> fill \<Rightarrow> (order option \<times> 'l) M) \<Rightarrow> bool \<Rightarrow>
    'l \<Rightarrow> order \<Rightarrow> u128 \<Rightarrow> u128 \<Rightarrow> (u128 \<times> ('l \<times> order \<times> u128) option) M" where
  "walk_step step settle is_bid level ord amount tot =
    rbind (ok_or (step amount ord is_bid) under_overflow) (\<lambda>s.
    if fill_amount s < ord_remaining ord then
      rbind (settle level ord (Partial (fill_amount s))) (\<lambda>_.
      rbind (ok_or (checked_add 128 tot (accumulate s)) under_overflow) (\<lambda>tot.
      ok (tot, None)))
    else
      rbind (settle level ord Full) (\<lambda>(next_order, level).
      rbind (ok_or (checked_add 128 tot (accumulate s)) under_overflow) (\<lambda>tot.
      case next_order of
        Some next_order \<Rightarrow> ok (tot, Some (level, next_order, next_amount s))
      | None \<Rightarrow>
          if next_amount s > 0 then err (StablecoinDEX DexInsufficientLiquidity) else ok (tot, None))))"

partial_function (option) walk_from ::
  "(u128 \<Rightarrow> order \<Rightarrow> bool \<Rightarrow> order_step option) \<Rightarrow> ('l \<Rightarrow> order \<Rightarrow> fill \<Rightarrow> (order option \<times> 'l) M) \<Rightarrow> bool \<Rightarrow>
    'l \<Rightarrow> order \<Rightarrow> u128 \<Rightarrow> u128 \<Rightarrow> world \<Rightarrow> (tempo_error + u128 \<times> world) option" where
  "walk_from step settle is_bid level ord amount tot w =
    (if amount = 0 then Some (Inr (tot, w))
     else case walk_step step settle is_bid level ord amount tot w of
       Inl e \<Rightarrow> Some (Inl e)
     | Inr ((tot', None), w') \<Rightarrow> Some (Inr (tot', w'))
     | Inr ((tot', Some (level', ord', amount')), w') \<Rightarrow> walk_from step settle is_bid level' ord' amount' tot' w')"

definition walk_resting_orders ::
  "'l \<Rightarrow> order \<Rightarrow> u128 \<Rightarrow> bool \<Rightarrow> (u128 \<Rightarrow> order \<Rightarrow> bool \<Rightarrow> order_step option) \<Rightarrow>
    ('l \<Rightarrow> order \<Rightarrow> fill \<Rightarrow> (order option \<times> 'l) M) \<Rightarrow> u128 M" where
  "walk_resting_orders level ord amount is_bid step settle =
    (\<lambda>w. case walk_from step settle is_bid level ord amount 0 w of None \<Rightarrow> Inl OutOfGas | Some r \<Rightarrow> r)"

section \<open>Swaps over one book\<close>

definition settle_fill :: "b256 \<Rightarrow> address \<Rightarrow> tick_level \<Rightarrow> order \<Rightarrow> fill \<Rightarrow> (order option \<times> tick_level) M" where
  "settle_fill k taker level ord fl =
    (case fl of
       Partial amount \<Rightarrow> rseq (partial_fill_order ord level amount taker) (ok (None, level))
     | Full \<Rightarrow>
         rbind (fill_order k ord level taker) (\<lambda>next.
         case next of
           Some (new_level, next_ord) \<Rightarrow> ok (Some next_ord, new_level)
         | None \<Rightarrow> ok (None, level)))"

definition get_best_price_level :: "world \<Rightarrow> b256 \<Rightarrow> bool \<Rightarrow> tick_level R" where
  "get_best_price_level w k is_bid =
    (let book = books (dex w) k; best = (if is_bid then best_bid_tick book else best_ask_tick book) in
     if best = (if is_bid then I16_MIN else I16_MAX) then Inl (StablecoinDEX DexInsufficientLiquidity)
     else Inr (read_level w k best is_bid))"

definition fill_orders ::
  "(u128 \<Rightarrow> order \<Rightarrow> bool \<Rightarrow> order_step option) \<Rightarrow> b256 \<Rightarrow> bool \<Rightarrow> u128 \<Rightarrow> address \<Rightarrow> u128 M" where
  "fill_orders step k is_bid amount taker =
    rbind (rd (\<lambda>w. get_best_price_level w k is_bid)) (\<lambda>level.
    rbind (rd (\<lambda>w. read_in_book w (tl_head level) k)) (\<lambda>ord.
    walk_resting_orders level ord amount is_bid step (settle_fill k taker)))"

definition fill_orders_exact_out :: "b256 \<Rightarrow> bool \<Rightarrow> u128 \<Rightarrow> address \<Rightarrow> u128 M" where
  "fill_orders_exact_out = fill_orders step_exact_out"

definition fill_orders_exact_in :: "b256 \<Rightarrow> bool \<Rightarrow> u128 \<Rightarrow> address \<Rightarrow> u128 M" where
  "fill_orders_exact_in = fill_orders step_exact_in"

section \<open>Quotes over one book\<close>

definition next_order_after :: "world \<Rightarrow> b256 \<Rightarrow> order \<Rightarrow> bool \<Rightarrow> order option R" where
  "next_order_after w k ord is_bid =
    (if ord_next ord \<noteq> 0 then ebind (read_in_book w (ord_next ord) k) (\<lambda>n. Inr (Some n))
     else
       let (next_tick, has_liquidity) = next_initialized_tick (books (dex w) k) (ord_tick ord) is_bid in
       if \<not> has_liquidity then Inr None
       else ebind (read_in_book w (tl_head (read_level w k next_tick is_bid)) k) (\<lambda>n. Inr (Some n)))"

definition settle_quote :: "b256 \<Rightarrow> bool \<Rightarrow> unit \<Rightarrow> order \<Rightarrow> fill \<Rightarrow> (order option \<times> unit) M" where
  "settle_quote k is_bid u ord fl =
    (case fl of
       Partial _ \<Rightarrow> ok (None, ())
     | Full \<Rightarrow> rbind (rd (\<lambda>w. next_order_after w k ord is_bid)) (\<lambda>n. ok (n, ())))"

definition quote_per_order ::
  "b256 \<Rightarrow> u128 \<Rightarrow> bool \<Rightarrow> (u128 \<Rightarrow> order \<Rightarrow> bool \<Rightarrow> order_step option) \<Rightarrow> u128 M" where
  "quote_per_order k amount is_bid step =
    rbind (rd (\<lambda>w. get_best_price_level w k is_bid)) (\<lambda>level.
    rbind (rd (\<lambda>w. read_in_book w (tl_head level) k)) (\<lambda>ord.
    walk_resting_orders () ord amount is_bid step (settle_quote k is_bid)))"

definition tick_step_out :: "u128 \<Rightarrow> i16 \<Rightarrow> u128 \<Rightarrow> bool \<Rightarrow> (u128 \<times> u128 \<times> u128) R" where
  "tick_step_out remaining_out tick liquidity is_bid =
    (if is_bid then
       ebind (eok_or (quote_to_base remaining_out tick Up) under_overflow) (\<lambda>base_needed.
       let fl = (if base_needed > liquidity then liquidity else base_needed) in
       ebind (eok_or (base_to_quote fl tick Down) under_overflow) (\<lambda>out.
       Inr (fl, fl, min out remaining_out)))
     else
       let fl = (if remaining_out > liquidity then liquidity else remaining_out) in
       ebind (eok_or (base_to_quote fl tick Up) under_overflow) (\<lambda>quote_needed.
       Inr (fl, quote_needed, fl)))"

definition tick_step_in :: "u128 \<Rightarrow> i16 \<Rightarrow> u128 \<Rightarrow> bool \<Rightarrow> (u128 \<times> u128 \<times> u128) R" where
  "tick_step_in remaining_in tick liquidity is_bid =
    (if is_bid then
       let fl = min remaining_in liquidity in
       ebind (eok_or (base_to_quote fl tick Down) under_overflow) (\<lambda>quote_out.
       Inr (fl, quote_out, fl))
     else
       ebind (eok_or (quote_to_base remaining_in tick Down) under_overflow) (\<lambda>base_to_get.
       let fl = min base_to_get liquidity in
       ebind (eok_or (base_to_quote fl tick Up) under_overflow) (\<lambda>quote_consumed.
       Inr (fl, fl, quote_consumed))))"

text \<open>The quotes by tick of the forks before T12. The arithmetic at a level returns the amount filled, the
  amount that is added up, and the amount that is used up; the last one never exceeds what remains when it
  is subtracted with saturation.\<close>

partial_function (option) quote_ticks ::
  "(u128 \<Rightarrow> i16 \<Rightarrow> u128 \<Rightarrow> bool \<Rightarrow> (u128 \<times> u128 \<times> u128) R) \<Rightarrow> bool \<Rightarrow> world \<Rightarrow> b256 \<Rightarrow> bool \<Rightarrow> i16 \<Rightarrow> u128 \<Rightarrow> u128 \<Rightarrow>
    (tempo_error + u128) option" where
  "quote_ticks step checked w k is_bid tick remaining tot =
    (if remaining = 0 then Some (Inr tot)
     else
       let liquidity = tl_total_liquidity (read_level w k tick is_bid);
           nxt = next_initialized_tick (books (dex w) k) tick is_bid
       in
       if liquidity = 0 then
         (if \<not> snd nxt then Some (Inl (StablecoinDEX DexInsufficientLiquidity))
          else quote_ticks step checked w k is_bid (fst nxt) remaining tot)
       else case step remaining tick liquidity is_bid of
         Inl e \<Rightarrow> Some (Inl e)
       | Inr (fl, acc, used) \<Rightarrow>
           if checked \<and> used > remaining then Some (Inl under_overflow)
           else (case checked_add 128 tot acc of
             None \<Rightarrow> Some (Inl under_overflow)
           | Some tot' \<Rightarrow>
               if fl = liquidity then
                 (if \<not> snd nxt \<and> remaining - used > 0 then Some (Inl (StablecoinDEX DexInsufficientLiquidity))
                  else quote_ticks step checked w k is_bid (fst nxt) (remaining - used) tot')
               else Some (Inr tot')))"

definition quote_per_tick ::
  "(u128 \<Rightarrow> i16 \<Rightarrow> u128 \<Rightarrow> bool \<Rightarrow> (u128 \<times> u128 \<times> u128) R) \<Rightarrow> bool \<Rightarrow> world \<Rightarrow> b256 \<Rightarrow> u128 \<Rightarrow> bool \<Rightarrow> u128 R" where
  "quote_per_tick step checked w k amount is_bid =
    (let book = books (dex w) k; tick = (if is_bid then best_bid_tick book else best_ask_tick book) in
     if tick = I16_MIN \<or> tick = I16_MAX then Inl (StablecoinDEX DexInsufficientLiquidity)
     else case quote_ticks step checked w k is_bid tick amount 0 of None \<Rightarrow> Inl OutOfGas | Some r \<Rightarrow> r)"

definition quote_exact_out :: "b256 \<Rightarrow> u128 \<Rightarrow> bool \<Rightarrow> u128 M" where
  "quote_exact_out k amount_out is_bid =
    rbind (gets spec) (\<lambda>sp.
    if T12 \<le> sp then quote_per_order k amount_out is_bid step_exact_out
    else rd (\<lambda>w. quote_per_tick tick_step_out False w k amount_out is_bid))"

definition quote_exact_in :: "b256 \<Rightarrow> u128 \<Rightarrow> bool \<Rightarrow> u128 M" where
  "quote_exact_in k amount_in is_bid =
    rbind (gets spec) (\<lambda>sp.
    if T12 \<le> sp then quote_per_order k amount_in is_bid step_exact_in
    else rd (\<lambda>w. quote_per_tick tick_step_in True w k amount_in is_bid))"

section \<open>Routes\<close>

fun validate_and_build_route :: "world \<Rightarrow> address list \<Rightarrow> (b256 \<times> bool) list R" where
  "validate_and_build_route w (token_in # token_out # path) =
    ebind (from_address token_in) (\<lambda>tin.
    ebind (if T3 \<le> spec w then check_not_paused w tin else Inr ()) (\<lambda>_.
    ebind (if quote_token (tokens w tin) = token_out then Inr (token_in, token_out)
           else
             ebind (from_address token_out) (\<lambda>tout.
             if quote_token (tokens w tout) = token_in then Inr (token_out, token_in)
             else Inl (StablecoinDEX PairDoesNotExist))) (\<lambda>(b, q).
    let k = compute_book_key w b q in
    if \<not> is_initialized (books (dex w) k) then Inl (StablecoinDEX PairDoesNotExist)
    else ebind (validate_and_build_route w (token_out # path)) (\<lambda>route. Inr ((k, token_in = b) # route)))))"
| "validate_and_build_route w _ = Inr []"

partial_function (option) find_path_to_root :: "world \<Rightarrow> address \<Rightarrow> address list \<Rightarrow> (tempo_error + address list) option" where
  "find_path_to_root w token path =
    (if token = PATH_USD_ADDRESS then Some (Inr path)
     else if \<not> is_tip20_prefix token then Some (Inl (TIP20 InvalidToken))
     else find_path_to_root w (quote_token (tokens w token)) (path @ [quote_token (tokens w token)]))"

definition path_to_root :: "world \<Rightarrow> address \<Rightarrow> address list R" where
  "path_to_root w token =
    (case find_path_to_root w token [token] of None \<Rightarrow> Inl OutOfGas | Some r \<Rightarrow> r)"

definition trade_path :: "address list \<Rightarrow> address list \<Rightarrow> address list option" where
  "trade_path path_in path_out =
    (case find (\<lambda>t. t \<in> set path_out) path_in of
       None \<Rightarrow> None
     | Some lca \<Rightarrow> Some (takeWhile (\<lambda>t. t \<noteq> lca) path_in @ [lca] @ rev (takeWhile (\<lambda>t. t \<noteq> lca) path_out)))"

definition find_trade_path :: "world \<Rightarrow> address \<Rightarrow> address \<Rightarrow> (b256 \<times> bool) list R" where
  "find_trade_path w token_in token_out =
    (if token_in = token_out then Inl (StablecoinDEX IdenticalTokens)
     else if \<not> is_tip20_prefix token_in \<or> \<not> is_tip20_prefix token_out then Inl (StablecoinDEX DexInvalidToken)
     else if quote_token (tokens w token_in) = token_out \<or> quote_token (tokens w token_out) = token_in
     then validate_and_build_route w [token_in, token_out]
     else
       ebind (path_to_root w token_in) (\<lambda>path_in.
       ebind (path_to_root w token_out) (\<lambda>path_out.
       ebind (eok_or (trade_path path_in path_out) (StablecoinDEX PairDoesNotExist)) (validate_and_build_route w))))"

section \<open>Swaps and quotes over a route\<close>

primrec along_route :: "(b256 \<Rightarrow> bool \<Rightarrow> u128 \<Rightarrow> u128 M) \<Rightarrow> (b256 \<times> bool) list \<Rightarrow> u128 \<Rightarrow> u128 M" where
  "along_route hop [] amount = ok amount"
| "along_route hop (h # route) amount = rbind (hop (fst h) (snd h) amount) (along_route hop route)"

definition swap_exact_amount_in :: "address \<Rightarrow> address \<Rightarrow> address \<Rightarrow> u128 \<Rightarrow> u128 \<Rightarrow> u128 M" where
  "swap_exact_amount_in sender token_in token_out amount_in min_amount_out =
    rbind (rd (\<lambda>w. find_trade_path w token_in token_out)) (\<lambda>route.
    rseq (decrement_balance_or_transfer_from sender token_in amount_in False)
   (rbind (along_route (\<lambda>k base_for_quote a. fill_orders_exact_in k base_for_quote a sender) route amount_in) (\<lambda>amount.
    rseq (ensure (\<not> amount < min_amount_out) (StablecoinDEX InsufficientOutput))
   (rseq (dex_transfer token_out sender amount)
         (ok amount)))))"

definition swap_exact_amount_out :: "address \<Rightarrow> address \<Rightarrow> address \<Rightarrow> u128 \<Rightarrow> u128 \<Rightarrow> u128 M" where
  "swap_exact_amount_out sender token_in token_out amount_out max_amount_in =
    rbind (rd (\<lambda>w. find_trade_path w token_in token_out)) (\<lambda>route.
    rbind (along_route (\<lambda>k base_for_quote a. fill_orders_exact_out k base_for_quote a sender) (rev route) amount_out) (\<lambda>amount.
    rseq (ensure (\<not> amount > max_amount_in) (StablecoinDEX MaxInputExceeded))
   (rseq (decrement_balance_or_transfer_from sender token_in amount False)
   (rseq (dex_transfer token_out sender amount_out)
         (ok amount)))))"

definition quote_swap_exact_amount_in :: "address \<Rightarrow> address \<Rightarrow> u128 \<Rightarrow> u128 M" where
  "quote_swap_exact_amount_in token_in token_out amount_in =
    rbind (rd (\<lambda>w. find_trade_path w token_in token_out)) (\<lambda>route.
    along_route (\<lambda>k base_for_quote a. quote_exact_in k a base_for_quote) route amount_in)"

definition quote_swap_exact_amount_out :: "address \<Rightarrow> address \<Rightarrow> u128 \<Rightarrow> u128 M" where
  "quote_swap_exact_amount_out token_in token_out amount_out =
    rbind (rd (\<lambda>w. find_trade_path w token_in token_out)) (\<lambda>route.
    along_route (\<lambda>k base_for_quote a. quote_exact_out k a base_for_quote) (rev route) amount_out)"

section \<open>Calls\<close>

datatype (plugins only: code size) dex_call =
    PlaceCall address u128 bool i16
  | PlaceFlipCall address u128 bool i16 i16
  | CreatePairCall address
  | WithdrawCall address u128
  | CancelCall u128
  | CancelStaleOrderCall u128
  | SwapExactAmountInCall address address u128 u128
  | SwapExactAmountOutCall address address u128 u128
  | SetBookIndexCall u32

primrec dex_handle :: "address \<Rightarrow> dex_call \<Rightarrow> unit M" where
  "dex_handle s (PlaceCall t a b tick) = void (place s t a b tick)"
| "dex_handle s (PlaceFlipCall t a b tick ft) = void (place_flip s t a b tick ft False)"
| "dex_handle s (CreatePairCall b) = void (create_pair b)"
| "dex_handle s (WithdrawCall t a) = withdraw s t a"
| "dex_handle s (CancelCall i) = cancel s i"
| "dex_handle s (CancelStaleOrderCall i) = cancel_stale_order i"
| "dex_handle s (SwapExactAmountInCall tin tout a m) = void (swap_exact_amount_in s tin tout a m)"
| "dex_handle s (SwapExactAmountOutCall tin tout a m) = void (swap_exact_amount_out s tin tout a m)"
| "dex_handle s (SetBookIndexCall i) = set_book_index i"

definition dex_dispatch :: "address \<Rightarrow> dex_call \<Rightarrow> unit M" where
  "dex_dispatch s c =
    rbind (gets spec) (\<lambda>sp.
    rseq (ensure (case c of SetBookIndexCall _ \<Rightarrow> T8 \<le> sp | _ \<Rightarrow> True) UnknownFunctionSelector)
         (dex_handle s c))"

end
