(* ===== verification/Dex_Queue.thy ===== *)
theory Dex_Queue
  imports Dex_Swaps
begin

text \<open>
  The queue of orders at a price. A level stores the first and the last order, and every order its
  neighbours; the lemmas relate these links to the list of the orders in the queue, for appending an order,
  filling the first one, and taking one out. They are stated for the orders as the exchange reads them,
  whatever their layout in storage is.
\<close>

section \<open>Orders as they are read\<close>

definition decode :: "dex_storage \<Rightarrow> u128 \<Rightarrow> order" where
  "decode d i =
    (case orders d i of LegacyOrder ord \<Rightarrow> ord | V1Order c k \<Rightarrow> into_order c i k | V2Order c n \<Rightarrow> into_order c i (book_keys d ! n))"

definition index_ok :: "dex_storage \<Rightarrow> u128 \<Rightarrow> bool" where
  "index_ok d i = (case orders d i of V2Order c n \<Rightarrow> n < length (book_keys d) | _ \<Rightarrow> True)"

lemma read_order_decode: "index_ok (dex w) i \<Longrightarrow> read_order w i = Inr (decode (dex w) i)"
  by (auto simp: index_ok_def read_order_def read_with_book_key_def decode_def book_key_for_index_def ebind_def split: stored_order.splits)

lemma read_in_book_decode:
  "ord_book_key (decode (dex w) i) = k \<Longrightarrow> read_in_book w i k = Inr (decode (dex w) i)"
  by (auto simp: read_in_book_def read_with_book_key_def decode_def into_order_def split: stored_order.splits)

lemma decode_upd:
  "decode (d\<lparr>orders := (orders d)(i := set_remaining v (orders d i))\<rparr>) = (decode d)(i := (decode d i)\<lparr>ord_remaining := v\<rparr>)"
  "decode (d\<lparr>orders := (orders d)(i := set_prev v (orders d i))\<rparr>) = (decode d)(i := (decode d i)\<lparr>ord_prev := v\<rparr>)"
  "decode (d\<lparr>orders := (orders d)(i := set_next v (orders d i))\<rparr>) = (decode d)(i := (decode d i)\<lparr>ord_next := v\<rparr>)"
  "decode (d\<lparr>orders := (orders d)(i := LegacyOrder ord)\<rparr>) = (decode d)(i := ord)"
  by (auto simp: decode_def into_order_def fun_eq_iff split: stored_order.split)

lemma decode_store:
  assumes "ord_id ord = i" "\<And>n. book_id_index bid = Some n \<Longrightarrow> book_keys d ! n = ord_book_key ord"
  shows "decode (d\<lparr>orders := (orders d)(i := store_layout sp ord bid)\<rparr>) = (decode d)(i := ord)"
  using assms by (auto simp: decode_def store_layout_def fun_eq_iff split: option.split stored_order.split)

lemma decode_cong: "orders d' = orders d \<Longrightarrow> book_keys d' = book_keys d \<Longrightarrow> decode d' = decode d"
  by (auto simp: decode_def fun_eq_iff split: stored_order.split)

section \<open>Links\<close>

fun seg :: "(u128 \<Rightarrow> order) \<Rightarrow> u128 \<Rightarrow> u128 list \<Rightarrow> u128 \<Rightarrow> bool" where
  "seg f p [] e = True"
| "seg f p (i # q) e = (ord_prev (f i) = p \<and> ord_next (f i) = hd (q @ [e]) \<and> seg f i q e)"

lemma seg_append: "seg f p (a @ b) e \<longleftrightarrow> seg f p a (hd (b @ [e])) \<and> seg f (last (p # a)) b e"
  by (induction a arbitrary: p) (auto simp: hd_append)

lemma seg_cong: "(\<And>i. i \<in> set q \<Longrightarrow> ord_prev (g i) = ord_prev (f i) \<and> ord_next (g i) = ord_next (f i)) \<Longrightarrow> seg g p q e = seg f p q e"
  by (induction q arbitrary: p) auto

lemma seg_upd: "i \<notin> set q \<Longrightarrow> seg (f(i := x)) p q e = seg f p q e"
  by (rule seg_cong) auto

lemma seg_end:
  assumes "seg f p q e" "distinct q" "q \<noteq> []"
  shows "seg (f(last q := (f (last q))\<lparr>ord_next := e'\<rparr>)) p q e'"
proof -
  let ?l = "last q" and ?a = "butlast q"
  have q: "q = ?a @ [?l]"
    using assms(3) by simp
  have "seg f p ?a ?l" "seg f (last (p # ?a)) [?l] e"
    using assms(1) seg_append [of f p ?a "[?l]" e] q by simp_all
  moreover have "?l \<notin> set ?a"
    using assms(2,3) q by (metis distinct_append not_distinct_conv_prefix)
  ultimately have "seg (f(?l := (f ?l)\<lparr>ord_next := e'\<rparr>)) p (?a @ [?l]) e'"
    unfolding seg_append by (simp add: seg_upd)
  then show ?thesis
    using q by simp
qed

lemma seg_start:
  "seg f p (j # q) e \<Longrightarrow> j \<notin> set q \<Longrightarrow> seg (f(j := (f j)\<lparr>ord_prev := p'\<rparr>)) p' (j # q) e"
  by (simp add: seg_upd)

lemma seg_snoc:
  assumes "seg f p q 0" "distinct q" "n \<notin> set q"
  shows "seg ((if q = [] then f else f(last q := (f (last q))\<lparr>ord_next := n\<rparr>))(n := x\<lparr>ord_prev := last (p # q), ord_next := 0\<rparr>)) p (q @ [n]) 0"
proof (cases "q = []")
  case False
  then show ?thesis
    using seg_end [OF assms(1,2) False, of n] assms(3) unfolding seg_append by (simp add: seg_upd)
qed simp

text \<open>Taking the order \<open>i\<close> out of the queue: its neighbours are linked to each other.\<close>

definition unlinked :: "(u128 \<Rightarrow> order) \<Rightarrow> order \<Rightarrow> u128 \<Rightarrow> order" where
  "unlinked f x =
    (let g = (if ord_prev x \<noteq> 0 then f(ord_prev x := (f (ord_prev x))\<lparr>ord_next := ord_next x\<rparr>) else f) in
     if ord_next x \<noteq> 0 then g(ord_next x := (g (ord_next x))\<lparr>ord_prev := ord_prev x\<rparr>) else g)"

lemma seg_unlink:
  assumes "seg f 0 (a @ i # b) 0" "distinct (a @ i # b)" "0 \<notin> set (a @ b)"
  shows "seg (unlinked f (f i)) 0 (a @ b) 0"
proof -
  have sa: "seg f 0 a i" and pr: "ord_prev (f i) = last (0 # a)" and nx: "ord_next (f i) = hd (b @ [0])" and sb: "seg f i b 0"
    using assms(1) unfolding seg_append by simp_all
  define g where "g = (if ord_prev (f i) \<noteq> 0 then f(ord_prev (f i) := (f (ord_prev (f i)))\<lparr>ord_next := ord_next (f i)\<rparr>) else f)"
  have u: "unlinked f (f i) = (if ord_next (f i) \<noteq> 0 then g(ord_next (f i) := (g (ord_next (f i)))\<lparr>ord_prev := ord_prev (f i)\<rparr>) else g)"
    by (simp only: unlinked_def g_def Let_def)
  have ga: "seg g 0 a (hd (b @ [0]))"
  proof (cases "a = []")
    case False
    then have "ord_prev (f i) = last a" "last a \<noteq> 0"
      using pr assms(3) False last_in_set [OF False] by (simp, metis UnI1 set_append)
    then show ?thesis
      using seg_end [OF sa _ False, of "hd (b @ [0])"] assms(2) nx by (simp add: g_def)
  qed simp
  have gb: "seg g i b 0"
  proof -
    have "last a \<notin> set b" if "a \<noteq> []"
      using that assms(2) by (auto dest: last_in_set)
    then show ?thesis
      using sb pr by (cases "a = []") (auto simp: g_def seg_upd)
  qed
  show ?thesis
  proof (cases b)
    case Nil
    then show ?thesis
      using ga nx by (simp add: u)
  next
    case (Cons j r)
    then have j: "j \<noteq> 0" "j \<notin> set a" "j \<notin> set r"
      using assms(2,3) by auto
    then show ?thesis
      using seg_start [of g i j r 0 "last (0 # a)"] gb ga nx pr Cons unfolding seg_append
      by (simp add: u seg_upd)
  qed
qed

lemma unlinked_other: "i \<noteq> ord_prev x \<Longrightarrow> i \<noteq> ord_next x \<Longrightarrow> unlinked f x i = f i"
  by (simp add: unlinked_def Let_def)

lemma unlinked_fields:
  "ord_id (unlinked f x i) = ord_id (f i)" "ord_maker (unlinked f x i) = ord_maker (f i)"
  "ord_book_key (unlinked f x i) = ord_book_key (f i)" "ord_is_bid (unlinked f x i) = ord_is_bid (f i)"
  "ord_tick (unlinked f x i) = ord_tick (f i)" "ord_amount (unlinked f x i) = ord_amount (f i)"
  "ord_remaining (unlinked f x i) = ord_remaining (f i)" "ord_is_flip (unlinked f x i) = ord_is_flip (f i)"
  "ord_flip_tick (unlinked f x i) = ord_flip_tick (f i)"
  by (simp_all add: unlinked_def Let_def)

end
