(* ===== verification/Dex_Inv.thy ===== *)
theory Dex_Inv
  imports Dex_Queue
begin

text \<open>
  The invariant of the books of the exchange. A book has a queue of orders at every tick of each side; the
  links of the orders, the ends and the liquidity of the level, the bitmap and the best tick agree with the
  queues, and every stored order is in the queue of its book, side and tick. While a swap fills the first
  order of the best queue, that queue is open: its level, its bit and the best tick still describe the queue
  with the order that is being filled.
\<close>

type_synonym spot = "b256 \<times> bool \<times> i16"
type_synonym queues = "spot \<Rightarrow> u128 list"

section \<open>Views of the storage\<close>

definition lvl :: "dex_storage \<Rightarrow> spot \<Rightarrow> tick_level" where
  "lvl d x = (case x of (k, s, t) \<Rightarrow> tick_level_of (books d k) t s)"

definition act :: "dex_storage \<Rightarrow> spot \<Rightarrow> bool" where
  "act d x = (case x of (k, s, t) \<Rightarrow> active (bitmap_of (books d k) s) t)"

definition best :: "dex_storage \<Rightarrow> b256 \<Rightarrow> bool \<Rightarrow> i16" where
  "best d k s = (if s then best_bid_tick (books d k) else best_ask_tick (books d k))"

definition info :: "dex_storage \<Rightarrow> b256 \<Rightarrow> address \<times> address \<times> u32" where
  "info d k = (book_base (books d k), book_quote (books d k), book_id (books d k))"

definition map_book :: "b256 \<Rightarrow> (orderbook \<Rightarrow> orderbook) \<Rightarrow> dex_storage \<Rightarrow> dex_storage" where
  "map_book k f d = d\<lparr>books := (books d)(k := f (books d k))\<rparr>"

lemma map_book_frame [simp]:
  "orders (map_book k f d) = orders d" "book_keys (map_book k f d) = book_keys d"
  "dex_balances (map_book k f d) = dex_balances d" "next_order_id_slot (map_book k f d) = next_order_id_slot d"
  "decode (map_book k f d) = decode d" "index_ok (map_book k f d) = index_ok d"
  by (auto simp: map_book_def decode_def index_ok_def fun_eq_iff split: stored_order.split)

lemma view_level [simp]:
  "lvl (map_book k (set_tick_level t s l) d) = (lvl d)((k, s, t) := l)"
  "act (map_book k (set_tick_level t s l) d) = act d" "best (map_book k (set_tick_level t s l) d) = best d"
  "info (map_book k (set_tick_level t s l) d) = info d"
  by (auto simp: lvl_def act_def best_def info_def map_book_def set_tick_level_def tick_level_of_def bitmap_of_def fun_eq_iff)

lemma view_best [simp]:
  "lvl (map_book k (set_best_tick s b) d) = lvl d" "act (map_book k (set_best_tick s b) d) = act d"
  "best (map_book k (set_best_tick s b) d) = (best d)(k := (best d k)(s := b))"
  "info (map_book k (set_best_tick s b) d) = info d"
  by (auto simp: lvl_def act_def best_def info_def map_book_def set_best_tick_def tick_level_of_def bitmap_of_def fun_eq_iff)

lemma view_word [simp]:
  "lvl (map_book k (set_bitmap_word s i v) d) = lvl d" "best (map_book k (set_bitmap_word s i v) d) = best d"
  "info (map_book k (set_bitmap_word s i v) d) = info d"
  by (auto simp: lvl_def best_def info_def map_book_def set_bitmap_word_def tick_level_of_def fun_eq_iff)

lemma tick_eq: "t div 256 = u div 256 \<Longrightarrow> bit_index t = bit_index u \<Longrightarrow> t = u"
  by (metis tick_split)

lemma act_word:
  "act (map_book k (set_bitmap_word s (t div 256) v) d) (k', s', u) =
    (if k' = k \<and> s' = s \<and> u div 256 = t div 256 then bit v (bit_index u) else act d (k', s', u))"
  by (auto simp: act_def map_book_def set_bitmap_word_def bitmap_of_def active_def)

lemma act_set: "act (map_book k (\<lambda>b. set_bitmap_word s (t div 256) (bitmap_of b s (t div 256) OR push_bit (bit_index t) 1) b) d) = (act d)((k, s, t) := True)"
proof -
  have "bit (v OR push_bit (bit_index t) 1) (bit_index u) \<longleftrightarrow> bit v (bit_index u) \<or> bit_index u = bit_index t" for v :: b256 and u
    using bit_index_less [of t] bit_index_less [of u] by (auto simp: bit_simps)
  then show ?thesis
    by (auto simp: fun_eq_iff act_def map_book_def set_bitmap_word_def bitmap_of_def active_def dest: tick_eq)
qed

lemma act_clear: "act (map_book k (\<lambda>b. set_bitmap_word s (t div 256) (bitmap_of b s (t div 256) AND NOT (push_bit (bit_index t) 1)) b) d) = (act d)((k, s, t) := False)"
proof -
  have "bit (v AND NOT (push_bit (bit_index t) 1)) (bit_index u) \<longleftrightarrow> bit v (bit_index u) \<and> bit_index u \<noteq> bit_index t" for v :: b256 and u
    using bit_index_less [of t] bit_index_less [of u] by (auto simp: bit_simps)
  then show ?thesis
    by (auto simp: fun_eq_iff act_def map_book_def set_bitmap_word_def bitmap_of_def active_def dest: tick_eq)
qed

lemma map_book_cong: "f (books d k) = g (books d k) \<Longrightarrow> map_book k f d = map_book k g d"
  by (simp add: map_book_def)

lemma view_bits [simp]:
  "lvl (map_book k (\<lambda>b. set_bitmap_word s i (g b) b) d) = lvl d" "best (map_book k (\<lambda>b. set_bitmap_word s i (g b) b) d) = best d"
  "info (map_book k (\<lambda>b. set_bitmap_word s i (g b) b) d) = info d"
  by (auto simp: lvl_def best_def info_def map_book_def set_bitmap_word_def tick_level_of_def fun_eq_iff)

section \<open>The invariant\<close>

definition sentinel :: "bool \<Rightarrow> i16" where
  "sentinel s = (if s then I16_MIN else I16_MAX)"

definition live :: "(u128 \<Rightarrow> order) \<Rightarrow> spot \<Rightarrow> u128 \<Rightarrow> bool" where
  "live f x i = (case x of (k, s, t) \<Rightarrow> 0 < i \<and> ord_id (f i) = i \<and> ord_book_key (f i) = k \<and> ord_is_bid (f i) = s \<and> ord_tick (f i) = t
    \<and> ord_maker (f i) \<noteq> 0 \<and> 0 < ord_remaining (f i) \<and> ord_remaining (f i) \<le> ord_amount (f i) \<and> MIN_TICK \<le> t \<and> t \<le> MAX_TICK
    \<and> (ord_is_flip (f i) \<longrightarrow> MIN_TICK \<le> ord_flip_tick (f i) \<and> ord_flip_tick (f i) \<le> MAX_TICK))"

definition queue_ok :: "(u128 \<Rightarrow> order) \<Rightarrow> u128 \<Rightarrow> spot \<Rightarrow> u128 list \<Rightarrow> bool" where
  "queue_ok f p x q = (distinct q \<and> seg f p q 0 \<and> (\<forall>i\<in>set q. live f x i))"

definition liquidity :: "(u128 \<Rightarrow> order) \<Rightarrow> u128 list \<Rightarrow> nat" where
  "liquidity f q = sum_list (map (\<lambda>i. ord_remaining (f i)) q)"

definition level_ok :: "hardfork \<Rightarrow> (u128 \<Rightarrow> order) \<Rightarrow> tick_level \<Rightarrow> u128 list \<Rightarrow> bool" where
  "level_ok sp f l q =
    (tl_head l = hd (q @ [0]) \<and> tl_tail l = last (0 # q) \<and> (\<not> T12 \<le> sp \<longrightarrow> tl_total_liquidity l = liquidity f q))"

definition best_ok :: "bool \<Rightarrow> i16 \<Rightarrow> (i16 \<Rightarrow> u128 list) \<Rightarrow> bool" where
  "best_ok s b Q = (if \<forall>t. Q t = [] then b = sentinel s else Q b \<noteq> [] \<and> (\<forall>t. Q t \<noteq> [] \<longrightarrow> t = b \<or> beyond s b t))"

definition open_ok :: "dex_storage \<Rightarrow> queues \<Rightarrow> spot \<Rightarrow> bool" where
  "open_ok d Q x = (case x of (k, s, t) \<Rightarrow> fst (info d k) \<noteq> 0 \<and> best d k s = t \<and> MIN_TICK \<le> t \<and> t \<le> MAX_TICK
    \<and> (\<forall>u. Q (k, s, u) \<noteq> [] \<longrightarrow> u = t \<or> beyond s t u))"

definition start_of :: "(spot \<times> u128) option \<Rightarrow> spot \<Rightarrow> u128" where
  "start_of h x = (case h of Some (y, p) \<Rightarrow> if y = x then p else 0 | None \<Rightarrow> 0)"

definition closed :: "(spot \<times> u128) option \<Rightarrow> spot \<Rightarrow> bool" where
  "closed h x = (\<forall>p. h \<noteq> Some (x, p))"

definition closed_side :: "(spot \<times> u128) option \<Rightarrow> b256 \<Rightarrow> bool \<Rightarrow> bool" where
  "closed_side h k s = (\<forall>t. closed h (k, s, t))"

definition dex_ok :: "hardfork \<Rightarrow> (spot \<times> u128) option \<Rightarrow> u128 set \<Rightarrow> dex_storage \<Rightarrow> queues \<Rightarrow> bool" where
  "dex_ok sp h E d Q =
    ((\<forall>x. queue_ok (decode d) (start_of h x) x (Q x))
     \<and> (\<forall>x. closed h x \<longrightarrow> level_ok sp (decode d) (lvl d x) (Q x))
     \<and> (\<forall>k s t. closed h (k, s, t) \<longrightarrow> MIN_TICK \<le> t \<longrightarrow> t \<le> MAX_TICK \<longrightarrow> (act d (k, s, t) \<longleftrightarrow> Q (k, s, t) \<noteq> []))
     \<and> (\<forall>k s. fst (info d k) \<noteq> 0 \<longrightarrow> closed_side h k s \<longrightarrow> best_ok s (best d k s) (\<lambda>t. Q (k, s, t)))
     \<and> (\<forall>x p. h = Some (x, p) \<longrightarrow> open_ok d Q x)
     \<and> (\<forall>k s t. fst (info d k) = 0 \<longrightarrow> Q (k, s, t) = [])
     \<and> (\<forall>i. i \<notin> E \<longrightarrow> (\<forall>x. i \<notin> set (Q x)) \<longrightarrow> orders d i = LegacyOrder zero_order)
     \<and> (\<forall>x. \<forall>i\<in>set (Q x). i < max (next_order_id_slot d) 1 \<and> index_ok d i)
     \<and> (\<forall>k n. book_id_index (snd (snd (info d k))) = Some n \<longrightarrow> n < length (book_keys d) \<and> book_keys d ! n = k))"

lemma dex_okD:
  assumes "dex_ok sp h E d Q"
  shows "queue_ok (decode d) (start_of h x) x (Q x)"
    and "closed h x \<Longrightarrow> level_ok sp (decode d) (lvl d x) (Q x)"
    and "closed h (k, s, t) \<Longrightarrow> MIN_TICK \<le> t \<Longrightarrow> t \<le> MAX_TICK \<Longrightarrow> act d (k, s, t) \<longleftrightarrow> Q (k, s, t) \<noteq> []"
    and "fst (info d k) \<noteq> 0 \<Longrightarrow> closed_side h k s \<Longrightarrow> best_ok s (best d k s) (\<lambda>t. Q (k, s, t))"
    and "h = Some (x, p) \<Longrightarrow> open_ok d Q x"
    and "fst (info d k) = 0 \<Longrightarrow> Q (k, s, t) = []"
    and "i \<notin> E \<Longrightarrow> (\<And>x. i \<notin> set (Q x)) \<Longrightarrow> orders d i = LegacyOrder zero_order"
    and "i \<in> set (Q x) \<Longrightarrow> i < max (next_order_id_slot d) 1 \<and> index_ok d i"
    and "book_id_index (snd (snd (info d k))) = Some n \<Longrightarrow> n < length (book_keys d) \<and> book_keys d ! n = k"
  using assms unfolding dex_ok_def by blast+

lemma dex_okI:
  assumes "\<And>x. queue_ok (decode d) (start_of h x) x (Q x)"
    and "\<And>x. closed h x \<Longrightarrow> level_ok sp (decode d) (lvl d x) (Q x)"
    and "\<And>k s t. closed h (k, s, t) \<Longrightarrow> MIN_TICK \<le> t \<Longrightarrow> t \<le> MAX_TICK \<Longrightarrow> act d (k, s, t) \<longleftrightarrow> Q (k, s, t) \<noteq> []"
    and "\<And>k s. fst (info d k) \<noteq> 0 \<Longrightarrow> closed_side h k s \<Longrightarrow> best_ok s (best d k s) (\<lambda>t. Q (k, s, t))"
    and "\<And>x p. h = Some (x, p) \<Longrightarrow> open_ok d Q x"
    and "\<And>k s t. fst (info d k) = 0 \<Longrightarrow> Q (k, s, t) = []"
    and "\<And>i. i \<notin> E \<Longrightarrow> (\<And>x. i \<notin> set (Q x)) \<Longrightarrow> orders d i = LegacyOrder zero_order"
    and "\<And>i x. i \<in> set (Q x) \<Longrightarrow> i < max (next_order_id_slot d) 1 \<and> index_ok d i"
    and "\<And>k n. book_id_index (snd (snd (info d k))) = Some n \<Longrightarrow> n < length (book_keys d) \<and> book_keys d ! n = k"
  shows "dex_ok sp h E d Q"
  using assms unfolding dex_ok_def by blast

lemma dex_ok_live: "dex_ok sp h E d Q \<Longrightarrow> i \<in> set (Q x) \<Longrightarrow> live (decode d) x i"
  using dex_okD(1) unfolding queue_ok_def by blast

lemma dex_ok_unique:
  assumes "dex_ok sp h E d Q" "i \<in> set (Q x)" "i \<in> set (Q y)"
  shows "x = y"
  using dex_ok_live [OF assms(1,2)] dex_ok_live [OF assms(1,3)] by (auto simp: live_def split: prod.splits)

lemma dex_ok_nonzero: "dex_ok sp h E d Q \<Longrightarrow> 0 \<notin> set (Q x)"
  using dex_ok_live [of sp h E d Q 0 x] by (auto simp: live_def split: prod.splits)

lemma queue_cong:
  "(\<And>i. i \<in> set q \<Longrightarrow> g i = f i) \<Longrightarrow> queue_ok g p x q = queue_ok f p x q"
  "(\<And>i. i \<in> set q \<Longrightarrow> g i = f i) \<Longrightarrow> level_ok sp g l q = level_ok sp f l q"
  using seg_cong [of q g f p 0] by (simp_all add: queue_ok_def live_def level_ok_def liquidity_def cong: map_cong)

lemma live_cong:
  "(\<And>i. ord_id (g i) = ord_id (f i) \<and> ord_book_key (g i) = ord_book_key (f i) \<and> ord_is_bid (g i) = ord_is_bid (f i)
    \<and> ord_tick (g i) = ord_tick (f i) \<and> ord_maker (g i) = ord_maker (f i) \<and> ord_remaining (g i) = ord_remaining (f i)
    \<and> ord_amount (g i) = ord_amount (f i) \<and> ord_is_flip (g i) = ord_is_flip (f i) \<and> ord_flip_tick (g i) = ord_flip_tick (f i))
   \<Longrightarrow> live g x i = live f x i"
  by (simp add: live_def)

section \<open>A change at one price\<close>

lemma closed_start: "closed h x \<Longrightarrow> start_of h x = 0"
  by (auto simp: start_of_def closed_def split: option.splits)

lemma ok_change:
  assumes ok: "dex_ok sp h E d Q" and x: "x = (k, s, t)"
    and h: "\<And>y p. y \<noteq> x \<Longrightarrow> h' = Some (y, p) \<longleftrightarrow> h = Some (y, p)"
    and same: "\<And>y i. y \<noteq> x \<Longrightarrow> i \<in> set (Q y) \<Longrightarrow> decode d' i = decode d i \<and> index_ok d' i"
    and q: "queue_ok (decode d') (start_of h' x) x q" "\<And>i. i \<in> set q \<Longrightarrow> i < max (next_order_id_slot d) 1 \<and> index_ok d' i"
      "q \<noteq> [] \<Longrightarrow> fst (info d k) \<noteq> 0"
    and l: "\<And>y. y \<noteq> x \<Longrightarrow> lvl d' y = lvl d y" "closed h' x \<Longrightarrow> level_ok sp (decode d') (lvl d' x) q"
    and a: "\<And>y. y \<noteq> x \<Longrightarrow> act d' y = act d y" "closed h' x \<Longrightarrow> MIN_TICK \<le> t \<Longrightarrow> t \<le> MAX_TICK \<Longrightarrow> act d' x \<longleftrightarrow> q \<noteq> []"
    and b: "\<And>k' s'. (k', s') \<noteq> (k, s) \<Longrightarrow> best d' k' s' = best d k' s'"
      "fst (info d k) \<noteq> 0 \<Longrightarrow> closed_side h' k s \<Longrightarrow> best_ok s (best d' k s) ((\<lambda>t. Q (k, s, t))(t := q))"
      "\<And>u p. h' = Some ((k, s, u), p) \<Longrightarrow> open_ok d' (Q(x := q)) (k, s, u)"
    and F: "\<And>i. i \<notin> E' \<Longrightarrow> i \<notin> set q \<Longrightarrow> (\<And>y. y \<noteq> x \<Longrightarrow> i \<notin> set (Q y)) \<Longrightarrow> orders d' i = LegacyOrder zero_order"
    and rest: "info d' = info d" "book_keys d' = book_keys d" "next_order_id_slot d' = next_order_id_slot d"
  shows "dex_ok sp h' E' d' (Q(x := q))"
proof (rule dex_okI)
  note okD = dex_okD [OF ok]
  have cl: "closed h' y \<longleftrightarrow> closed h y" "start_of h' y = start_of h y" if "y \<noteq> x" for y
    using h [OF that] by (auto simp: closed_def start_of_def split: option.splits)
  show "queue_ok (decode d') (start_of h' y) y ((Q(x := q)) y)" for y
    using okD(1) [of y] q(1) same [of y] queue_cong(1) [of "Q y" "decode d'" "decode d"] cl(2) by (cases "y = x") auto
  show "level_ok sp (decode d') (lvl d' y) ((Q(x := q)) y)" if "closed h' y" for y
    using okD(2) [of y] l that same [of y] queue_cong(2) [of "Q y" "decode d'" "decode d"] cl(1) by (cases "y = x") auto
  show "act d' (k', s', u) \<longleftrightarrow> (Q(x := q)) (k', s', u) \<noteq> []" if "closed h' (k', s', u)" "MIN_TICK \<le> u" "u \<le> MAX_TICK" for k' s' u
    using okD(3) [of k' s' u] a that cl(1) x by (cases "(k', s', u) = x") auto
  show "best_ok s' (best d' k' s') (\<lambda>u. (Q(x := q)) (k', s', u))" if i: "fst (info d' k') \<noteq> 0" "closed_side h' k' s'" for k' s'
  proof (cases "(k', s') = (k, s)")
    case True
    then have eq: "(\<lambda>u. (Q(x := q)) (k', s', u)) = (\<lambda>t. Q (k, s, t))(t := q)"
      by (auto simp: x fun_eq_iff)
    show ?thesis
      unfolding eq using b(2) i True by (simp add: rest)
  next
    case False
    then have eq: "(\<lambda>u. (Q(x := q)) (k', s', u)) = (\<lambda>u. Q (k', s', u))" and "closed_side h k' s'"
      using i(2) cl(1) by (auto simp: x closed_side_def fun_eq_iff)
    then show ?thesis
      unfolding eq using okD(4) [of k' s'] i b(1) [OF False] by (simp add: rest)
  qed
  show "open_ok d' (Q(x := q)) y" if y: "h' = Some (y, p)" for y p
  proof (cases "fst y = k \<and> fst (snd y) = s")
    case True
    then show ?thesis
      using b(3) y by (cases y) auto
  next
    case False
    then show ?thesis
      using okD(5) [of y p] h [of y p] y b(1) by (cases y) (auto simp: open_ok_def x rest)
  qed
  show "(Q(x := q)) (k', s', u) = []" if "fst (info d' k') = 0" for k' s' u
    using okD(6) [of k' s' u] that q(3) by (auto simp: x rest)
  show "orders d' i = LegacyOrder zero_order" if "i \<notin> E'" "\<And>y. i \<notin> set ((Q(x := q)) y)" for i
    using F [OF that(1)] that(2) by (metis fun_upd_apply)
  show "i < max (next_order_id_slot d') 1 \<and> index_ok d' i" if "i \<in> set ((Q(x := q)) y)" for i y
    using that q(2) okD(8) [of i y] same [of y i] by (cases "y = x") (auto simp: rest)
  show "m < length (book_keys d') \<and> book_keys d' ! m = k'" if "book_id_index (snd (snd (info d' k'))) = Some m" for k' m
    using okD(9) that by (simp add: rest)
qed

section \<open>Appending an order\<close>

lemma liquidity_cong: "(\<And>i. i \<in> set q \<Longrightarrow> ord_remaining (g i) = ord_remaining (f i)) \<Longrightarrow> liquidity g q = liquidity f q"
  unfolding liquidity_def by (metis (mono_tags, lifting) map_eq_conv)

definition appended :: "(u128 \<Rightarrow> order) \<Rightarrow> u128 list \<Rightarrow> order \<Rightarrow> u128 \<Rightarrow> order" where
  "appended f q ord =
    (if q = [] then f else f(last q := (f (last q))\<lparr>ord_next := ord_id ord\<rparr>))(ord_id ord := ord\<lparr>ord_prev := last (0 # q), ord_next := 0\<rparr>)"

lemma appended_same: "i \<noteq> ord_id ord \<Longrightarrow> (q \<noteq> [] \<Longrightarrow> i \<noteq> last q) \<Longrightarrow> appended f q ord i = f i"
  by (auto simp: appended_def)

lemma appended_fields:
  assumes "i \<noteq> ord_id ord"
  shows "live (appended f q ord) x i = live f x i" "ord_remaining (appended f q ord i) = ord_remaining (f i)"
  using assms by (simp_all add: appended_def live_def)

lemma queue_append:
  assumes "queue_ok f 0 x q" "ord_id ord \<notin> set q" "live (appended f q ord) x (ord_id ord)"
  shows "queue_ok (appended f q ord) 0 x (q @ [ord_id ord])"
proof -
  have "seg (appended f q ord) 0 (q @ [ord_id ord]) 0"
    using seg_snoc [of f 0 q "ord_id ord" ord] assms(1,2) unfolding queue_ok_def appended_def by simp
  moreover have "live (appended f q ord) x i" if "i \<in> set q" for i
    using that assms(1,2) appended_fields(1) [of i ord] unfolding queue_ok_def by metis
  ultimately show ?thesis
    using assms by (auto simp: queue_ok_def)
qed

lemma level_append:
  assumes "level_ok sp f l q" "ord_id ord \<notin> set q"
  shows "level_ok sp (appended f q ord) (l\<lparr>tl_head := (if q = [] then ord_id ord else tl_head l), tl_tail := ord_id ord,
    tl_total_liquidity := (if T12 \<le> sp then v else tl_total_liquidity l + ord_remaining ord)\<rparr>) (q @ [ord_id ord])"
proof -
  have "liquidity (appended f q ord) q = liquidity f q"
    using assms(2) by (intro liquidity_cong appended_fields(2)) metis
  then show ?thesis
    using assms(1) by (auto simp: level_ok_def hd_append liquidity_def appended_def)
qed

lemma best_append:
  assumes "best_ok s b Q" "MIN_TICK \<le> t" "t \<le> MAX_TICK"
    "b' = (if Q t = [] \<and> beyond s t b then t else b)"
  shows "best_ok s b' (Q(t := Q t @ [n]))"
proof (cases "\<forall>u. Q u = []")
  case True
  then have "b = sentinel s"
    using assms(1) by (simp add: best_ok_def)
  then have "b' = t"
    using assms(2-4) True by (simp add: beyond_def sentinel_def I16_MIN_def I16_MAX_def tick_defs split: if_splits)
  then show ?thesis
    using True by (simp add: best_ok_def)
next
  case False
  then have b: "Q b \<noteq> []" "\<And>u. Q u \<noteq> [] \<Longrightarrow> u = b \<or> beyond s b u"
    using assms(1) by (auto simp: best_ok_def split: if_splits)
  have "t = b \<or> beyond s b t" if "\<not> beyond s t b"
    using that by (auto simp: beyond_def split: if_splits)
  moreover have "beyond s t u" if "beyond s t b" "u = b \<or> beyond s b u" for u
    using that by (auto simp: beyond_def split: if_splits)
  ultimately show ?thesis
    using b assms(4) by (auto simp: best_ok_def split: if_splits)
qed

lemma ok_append:
  fixes ord :: order
  defines "x \<equiv> (ord_book_key ord, ord_is_bid ord, ord_tick ord)" and "n \<equiv> ord_id ord"
  assumes ok: "dex_ok sp h E d Q" and cl: "closed_side h (ord_book_key ord) (ord_is_bid ord)"
    and fresh: "\<And>y. n \<notin> set (Q y)" "n < max (next_order_id_slot d) 1" and new: "live (appended (decode d) (Q x) ord) x n"
    and init: "fst (info d (ord_book_key ord)) \<noteq> 0"
    and d: "decode d' = appended (decode d) (Q x) ord"
      "\<And>j. j \<noteq> n \<Longrightarrow> (Q x \<noteq> [] \<Longrightarrow> j \<noteq> last (Q x)) \<Longrightarrow> orders d' j = orders d j"
      "\<And>j. j \<noteq> n \<Longrightarrow> index_ok d j \<Longrightarrow> index_ok d' j" "index_ok d' n"
    and l: "lvl d' = (lvl d)(x := (lvl d x)\<lparr>tl_head := (if Q x = [] then n else tl_head (lvl d x)), tl_tail := n,
        tl_total_liquidity := (if T12 \<le> sp then v else tl_total_liquidity (lvl d x) + ord_remaining ord)\<rparr>)"
    and a: "act d' = (act d)(x := True)"
    and b: "best d' = (best d)(ord_book_key ord := (best d (ord_book_key ord))(ord_is_bid ord :=
        (if Q x = [] \<and> beyond (ord_is_bid ord) (ord_tick ord) (best d (ord_book_key ord) (ord_is_bid ord))
         then ord_tick ord else best d (ord_book_key ord) (ord_is_bid ord))))"
    and rest: "info d' = info d" "book_keys d' = book_keys d" "next_order_id_slot d' = next_order_id_slot d"
  shows "dex_ok sp h (E - {n}) d' (Q(x := Q x @ [n]))"
proof (rule ok_change [OF ok x_def [THEN meta_eq_to_obj_eq]])
  note okD = dex_okD [OF ok]
  have clx: "closed h x"
    using cl by (simp add: closed_side_def x_def)
  show "decode d' i = decode d i \<and> index_ok d' i" if "y \<noteq> x" "i \<in> set (Q y)" for y i
  proof -
    have "i \<noteq> n" "Q x \<noteq> [] \<Longrightarrow> i \<noteq> last (Q x)"
      using that fresh(1) dex_ok_unique [OF ok that(2)] by (metis last_in_set)+
    then show ?thesis
      using d(3) okD(8) [OF that(2)] appended_same [of i ord "Q x"] by (simp add: d(1) n_def)
  qed
  show "queue_ok (decode d') (start_of h x) x (Q x @ [n])"
    using okD(1) [of x] queue_append [of "decode d" x "Q x" ord] fresh(1) new closed_start [OF clx] by (simp add: d n_def)
  show "i < max (next_order_id_slot d) 1 \<and> index_ok d' i" if "i \<in> set (Q x @ [n])" for i
    using that okD(8) [of i x] fresh(2) d(3,4) by (cases "i = n") auto
  show "fst (info d (ord_book_key ord)) \<noteq> 0"
    by (rule init)
  show "level_ok sp (decode d') (lvl d' x) (Q x @ [n])"
    unfolding l d(1) fun_upd_same n_def by (rule level_append [OF okD(2) [OF clx]]) (use fresh(1) in \<open>simp add: n_def\<close>)
  show "best_ok (ord_is_bid ord) (best d' (ord_book_key ord) (ord_is_bid ord))
    ((\<lambda>t. Q (ord_book_key ord, ord_is_bid ord, t))(ord_tick ord := Q x @ [n]))"
    unfolding x_def by (rule best_append [OF okD(4) [OF init cl]]) (use new in \<open>simp_all add: b x_def live_def\<close>)
  show "open_ok d' (Q(x := Q x @ [n])) (ord_book_key ord, ord_is_bid ord, u)" if "h = Some ((ord_book_key ord, ord_is_bid ord, u), p)" for u p
    using that cl by (auto simp: closed_side_def closed_def)
  show "orders d' i = LegacyOrder zero_order" if "i \<notin> E - {n}" "i \<notin> set (Q x @ [n])" "\<And>y. y \<noteq> x \<Longrightarrow> i \<notin> set (Q y)" for i
  proof -
    have "i \<noteq> n" "i \<notin> set (Q y)" for y
      using that(2,3) by (cases "y = x", auto)+
    then show ?thesis
      using d(2) [of i] okD(7) [of i] that(1) last_in_set by (metis DiffI empty_iff insertE)
  qed
qed (auto simp: l a b rest)

section \<open>Filling the first order\<close>

lemma best_spot:
  assumes "best_ok s b Q" "Q b \<noteq> []"
  shows "Q u \<noteq> [] \<Longrightarrow> u = b \<or> beyond s b u"
  using assms by (auto simp: best_ok_def split: if_splits)

lemma live_range: "live f (k, s, t) i \<Longrightarrow> MIN_TICK \<le> t \<and> t \<le> MAX_TICK"
  by (simp add: live_def)

text \<open>The first order of the best queue is taken out; its record is still there.\<close>

lemma ok_open:
  assumes ok: "dex_ok sp None {} d Q" and x: "x = (k, s, t)" "Q x = i # r" "best d k s = t"
  shows "dex_ok sp (Some (x, i)) {i} d (Q(x := r))"
proof (rule ok_change [OF ok x(1)])
  note okD = dex_okD [OF ok]
  have init: "fst (info d k) \<noteq> 0"
    using okD(6) [of k s t] x by auto
  have bo: "best_ok s t (\<lambda>t. Q (k, s, t))"
    using okD(4) [OF init, of s] x(3) by (simp add: closed_side_def closed_def)
  show "queue_ok (decode d) (start_of (Some (x, i)) x) x r"
    using okD(1) [of x] x(2) by (simp add: queue_ok_def start_of_def)
  show "i \<in> set r \<Longrightarrow> i < max (next_order_id_slot d) 1 \<and> index_ok d i" for i
    using okD(8) [of i x] x(2) by simp
  show "decode d j = decode d j \<and> index_ok d j" if "j \<in> set (Q y)" for y j
    using okD(8) [OF that] by simp
  show "fst (info d k) \<noteq> 0"
    by (rule init)
  show "open_ok d (Q(x := r)) (k, s, u)" if "Some (x, i) = Some ((k, s, u), p)" for u p
    using that x best_spot [OF bo] live_range [of "decode d" k s t i] dex_ok_live [OF ok, of i x] init
    by (auto simp: open_ok_def split: if_splits)
  show "orders d j = LegacyOrder zero_order" if "j \<notin> {i}" "j \<notin> set r" "\<And>y. y \<noteq> x \<Longrightarrow> j \<notin> set (Q y)" for j
    using okD(7) [of j] that x(2) by (metis empty_iff insert_iff list.set(2))
qed (auto simp: closed_def closed_side_def x)

lemma decode_at:
  "orders d' j = orders d j \<Longrightarrow> book_keys d' = book_keys d \<Longrightarrow> decode d' j = decode d j"
  "orders d' j = orders d j \<Longrightarrow> book_keys d' = book_keys d \<Longrightarrow> index_ok d' j = index_ok d j"
  by (auto simp: decode_def index_ok_def split: stored_order.split)

lemma ok_delete:
  assumes ok: "dex_ok sp h {i} d Q" and free: "\<And>y. i \<notin> set (Q y)"
    and d: "\<And>j. j \<noteq> i \<Longrightarrow> orders d' j = orders d j" "orders d' i = LegacyOrder zero_order"
    and rest: "lvl d' = lvl d" "act d' = act d" "best d' = best d" "info d' = info d" "book_keys d' = book_keys d"
      "next_order_id_slot d' = next_order_id_slot d"
  shows "dex_ok sp h {} d' Q"
proof (rule dex_okI)
  note okD = dex_okD [OF ok]
  have same: "decode d' j = decode d j" "index_ok d' j = index_ok d j" if "j \<in> set (Q y)" for y j
    using d(1) [of j] free that decode_at [of d' j d] rest by metis+
  show "queue_ok (decode d') (start_of h y) y (Q y)" for y
    using okD(1) [of y] queue_cong(1) [of "Q y" "decode d'" "decode d"] same(1) by blast
  show "level_ok sp (decode d') (lvl d' y) (Q y)" if "closed h y" for y
    using okD(2) [OF that] queue_cong(2) [of "Q y" "decode d'" "decode d"] same(1) by (simp add: rest)
  show "orders d' j = LegacyOrder zero_order" if "j \<notin> {}" "\<And>x. j \<notin> set (Q x)" for j
    using okD(7) [of j] that(2) d by (cases "j = i") auto
  show "j < max (next_order_id_slot d') 1 \<and> index_ok d' j" if "j \<in> set (Q y)" for j y
    using okD(8) [OF that] same(2) [OF that] by (simp add: rest)
  show "open_ok d' Q y" if "h = Some (y, p)" for y p
    using okD(5) [OF that] by (simp add: open_ok_def rest)
qed (use dex_okD [OF ok] in \<open>simp_all add: rest\<close>)

lemma ok_close_next:
  assumes ok: "dex_ok sp (Some (x, i)) {} d Q" and x: "x = (k, s, t)" "Q x = j # r"
    and d: "decode d' = (decode d)(j := (decode d j)\<lparr>ord_prev := 0\<rparr>)" "\<And>m. m \<noteq> j \<Longrightarrow> orders d' m = orders d m"
      "\<And>m. index_ok d m \<Longrightarrow> index_ok d' m"
    and l: "lvl d' = (lvl d)(x := l)" "tl_head l = j" "tl_tail l = last (0 # Q x)" "\<not> T12 \<le> sp \<Longrightarrow> tl_total_liquidity l = liquidity (decode d) (Q x)"
    and a: "act d' = act d" "act d x"
    and rest: "best d' = best d" "info d' = info d" "book_keys d' = book_keys d" "next_order_id_slot d' = next_order_id_slot d"
  shows "dex_ok sp None {} d' Q"
proof -
  note okD = dex_okD [OF ok]
  have op: "fst (info d k) \<noteq> 0" "best d k s = t" "\<And>u. Q (k, s, u) \<noteq> [] \<Longrightarrow> u = t \<or> beyond s t u"
    using okD(5) [OF refl] by (auto simp: open_ok_def x)
  have live: "live (decode d') x m = live (decode d) x m" for m x
    by (rule live_cong) (simp add: d)
  have q: "queue_ok (decode d) i x (j # r)"
    using okD(1) [of x] x(2) by (simp add: start_of_def)
  have "dex_ok sp None {} d' (Q(x := j # r))"
  proof (rule ok_change [OF ok x(1)])
    show "decode d' m = decode d m \<and> index_ok d' m" if "y \<noteq> x" "m \<in> set (Q y)" for y m
      using that okD(8) [OF that(2)] d dex_ok_unique [OF ok that(2), of x] x(2) by auto
    have "queue_ok (decode d') 0 x (j # r)"
      using q seg_start [of "decode d" i j r 0 0] unfolding queue_ok_def live by (simp add: d)
    then show "queue_ok (decode d') (start_of None x) x (j # r)"
      by (simp add: start_of_def)
    show "m < max (next_order_id_slot d) 1 \<and> index_ok d' m" if "m \<in> set (j # r)" for m
      using okD(8) [of m x] that d(3) x(2) by auto
    have "liquidity (decode d') (j # r) = liquidity (decode d) (j # r)"
      by (rule liquidity_cong) (simp add: d)
    then show "level_ok sp (decode d') (lvl d' x) (j # r)"
      using l x(2) by (simp add: level_ok_def)
    show "best_ok s (best d' k s) ((\<lambda>t. Q (k, s, t))(t := j # r))"
      using op x by (auto simp: best_ok_def rest)
    show "orders d' m = LegacyOrder zero_order" if "m \<notin> set (j # r)" "\<And>y. y \<noteq> x \<Longrightarrow> m \<notin> set (Q y)" for m
      using okD(7) [of m] that d(2) [of m] x(2) by (metis empty_iff list.set_intros(1))
  qed (use op a in \<open>auto simp: l rest\<close>)
  then show ?thesis
    using x(2) by (simp add: fun_upd_idem)
qed

lemma best_after:
  assumes "\<And>u. Q u \<noteq> [] \<Longrightarrow> MIN_TICK \<le> u \<and> u \<le> MAX_TICK" "Q t = []" "\<And>u. Q u \<noteq> [] \<Longrightarrow> beyond s t u"
    and "\<And>u. MIN_TICK \<le> u \<Longrightarrow> u \<le> MAX_TICK \<Longrightarrow> active (bitmap_of bk s) u \<longleftrightarrow> Q u \<noteq> []"
    and "MIN_TICK \<le> t" "t \<le> MAX_TICK" "next_initialized_tick bk t s = (u, found)"
  shows "best_ok s (if found then u else sentinel s) Q" "found \<Longrightarrow> Q u \<noteq> []"
proof -
  note n = nearest_tick [OF assms(5-7)]
  have act: "beyond s t v \<and> MIN_TICK \<le> v \<and> v \<le> MAX_TICK \<and> active (bitmap_of bk s) v" if "Q v \<noteq> []" for v
    using assms(1,3,4) that by blast
  show Qu: "Q u \<noteq> []" if found
    using n(2) [OF that] assms(4) by blast
  show "best_ok s (if found then u else sentinel s) Q"
  proof (cases found)
    case True
    then have "\<And>v. Q v \<noteq> [] \<Longrightarrow> v = u \<or> beyond s u v"
      using n(3) act by blast
    then show ?thesis
      using Qu True by (auto simp: best_ok_def)
  next
    case False
    then have "Q v = []" for v
      using n(1) act by blast
    then show ?thesis
      using False by (simp add: best_ok_def)
  qed
qed

lemma ok_close_last:
  assumes ok: "dex_ok sp (Some (x, i)) {} d Q" and x: "x = (k, s, t)" "Q x = []"
    and l: "lvl d' = (lvl d)(x := l)" "tl_head l = 0" "tl_tail l = 0" "\<not> T12 \<le> sp \<Longrightarrow> tl_total_liquidity l = 0"
    and a: "act d' = (act d)(x := False)"
    and b: "best d' = (best d)(k := (best d k)(s := (if found then u else sentinel s)))"
      "next_initialized_tick bk t s = (u, found)" "\<And>u. active (bitmap_of bk s) u = act d' (k, s, u)"
    and rest: "orders d' = orders d" "info d' = info d" "book_keys d' = book_keys d" "next_order_id_slot d' = next_order_id_slot d"
  shows "dex_ok sp None {} d' Q" "found \<Longrightarrow> Q (k, s, u) \<noteq> []"
proof -
  note okD = dex_okD [OF ok]
  have op: "fst (info d k) \<noteq> 0" "best d k s = t" "MIN_TICK \<le> t" "t \<le> MAX_TICK" "\<And>u. Q (k, s, u) \<noteq> [] \<Longrightarrow> u = t \<or> beyond s t u"
    using okD(5) [OF refl] by (auto simp: open_ok_def x)
  have same: "decode d' = decode d" "index_ok d' = index_ok d"
    using decode_at [of d' _ d] rest by (auto simp: fun_eq_iff)
  have "MIN_TICK \<le> v \<and> v \<le> MAX_TICK" if "Q (k, s, v) \<noteq> []" for v
    using that dex_ok_live [OF ok, of "hd (Q (k, s, v))"] live_range by (metis list.set_sel(1))
  moreover have "beyond s t v" if "Q (k, s, v) \<noteq> []" for v
    using op(5) [OF that] that x by auto
  moreover have "active (bitmap_of bk s) v \<longleftrightarrow> Q (k, s, v) \<noteq> []" if "MIN_TICK \<le> v" "v \<le> MAX_TICK" for v
    using b(3) [of v] okD(3) [of k s v] that x by (auto simp: a closed_def)
  ultimately have best: "best_ok s (if found then u else sentinel s) (\<lambda>t. Q (k, s, t))" "found \<Longrightarrow> Q (k, s, u) \<noteq> []"
    using best_after [of "\<lambda>t. Q (k, s, t)" t s bk u found] x op(3,4) b(2) by auto
  then show "found \<Longrightarrow> Q (k, s, u) \<noteq> []"
    by blast
  have "dex_ok sp None {} d' (Q(x := []))"
  proof (rule ok_change [OF ok x(1)])
    show "best_ok s (best d' k s) ((\<lambda>t. Q (k, s, t))(t := []))"
      using best(1) x by (simp add: b fun_upd_idem)
    show "orders d' m = LegacyOrder zero_order" if "m \<notin> set []" "\<And>y. y \<noteq> x \<Longrightarrow> m \<notin> set (Q y)" for m
      using okD(7) [of m] that x(2) by (metis empty_iff rest(1))
    show "decode d' m = decode d m \<and> index_ok d' m" if "m \<in> set (Q y)" for y m
      using okD(8) [OF that] by (simp add: same)
  qed (auto simp: l a b rest same queue_ok_def level_ok_def liquidity_def)
  then show "dex_ok sp None {} d' Q"
    using x(2) by (simp add: fun_upd_idem)
qed

section \<open>Filling a part, taking an order out\<close>

lemma liquidity_upd:
  assumes "distinct q" "i \<in> set q" "v \<le> ord_remaining (f i)"
  shows "liquidity (f(i := (f i)\<lparr>ord_remaining := v\<rparr>)) q + (ord_remaining (f i) - v) = liquidity f q"
  using assms
proof (induction q)
  case (Cons j q)
  have "liquidity (f(i := (f i)\<lparr>ord_remaining := v\<rparr>)) q = liquidity f q" if "i \<notin> set q"
    using that by (intro liquidity_cong) auto
  then show ?case
    using Cons by (auto simp: liquidity_def)
qed simp

lemma liquidity_remove: "liquidity f (a @ i # b) = ord_remaining (f i) + liquidity f (a @ b)"
  by (simp add: liquidity_def)

lemma ok_partial:
  assumes ok: "dex_ok sp None {} d Q" and x: "x = (k, s, t)" "i \<in> set (Q x)" and v: "0 < v" "v \<le> ord_remaining (decode d i)"
    and d: "decode d' = (decode d)(i := (decode d i)\<lparr>ord_remaining := v\<rparr>)" "\<And>m. m \<noteq> i \<Longrightarrow> orders d' m = orders d m"
      "\<And>m. index_ok d m \<Longrightarrow> index_ok d' m"
    and l: "lvl d' = (lvl d)(x := l)" "tl_head l = tl_head (lvl d x)" "tl_tail l = tl_tail (lvl d x)"
      "\<not> T12 \<le> sp \<Longrightarrow> tl_total_liquidity l + (ord_remaining (decode d i) - v) = tl_total_liquidity (lvl d x)"
    and rest: "act d' = act d" "best d' = best d" "info d' = info d" "book_keys d' = book_keys d" "next_order_id_slot d' = next_order_id_slot d"
  shows "dex_ok sp None {} d' Q"
proof -
  note okD = dex_okD [OF ok]
  have cl: "closed None y" "closed_side None k' s'" for y k' s'
    by (simp_all add: closed_def closed_side_def)
  have q: "queue_ok (decode d) 0 x (Q x)"
    using okD(1) [of x] by (simp add: start_of_def)
  have live: "live (decode d') x m" if "live (decode d) x m" for m
    using that v by (auto simp: live_def d x)
  have "dex_ok sp None {} d' (Q(x := Q x))"
  proof (rule ok_change [OF ok x(1)])
    show "decode d' m = decode d m \<and> index_ok d' m" if "y \<noteq> x" "m \<in> set (Q y)" for y m
      using that okD(8) [OF that(2)] d dex_ok_unique [OF ok that(2), of x] x(2) by auto
    show "queue_ok (decode d') (start_of None x) x (Q x)"
      using q live seg_cong [of "Q x" "decode d'" "decode d" 0 0] by (simp add: queue_ok_def start_of_def d)
    show "m < max (next_order_id_slot d) 1 \<and> index_ok d' m" if "m \<in> set (Q x)" for m
      using okD(8) [OF that] d(3) by auto
    show "level_ok sp (decode d') (lvl d' x) (Q x)"
      using okD(2) [OF cl(1), of x] l liquidity_upd [of "Q x" i v "decode d"] x(2) v q by (auto simp: level_ok_def d queue_ok_def)
    show "orders d' m = LegacyOrder zero_order" if "m \<notin> set (Q x)" "\<And>y. y \<noteq> x \<Longrightarrow> m \<notin> set (Q y)" for m
      using okD(7) [of m] that d(2) [of m] x(2) by (metis empty_iff)
    show "best_ok s (best d' k s) ((\<lambda>t. Q (k, s, t))(t := Q x))" if "fst (info d k) \<noteq> 0"
      using okD(4) [OF that cl(2)] by (simp add: rest x fun_upd_idem)
    show "fst (info d k) \<noteq> 0" if "Q x \<noteq> []"
      using okD(6) [of k s t] that x(1) by auto
  qed (use okD(3) [OF cl(1)] in \<open>auto simp: l rest x\<close>)
  then show ?thesis
    by simp
qed

lemma best_remove:
  assumes "best_ok s b Q" "Q t \<noteq> []" "\<And>u. Q u \<noteq> [] \<Longrightarrow> MIN_TICK \<le> u \<and> u \<le> MAX_TICK"
    and "\<And>u. MIN_TICK \<le> u \<Longrightarrow> u \<le> MAX_TICK \<Longrightarrow> active (bitmap_of bk s) u \<longleftrightarrow> u \<noteq> t \<and> Q u \<noteq> []"
    and "next_initialized_tick bk t s = (u, found)"
  shows "best_ok s (if b = t then if found then u else sentinel s else b) (Q(t := []))"
proof (cases "b = t")
  case True
  have "best_ok s (if found then u else sentinel s) (Q(t := []))"
  proof (rule best_after(1) [of "Q(t := [])" t s bk])
    show "beyond s t v" if "(Q(t := [])) v \<noteq> []" for v
      using best_spot [OF assms(1), of v] assms(2) that True by (auto split: if_splits)
  qed (use assms in \<open>auto split: if_splits\<close>)
  then show ?thesis
    using True by simp
next
  case False
  have "Q b \<noteq> []"
    using assms(1,2) by (auto simp: best_ok_def split: if_splits)
  then show ?thesis
    using best_spot [OF assms(1)] False by (auto simp: best_ok_def)
qed

lemma best_shrink: "best_ok s b Q \<Longrightarrow> Q t \<noteq> [] \<Longrightarrow> q \<noteq> [] \<Longrightarrow> best_ok s b (Q(t := q))"
  by (auto simp: best_ok_def split: if_splits)

lemma live_nonzero: "(\<And>i. i \<in> set q \<Longrightarrow> live f x i) \<Longrightarrow> 0 \<notin> set q"
  by (auto simp: live_def split: prod.splits)

lemma ends_remove:
  assumes "0 \<notin> set (a @ i # b)" "p = last (0 # a)" "n = hd (b @ [0 :: nat])"
  shows "(if p = 0 then n else hd ((a @ i # b) @ [0])) = hd ((a @ b) @ [0])" "(if n = 0 then p else last (0 # a @ i # b)) = last (0 # a @ b)"
proof -
  have "p = 0 \<longleftrightarrow> a = []"
    using assms(1,2) by (metis UnI1 last.simps last_in_set set_append)
  moreover have "n = 0 \<longleftrightarrow> b = []"
    using assms(1,3) by (cases b) auto
  ultimately show "(if p = 0 then n else hd ((a @ i # b) @ [0])) = hd ((a @ b) @ [0])" "(if n = 0 then p else last (0 # a @ i # b)) = last (0 # a @ b)"
    using assms(2,3) by (auto simp: hd_append)
qed

lemma ok_remove:
  assumes ok: "dex_ok sp None {} d Q" and x: "x = (k, s, t)" "Q x = a @ i # b"
    and d: "decode d' = (unlinked (decode d) (decode d i))(i := zero_order)" "orders d' i = LegacyOrder zero_order"
      "\<And>m. m \<noteq> i \<Longrightarrow> m \<notin> set (Q x) \<Longrightarrow> orders d' m = orders d m" "\<And>m. index_ok d m \<Longrightarrow> index_ok d' m"
    and l: "lvl d' = (lvl d)(x := l)" "tl_head l = (if ord_prev (decode d i) = 0 then ord_next (decode d i) else tl_head (lvl d x))"
      "tl_tail l = (if ord_next (decode d i) = 0 then ord_prev (decode d i) else tl_tail (lvl d x))"
      "\<not> T12 \<le> sp \<Longrightarrow> tl_total_liquidity l + ord_remaining (decode d i) = tl_total_liquidity (lvl d x)"
    and bits: "act d' = (if a @ b = [] then (act d)(x := False) else act d)"
    and best: "best d' = (if a @ b = [] \<and> best d k s = t then (best d)(k := (best d k)(s := (if found then u else sentinel s))) else best d)"
      "next_initialized_tick bk t s = (u, found)" "a @ b = [] \<Longrightarrow> bitmap_of bk s = bitmap_of (books d' k) s"
    and rest: "info d' = info d" "book_keys d' = book_keys d" "next_order_id_slot d' = next_order_id_slot d"
  shows "dex_ok sp None {} d' (Q(x := a @ b))"
proof (rule ok_change [OF ok x(1)])
  note okD = dex_okD [OF ok]
  have cl: "closed None y" "closed_side None k' s'" for y k' s'
    by (simp_all add: closed_def closed_side_def)
  have q: "queue_ok (decode d) 0 x (a @ i # b)"
    using okD(1) [of x] x(2) by (simp add: start_of_def)
  then have dist: "distinct (a @ i # b)" and sg: "seg (decode d) 0 (a @ i # b) 0" and lv: "\<And>m. m \<in> set (a @ i # b) \<Longrightarrow> live (decode d) x m"
    unfolding queue_ok_def by blast+
  have nz: "0 \<notin> set (a @ i # b)"
    using live_nonzero lv by blast
  have pn: "ord_prev (decode d i) = last (0 # a)" "ord_next (decode d i) = hd (b @ [0])"
    using sg unfolding seg_append by simp_all
  have nb: "ord_prev (decode d i) \<in> insert 0 (set a)" "ord_next (decode d i) \<in> insert 0 (set b)"
    unfolding pn by (cases a; cases b; auto)+
  have keep: "live (decode d') x m" "ord_remaining (decode d' m) = ord_remaining (decode d m)" if "m \<in> set (a @ b)" for m
    using lv [of m] that dist by (auto simp: live_def d unlinked_fields x(1))
  show "queue_ok (decode d') (start_of None x) x (a @ b)"
    using seg_unlink [OF sg dist] nz dist keep(1) seg_upd [of i "a @ b"] by (auto simp: queue_ok_def start_of_def d)
  show "decode d' m = decode d m \<and> index_ok d' m" if y: "y \<noteq> x" "m \<in> set (Q y)" for y m
  proof -
    have "m \<notin> set (a @ i # b)" "m \<noteq> 0"
      using dex_ok_unique [OF ok y(2), of x] y x(2) dex_ok_nonzero [OF ok, of y] by metis+
    then have "m \<noteq> ord_prev (decode d i)" "m \<noteq> ord_next (decode d i)" "m \<noteq> i"
      using nb by auto
    then show ?thesis
      using okD(8) [OF y(2)] d(4) by (simp add: d unlinked_other)
  qed
  show "m < max (next_order_id_slot d) 1 \<and> index_ok d' m" if "m \<in> set (a @ b)" for m
    using okD(8) [of m x] that x(2) d(4) by auto
  show "fst (info d k) \<noteq> 0"
    using okD(6) [of k s t] x by auto
  have "liquidity (decode d') (a @ b) = liquidity (decode d) (a @ b)"
    by (rule liquidity_cong) (rule keep(2))
  then show "level_ok sp (decode d') (lvl d' x) (a @ b)"
    using okD(2) [OF cl(1), of x] l ends_remove [OF nz pn] x(2) liquidity_remove [of "decode d" a i b]
    unfolding level_ok_def by (auto simp del: last.simps)
  show "act d' x \<longleftrightarrow> a @ b \<noteq> []" if "MIN_TICK \<le> t" "t \<le> MAX_TICK"
    using okD(3) [of k s t, OF cl(1)] that x by (simp add: bits)
  show "orders d' m = LegacyOrder zero_order" if "m \<notin> set (a @ b)" "\<And>y. y \<noteq> x \<Longrightarrow> m \<notin> set (Q y)" for m
  proof (cases "m = i")
    case False
    then have "m \<notin> set (Q y)" for y
      using that x(2) by (cases "y = x") auto
    then show ?thesis
      using okD(7) [of m] d(3) [OF False] by simp
  qed (simp add: d(2))
  show "best_ok s (best d' k s) ((\<lambda>t. Q (k, s, t))(t := a @ b))" if init: "fst (info d k) \<noteq> 0"
  proof (cases "a @ b = []")
    case True
    have "MIN_TICK \<le> v \<and> v \<le> MAX_TICK" if "Q (k, s, v) \<noteq> []" for v
      using that dex_ok_live [OF ok, of "hd (Q (k, s, v))"] live_range by (metis list.set_sel(1))
    moreover have "active (bitmap_of bk s) v \<longleftrightarrow> v \<noteq> t \<and> Q (k, s, v) \<noteq> []" if "MIN_TICK \<le> v" "v \<le> MAX_TICK" for v
      using okD(3) [of k s v, OF cl(1) that] fun_cong [OF bits, of "(k, s, v)"] best(3) True x by (auto simp: act_def)
    ultimately show ?thesis
      using best_remove [OF okD(4) [of k s, OF init cl(2)], of t bk u found] best(1,2) True x by (auto split: if_splits)
  next
    case False
    then show ?thesis
      using best_shrink [OF okD(4) [of k s, OF init cl(2)], of t "a @ b"] best(1) x by (auto split: if_splits)
  qed
qed (use bits best in \<open>auto simp: l rest\<close>)

section \<open>Changes that no queue depends on\<close>

lemma ok_frame:
  assumes ok: "dex_ok sp h E d Q" and "books d' = books d" "orders d' = orders d" "book_keys d' = book_keys d"
    "next_order_id_slot d \<le> next_order_id_slot d'"
  shows "dex_ok sp h E d' Q"
proof -
  have same: "decode d' = decode d" "index_ok d' = index_ok d" "lvl d' = lvl d" "act d' = act d" "best d' = best d" "info d' = info d"
    using decode_at [of d' _ d] assms by (auto simp: fun_eq_iff lvl_def act_def best_def info_def)
  have "i < max (next_order_id_slot d') 1 \<and> index_ok d i" if "i \<in> set (Q x)" for x i
    using dex_okD(8) [OF ok that] assms(5) by auto
  then show ?thesis
    using ok unfolding dex_ok_def open_ok_def same assms(3,4) by blast
qed

end
