(* ===== verification/Channel_Reserve.thy ===== *)
theory Channel_Reserve
  imports System
begin

text \<open>
  The channel reserve (\<open>precompiles/src/tip20_channel_reserve/mod.rs\<close>): payment channels that lock the deposit
  of a payer and pay the payee against signed cumulative vouchers. A channel is found by the hash of its
  descriptor. The hash that the transaction handler seeds for \<open>open\<close> and the mark of the channels opened in the
  transaction are transient: a new transaction starts without marks and with its own hash.

  Recovering a signer from signature bytes is \<^const>\<open>recover_primitive\<close>, an argument of the model. The credits
  for deleted storage slots (\<open>channel_storage_credits\<close>) are left out: they change what a later write costs.
\<close>

section \<open>Channels\<close>

definition CLOSE_GRACE_PERIOD :: u64 where
  "CLOSE_GRACE_PERIOD = 15 * 60"

definition channel_exists :: "channel_state \<Rightarrow> bool" where
  "channel_exists st = (ch_deposit st \<noteq> 0)"

definition close_requested_at :: "channel_state \<Rightarrow> u32 option" where
  "close_requested_at st = (if ch_close_requested_at st \<noteq> 0 then Some (ch_close_requested_at st) else None)"

definition receive_policy_sender :: "channel_state \<Rightarrow> address \<Rightarrow> address" where
  "receive_policy_sender st payer = (if ch_logical_sender st then payer else TIP20_CHANNEL_RESERVE_ADDRESS)"

definition channel_id :: "world \<Rightarrow> channel_descriptor \<Rightarrow> b256" where
  "channel_id w d = keccak256 w (ChannelIdentity d TIP20_CHANNEL_RESERVE_ADDRESS (chain_id w))"

abbreviation channel :: "world \<Rightarrow> b256 \<Rightarrow> channel_state" where
  "channel w i \<equiv> channel_states (channel_reserve w) i"

definition now_u32 :: "world \<Rightarrow> u32" where
  "now_u32 w = saturating_to 32 (timestamp w)"

definition upd_reserve :: "(reserve_storage \<Rightarrow> reserve_storage) \<Rightarrow> unit M" where
  "upd_reserve f = modify (\<lambda>w. w\<lparr>channel_reserve := f (channel_reserve w)\<rparr>)"

definition write_channel :: "b256 \<Rightarrow> channel_state \<Rightarrow> unit M" where
  "write_channel i st = upd_reserve (\<lambda>r. r\<lparr>channel_states := (channel_states r)(i := st)\<rparr>)"

definition emit_reserve :: "reserve_event \<Rightarrow> unit M" where
  "emit_reserve e = emit_event TIP20_CHANNEL_RESERVE_ADDRESS (TIP20ChannelReserveEvent e)"

definition load_existing_state :: "world \<Rightarrow> b256 \<Rightarrow> channel_state R" where
  "load_existing_state w i =
    (if \<not> channel_exists (channel w i) then Inl (TIP20ChannelReserveError ChannelNotFound) else Inr (channel w i))"

definition ensure_payee_or_operator :: "address \<Rightarrow> channel_descriptor \<Rightarrow> unit R" where
  "ensure_payee_or_operator msg_sender d =
    (if msg_sender \<noteq> cd_payee d \<and> (cd_operator d = 0 \<or> msg_sender \<noteq> cd_operator d)
     then Inl (TIP20ChannelReserveError NotPayeeOrOperator) else Inr ())"

definition enclosing_channel_open_context_hash :: "world \<Rightarrow> b256 R" where
  "enclosing_channel_open_context_hash w =
    (let h = channel_open_context_hash (channel_reserve w) in
     if h = 0 then Inl (TIP20ChannelReserveError ExpiringNonceHashNotSet) else Inr h)"

section \<open>Vouchers\<close>

text \<open>The separators of the two public networks are compile-time values of the same hash.\<close>

definition reserve_domain_separator :: "world \<Rightarrow> b256" where
  "reserve_domain_separator w = keccak256 w (ReserveDomain (chain_id w) TIP20_CHANNEL_RESERVE_ADDRESS)"

definition get_voucher_digest :: "world \<Rightarrow> b256 \<Rightarrow> u96 \<Rightarrow> b256" where
  "get_voucher_digest w i cumulative =
    keccak256 w (Eip712Digest (reserve_domain_separator w) (keccak256 w (VoucherStruct i cumulative)))"

definition expected_signer :: "channel_descriptor \<Rightarrow> address" where
  "expected_signer d = (if cd_authorized_signer d = 0 then cd_payer d else cd_authorized_signer d)"

definition validate_voucher :: "world \<Rightarrow> channel_descriptor \<Rightarrow> b256 \<Rightarrow> u96 \<Rightarrow> string \<Rightarrow> unit R" where
  "validate_voucher w d i cumulative sig =
    ebind (eok_or (recover_primitive w (get_voucher_digest w i cumulative) sig) (TIP20ChannelReserveError VoucherInvalidSignature))
      (\<lambda>signer.
       if signer \<noteq> expected_signer d then Inl (TIP20ChannelReserveError VoucherInvalidSignature)
       else if is_retired_root w signer then Inl (TIP20ChannelReserveError (VoucherRootKeyRetired signer))
       else Inr ())"

section \<open>Deposits\<close>

text \<open>The transfer of a deposit into the reserve. The first sender is the one that the payee's receive policy is
  asked about; it differs from the payer only for a channel that was opened before T12.\<close>

definition pull_deposit :: "address \<Rightarrow> address \<Rightarrow> address \<Rightarrow> address \<Rightarrow> u96 \<Rightarrow> unit M" where
  "pull_deposit t policy_sender msg_sender payee amount =
    rbind (gets spec) (\<lambda>sp.
    rbind (rd (\<lambda>w. resolve w payee)) (\<lambda>r.
    if T12 \<le> sp then
      rseq (rd (\<lambda>w. ensure_transfer_authorized w t msg_sender (target r)))
     (rseq (rd (\<lambda>w. ensure_receive_policy_authorized w t policy_sender (target r)))
           (channel_reserve_transfer t msg_sender (direct TIP20_CHANNEL_RESERVE_ADDRESS) amount msg_sender))
    else
      rseq (rd (\<lambda>w. ensure_authorized_as w t [(target r, AuthRecipient)]))
           (void (system_transfer_from t TIP20_CHANNEL_RESERVE_ADDRESS msg_sender amount))))"

definition invalid_payee :: "address \<Rightarrow> address \<Rightarrow> bool" where
  "invalid_payee payee operator =
    (payee = 0 \<or> is_tip20_prefix payee \<or> (is_virtual payee \<and> (operator = 0 \<or> is_virtual operator)))"

definition open_descriptor :: "address \<Rightarrow> address \<Rightarrow> address \<Rightarrow> address \<Rightarrow> b256 \<Rightarrow> address \<Rightarrow> b256 \<Rightarrow> channel_descriptor" where
  "open_descriptor msg_sender payee operator token salt signer h =
    \<lparr>cd_payer = msg_sender, cd_payee = payee, cd_operator = operator, cd_token = token, cd_salt = salt,
     cd_authorized_signer = signer, cd_expiring_nonce_hash = h\<rparr>"

definition open_channel :: "address \<Rightarrow> address \<Rightarrow> address \<Rightarrow> address \<Rightarrow> u96 \<Rightarrow> b256 \<Rightarrow> address \<Rightarrow> b256 M" where
  "open_channel msg_sender payee operator token deposit salt signer =
    rseq (ensure (\<not> invalid_payee payee operator) (TIP20ChannelReserveError InvalidPayee))
   (rbind (rd (\<lambda>_. from_address token)) (\<lambda>t.
    rseq (ensure (deposit \<noteq> 0) (TIP20ChannelReserveError ZeroDeposit))
   (rbind (rd enclosing_channel_open_context_hash) (\<lambda>h.
    let d = open_descriptor msg_sender payee operator token salt signer h in
    rbind (gets (\<lambda>w. channel_id w d)) (\<lambda>i.
    rbind (gets (\<lambda>w. channel_exists (channel w i) \<or> opened_this_tx (channel_reserve w) i)) (\<lambda>present.
    rseq (ensure (\<not> present) (TIP20ChannelReserveError ChannelAlreadyExists))
   (rseq (pull_deposit t msg_sender msg_sender payee deposit)
   (rbind (gets spec) (\<lambda>sp.
    rseq (write_channel i \<lparr>ch_settled = 0, ch_deposit = deposit, ch_close_requested_at = 0, ch_logical_sender = (T12 \<le> sp)\<rparr>)
   (rseq (upd_reserve (\<lambda>r. r\<lparr>opened_this_tx := (opened_this_tx r)(i := True)\<rparr>))
   (rseq (emit_reserve (ChannelOpened i d deposit))
         (ok i))))))))))))"

definition top_up :: "address \<Rightarrow> channel_descriptor \<Rightarrow> u96 \<Rightarrow> unit M" where
  "top_up msg_sender d additional =
    rbind (gets (\<lambda>w. channel_id w d)) (\<lambda>i.
    rbind (rd (\<lambda>w. load_existing_state w i)) (\<lambda>st.
    rseq (ensure (msg_sender = cd_payer d) (TIP20ChannelReserveError NotPayer))
   (let had_close_request = (close_requested_at st \<noteq> None) in
    if additional = 0 \<and> \<not> had_close_request then ok ()
    else
      rbind (if additional \<noteq> 0 then
               rbind (ok_or (checked_add 96 (ch_deposit st) additional) (TIP20ChannelReserveError DepositOverflow)) (\<lambda>next_deposit.
               rbind (rd (\<lambda>_. from_address (cd_token d))) (\<lambda>t.
               rseq (pull_deposit t (receive_policy_sender st msg_sender) msg_sender (cd_payee d) additional)
                    (ok (st\<lparr>ch_deposit := next_deposit\<rparr>))))
             else ok st) (\<lambda>st.
      let st = (if had_close_request then st\<lparr>ch_close_requested_at := 0\<rparr> else st) in
      rseq (write_channel i st)
     (rseq (only_if had_close_request (emit_reserve (CloseRequestCancelled i (cd_payer d) (cd_payee d))))
           (emit_reserve (TopUp i (cd_payer d) (cd_payee d) additional (ch_deposit st))))))))"

section \<open>Payments\<close>

definition settle :: "address \<Rightarrow> channel_descriptor \<Rightarrow> u96 \<Rightarrow> string \<Rightarrow> unit M" where
  "settle msg_sender d cumulative sig =
    rbind (gets (\<lambda>w. channel_id w d)) (\<lambda>i.
    rbind (rd (\<lambda>w. load_existing_state w i)) (\<lambda>st.
    rseq (rd (\<lambda>_. ensure_payee_or_operator msg_sender d))
   (rseq (ensure (\<not> cumulative > ch_deposit st) (TIP20ChannelReserveError AmountExceedsDeposit))
   (rseq (ensure (\<not> cumulative \<le> ch_settled st) (TIP20ChannelReserveError AmountNotIncreasing))
   (rseq (rd (\<lambda>w. validate_voucher w d i cumulative sig))
   (let delta = cumulative - ch_settled st in
    rbind (rd (\<lambda>_. from_address (cd_token d))) (\<lambda>t.
    rbind (gets spec) (\<lambda>sp.
    rseq (if T12 \<le> sp then
            rbind (rd (\<lambda>w. resolve w (cd_payee d))) (\<lambda>payee.
            rseq (rd (\<lambda>w. ensure_transfer_authorized w t (cd_payer d) (target payee)))
           (rseq (channel_reserve_transfer t TIP20_CHANNEL_RESERVE_ADDRESS payee delta (receive_policy_sender st (cd_payer d)))
                 (write_channel i (st\<lparr>ch_settled := cumulative\<rparr>))))
          else
            rseq (rd (\<lambda>w. ensure_authorized_as w t [(cd_payer d, AuthSender)]))
           (rseq (write_channel i (st\<lparr>ch_settled := cumulative\<rparr>))
                 (void (transfer t TIP20_CHANNEL_RESERVE_ADDRESS (cd_payee d) delta))))
         (emit_reserve (Settled i (cd_payer d) (cd_payee d) cumulative delta cumulative))))))))))"

definition request_close :: "address \<Rightarrow> channel_descriptor \<Rightarrow> unit M" where
  "request_close msg_sender d =
    rbind (gets (\<lambda>w. channel_id w d)) (\<lambda>i.
    rbind (rd (\<lambda>w. load_existing_state w i)) (\<lambda>st.
    rseq (ensure (msg_sender = cd_payer d) (TIP20ChannelReserveError NotPayer))
   (if close_requested_at st \<noteq> None then ok ()
    else
      rbind (gets now_u32) (\<lambda>requested.
      rseq (write_channel i (st\<lparr>ch_close_requested_at := requested\<rparr>))
     (rbind (gets now64) (\<lambda>now.
      emit_reserve (CloseRequested i (cd_payer d) (cd_payee d) (now + CLOSE_GRACE_PERIOD))))))))"

text \<open>What a channel pays out when it ends: to the payee the captured amount, to the payer the rest.\<close>

definition pay_payee :: "address \<Rightarrow> channel_descriptor \<Rightarrow> channel_state \<Rightarrow> u96 \<Rightarrow> unit M" where
  "pay_payee t d st delta =
    rbind (gets spec) (\<lambda>sp.
    only_if (delta \<noteq> 0)
      (if T12 \<le> sp then
         rbind (rd (\<lambda>w. resolve w (cd_payee d))) (\<lambda>payee.
         rseq (rd (\<lambda>w. ensure_transfer_authorized w t (cd_payer d) (target payee)))
              (channel_reserve_transfer t TIP20_CHANNEL_RESERVE_ADDRESS payee delta (receive_policy_sender st (cd_payer d))))
       else
         rseq (rd (\<lambda>w. ensure_authorized_as w t [(cd_payer d, AuthSender)]))
              (void (transfer t TIP20_CHANNEL_RESERVE_ADDRESS (cd_payee d) delta))))"

definition refund_payer :: "address \<Rightarrow> channel_descriptor \<Rightarrow> u96 \<Rightarrow> unit M" where
  "refund_payer t d refund =
    rbind (gets spec) (\<lambda>sp.
    only_if (refund \<noteq> 0)
      (if T12 \<le> sp then
         rbind (rd (\<lambda>w. resolve w (cd_payer d))) (\<lambda>payer.
         channel_reserve_transfer t TIP20_CHANNEL_RESERVE_ADDRESS payer refund TIP20_CHANNEL_RESERVE_ADDRESS)
       else void (transfer t TIP20_CHANNEL_RESERVE_ADDRESS (cd_payer d) refund)))"

definition close_channel :: "address \<Rightarrow> channel_descriptor \<Rightarrow> u96 \<Rightarrow> u96 \<Rightarrow> string \<Rightarrow> unit M" where
  "close_channel msg_sender d cumulative capture sig =
    rbind (gets (\<lambda>w. channel_id w d)) (\<lambda>i.
    rbind (rd (\<lambda>w. load_existing_state w i)) (\<lambda>st.
    rseq (rd (\<lambda>_. ensure_payee_or_operator msg_sender d))
   (let previous_settled = ch_settled st in
    rseq (ensure (\<not> (capture < previous_settled \<or> capture > cumulative)) (TIP20ChannelReserveError CaptureAmountInvalid))
   (rseq (ensure (\<not> capture > ch_deposit st) (TIP20ChannelReserveError AmountExceedsDeposit))
   (rseq (only_if (capture > previous_settled) (rd (\<lambda>w. validate_voucher w d i cumulative sig)))
   (let delta = capture - previous_settled; refund = ch_deposit st - capture in
    rbind (gets spec) (\<lambda>sp.
    rseq (if T12 \<le> sp then
            rbind (rd (\<lambda>_. from_address (cd_token d))) (\<lambda>t.
            rseq (pay_payee t d st delta)
           (rseq (refund_payer t d refund)
                 (write_channel i no_channel)))
          else
            rseq (write_channel i no_channel)
           (rbind (rd (\<lambda>_. from_address (cd_token d))) (\<lambda>t.
            rseq (pay_payee t d st delta)
                 (refund_payer t d refund))))
         (emit_reserve (ChannelClosed i (cd_payer d) (cd_payee d) capture refund)))))))))"

definition refund_rest :: "channel_descriptor \<Rightarrow> u96 \<Rightarrow> unit M" where
  "refund_rest d refund =
    only_if (refund \<noteq> 0) (rbind (rd (\<lambda>_. from_address (cd_token d))) (\<lambda>t. refund_payer t d refund))"

text \<open>The refund of a withdrawal is a checked subtraction that the code expects to succeed.\<close>

definition withdraw_channel :: "address \<Rightarrow> channel_descriptor \<Rightarrow> unit M" where
  "withdraw_channel msg_sender d =
    rbind (gets (\<lambda>w. channel_id w d)) (\<lambda>i.
    rbind (rd (\<lambda>w. load_existing_state w i)) (\<lambda>st.
    rseq (ensure (msg_sender = cd_payer d) (TIP20ChannelReserveError NotPayer))
   (rbind (gets now64) (\<lambda>now.
    rseq (ensure (case close_requested_at st of None \<Rightarrow> False | Some requested \<Rightarrow> now \<ge> requested + CLOSE_GRACE_PERIOD)
           (TIP20ChannelReserveError CloseNotReady))
   (rbind (ok_or (checked_sub (ch_deposit st) (ch_settled st)) (RustPanic ''settled is always <= deposit'')) (\<lambda>refund.
    rbind (gets spec) (\<lambda>sp.
    rseq (if T12 \<le> sp then rseq (refund_rest d refund) (write_channel i no_channel)
          else rseq (write_channel i no_channel) (refund_rest d refund))
         (emit_reserve (ChannelClosed i (cd_payer d) (cd_payee d) (ch_settled st) refund)))))))))"

section \<open>Calls and transactions\<close>

datatype (plugins only: code size) reserve_call =
    OpenCall address address address u96 b256 address
  | SettleCall channel_descriptor u96 string
  | TopUpCall channel_descriptor u96
  | CloseCall channel_descriptor u96 u96 string
  | RequestCloseCall channel_descriptor
  | WithdrawChannelCall channel_descriptor

primrec reserve_dispatch :: "address \<Rightarrow> reserve_call \<Rightarrow> unit M" where
  "reserve_dispatch s (OpenCall payee operator token deposit salt signer) = void (open_channel s payee operator token deposit salt signer)"
| "reserve_dispatch s (SettleCall d cumulative sig) = settle s d cumulative sig"
| "reserve_dispatch s (TopUpCall d additional) = top_up s d additional"
| "reserve_dispatch s (CloseCall d cumulative capture sig) = close_channel s d cumulative capture sig"
| "reserve_dispatch s (RequestCloseCall d) = request_close s d"
| "reserve_dispatch s (WithdrawChannelCall d) = withdraw_channel s d"

definition set_channel_open_context_hash :: "b256 \<Rightarrow> unit M" where
  "set_channel_open_context_hash h = upd_reserve (\<lambda>r. r\<lparr>channel_open_context_hash := h\<rparr>)"

text \<open>Transient storage is empty at the start of a transaction.\<close>

definition begin_channel_transaction :: "b256 \<Rightarrow> unit M" where
  "begin_channel_transaction h =
    rseq (upd_reserve (\<lambda>r. r\<lparr>opened_this_tx := \<lambda>_. False, channel_open_context_hash := 0\<rparr>))
         (set_channel_open_context_hash h)"

end
