(* ===== verification/Channel_Ledger.thy ===== *)
theory Channel_Ledger
  imports Channel_Reserve Tip20_Transfers Tip20_Frames
begin

text \<open>
  What the calls of the channel reserve do to a channel and to the tokens that the reserve holds. Every call
  concerns the channel of one descriptor and moves units of its token. The record of the channel changes by one
  of the steps of \<open>channel_step\<close>, and the balance of the reserve by what the step changes of the unpaid part
  of the deposit. Histories interleave these calls with all other calls of the token machine.
\<close>

abbreviation RESERVE :: address where
  "RESERVE \<equiv> TIP20_CHANNEL_RESERVE_ADDRESS"

section \<open>Transfers in and out of the reserve\<close>

text \<open>What transfers never change.\<close>

definition surroundings where
  "surroundings w = (channel_reserve w, spec w, timestamp w, keccak256 w, chain_id w, recover_primitive w, config_commitment w)"

lemma surroundings_outer: "outer_obs surroundings"
  by (simp add: outer_obs_def surroundings_def)

lemmas surroundings_plain = outer_plain [OF surroundings_outer]

lemma surroundingsD:
  assumes "surroundings w' = surroundings w"
  shows "channel_reserve w' = channel_reserve w" "spec w' = spec w" "timestamp w' = timestamp w" "keccak256 w' = keccak256 w"
    "chain_id w' = chain_id w" "recover_primitive w' = recover_primitive w" "config_commitment w' = config_commitment w"
  using assms by (simp_all add: surroundings_def)

lemma moved_reserve:
  "b RESERVE - v \<le> moved b RESERVE a v RESERVE"
  "s \<noteq> RESERVE \<Longrightarrow> moved b s RESERVE v RESERVE = b RESERVE + v"
  by (auto simp: moved_def debit_def credit_def address_defs)

text \<open>An outflow of \<open>v\<close> units of \<open>t\<close>, and an inflow.\<close>

definition outflow :: "address \<Rightarrow> nat \<Rightarrow> world \<Rightarrow> world \<Rightarrow> bool" where
  "outflow t v w w' \<longleftrightarrow> touches t w w' \<and> surroundings w' = surroundings w \<and> bal w t RESERVE \<le> bal w' t RESERVE + v"

definition inflow :: "address \<Rightarrow> nat \<Rightarrow> world \<Rightarrow> world \<Rightarrow> bool" where
  "inflow t v w w' \<longleftrightarrow> touches t w w' \<and> surroundings w' = surroundings w \<and> bal w' t RESERVE = bal w t RESERVE + v"

lemma outflow_refl [simp]: "outflow t 0 w w"
  by (simp add: outflow_def touches_def)

lemma outflow_trans: "outflow t v w w1 \<Longrightarrow> outflow t v' w1 w2 \<Longrightarrow> outflow t (v + v') w w2"
  by (auto simp: outflow_def touches_def)

lemma transfer_moves:
  assumes "transfer t s to v w = Inr (x, w')"
  shows "\<exists>r. resolve w to = Inr r \<and> balances (tokens w' t) = moved (balances (tokens w t)) s (landing w t s r) v"
proof -
  obtain c w1 where "validate_transfer t None s to v 0 w = Inr (c, w1)" "finish_transfer t s to v None c w1 = Inr ((), w')"
    using assms unfolding transfer_def rbind_eq_Inr by (auto simp: rseq_eq_Inr)
  from transfer_run [OF this] show ?thesis
    by blast
qed

lemma transfer_out:
  assumes "transfer t RESERVE to v w = Inr (x, w')"
  shows "outflow t v w w'"
proof -
  obtain a where "balances (tokens w' t) = moved (balances (tokens w t)) RESERVE a v"
    using transfer_moves [OF assms] by blast
  moreover have "touches t w w'"
    using assms unfolding transfer_def by (rule stepsD [rotated]) (intro touch.compose touching)
  moreover have "surroundings w' = surroundings w"
    using plain_transfer [OF surroundings_plain] assms by (rule preservesD)
  ultimately show ?thesis
    using moved_reserve(1) [of "balances (tokens w t)" v a] by (auto simp: outflow_def)
qed

lemma reserve_transfer_moves:
  assumes "channel_reserve_transfer t from r v s w = Inr (x, w')"
  shows "balances (tokens w' t) = moved (balances (tokens w t)) from (target r) v" "touches t w w'" "surroundings w' = surroundings w"
proof -
  obtain w1 w2 where w1: "check_and_update_spending_limit t from v w = Inr ((), w1)" and w2: "transfer_core t from r v w1 = Inr ((), w2)"
    and hop: "emit_hop t r v w2 = Inr ((), w')"
    using assms by (auto simp: channel_reserve_transfer_def runs)
  have "tokens w1 = tokens w"
    using w1 by (rule preservesD [rotated]) (intro frame)
  moreover have "tokens w' = tokens w2"
    using hop by (rule preservesD [rotated]) (intro frame)
  ultimately show "balances (tokens w' t) = moved (balances (tokens w t)) from (target r) v"
    using transfer_core_balances(1) [OF w2] by simp
  show "touches t w w'" "surroundings w' = surroundings w"
    using stepsD [OF touch_payments(2) assms] preservesD [OF plain_payments(2) [OF surroundings_plain] assms] by blast+
qed

lemma reserve_transfer_out: "channel_reserve_transfer t RESERVE r v s w = Inr (x, w') \<Longrightarrow> outflow t v w w'"
  using reserve_transfer_moves [of t RESERVE r v s w x w'] moved_reserve(1) [of "balances (tokens w t)" v "target r"]
  by (simp add: outflow_def)

lemma reserve_transfer_in:
  "channel_reserve_transfer t s (direct RESERVE) v s' w = Inr (x, w') \<Longrightarrow> s \<noteq> RESERVE \<Longrightarrow> inflow t v w w'"
  using reserve_transfer_moves [of t s "direct RESERVE" v s' w x w'] moved_reserve(2) [of s "balances (tokens w t)" v]
  by (simp add: inflow_def direct_def)

text \<open>The reserve has no receive policy: only the reserve itself could set one.\<close>

definition accepts :: "world \<Rightarrow> bool" where
  "accepts w \<longleftrightarrow> \<not> has_receive_policy (rp_config (receive_policies (registry w) RESERVE))"

lemma resolve_reserve: "resolve w RESERVE = Inr (direct RESERVE)"
  by (simp add: resolve_def resolve_recipient_def decode_virtual_def is_virtual_def address_defs VIRTUAL_MAGIC_def)

lemma system_transfer_in:
  assumes run: "system_transfer_from t RESERVE s v w = Inr (x, w')" and s: "s \<noteq> RESERVE" and acc: "accepts w"
  shows "inflow t v w w'"
proof -
  obtain c w1 where "validate_transfer t None s RESERVE v 0 w = Inr (c, w1)" "finish_transfer t s RESERVE v None c w1 = Inr ((), w')"
    using run unfolding system_transfer_from_def by (auto simp: runs)
  from transfer_run [OF this] have "balances (tokens w' t) = moved (balances (tokens w t)) s (landing w t s (direct RESERVE)) v"
    by (auto simp: resolve_reserve)
  moreover have "landing w t s (direct RESERVE) = RESERVE"
    using acc by (simp add: landing_def check_receive_policy_def accepts_def direct_def)
  ultimately show ?thesis
    using moved_reserve(2) [OF s] stepsD [OF touch_payments(1) run] preservesD [OF plain_payments(1) [OF surroundings_plain] run]
    by (simp add: inflow_def)
qed

lemma pull_deposit_run:
  assumes "pull_deposit t p s payee v w = Inr (x, w')" "s \<noteq> RESERVE" "accepts w"
  shows "inflow t v w w'"
  using assms reserve_transfer_in system_transfer_in
  by (auto simp: pull_deposit_def runs void_def rbind_eq_Inr [of "system_transfer_from t RESERVE s v"] split: if_splits)

section \<open>Steps of a channel\<close>

definition outstanding :: "channel_state \<Rightarrow> nat" where
  "outstanding st = ch_deposit st - ch_settled st"

definition voucher_signed :: "world \<Rightarrow> channel_descriptor \<Rightarrow> u96 \<Rightarrow> bool" where
  "voucher_signed w d amount \<longleftrightarrow>
    (\<exists>sig. recover_primitive w (get_voucher_digest w (channel_id w d) amount) sig = Some (expected_signer d))"

inductive channel_step :: "world \<Rightarrow> channel_descriptor \<Rightarrow> channel_state \<Rightarrow> channel_state \<Rightarrow> bool" for w d st where
  unchanged: "channel_step w d st st"
| opened: "\<not> channel_exists st \<Longrightarrow> 0 < v \<Longrightarrow> v < 2 ^ 96 \<Longrightarrow>
    channel_step w d st \<lparr>ch_settled = 0, ch_deposit = v, ch_close_requested_at = 0, ch_logical_sender = b\<rparr>"
| settled: "ch_settled st < c \<Longrightarrow> c \<le> ch_deposit st \<Longrightarrow> voucher_signed w d c \<Longrightarrow> channel_step w d st (st\<lparr>ch_settled := c\<rparr>)"
| topped_up: "v = 0 \<or> ch_deposit st + v < 2 ^ 96 \<Longrightarrow>
    channel_step w d st (st\<lparr>ch_deposit := ch_deposit st + v, ch_close_requested_at := 0\<rparr>)"
| requested: "close_requested_at st = None \<Longrightarrow> channel_step w d st (st\<lparr>ch_close_requested_at := now_u32 w\<rparr>)"
| closed: "ch_settled st \<le> c \<Longrightarrow> c \<le> ch_deposit st \<Longrightarrow> (ch_settled st < c \<Longrightarrow> \<exists>amount\<ge>c. voucher_signed w d amount) \<Longrightarrow>
    channel_step w d st no_channel"
| withdrawn: "close_requested_at st = Some requested \<Longrightarrow> requested + CLOSE_GRACE_PERIOD \<le> now64 w \<Longrightarrow> channel_step w d st no_channel"

definition environment where
  "environment w = (spec w, timestamp w, keccak256 w, chain_id w, recover_primitive w, config_commitment w)"

definition channel_effect :: "channel_descriptor \<Rightarrow> channel_state \<Rightarrow> world \<Rightarrow> world \<Rightarrow> bool" where
  "channel_effect d st w w' \<longleftrightarrow>
    channel_states (channel_reserve w') = (channel_states (channel_reserve w))(channel_id w d := st)
    \<and> touches (cd_token d) w w' \<and> environment w' = environment w
    \<and> bal w (cd_token d) RESERVE + outstanding st \<le> bal w' (cd_token d) RESERVE + outstanding (channel w (channel_id w d))"

definition put_channel :: "b256 \<Rightarrow> channel_state \<Rightarrow> world \<Rightarrow> world" where
  "put_channel i st w = w\<lparr>channel_reserve := (channel_reserve w)\<lparr>channel_states := (channel_states (channel_reserve w))(i := st)\<rparr>\<rparr>"

lemma put_channel_sel [simp]:
  "tokens (put_channel i st w) = tokens w" "spec (put_channel i st w) = spec w" "timestamp (put_channel i st w) = timestamp w"
  "keccak256 (put_channel i st w) = keccak256 w" "chain_id (put_channel i st w) = chain_id w"
  "recover_primitive (put_channel i st w) = recover_primitive w" "config_commitment (put_channel i st w) = config_commitment w"
  "channel_states (channel_reserve (put_channel i st w)) = (channel_states (channel_reserve w))(i := st)"
  by (simp_all add: put_channel_def)

lemma write_channel_run [runs]: "write_channel i st w = Inr (x, w') \<longleftrightarrow> w' = put_channel i st w"
  by (auto simp: write_channel_def upd_reserve_def put_channel_def runs)

lemma emit_reserve_run [runs]:
  "emit_reserve e w = Inr (x, w') \<longleftrightarrow> w' = w\<lparr>logs := logs w @ [(RESERVE, TIP20ChannelReserveEvent e)]\<rparr>"
  by (auto simp: emit_reserve_def)

lemma effect_logs: "channel_effect d st w w' \<Longrightarrow> channel_effect d st w (w'\<lparr>logs := l\<rparr>)"
  by (simp add: channel_effect_def touches_def environment_def)

lemma effect_mark:
  "channel_effect d st w w' \<Longrightarrow> channel_effect d st w (w'\<lparr>channel_reserve := (channel_reserve w')\<lparr>opened_this_tx := f\<rparr>, logs := l\<rparr>)"
  by (simp add: channel_effect_def touches_def environment_def)

lemma effect_last:
  assumes "outflow (cd_token d) v w w1" "outstanding st + v \<le> outstanding (channel w (channel_id w d))"
  shows "channel_effect d st w (put_channel (channel_id w d) st w1)"
  using assms surroundingsD [of w1 w] by (auto simp: channel_effect_def outflow_def touches_def environment_def)

lemma effect_first:
  assumes "outflow (cd_token d) v (put_channel (channel_id w d) st w) w'" "outstanding st + v \<le> outstanding (channel w (channel_id w d))"
  shows "channel_effect d st w w'"
  using assms surroundingsD [of w' "put_channel (channel_id w d) st w"]
  by (auto simp: channel_effect_def outflow_def touches_def environment_def)

lemma effect_in:
  assumes "inflow (cd_token d) v w w1" "outstanding st \<le> outstanding (channel w (channel_id w d)) + v"
  shows "channel_effect d st w (put_channel (channel_id w d) st w1)"
  using assms surroundingsD [of w1 w] by (auto simp: channel_effect_def inflow_def touches_def environment_def)

lemma effect_none: "channel_effect d (channel w (channel_id w d)) w w"
  by (simp add: channel_effect_def touches_def)

lemma effect_put: "outstanding st \<le> outstanding (channel w (channel_id w d)) \<Longrightarrow> channel_effect d st w (put_channel (channel_id w d) st w)"
  by (simp add: channel_effect_def touches_def environment_def)

lemma load_run: "load_existing_state w i = Inr st \<longleftrightarrow> st = channel w i \<and> channel_exists st"
  by (auto simp: load_existing_state_def)

lemma from_address_run: "from_address a = Inr t \<longleftrightarrow> t = a \<and> is_tip20_prefix a"
  by (auto simp: from_address_def)

lemma context_run:
  "enclosing_channel_open_context_hash w = Inr h \<longleftrightarrow> h = channel_open_context_hash (channel_reserve w) \<and> h \<noteq> 0"
  by (auto simp: enclosing_channel_open_context_hash_def Let_def)

lemma voucher_run: "validate_voucher w d (channel_id w d) c sig = Inr u \<Longrightarrow> voucher_signed w d c"
  by (auto simp: validate_voucher_def voucher_signed_def runs split: if_splits)

section \<open>Calls\<close>

text \<open>The channel that a call concerns.\<close>

fun call_descriptor :: "address \<Rightarrow> reserve_call \<Rightarrow> world \<Rightarrow> channel_descriptor" where
  "call_descriptor s (OpenCall payee operator token deposit salt signer) w =
    open_descriptor s payee operator token salt signer (channel_open_context_hash (channel_reserve w))"
| "call_descriptor s (SettleCall d cumulative sig) w = d"
| "call_descriptor s (TopUpCall d additional) w = d"
| "call_descriptor s (CloseCall d cumulative capture sig) w = d"
| "call_descriptor s (RequestCloseCall d) w = d"
| "call_descriptor s (WithdrawChannelCall d) w = d"

text \<open>The widths of the arguments of a call.\<close>

fun typed_call :: "reserve_call \<Rightarrow> bool" where
  "typed_call (OpenCall payee operator token deposit salt signer) = (deposit < 2 ^ 96)"
| "typed_call (SettleCall d cumulative sig) = (cumulative < 2 ^ 96)"
| "typed_call (TopUpCall d additional) = (additional < 2 ^ 96)"
| "typed_call (CloseCall d cumulative capture sig) = (cumulative < 2 ^ 96 \<and> capture < 2 ^ 96)"
| "typed_call _ = True"

definition does :: "channel_descriptor \<Rightarrow> world \<Rightarrow> world \<Rightarrow> bool" where
  "does d w w' \<longleftrightarrow> (\<exists>st. channel_effect d st w w' \<and> channel_step w d (channel w (channel_id w d)) st)"

lemma does_logs: "does d w w' \<Longrightarrow> does d w (w'\<lparr>logs := l\<rparr>)"
  unfolding does_def using effect_logs by blast

lemma open_run:
  assumes run: "open_channel s payee operator token deposit salt signer w = Inr (i, w')" and s: "s \<noteq> RESERVE" "accepts w"
    and u96: "deposit < 2 ^ 96"
  defines "d \<equiv> open_descriptor s payee operator token salt signer (channel_open_context_hash (channel_reserve w))"
  shows "does d w w'" "\<not> channel_exists (channel w (channel_id w d))" "ch_settled (channel w' (channel_id w d)) = 0"
proof -
  let ?d = "open_descriptor s payee operator token salt signer (channel_open_context_hash (channel_reserve w))"
  let ?st = "\<lambda>sp. \<lparr>ch_settled = 0, ch_deposit = deposit, ch_close_requested_at = 0, ch_logical_sender = (T12 \<le> sp)\<rparr>"
  obtain w1 where pull: "pull_deposit token s s payee deposit w = Inr ((), w1)" and pos: "0 < deposit"
    and new: "\<not> channel_exists (channel w (channel_id w ?d))"
    and w': "\<exists>f l. w' = (put_channel (channel_id w ?d) (?st (spec w1)) w1)\<lparr>channel_reserve := (channel_reserve
        (put_channel (channel_id w ?d) (?st (spec w1)) w1))\<lparr>opened_this_tx := f\<rparr>, logs := l\<rparr>"
    using run unfolding open_channel_def Let_def
    by (auto simp: runs from_address_run context_run upd_reserve_def split: if_splits)
  have "inflow (cd_token ?d) deposit w w1"
    using pull_deposit_run [OF pull s] by (simp add: open_descriptor_def)
  then have "channel_effect ?d (?st (spec w1)) w (put_channel (channel_id w ?d) (?st (spec w1)) w1)"
    by (rule effect_in) (simp add: outstanding_def)
  then have effect: "channel_effect ?d (?st (spec w1)) w w'"
    using w' effect_mark by blast
  moreover have "channel_step w ?d (channel w (channel_id w ?d)) (?st (spec w1))"
    using new pos u96 by (rule channel_step.opened)
  ultimately show "does d w w'"
    unfolding does_def d_def by blast
  show "\<not> channel_exists (channel w (channel_id w d))" "ch_settled (channel w' (channel_id w d)) = 0"
    using new effect by (simp_all add: channel_effect_def d_def)
qed

lemma settle_cases:
  assumes "settle s d c sig w = Inr (x, w')"
  defines "st \<equiv> channel w (channel_id w d)"
  shows "channel_exists st" "ch_settled st < c" "c \<le> ch_deposit st" "validate_voucher w d (channel_id w d) c sig = Inr ()"
    "(\<exists>r p w1 l. T12 \<le> spec w \<and> resolve w (cd_payee d) = Inr r
        \<and> channel_reserve_transfer (cd_token d) RESERVE r (c - ch_settled st) p w = Inr ((), w1)
        \<and> w' = (put_channel (channel_id w d) (st\<lparr>ch_settled := c\<rparr>) w1)\<lparr>logs := l\<rparr>)
      \<or> (\<exists>x w1 l. \<not> T12 \<le> spec w
        \<and> transfer (cd_token d) RESERVE (cd_payee d) (c - ch_settled st) (put_channel (channel_id w d) (st\<lparr>ch_settled := c\<rparr>) w) = Inr (x, w1)
        \<and> w' = w1\<lparr>logs := l\<rparr>)"
  using assms unfolding settle_def Let_def
  by (auto simp: runs load_run from_address_run void_def rbind_eq_Inr [of "transfer _ _ _ _"] split: if_splits)

lemma settle_run:
  assumes run: "settle s d c sig w = Inr (x, w')"
  shows "does d w w'" "channel w' (channel_id w d) = (channel w (channel_id w d))\<lparr>ch_settled := c\<rparr>"
proof -
  let ?i = "channel_id w d" and ?t = "cd_token d"
  let ?st = "channel w ?i" let ?st' = "?st\<lparr>ch_settled := c\<rparr>"
  note w' = settle_cases(5) [OF run]
  have step: "channel_step w d ?st ?st'"
    using settle_cases(2,3) [OF run] voucher_run [OF settle_cases(4) [OF run]] by (rule channel_step.settled)
  have out: "outstanding ?st' + (c - ch_settled ?st) \<le> outstanding ?st"
    using settle_cases(2,3) [OF run] by (simp add: outstanding_def)
  have effect: "channel_effect d ?st' w w'"
    using w' effect_logs effect_last [OF reserve_transfer_out out] effect_first [OF transfer_out out] by blast
  then show "does d w w'"
    using step by (auto simp: does_def)
  show "channel w' ?i = ?st'"
    using effect by (simp add: channel_effect_def)
qed

lemma clear_request: "close_requested_at st = None \<Longrightarrow> st\<lparr>ch_deposit := v, ch_close_requested_at := 0\<rparr> = st\<lparr>ch_deposit := v\<rparr>"
  by (cases st) (simp add: close_requested_at_def split: if_splits)

lemma top_up_run:
  assumes run: "top_up s d v w = Inr (x, w')" and s: "s \<noteq> RESERVE" "accepts w"
  shows "does d w w' \<and> ch_settled (channel w' (channel_id w d)) = ch_settled (channel w (channel_id w d))"
proof -
  let ?i = "channel_id w d" and ?t = "cd_token d"
  let ?st = "channel w ?i" let ?st' = "?st\<lparr>ch_deposit := ch_deposit ?st + v, ch_close_requested_at := 0\<rparr>"
  show ?thesis
  proof (cases "v = 0")
    case True
    then have "w' = w \<or> (\<exists>l. w' = (put_channel ?i ?st' w)\<lparr>logs := l\<rparr>)"
      using run unfolding top_up_def Let_def by (auto simp: runs load_run split: if_splits)
    moreover have "channel_effect d ?st' w (put_channel ?i ?st' w)"
      using True by (intro effect_put) (simp add: outstanding_def)
    moreover have "ch_settled (channel w' ?i) = ch_settled ?st"
      using calculation(1) by auto
    ultimately show ?thesis
      using True effect_none effect_logs channel_step.unchanged channel_step.topped_up [of v ?st w d] unfolding does_def by metis
  next
    case False
    then have w': "\<exists>p w1 l. pull_deposit ?t p s (cd_payee d) v w = Inr ((), w1) \<and> w' = (put_channel ?i ?st' w1)\<lparr>logs := l\<rparr>"
      and fits: "ch_deposit ?st + v < 2 ^ 96"
      using run unfolding top_up_def Let_def
      by (auto simp: runs load_run from_address_run checked_add_def clear_request split: if_splits)
    have "channel_effect d ?st' w w'"
      using w' effect_logs effect_in [OF pull_deposit_run [OF _ s]] by (fastforce simp: outstanding_def)
    then show ?thesis
      using channel_step.topped_up [OF disjI2 [OF fits]] by (auto simp: does_def channel_effect_def)
  qed
qed

lemma top_up_exists: "top_up s d v w = Inr (x, w') \<Longrightarrow> channel_exists (channel w (channel_id w d))"
  unfolding top_up_def Let_def by (auto simp: runs load_run split: if_splits)

lemma request_close_run:
  assumes "request_close s d w = Inr (x, w')"
  shows "does d w w'" "channel_exists (channel w (channel_id w d))"
    "ch_settled (channel w' (channel_id w d)) = ch_settled (channel w (channel_id w d))"
proof -
  let ?st = "channel w (channel_id w d)" let ?st' = "?st\<lparr>ch_close_requested_at := now_u32 w\<rparr>"
  have "w' = w \<or> (close_requested_at ?st = None \<and> (\<exists>l. w' = (put_channel (channel_id w d) ?st' w)\<lparr>logs := l\<rparr>))"
    using assms unfolding request_close_def by (auto simp: runs load_run split: if_splits)
  moreover from this show "ch_settled (channel w' (channel_id w d)) = ch_settled ?st"
    by auto
  moreover have "channel_effect d ?st' w (put_channel (channel_id w d) ?st' w)"
    by (rule effect_put) (simp add: outstanding_def)
  ultimately show "does d w w'"
    using effect_none effect_logs channel_step.unchanged channel_step.requested unfolding does_def by metis
  show "channel_exists ?st"
    using assms unfolding request_close_def by (auto simp: runs load_run split: if_splits)
qed

lemma pay_payee_run: "pay_payee t d st v w = Inr (x, w') \<Longrightarrow> outflow t v w w'"
  using transfer_out reserve_transfer_out
  by (auto simp: pay_payee_def runs only_if_def void_def rbind_eq_Inr [of "transfer _ _ _ _"] split: if_splits)

lemma refund_payer_run: "refund_payer t d v w = Inr (x, w') \<Longrightarrow> outflow t v w w'"
  using transfer_out reserve_transfer_out
  by (auto simp: refund_payer_def runs only_if_def void_def rbind_eq_Inr [of "transfer _ _ _ _"] split: if_splits)

lemma refund_rest_run: "refund_rest d v w = Inr (x, w') \<Longrightarrow> outflow (cd_token d) v w w'"
  using refund_payer_run by (auto simp: refund_rest_def runs only_if_def from_address_run split: if_splits)

lemma close_cases:
  assumes "close_channel s d c capture sig w = Inr (x, w')"
  defines "st \<equiv> channel w (channel_id w d)"
  shows "channel_exists st" "ch_settled st \<le> capture" "capture \<le> ch_deposit st" "capture \<le> c"
    "ch_settled st < capture \<Longrightarrow> validate_voucher w d (channel_id w d) c sig = Inr ()"
    "(\<exists>w1 w2 l. pay_payee (cd_token d) d st (capture - ch_settled st) w = Inr ((), w1)
          \<and> refund_payer (cd_token d) d (ch_deposit st - capture) w1 = Inr ((), w2)
          \<and> w' = (put_channel (channel_id w d) no_channel w2)\<lparr>logs := l\<rparr>)
      \<or> (\<exists>w1 w2 l. pay_payee (cd_token d) d st (capture - ch_settled st) (put_channel (channel_id w d) no_channel w) = Inr ((), w1)
          \<and> refund_payer (cd_token d) d (ch_deposit st - capture) w1 = Inr ((), w2) \<and> w' = w2\<lparr>logs := l\<rparr>)"
  using assms unfolding close_channel_def Let_def
  by (auto simp: runs load_run from_address_run only_if_def split: if_splits)

lemma close_run:
  assumes run: "close_channel s d c capture sig w = Inr (x, w')"
  shows "does d w w'" "channel w' (channel_id w d) = no_channel"
proof -
  let ?i = "channel_id w d" and ?t = "cd_token d"
  let ?st = "channel w ?i"
  let ?v = "capture - ch_settled ?st" and ?r = "ch_deposit ?st - capture"
  note between = close_cases(2,3) [OF run] and w' = close_cases(6) [OF run]
  have signed: "ch_settled ?st < capture \<Longrightarrow> \<exists>amount\<ge>capture. voucher_signed w d amount"
    using voucher_run [OF close_cases(5) [OF run]] close_cases(4) [OF run] by blast
  have out: "outstanding no_channel + (?v + ?r) \<le> outstanding ?st"
    using between by (simp add: outstanding_def no_channel_def)
  have effect: "channel_effect d no_channel w w'"
    using w'
  proof (elim disjE exE conjE)
    fix w1 w2 l assume "pay_payee ?t d ?st ?v w = Inr ((), w1)" "refund_payer ?t d ?r w1 = Inr ((), w2)"
      and w': "w' = (put_channel ?i no_channel w2)\<lparr>logs := l\<rparr>"
    then show ?thesis
      using effect_logs effect_last [OF outflow_trans [OF pay_payee_run refund_payer_run] out] by simp
  next
    fix w1 w2 l assume "pay_payee ?t d ?st ?v (put_channel ?i no_channel w) = Inr ((), w1)" "refund_payer ?t d ?r w1 = Inr ((), w2)"
      and w': "w' = w2\<lparr>logs := l\<rparr>"
    then show ?thesis
      using effect_logs effect_first [OF outflow_trans [OF pay_payee_run refund_payer_run] out] by simp
  qed
  moreover have "channel_step w d ?st no_channel"
    using between signed by (rule channel_step.closed)
  ultimately show "does d w w'"
    unfolding does_def by blast
  show "channel w' ?i = no_channel"
    using effect by (simp add: channel_effect_def)
qed

lemma withdraw_cases:
  assumes "withdraw_channel s d w = Inr (x, w')"
  defines "st \<equiv> channel w (channel_id w d)"
  shows "channel_exists st" "s = cd_payer d"
    "\<exists>requested. close_requested_at st = Some requested \<and> requested + CLOSE_GRACE_PERIOD \<le> now64 w"
    "(\<exists>w1 l. refund_rest d (ch_deposit st - ch_settled st) w = Inr ((), w1) \<and> w' = (put_channel (channel_id w d) no_channel w1)\<lparr>logs := l\<rparr>)
      \<or> (\<exists>w1 l. refund_rest d (ch_deposit st - ch_settled st) (put_channel (channel_id w d) no_channel w) = Inr ((), w1) \<and> w' = w1\<lparr>logs := l\<rparr>)"
  using assms unfolding withdraw_channel_def
  by (auto simp: runs load_run split: option.splits if_splits)

lemma withdraw_run:
  assumes run: "withdraw_channel s d w = Inr (x, w')"
  shows "does d w w'" "channel w' (channel_id w d) = no_channel"
proof -
  let ?st = "channel w (channel_id w d)"
  have out: "outstanding no_channel + (ch_deposit ?st - ch_settled ?st) \<le> outstanding ?st"
    by (simp add: outstanding_def no_channel_def)
  have effect: "channel_effect d no_channel w w'"
    using withdraw_cases(4) [OF run] effect_logs effect_last [OF refund_rest_run out] effect_first [OF refund_rest_run out] by blast
  obtain requested where "close_requested_at ?st = Some requested" "requested + CLOSE_GRACE_PERIOD \<le> now64 w"
    using withdraw_cases(3) [OF run] by blast
  then show "does d w w'"
    using channel_step.withdrawn [of ?st requested w d] effect unfolding does_def by blast
  show "channel w' (channel_id w d) = no_channel"
    using effect by (simp add: channel_effect_def)
qed

lemma dispatch_does:
  assumes "reserve_dispatch s c w = Inr (x, w')" "s \<noteq> RESERVE" "accepts w" "typed_call c"
  shows "does (call_descriptor s c w) w w'"
  using assms open_run(1) settle_run(1) top_up_run close_run(1) request_close_run(1) withdraw_run(1)
  by (cases c) (auto simp: void_def rbind_eq_Inr)

end
