(* ===== verification/Channel_Safety.thy ===== *)
theory Channel_Safety
  imports Channel_Ledger
begin

text \<open>
  Properties of the channel reserve over all histories. A history interleaves the calls of the reserve with
  transaction boundaries and with the other calls of the token machine, of which none has the right to debit
  the reserve. The descriptors that a history uses are a finite set whose channel ids are distinct, which is
  what the code relies on of the hash function.
\<close>

section \<open>Histories\<close>

inductive reserve_move :: "channel_descriptor set \<Rightarrow> world \<Rightarrow> world \<Rightarrow> bool" for D where
  call: "reserve_dispatch s c w = Inr ((), w') \<Longrightarrow> s \<noteq> RESERVE \<Longrightarrow> typed_call c \<Longrightarrow> call_descriptor s c w \<in> D \<Longrightarrow> accepts w \<Longrightarrow>
    reserve_move D w w'"
| transaction: "begin_channel_transaction h w = Inr ((), w') \<Longrightarrow> reserve_move D w w'"
| system: "system_exec c w = Inr ((), w') \<Longrightarrow> (\<And>t. \<not> debit_right w c t RESERVE) \<Longrightarrow> timestamp w \<le> timestamp w' \<Longrightarrow>
    reserve_move D w w'"

abbreviation history :: "channel_descriptor set \<Rightarrow> world \<Rightarrow> world \<Rightarrow> bool" where
  "history D \<equiv> (reserve_move D)\<^sup>*\<^sup>*"

text \<open>What stays the same in a history: the hash and signature functions and the chain.\<close>

definition fixed_functions where
  "fixed_functions w = (keccak256 w, chain_id w, recover_primitive w)"

lemma fixed_fields:
  assumes "fixed_functions w' = fixed_functions w"
  shows "channel_id w' = channel_id w" "voucher_signed w' = voucher_signed w"
  using assms by (auto simp: fixed_functions_def channel_id_def voucher_signed_def get_voucher_digest_def
      reserve_domain_separator_def fun_eq_iff)

lemma does_fixed: "does d w w' \<Longrightarrow> fixed_functions w' = fixed_functions w \<and> timestamp w' = timestamp w"
  by (auto simp: does_def channel_effect_def environment_def fixed_functions_def)

lemma system_frame:
  assumes "system_exec c w = Inr (x, w')"
  shows "fixed_functions w' = fixed_functions w" "channel_reserve w' = channel_reserve w"
proof -
  have "preserves (\<lambda>w. (fixed_functions w, channel_reserve w)) (system_exec c)"
    by (rule outer_exec) (simp_all add: outer_obs_def fixed_functions_def)
  then show "fixed_functions w' = fixed_functions w" "channel_reserve w' = channel_reserve w"
    using assms by (auto dest: preservesD)
qed

lemma transaction_run:
  "begin_channel_transaction h w = Inr (x, w') \<longleftrightarrow>
    w' = w\<lparr>channel_reserve := (channel_reserve w)\<lparr>opened_this_tx := \<lambda>_. False, channel_open_context_hash := h\<rparr>\<rparr>"
  by (auto simp: begin_channel_transaction_def set_channel_open_context_hash_def upd_reserve_def runs)

text \<open>One step of a history, seen from the channels: one channel makes a step, or none changes.\<close>

lemma event_cases:
  assumes "reserve_move D w w'"
  obtains (channel) d where "d \<in> D" "does d w w'"
    | (other) "channel_states (channel_reserve w') = channel_states (channel_reserve w)" "fixed_functions w' = fixed_functions w"
        "timestamp w \<le> timestamp w'" "\<And>t. bal w t RESERVE \<le> bal w' t RESERVE"
  using assms
proof cases
  case (call s c)
  then show ?thesis
    using dispatch_does channel by blast
next
  case (transaction h)
  then show ?thesis
    using other by (simp add: transaction_run fixed_functions_def)
next
  case (system c)
  then show ?thesis
    using other system_frame [OF system(1)] system_call_authority [OF system(1)] by (metis no_debit_def not_le)
qed

lemma event_fixed: "reserve_move D w w' \<Longrightarrow> fixed_functions w' = fixed_functions w \<and> timestamp w \<le> timestamp w'"
  by (erule event_cases) (auto dest: does_fixed)

lemma history_fixed: "history D w w' \<Longrightarrow> fixed_functions w' = fixed_functions w \<and> timestamp w \<le> timestamp w'"
  by (induction rule: rtranclp_induct) (auto dest!: event_fixed)

text \<open>An invariant of single channels that every step keeps holds in every history.\<close>

lemma channel_invariant:
  assumes step: "\<And>w w' d st. history D w0 w \<Longrightarrow> reserve_move D w w' \<Longrightarrow> d \<in> D \<Longrightarrow>
      channel_step w d (channel w (channel_id w0 d)) st \<Longrightarrow> P d (channel w (channel_id w0 d)) \<Longrightarrow> P d st"
    and inj: "inj_on (channel_id w0) D" and start: "\<forall>d\<in>D. P d (channel w0 (channel_id w0 d))"
    and hist: "history D w0 w"
  shows "\<forall>d\<in>D. P d (channel w (channel_id w0 d))"
  using hist
proof (induction rule: rtranclp_induct)
  case base
  then show ?case
    using start by blast
next
  case (step w w')
  have id: "channel_id w = channel_id w0"
    using history_fixed [OF step(1)] fixed_fields(1) by blast
  from step(2) show ?case
  proof (cases rule: event_cases)
    case (channel e)
    then obtain st where st: "channel_states (channel_reserve w') = (channel_states (channel_reserve w))(channel_id w0 e := st)"
      and cs: "channel_step w e (channel w (channel_id w0 e)) st"
      by (auto simp: does_def channel_effect_def id)
    show ?thesis
    proof
      fix d assume d: "d \<in> D"
      show "P d (channel w' (channel_id w0 d))"
        using st cs channel(1) d assms(1) [OF step(1,2) channel(1) cs] step(3) inj_onD [OF inj, of d e]
        by (cases "d = e") auto
    qed
  next
    case other
    then show ?thesis
      using step(3) by simp
  qed
qed

section \<open>Types\<close>

definition channel_typed :: "channel_state \<Rightarrow> bool" where
  "channel_typed st \<longleftrightarrow> ch_settled st \<le> ch_deposit st \<and> ch_deposit st < 2 ^ 96 \<and> ch_close_requested_at st < 2 ^ 32"

lemma now_u32_bound: "now_u32 w < 2 ^ 32"
  by (simp add: now_u32_def saturating_to_def umax_def)

lemma step_typed: "channel_step w d st st' \<Longrightarrow> channel_typed st \<Longrightarrow> channel_typed st'"
  by (erule channel_step.cases) (auto simp: channel_typed_def no_channel_def now_u32_bound [simplified])

text \<open>C31: the packed record of every channel is well typed in every history: the settled amount is at most the
  deposit, which fits 96 bits, and the time of the close request fits 32 bits. So the subtractions that the
  code expects to succeed do not fail.\<close>

theorem channel_states_typed:
  assumes "\<forall>i. channel_typed (channel w0 i)" "history D w0 w"
  shows "\<forall>i. channel_typed (channel w i)"
  using assms(2,1)
proof (induction rule: rtranclp_induct)
  case (step w w')
  from step(2) show ?case
  proof (cases rule: event_cases)
    case (channel d)
    then show ?thesis
      using step(3,4) step_typed by (auto simp: does_def channel_effect_def)
  qed (use step in simp)
qed

section \<open>The grace period\<close>

text \<open>C33: a payer withdraws alone only after the grace period. If at some point no close of a channel was
  requested, a withdrawal from this channel in any later state is made by its payer and comes at least 15 minutes
  after that point, for block times that fit the 32 bits of the record and whatever the other channels do. So the
  payee always has that time to settle.\<close>

theorem withdrawal_after_grace:
  assumes "inj_on (channel_id w0) D" "d \<in> D" "close_requested_at (channel w0 (channel_id w0 d)) = None"
    "history D w0 w" "timestamp w < 2 ^ 32" "withdraw_channel s d w = Inr ((), w')"
  shows "s = cd_payer d \<and> timestamp w0 + CLOSE_GRACE_PERIOD \<le> timestamp w"
proof -
  let ?P = "\<lambda>st. ch_close_requested_at st = 0 \<or> timestamp w0 \<le> ch_close_requested_at st"
  have fixed: "channel_id w = channel_id w0" "timestamp w0 \<le> timestamp w"
    using history_fixed [OF assms(4)] fixed_fields(1) by blast+
  have "?P st'" if "history D w0 w1" "channel_step w1 e st st'" "?P st" for e st st' w1
    using that(2,3) history_fixed [OF that(1)] fixed(2) assms(5)
    by cases (auto simp: no_channel_def now_u32_def saturating_to_def umax_def)
  then have "\<forall>e\<in>D. e = d \<longrightarrow> ?P (channel w (channel_id w0 e))"
    by (intro channel_invariant [where P = "\<lambda>e st. e = d \<longrightarrow> ?P st", OF _ assms(1) _ assms(4)])
      (use assms(3) in \<open>auto simp: close_requested_at_def split: if_splits\<close>)
  moreover obtain requested where "close_requested_at (channel w (channel_id w d)) = Some requested"
      "requested + CLOSE_GRACE_PERIOD \<le> now64 w"
    using withdraw_cases(3) [OF assms(6)] by blast
  ultimately show ?thesis
    using withdraw_cases(2) [OF assms(6)] assms(2) fixed(1)
    by (auto simp: close_requested_at_def now64_def saturating_to_def split: if_splits)
qed

section \<open>Solvency\<close>

definition owed :: "channel_descriptor set \<Rightarrow> world \<Rightarrow> address \<Rightarrow> nat" where
  "owed D w t = (\<Sum>d\<in>{d \<in> D. cd_token d = t}. outstanding (channel w (channel_id w d)))"

lemma owed_step:
  assumes D: "finite D" "inj_on (channel_id w) D" "d \<in> D" and does: "does d w w'" and "owed D w t \<le> bal w t RESERVE"
  shows "owed D w' t \<le> bal w' t RESERVE"
proof -
  let ?i = "channel_id w d"
  obtain st where st: "channel_states (channel_reserve w') = (channel_states (channel_reserve w))(?i := st)"
    and other: "\<And>u. u \<noteq> cd_token d \<Longrightarrow> tokens w' u = tokens w u"
    and b: "bal w (cd_token d) RESERVE + outstanding st \<le> bal w' (cd_token d) RESERVE + outstanding (channel w ?i)"
    using does unfolding does_def channel_effect_def touches_def by blast
  have id: "channel_id w' = channel_id w"
    using fixed_fields(1) does_fixed [OF does] by blast
  have same: "channel w' (channel_id w e) = channel w (channel_id w e)" if "e \<in> D" "e \<noteq> d" for e
    using that inj_onD [OF D(2), of e d] D(3) st by auto
  show ?thesis
  proof (cases "cd_token d = t")
    case False
    have "owed D w' t = owed D w t"
      unfolding owed_def id
    proof (rule sum.cong [OF refl])
      fix e assume "e \<in> {d \<in> D. cd_token d = t}"
      then have "e \<in> D" "e \<noteq> d"
        using False by auto
      then show "outstanding (channel w' (channel_id w e)) = outstanding (channel w (channel_id w e))"
        by (simp add: same)
    qed
    then show ?thesis
      using False assms(5) other by simp
  next
    case True
    let ?E = "{e \<in> D. cd_token e = t}"
    have "owed D w t = outstanding (channel w ?i) + (\<Sum>e\<in>?E - {d}. outstanding (channel w (channel_id w e)))"
      unfolding owed_def using D True by (intro sum.remove) auto
    moreover have "owed D w' t = outstanding st + (\<Sum>e\<in>?E - {d}. outstanding (channel w' (channel_id w e)))"
      unfolding owed_def id using D True st by (subst sum.remove [of _ d]) auto
    moreover have "(\<Sum>e\<in>?E - {d}. outstanding (channel w' (channel_id w e))) = (\<Sum>e\<in>?E - {d}. outstanding (channel w (channel_id w e)))"
      by (intro sum.cong) (auto simp: same)
    ultimately show ?thesis
      using b True assms(5) by simp
  qed
qed

text \<open>C34: the reserve is solvent: of every token it always holds at least what its channels together still owe to
  their payees and payers, whatever calls are made, as long as no other contract has the right to debit it.\<close>

theorem reserve_solvent:
  assumes "finite D" "inj_on (channel_id w0) D" "\<forall>t. owed D w0 t \<le> bal w0 t RESERVE" "history D w0 w"
  shows "\<forall>t. owed D w t \<le> bal w t RESERVE"
  using assms(4)
proof (induction rule: rtranclp_induct)
  case base
  then show ?case
    using assms(3) by blast
next
  case (step w w')
  have id: "channel_id w = channel_id w0"
    using history_fixed [OF step(1)] fixed_fields(1) by blast
  from step(2) show ?case
  proof (cases rule: event_cases)
    case (channel d)
    then show ?thesis
      using owed_step [OF assms(1), of w d w'] assms(2) step(3) by (simp add: id)
  next
    case other
    have "channel_id w' = channel_id w"
      using other(2) by (rule fixed_fields(1))
    then have "owed D w' t = owed D w t" for t
      by (simp add: owed_def other(1))
    then show ?thesis
      using other(4) step(3) by (simp add: order_trans [OF _ other(4)])
  qed
qed

section \<open>Sample histories\<close>

definition sample_channel :: channel_descriptor where
  "sample_channel = open_descriptor 0x111 0x222 0 sample_token_address 0 0 5"

text \<open>A channel with a deposit of 30 units, in a state where every signature is by the payer.\<close>

definition sample_channel_world :: world where
  "sample_channel_world = (sample_token_world T12)\<lparr>recover_primitive := \<lambda>_ _. Some 0x111,
     tokens := (\<lambda>_. empty_token)(sample_token_address := sample_token\<lparr>balances := (\<lambda>_. 0)(0x111 := 70, RESERVE := 30)\<rparr>),
     channel_reserve := empty_reserve\<lparr>channel_states := (\<lambda>_. no_channel)(0 := no_channel\<lparr>ch_deposit := 30\<rparr>),
       channel_open_context_hash := 5\<rparr>\<rparr>"

lemma sample_channel_sel [simp]:
  "cd_payer sample_channel = 0x111" "cd_payee sample_channel = 0x222" "cd_operator sample_channel = 0"
  "cd_token sample_channel = sample_token_address" "cd_authorized_signer sample_channel = 0"
  by (simp_all add: sample_channel_def open_descriptor_def)

lemma sample_channel_world_sel [simp]:
  "spec sample_channel_world = T12" "recover_primitive sample_channel_world = (\<lambda>_ _. Some 0x111)"
  "keychain sample_channel_world = empty_keychain" "registry sample_channel_world = empty_registry"
  "tokens sample_channel_world = (\<lambda>_. empty_token)(sample_token_address := sample_token\<lparr>balances := (\<lambda>_. 0)(0x111 := 70, RESERVE := 30)\<rparr>)"
  "channel_states (channel_reserve sample_channel_world) = (\<lambda>_. no_channel)(0 := no_channel\<lparr>ch_deposit := 30\<rparr>)"
  "timestamp sample_channel_world = 1000" "keccak256 sample_channel_world = (\<lambda>_. 0)" "config_commitment sample_channel_world = (\<lambda>_. 0)"
  "has_code sample_channel_world = (\<lambda>a. a = sample_token_address)"
  by (simp_all add: sample_channel_world_def sample_token_world_def empty_world_def)

lemma sample_channel_id [simp]: "channel_id sample_channel_world d = 0"
  by (simp add: channel_id_def)

lemma sample_channel_supply: "supply_inv sample_channel_world"
proof -
  have "(\<Sum>a\<in>UNIV. ((\<lambda>_. 0)(0x111 := 70, RESERVE := 30)) a) = (100 :: nat)"
    using sum_upd [of "(\<lambda>_. 0)(0x111 := 70)" RESERVE 30] sum_upd [of "\<lambda>_. 0" "0x111 :: address" 70]
    by (simp add: address_defs)
  then show ?thesis
    by (simp add: supply_inv_def supply_ok_def empty_token_def U128_MAX_def)
qed

lemma sample_payment:
  obtains w' where "channel_reserve_transfer sample_token_address RESERVE (direct 0x222) 10 p sample_channel_world = Inr ((), w')"
proof -
  have "\<exists>w'. channel_reserve_transfer sample_token_address RESERVE (direct 0x222) 10 p sample_channel_world = Inr ((), w')"
    by (simp add: channel_reserve_transfer_def check_not_paused_def validate_def is_tip20_prefix_def TIP20_TOKEN_PREFIX_def
        check_and_update_spending_limit_def authorize_transfer_def empty_keychain_def RECEIVE_POLICY_GUARD_ADDRESS_def
        ensure_receive_policy_authorized_def validate_receive_policy_def check_receive_policy_def empty_registry_def
        emit_hop_def build_virtual_transfer_event_def direct_def transfer_core_eq [OF _ sample_channel_supply] run_defs fork_order)
  then show ?thesis
    using that by blast
qed

lemma sample_settle:
  obtains w' where "reserve_dispatch 0x222 (SettleCall sample_channel 10 []) sample_channel_world = Inr ((), w')"
    "channel w' 0 = no_channel\<lparr>ch_deposit := 30, ch_settled := 10\<rparr>"
proof -
  let ?w = sample_channel_world
  obtain w1 where pay: "channel_reserve_transfer sample_token_address RESERVE (direct 0x222) 10 RESERVE ?w = Inr ((), w1)"
    by (rule sample_payment)
  have "surroundings w1 = surroundings ?w"
    using pay by (rule reserve_transfer_moves(3))
  moreover have "resolve ?w 0x222 = Inr (direct 0x222)"
    by (simp add: resolve_def resolve_recipient_def decode_virtual_def is_virtual_def VIRTUAL_MAGIC_def)
  moreover have "ensure_transfer_authorized ?w sample_token_address 0x111 (target (direct 0x222)) = Inr ()"
    by (simp add: ensure_transfer_authorized_def is_transfer_authorized_def is_authorized_as_def transfer_policy_id_def
        registered_token_transfer_policy_id_def empty_registry_def legacy_transfer_policy_id_def builtin_authorization_def ALLOW_ALL_POLICY_ID_def)
  ultimately show ?thesis
    using pay that
    by (simp add: settle_def load_existing_state_def channel_exists_def ensure_payee_or_operator_def validate_voucher_def
        expected_signer_def is_retired_root_def from_address_def write_channel_def upd_reserve_def receive_policy_sender_def
        surroundings_def emit_reserve_def run_defs fork_order no_channel_def)
qed

text \<open>A channel that has paid its whole deposit of 30, with a close request of its payer and a withdrawal 900 seconds
  later.\<close>

definition sample_paid_world :: "u32 \<Rightarrow> u256 \<Rightarrow> world" where
  "sample_paid_world requested time = sample_channel_world\<lparr>timestamp := time,
     channel_reserve := empty_reserve\<lparr>channel_states := (\<lambda>_. no_channel)(0 :=
       no_channel\<lparr>ch_settled := 30, ch_deposit := 30, ch_close_requested_at := requested\<rparr>)\<rparr>,
     logs := (if requested = 0 then [] else [(RESERVE, TIP20ChannelReserveEvent (CloseRequested 0 0x111 0x222 1900))])\<rparr>"

lemma sample_paid_sel [simp]:
  "spec (sample_paid_world r time) = T12" "timestamp (sample_paid_world r time) = time" "registry (sample_paid_world r time) = empty_registry"
  "channel_id (sample_paid_world r time) d = 0"
  "channel_states (channel_reserve (sample_paid_world r time)) = (\<lambda>_. no_channel)(0 :=
       no_channel\<lparr>ch_settled := 30, ch_deposit := 30, ch_close_requested_at := r\<rparr>)"
  by (simp_all add: sample_paid_world_def channel_id_def)

lemma sample_request:
  "reserve_dispatch 0x111 (RequestCloseCall sample_channel) (sample_paid_world 0 1000) = Inr ((), sample_paid_world 1000 1000)"
  by (simp add: request_close_def load_existing_state_def channel_exists_def close_requested_at_def now_u32_def now64_def
      saturating_to_def umax_def write_channel_def upd_reserve_def emit_reserve_def emit_event_def run_defs
      CLOSE_GRACE_PERIOD_def) (simp add: sample_paid_world_def empty_reserve_def no_channel_def)

lemma sample_wait:
  "system_exec (KeychainCall (NewTransaction 0 0 1900 T12)) (sample_paid_world 1000 1000) = Inr ((), sample_paid_world 1000 1900)"
  by (simp add: set_transaction_key_def set_tx_origin_def run_defs)
    (simp add: sample_paid_world_def sample_channel_world_def sample_token_world_def empty_world_def empty_keychain_def)

lemma sample_accepts: "accepts sample_channel_world"
  by (simp add: accepts_def empty_registry_def)

lemma sample_settle_move:
  obtains w' where "history {sample_channel} sample_channel_world w'" "channel w' 0 = no_channel\<lparr>ch_deposit := 30, ch_settled := 10\<rparr>"
proof -
  obtain w' where run: "reserve_dispatch 0x222 (SettleCall sample_channel 10 []) sample_channel_world = Inr ((), w')"
    and c: "channel w' 0 = no_channel\<lparr>ch_deposit := 30, ch_settled := 10\<rparr>"
    by (rule sample_settle)
  have "reserve_move {sample_channel} sample_channel_world w'"
    using run by (rule call) (simp_all add: sample_accepts address_defs)
  then show ?thesis
    using that c by blast
qed

theorem channel_states_typed_witness:
  "\<exists>w'. history {sample_channel} sample_channel_world w' \<and> ch_settled (channel w' 0) = 10 \<and> channel_typed (channel w' 0)"
proof -
  obtain w' where w': "history {sample_channel} sample_channel_world w'" "channel w' 0 = no_channel\<lparr>ch_deposit := 30, ch_settled := 10\<rparr>"
    by (rule sample_settle_move)
  have "\<forall>i. channel_typed (channel sample_channel_world i)"
    by (simp add: channel_typed_def no_channel_def)
  then show ?thesis
    using channel_states_typed [OF _ w'(1)] w' by auto
qed

lemma owed_single: "owed {d} w t = (if cd_token d = t then outstanding (channel w (channel_id w d)) else 0)"
proof -
  have "{e \<in> {d}. cd_token e = t} = (if cd_token d = t then {d} else {})"
    by auto
  then show ?thesis
    unfolding owed_def by simp
qed

theorem reserve_solvent_witness:
  "\<exists>w'. history {sample_channel} sample_channel_world w' \<and> owed {sample_channel} w' sample_token_address = 20
    \<and> 20 \<le> bal w' sample_token_address RESERVE"
proof -
  obtain w' where w': "history {sample_channel} sample_channel_world w'" "channel w' 0 = no_channel\<lparr>ch_deposit := 30, ch_settled := 10\<rparr>"
    by (rule sample_settle_move)
  have "\<forall>t. owed {sample_channel} sample_channel_world t \<le> bal sample_channel_world t RESERVE"
    by (simp add: owed_single outstanding_def no_channel_def)
  moreover have "owed {sample_channel} w' sample_token_address = 20"
    using w'(2) fixed_fields(1) [of w' sample_channel_world] history_fixed [OF w'(1)]
    by (simp add: owed_single outstanding_def no_channel_def)
  moreover from calculation(1) have "\<forall>t. owed {sample_channel} w' t \<le> bal w' t RESERVE"
    by (intro reserve_solvent [OF _ _ _ w'(1)]) simp_all
  ultimately show ?thesis
    using w'(1) by metis
qed

theorem withdrawal_after_grace_witness:
  "\<exists>w'. history {sample_channel} (sample_paid_world 0 1000) (sample_paid_world 1000 1900)
    \<and> withdraw_channel 0x111 sample_channel (sample_paid_world 1000 1900) = Inr ((), w') \<and> 1000 + CLOSE_GRACE_PERIOD \<le> 1900"
proof -
  have "reserve_move {sample_channel} (sample_paid_world 0 1000) (sample_paid_world 1000 1000)"
    using sample_request by (rule call) (simp_all add: address_defs accepts_def empty_registry_def)
  moreover have "reserve_move {sample_channel} (sample_paid_world 1000 1000) (sample_paid_world 1000 1900)"
    using sample_wait by (rule system) simp_all
  ultimately have h: "history {sample_channel} (sample_paid_world 0 1000) (sample_paid_world 1000 1900)"
    by (meson converse_rtranclp_into_rtranclp r_into_rtranclp)
  obtain w' where "withdraw_channel 0x111 sample_channel (sample_paid_world 1000 1900) = Inr ((), w')"
    by (simp add: withdraw_channel_def load_existing_state_def channel_exists_def close_requested_at_def now64_def saturating_to_def
        umax_def CLOSE_GRACE_PERIOD_def refund_rest_def write_channel_def upd_reserve_def emit_reserve_def emit_event_def
        checked_sub_def run_defs fork_order)
  then show ?thesis
    using withdrawal_after_grace [OF _ _ _ h, of sample_channel "0x111" w'] h by (auto simp: close_requested_at_def)
qed

end
