(* ===== verification/Channel_Payments.thy ===== *)
theory Channel_Payments
  imports Channel_Safety
begin

text \<open>
  What the channels pay. The units that a call moves out of the reserve are read off the call and the record of its
  channel, and a ledger adds up, over a history, what each channel has paid to its payee since it was opened: by
  \<open>settle\<close> and by \<open>close\<close>, which deletes the record. Every unit in it is covered by a voucher that a successful call
  presented.
\<close>

section \<open>The units that a call moves\<close>

text \<open>What a call pays to the payee, and what it gives back to the payer.\<close>

fun paid_by :: "reserve_call \<Rightarrow> channel_state \<Rightarrow> nat" where
  "paid_by (SettleCall d cumulative sig) st = cumulative - ch_settled st"
| "paid_by (CloseCall d cumulative capture sig) st = capture - ch_settled st"
| "paid_by _ st = 0"

fun refunded_by :: "reserve_call \<Rightarrow> channel_state \<Rightarrow> nat" where
  "refunded_by (CloseCall d cumulative capture sig) st = ch_deposit st - capture"
| "refunded_by (WithdrawChannelCall d) st = ch_deposit st - ch_settled st"
| "refunded_by _ st = 0"

text \<open>The voucher that a call presents: its channel, its amount and its signature.\<close>

fun presented :: "reserve_call \<Rightarrow> (channel_descriptor \<times> u96 \<times> string) option" where
  "presented (SettleCall d cumulative sig) = Some (d, cumulative, sig)"
| "presented (CloseCall d cumulative capture sig) = Some (d, cumulative, sig)"
| "presented _ = None"

text \<open>Where a payment to an address arrives: at the resolved address. Before T12 the payments are plain transfers,
  which the receive policy of the recipient may redirect to the guard.\<close>

definition arrives :: "world \<Rightarrow> address \<Rightarrow> address \<Rightarrow> bool" where
  "arrives w to a \<longleftrightarrow> (\<exists>r. resolve w to = Inr r \<and> (a = target r \<or> \<not> T12 \<le> spec w \<and> a = RECEIVE_POLICY_GUARD_ADDRESS))"

definition payout :: "address \<Rightarrow> address \<Rightarrow> nat \<Rightarrow> world \<Rightarrow> world \<Rightarrow> bool" where
  "payout t to v w w' \<longleftrightarrow>
    (\<exists>a. balances (tokens w' t) = moved (balances (tokens w t)) RESERVE a v \<and> (0 < v \<longrightarrow> arrives w to a))"

text \<open>A call that pays: the balances of the token change by exactly two moves out of the reserve, and no other token
  changes.\<close>

definition moves_out :: "channel_descriptor \<Rightarrow> nat \<Rightarrow> nat \<Rightarrow> world \<Rightarrow> world \<Rightarrow> bool" where
  "moves_out d v r w w' \<longleftrightarrow> touches (cd_token d) w w' \<and>
    (\<exists>a b. balances (tokens w' (cd_token d)) = moved (moved (balances (tokens w (cd_token d))) RESERVE a v) RESERVE b r
      \<and> (0 < v \<longrightarrow> arrives w (cd_payee d) a) \<and> (0 < r \<longrightarrow> arrives w (cd_payer d) b))"

lemma moved_zero [simp]: "moved b s a 0 = b"
  by (auto simp: moved_def debit_def credit_def)

lemma arrives_outer: "outer_obs arrives"
  by (simp add: outer_obs_def arrives_def resolve_def resolve_recipient_def get_master_def fun_eq_iff cong: option.case_cong)

lemma arrives_put [simp]: "arrives (put_channel i st w) = arrives w"
  by (simp add: put_channel_def arrives_def resolve_def resolve_recipient_def get_master_def fun_eq_iff cong: option.case_cong)

lemma transfer_payout: "transfer t RESERVE to v w = Inr (x, w') \<Longrightarrow> \<not> T12 \<le> spec w \<Longrightarrow> payout t to v w w' \<and> arrives w' = arrives w"
  using transfer_moves [of t RESERVE to v w x w'] preservesD [OF plain_transfer [OF outer_plain [OF arrives_outer]], of t RESERVE to v w x w']
  by (auto simp: payout_def arrives_def landing_def split: if_splits)

lemma reserve_transfer_payout:
  "channel_reserve_transfer t RESERVE r v s w = Inr (x, w') \<Longrightarrow> resolve w to = Inr r \<Longrightarrow> payout t to v w w' \<and> arrives w' = arrives w"
  using reserve_transfer_moves(1) [of t RESERVE r v s w x w']
    preservesD [OF plain_payments(2) [OF outer_plain [OF arrives_outer]], of t RESERVE r v s w x w']
  by (auto simp: payout_def arrives_def)

lemma payout_zero [simp]: "payout t to 0 w w"
  by (simp add: payout_def)

lemma pay_payee_payout: "pay_payee t d st v w = Inr (x, w') \<Longrightarrow> payout t (cd_payee d) v w w' \<and> arrives w' = arrives w"
  using transfer_payout [of t "cd_payee d" v w] reserve_transfer_payout
  by (fastforce simp: pay_payee_def runs only_if_def void_def rbind_eq_Inr [of "transfer _ _ _ _"] split: if_splits)

lemma refund_payer_payout: "refund_payer t d v w = Inr (x, w') \<Longrightarrow> payout t (cd_payer d) v w w' \<and> arrives w' = arrives w"
  using transfer_payout [of t "cd_payer d" v w] reserve_transfer_payout
  by (fastforce simp: refund_payer_def runs only_if_def void_def rbind_eq_Inr [of "transfer _ _ _ _"] split: if_splits)

lemma refund_rest_payout: "refund_rest d v w = Inr (x, w') \<Longrightarrow> payout (cd_token d) (cd_payer d) v w w'"
  using refund_payer_payout by (auto simp: refund_rest_def runs only_if_def from_address_run split: if_splits)

lemma moves_outI:
  assumes "does d w w'" "payout (cd_token d) (cd_payee d) v w1 w2" "arrives w2 = arrives w" "payout (cd_token d) (cd_payer d) r w2 w3"
    "arrives w1 = arrives w" "tokens w1 = tokens w" "tokens w' = tokens w3"
  shows "moves_out d v r w w'"
proof -
  obtain a where "balances (tokens w2 (cd_token d)) = moved (balances (tokens w (cd_token d))) RESERVE a v" "0 < v \<longrightarrow> arrives w (cd_payee d) a"
    using assms(2,5,6) unfolding payout_def by auto
  moreover obtain b where "balances (tokens w' (cd_token d)) = moved (balances (tokens w2 (cd_token d))) RESERVE b r"
      "0 < r \<longrightarrow> arrives w (cd_payer d) b"
    using assms(3,4,7) unfolding payout_def by auto
  moreover have "touches (cd_token d) w w'"
    using assms(1) by (auto simp: does_def channel_effect_def)
  ultimately show ?thesis
    unfolding moves_out_def by metis
qed

lemma settle_moves:
  assumes run: "settle s d c sig w = Inr (x, w')"
  shows "moves_out d (c - ch_settled (channel w (channel_id w d))) 0 w w'"
proof -
  let ?v = "c - ch_settled (channel w (channel_id w d))" and ?st = "(channel w (channel_id w d))\<lparr>ch_settled := c\<rparr>"
  let ?t = "cd_token d"
  have "\<exists>w1 w2. payout ?t (cd_payee d) ?v w1 w2 \<and> arrives w2 = arrives w \<and> arrives w1 = arrives w \<and> tokens w1 = tokens w
      \<and> tokens w' = tokens w2"
    using settle_cases(5) [OF run]
  proof (elim disjE exE conjE)
    fix r p w1 l assume "resolve w (cd_payee d) = Inr r" "channel_reserve_transfer ?t RESERVE r ?v p w = Inr ((), w1)"
      and w': "w' = (put_channel (channel_id w d) ?st w1)\<lparr>logs := l\<rparr>"
    then have "payout ?t (cd_payee d) ?v w w1 \<and> arrives w1 = arrives w"
      using reserve_transfer_payout by blast
    then show ?thesis
      using w' by (intro exI [of _ w] exI [of _ w1]) simp
  next
    fix x w1 l assume "\<not> T12 \<le> spec w" "transfer ?t RESERVE (cd_payee d) ?v (put_channel (channel_id w d) ?st w) = Inr (x, w1)"
      and w': "w' = w1\<lparr>logs := l\<rparr>"
    then have "payout ?t (cd_payee d) ?v (put_channel (channel_id w d) ?st w) w1 \<and> arrives w1 = arrives w"
      using transfer_payout [of ?t "cd_payee d" ?v "put_channel (channel_id w d) ?st w" x w1] by simp
    then show ?thesis
      using w' by (intro exI [of _ "put_channel (channel_id w d) ?st w"] exI [of _ w1]) simp
  qed
  then show ?thesis
    using moves_outI [OF settle_run(1) [OF run]] payout_zero by blast
qed

lemma close_moves:
  assumes run: "close_channel s d c capture sig w = Inr (x, w')"
  shows "moves_out d (capture - ch_settled (channel w (channel_id w d))) (ch_deposit (channel w (channel_id w d)) - capture) w w'"
proof -
  let ?st = "channel w (channel_id w d)" and ?t = "cd_token d"
  obtain w1 w2 w3 where "pay_payee ?t d ?st (capture - ch_settled ?st) w1 = Inr ((), w2)"
      "refund_payer ?t d (ch_deposit ?st - capture) w2 = Inr ((), w3)" "arrives w1 = arrives w" "tokens w1 = tokens w" "tokens w' = tokens w3"
    using close_cases(6) [OF run]
  proof (elim disjE exE conjE)
    fix w1 w2 l assume "pay_payee ?t d ?st (capture - ch_settled ?st) w = Inr ((), w1)"
      "refund_payer ?t d (ch_deposit ?st - capture) w1 = Inr ((), w2)" "w' = (put_channel (channel_id w d) no_channel w2)\<lparr>logs := l\<rparr>"
    then show thesis
      by (intro that [of w w1 w2]) simp_all
  next
    fix w1 w2 l assume "pay_payee ?t d ?st (capture - ch_settled ?st) (put_channel (channel_id w d) no_channel w) = Inr ((), w1)"
      "refund_payer ?t d (ch_deposit ?st - capture) w1 = Inr ((), w2)" "w' = w2\<lparr>logs := l\<rparr>"
    then show thesis
      by (intro that [of "put_channel (channel_id w d) no_channel w" w1 w2]) simp_all
  qed
  then show ?thesis
    using moves_outI [OF close_run(1) [OF run]] pay_payee_payout refund_payer_payout by metis
qed

lemma withdraw_moves:
  assumes run: "withdraw_channel s d w = Inr (x, w')"
  shows "moves_out d 0 (ch_deposit (channel w (channel_id w d)) - ch_settled (channel w (channel_id w d))) w w'"
proof -
  let ?st = "channel w (channel_id w d)"
  obtain w1 w2 where "refund_rest d (ch_deposit ?st - ch_settled ?st) w1 = Inr ((), w2)"
      "arrives w1 = arrives w" "tokens w1 = tokens w" "tokens w' = tokens w2"
    using withdraw_cases(4) [OF run]
  proof (elim disjE exE conjE)
    fix w1 l assume "refund_rest d (ch_deposit ?st - ch_settled ?st) w = Inr ((), w1)"
      "w' = (put_channel (channel_id w d) no_channel w1)\<lparr>logs := l\<rparr>"
    then show thesis
      by (intro that [of w w1]) simp_all
  next
    fix w1 l assume "refund_rest d (ch_deposit ?st - ch_settled ?st) (put_channel (channel_id w d) no_channel w) = Inr ((), w1)"
      "w' = w1\<lparr>logs := l\<rparr>"
    then show thesis
      by (intro that [of "put_channel (channel_id w d) no_channel w" w1]) simp_all
  qed
  then show ?thesis
    using moves_outI [OF withdraw_run(1) [OF run] payout_zero] refund_rest_payout by metis
qed

text \<open>The calls that open a channel, add to its deposit or request its close take nothing out of the reserve.\<close>

lemma inflow_keeps: "inflow t v w w' \<Longrightarrow> bal w u RESERVE \<le> bal w' u RESERVE"
  by (cases "u = t") (auto simp: inflow_def touches_def)

lemma open_keeps:
  "open_channel s payee operator token deposit salt signer w = Inr (i, w') \<Longrightarrow> s \<noteq> RESERVE \<Longrightarrow> accepts w \<Longrightarrow> bal w u RESERVE \<le> bal w' u RESERVE"
  unfolding open_channel_def Let_def
  by (auto simp: runs from_address_run context_run upd_reserve_def split: if_splits dest!: pull_deposit_run inflow_keeps [where u = u])

lemma top_up_keeps:
  "top_up s d v w = Inr (x, w') \<Longrightarrow> s \<noteq> RESERVE \<Longrightarrow> accepts w \<Longrightarrow> bal w u RESERVE \<le> bal w' u RESERVE"
  unfolding top_up_def Let_def
  by (auto simp: runs load_run from_address_run split: if_splits dest!: pull_deposit_run inflow_keeps [where u = u])

lemma request_close_keeps: "request_close s d w = Inr (x, w') \<Longrightarrow> tokens w' = tokens w"
  unfolding request_close_def by (auto simp: runs split: if_splits)

text \<open>The calls that pay, and what every call moves.\<close>

fun spends :: "reserve_call \<Rightarrow> bool" where
  "spends (SettleCall d cumulative sig) = True"
| "spends (CloseCall d cumulative capture sig) = True"
| "spends (WithdrawChannelCall d) = True"
| "spends _ = False"

definition moves_exactly :: "reserve_call \<Rightarrow> channel_descriptor \<Rightarrow> world \<Rightarrow> world \<Rightarrow> bool" where
  "moves_exactly c d w w' \<longleftrightarrow>
    (if spends c then moves_out d (paid_by c (channel w (channel_id w d))) (refunded_by c (channel w (channel_id w d))) w w'
     else \<forall>t. bal w t RESERVE \<le> bal w' t RESERVE)"

lemma dispatch_moves:
  assumes "reserve_dispatch s c w = Inr (x, w')" "s \<noteq> RESERVE" "accepts w"
  shows "moves_exactly c (call_descriptor s c w) w w'"
proof (cases c)
  case (OpenCall payee operator token deposit salt signer)
  then show ?thesis
    using assms open_keeps by (auto simp: moves_exactly_def void_def rbind_eq_Inr)
next
  case (SettleCall d cumulative sig)
  then show ?thesis
    using assms settle_moves by (simp add: moves_exactly_def)
next
  case (TopUpCall d additional)
  then show ?thesis
    using assms top_up_keeps by (simp add: moves_exactly_def)
next
  case (CloseCall d cumulative capture sig)
  then show ?thesis
    using assms close_moves by (simp add: moves_exactly_def)
next
  case (RequestCloseCall d)
  then show ?thesis
    using assms request_close_keeps [of s d w x w'] by (simp add: moves_exactly_def)
next
  case (WithdrawChannelCall d)
  then show ?thesis
    using assms withdraw_moves by (simp add: moves_exactly_def)
qed

section \<open>The record after a call\<close>

definition covers :: "world \<Rightarrow> channel_descriptor \<Rightarrow> reserve_call \<Rightarrow> nat \<Rightarrow> bool" where
  "covers w d c v \<longleftrightarrow> (\<exists>amount sig. presented c = Some (d, amount, sig) \<and> v \<le> amount
    \<and> recover_primitive w (get_voucher_digest w (channel_id w d) amount) sig = Some (expected_signer d))"

lemma voucher_covers:
  "validate_voucher w d (channel_id w d) amount sig = Inr u \<Longrightarrow> presented c = Some (d, amount, sig) \<Longrightarrow> v \<le> amount \<Longrightarrow> covers w d c v"
  by (auto simp: validate_voucher_def covers_def runs split: if_splits)

lemma dispatch_record:
  assumes "reserve_dispatch s c w = Inr (x, w')" "s \<noteq> RESERVE" "accepts w" "typed_call c"
  defines "d \<equiv> call_descriptor s c w"
  defines "st \<equiv> channel w (channel_id w d)" and "st' \<equiv> channel w' (channel_id w d)"
  shows "channel_exists st' \<Longrightarrow> ch_settled st' = (if channel_exists st then ch_settled st else 0) + paid_by c st"
    and "0 < paid_by c st \<Longrightarrow> channel_exists st \<and> covers w d c (ch_settled st + paid_by c st)"
proof -
  show "ch_settled st' = (if channel_exists st then ch_settled st else 0) + paid_by c st" if "channel_exists st'"
  proof (cases c)
    case (OpenCall payee operator token deposit salt signer)
    then show ?thesis
      using assms open_run(2,3) by (auto simp: void_def rbind_eq_Inr)
  next
    case (SettleCall e cumulative sig)
    then show ?thesis
      using assms settle_run(2) [of s e cumulative sig w x w'] settle_cases(1,2) [of s e cumulative sig w x w'] by simp
  next
    case (TopUpCall e additional)
    then show ?thesis
      using assms top_up_run [of s e additional w x w'] top_up_exists [of s e additional w x w'] by simp
  next
    case (CloseCall e cumulative capture sig)
    then show ?thesis
      using assms close_run(2) [of s e cumulative capture sig w x w'] that by (simp add: channel_exists_def no_channel_def)
  next
    case (RequestCloseCall e)
    then show ?thesis
      using assms request_close_run(2,3) [of s e w x w'] by simp
  next
    case (WithdrawChannelCall e)
    then show ?thesis
      using assms withdraw_run(2) [of s e w x w'] that by (simp add: channel_exists_def no_channel_def)
  qed
  show "channel_exists st \<and> covers w d c (ch_settled st + paid_by c st)" if "0 < paid_by c st"
  proof (cases c)
    case (SettleCall e cumulative sig)
    then show ?thesis
      using assms settle_cases(1,2) [of s e cumulative sig w x w'] voucher_covers [OF settle_cases(4) [of s e cumulative sig w x w']] by simp
  next
    case (CloseCall e cumulative capture sig)
    then have run: "close_channel s e cumulative capture sig w = Inr ((), w')" and e: "d = e"
      using assms by simp_all
    have "validate_voucher w e (channel_id w e) cumulative sig = Inr ()"
      using that CloseCall e by (intro close_cases(5) [OF run]) (simp add: st_def)
    then show ?thesis
      using that CloseCall e close_cases(1,4) [OF run] by (auto simp: st_def intro: voucher_covers)
  qed (use that in simp_all)
qed

section \<open>The ledger of payments\<close>

text \<open>A history with its ledger: what each channel has paid since it was opened, and the calls that succeeded.\<close>

inductive payments :: "channel_descriptor set \<Rightarrow> world \<Rightarrow> (channel_descriptor \<Rightarrow> nat) \<Rightarrow> (address \<times> reserve_call) list \<Rightarrow> world \<Rightarrow> bool"
  for D w0 where
  start: "payments D w0 (\<lambda>_. 0) [] w0"
| called: "payments D w0 p calls w \<Longrightarrow> reserve_dispatch s c w = Inr ((), w') \<Longrightarrow> s \<noteq> RESERVE \<Longrightarrow> typed_call c \<Longrightarrow>
    d = call_descriptor s c w \<Longrightarrow> d \<in> D \<Longrightarrow> accepts w \<Longrightarrow> st = channel w (channel_id w d) \<Longrightarrow>
    payments D w0 (p(d := (if channel_exists st then p d else 0) + paid_by c st)) (calls @ [(s, c)]) w'"
| next_transaction: "payments D w0 p calls w \<Longrightarrow> begin_channel_transaction h w = Inr ((), w') \<Longrightarrow> payments D w0 p calls w'"
| elsewhere: "payments D w0 p calls w \<Longrightarrow> system_exec c w = Inr ((), w') \<Longrightarrow> (\<And>t. \<not> debit_right w c t RESERVE) \<Longrightarrow>
    timestamp w \<le> timestamp w' \<Longrightarrow> payments D w0 p calls w'"

lemma payments_history: "payments D w0 p calls w \<Longrightarrow> history D w0 w"
  by (induction rule: payments.induct) (auto intro: reserve_move.intros rtranclp.rtrancl_into_rtrancl)

text \<open>Every history has a ledger.\<close>

lemma history_payments: "history D w0 w \<Longrightarrow> \<exists>p calls. payments D w0 p calls w"
proof (induction rule: rtranclp_induct)
  case (step w w')
  then obtain p calls where p: "payments D w0 p calls w"
    by blast
  from step(2) show ?case
    by cases (use p in \<open>blast intro: payments.intros\<close>)+
qed (blast intro: payments.start)

lemma payments_covered:
  assumes inj: "inj_on (channel_id w0) D" and new: "\<forall>d\<in>D. ch_settled (channel w0 (channel_id w0 d)) = 0"
    and "payments D w0 p calls w"
  shows "\<forall>d\<in>D. (channel_exists (channel w (channel_id w0 d)) \<longrightarrow> p d = ch_settled (channel w (channel_id w0 d)))
    \<and> (0 < p d \<longrightarrow> (\<exists>(s, c) \<in> set calls. covers w0 d c (p d)))"
  using assms(3)
proof (induction rule: payments.induct)
  case start
  then show ?case
    using new by simp
next
  case (called p calls w s c w' d st)
  have fixed: "fixed_functions w = fixed_functions w0"
    using history_fixed [OF payments_history [OF called(1)]] by blast
  then have id: "channel_id w = channel_id w0" and cov: "covers w = covers w0"
    using fixed_fields(1) by (auto simp: covers_def fun_eq_iff fixed_functions_def get_voucher_digest_def reserve_domain_separator_def channel_id_def)
  have st: "\<exists>st'. channel_states (channel_reserve w') = (channel_states (channel_reserve w))(channel_id w0 d := st')"
    using dispatch_does [OF called(2,3,7,4)] called(5) by (auto simp: does_def channel_effect_def id)
  note rec = dispatch_record [OF called(2,3,7,4), folded called(5), folded called(8), unfolded id cov]
  show ?case
  proof
    fix e assume e: "e \<in> D"
    show "(channel_exists (channel w' (channel_id w0 e)) \<longrightarrow>
          (p(d := (if channel_exists st then p d else 0) + paid_by c st)) e = ch_settled (channel w' (channel_id w0 e)))
      \<and> (0 < (p(d := (if channel_exists st then p d else 0) + paid_by c st)) e \<longrightarrow>
          (\<exists>(s', c') \<in> set (calls @ [(s, c)]). covers w0 e c' ((p(d := (if channel_exists st then p d else 0) + paid_by c st)) e)))"
    proof (cases "e = d")
      case True
      have "channel_exists st \<longrightarrow> p d = ch_settled st" and old: "0 < p d \<longrightarrow> (\<exists>(s, c) \<in> set calls. covers w0 d c (p d))"
        using called(9,6,8) by (auto simp: id)
      then show ?thesis
        using rec True by (cases "paid_by c st = 0") auto
    next
      case False
      then have "channel w' (channel_id w0 e) = channel w (channel_id w0 e)"
        using st inj_onD [OF inj, of e d] e called(6) by auto
      then show ?thesis
        using False called(9) e by auto
    qed
  qed
next
  case (next_transaction p calls w h w')
  then show ?case
    by (simp add: transaction_run)
next
  case (elsewhere p calls w c w')
  then show ?case
    using system_frame(2) [OF elsewhere(2)] by simp
qed

text \<open>C32: the reserve pays a payee only what vouchers cover. Over a history that starts with nothing settled, the
  ledger adds up what a channel has paid since it was opened, by \<open>settle\<close> and by \<open>close\<close>. If that is more than
  nothing, one of the successful calls presented a voucher for at least the whole sum with a signature of the signer of
  the channel (the authorized signer if one was set, else the payer). The settled amount of an open channel is the sum.
  And the ledger counts real units: a successful call of a channel moves exactly what is counted from the reserve to the
  payee and the refund to the payer, or takes nothing out of the reserve.\<close>

theorem payments_signed:
  assumes "inj_on (channel_id w0) D" "\<forall>d\<in>D. ch_settled (channel w0 (channel_id w0 d)) = 0" "payments D w0 p calls w" "d \<in> D"
  shows "(0 < p d \<longrightarrow> (\<exists>(s, c) \<in> set calls. \<exists>amount sig. presented c = Some (d, amount, sig) \<and> p d \<le> amount
        \<and> recover_primitive w0 (get_voucher_digest w0 (channel_id w0 d) amount) sig = Some (expected_signer d)))
    \<and> (channel_exists (channel w (channel_id w0 d)) \<longrightarrow> ch_settled (channel w (channel_id w0 d)) = p d)
    \<and> (\<forall>s c w'. reserve_dispatch s c w = Inr ((), w') \<and> s \<noteq> RESERVE \<and> accepts w \<and> call_descriptor s c w = d \<longrightarrow> moves_exactly c d w w')"
proof (intro conjI)
  show "0 < p d \<longrightarrow> (\<exists>(s, c) \<in> set calls. \<exists>amount sig. presented c = Some (d, amount, sig) \<and> p d \<le> amount
        \<and> recover_primitive w0 (get_voucher_digest w0 (channel_id w0 d) amount) sig = Some (expected_signer d))"
    "channel_exists (channel w (channel_id w0 d)) \<longrightarrow> ch_settled (channel w (channel_id w0 d)) = p d"
    using payments_covered [OF assms(1-3)] assms(4) unfolding covers_def by simp_all
  show "\<forall>s c w'. reserve_dispatch s c w = Inr ((), w') \<and> s \<noteq> RESERVE \<and> accepts w \<and> call_descriptor s c w = d \<longrightarrow> moves_exactly c d w w'"
    using dispatch_moves by blast
qed

theorem payments_signed_witness:
  "\<exists>p calls w. payments {sample_channel} sample_channel_world p calls w \<and> p sample_channel = 10
    \<and> (\<exists>(s, c) \<in> set calls. \<exists>amount sig. presented c = Some (sample_channel, amount, sig) \<and> 10 \<le> amount)
    \<and> ch_settled (channel w 0) = 10"
proof -
  let ?w = sample_channel_world
  obtain w where run: "reserve_dispatch 0x222 (SettleCall sample_channel 10 []) ?w = Inr ((), w)"
    and c: "channel w 0 = no_channel\<lparr>ch_deposit := 30, ch_settled := 10\<rparr>"
    by (rule sample_settle)
  let ?p = "(\<lambda>_. 0)(sample_channel := 10)" and ?calls = "[] @ [(0x222, SettleCall sample_channel 10 [])]"
  have p: "payments {sample_channel} ?w ?p ?calls w"
    using called [OF start run, of sample_channel "{sample_channel}" "channel ?w 0"]
    by (simp add: sample_accepts address_defs no_channel_def)
  then show ?thesis
    using payments_signed [OF _ _ p, of sample_channel] c
    by (intro exI [of _ ?p] exI [of _ ?calls] exI [of _ w]) (auto simp: no_channel_def)
qed

end
