(* ===== verification/Validator_Config.thy ===== *)
theory Validator_Config
  imports World Net_Addr
begin

text \<open>
  The first validator configuration (\<open>precompiles/src/validator_config/mod.rs\<close> with its dispatch) and the checks
  of addresses it shares with the second (\<open>precompiles/src/ip_validation.rs\<close>). A validator is a record under its
  address, with its position in an array of addresses that is only appended to.
\<close>

section \<open>Addresses of validators\<close>

definition ensure_address_is_ip_port :: "string \<Rightarrow> bool" where
  "ensure_address_is_ip_port input = (parse_socket_addr input \<noteq> None)"

definition ensure_address_is_ip :: "string \<Rightarrow> bool" where
  "ensure_address_is_ip input = (parse_ip_addr input \<noteq> None)"

text \<open>The texts of the two errors, as \<open>Display\<close> prints them, and the \<open>Debug\<close> text of the first.\<close>

definition ip_port_error :: string where
  "ip_port_error = ''input was not of the form `<ip>:<port>`''"

definition ip_error :: string where
  "ip_error = ''input was not a valid IP address''"

definition ip_port_error_debug :: string where
  "ip_port_error_debug = ''Parse(AddrParseError(Socket))''"

section \<open>Operations\<close>

definition vc1_error :: "validator_config_error \<Rightarrow> tempo_error" where
  "vc1_error e = ValidatorConfigError e"

definition upd_v1 :: "(validator_config_storage \<Rightarrow> validator_config_storage) \<Rightarrow> unit M" where
  "upd_v1 f = modify (\<lambda>w. w\<lparr>validator_config := f (validator_config w)\<rparr>)"

definition write_v1_validator :: "address \<Rightarrow> v1_validator \<Rightarrow> unit M" where
  "write_v1_validator a v = upd_v1 (\<lambda>c. c\<lparr>v1_validators := (v1_validators c)(a := v)\<rparr>)"

definition v1_initialize :: "address \<Rightarrow> unit M" where
  "v1_initialize own = upd_v1 (\<lambda>c. c\<lparr>v1_owner := own\<rparr>)"

definition v1_check_owner :: "world \<Rightarrow> address \<Rightarrow> unit R" where
  "v1_check_owner w caller =
    (if v1_owner (validator_config w) \<noteq> caller then Inl (vc1_error VcUnauthorized) else Inr ())"

definition v1_change_owner :: "address \<Rightarrow> address \<Rightarrow> unit M" where
  "v1_change_owner sender new_owner =
    rseq (rd (\<lambda>w. v1_check_owner w sender))
         (upd_v1 (\<lambda>c. c\<lparr>v1_owner := new_owner\<rparr>))"

definition v1_validator_count :: "world \<Rightarrow> u64" where
  "v1_validator_count w = sv_len (v1_validators_array (validator_config w))"

definition v1_array_at :: "world \<Rightarrow> u64 \<Rightarrow> address R" where
  "v1_array_at w index =
    eok_or (sv_get (v1_validators_array (validator_config w)) index) (Panic ArrayOutOfBounds)"

definition v1_validator_exists :: "world \<Rightarrow> address \<Rightarrow> bool" where
  "v1_validator_exists w a = (v1_public_key (v1_validators (validator_config w) a) \<noteq> 0)"

definition v1_get_validators :: "world \<Rightarrow> v1_validator list" where
  "v1_get_validators w =
    map (\<lambda>i. let a = sv_at (v1_validators_array (validator_config w)) i in
             (v1_validators (validator_config w) a)\<lparr>v1_validator_address := a\<rparr>)
        [0..<sv_len (v1_validators_array (validator_config w))]"

text \<open>The check of the two addresses; the text in the error depends on the fork.\<close>

definition v1_check_addresses :: "world \<Rightarrow> string \<Rightarrow> string \<Rightarrow> unit R" where
  "v1_check_addresses w inbound outbound =
    (let text = (if T2 \<le> spec w then ip_port_error else ip_port_error_debug) in
     if \<not> ensure_address_is_ip_port inbound then Inl (vc1_error (NotHostPort ''inboundAddress'' inbound text))
     else if \<not> ensure_address_is_ip_port outbound then Inl (vc1_error (VcNotIpPort ''outboundAddress'' outbound text))
     else Inr ())"

text \<open>A vector of addresses holds at most \<open>u32::MAX\<close> elements.\<close>

definition v1_push_address :: "address \<Rightarrow> unit M" where
  "v1_push_address a =
    rbind (gets (\<lambda>w. v1_validators_array (validator_config w))) (\<lambda>v.
    rbind (ok_or (sv_push (2 ^ 32 - 1) a v) (Fatal ''Vec is at max capacity'')) (\<lambda>v.
    upd_v1 (\<lambda>c. c\<lparr>v1_validators_array := v\<rparr>)))"

definition v1_add_validator :: "address \<Rightarrow> address \<Rightarrow> b256 \<Rightarrow> bool \<Rightarrow> string \<Rightarrow> string \<Rightarrow> unit M" where
  "v1_add_validator sender a public_key act inbound outbound =
    rseq (ensure (public_key \<noteq> 0) (vc1_error VcInvalidPublicKey))
   (rseq (rd (\<lambda>w. v1_check_owner w sender))
   (rbind (gets (\<lambda>w. v1_validator_exists w a)) (\<lambda>present.
    rseq (ensure (\<not> present) (vc1_error ValidatorAlreadyExists))
   (rseq (rd (\<lambda>w. v1_check_addresses w inbound outbound))
   (rbind (gets v1_validator_count) (\<lambda>count.
    rseq (write_v1_validator a \<lparr>v1_public_key = public_key, v1_active = act, v1_index = count, v1_validator_address = a,
            v1_inbound_address = inbound, v1_outbound_address = outbound\<rparr>)
         (v1_push_address a)))))))"

definition v1_update_validator :: "address \<Rightarrow> address \<Rightarrow> b256 \<Rightarrow> string \<Rightarrow> string \<Rightarrow> unit M" where
  "v1_update_validator sender a public_key inbound outbound =
    rseq (ensure (public_key \<noteq> 0) (vc1_error VcInvalidPublicKey))
   (rbind (gets (\<lambda>w. v1_validator_exists w sender)) (\<lambda>present.
    rseq (ensure present (vc1_error VcValidatorNotFound))
   (rbind (gets (\<lambda>w. v1_validators (validator_config w) sender)) (\<lambda>old_validator.
    rseq (only_if (a \<noteq> sender)
           (rbind (gets (\<lambda>w. v1_validator_exists w a)) (\<lambda>taken.
            rseq (ensure (\<not> taken) (vc1_error ValidatorAlreadyExists))
           (rseq (upd_v1 (\<lambda>c. c\<lparr>v1_validators_array := sv_set (v1_index old_validator) a (v1_validators_array c)\<rparr>))
                 (write_v1_validator sender no_v1_validator)))))
   (rseq (rd (\<lambda>w. v1_check_addresses w inbound outbound))
         (write_v1_validator a \<lparr>v1_public_key = public_key, v1_active = v1_active old_validator, v1_index = v1_index old_validator,
            v1_validator_address = a, v1_inbound_address = inbound, v1_outbound_address = outbound\<rparr>))))))"

definition v1_set_active :: "address \<Rightarrow> bool \<Rightarrow> unit M" where
  "v1_set_active a act =
    rbind (gets (\<lambda>w. v1_validators (validator_config w) a)) (\<lambda>v.
    write_v1_validator a (v\<lparr>v1_active := act\<rparr>))"

definition v1_change_validator_status :: "address \<Rightarrow> address \<Rightarrow> bool \<Rightarrow> unit M" where
  "v1_change_validator_status sender a act =
    rseq (rd (\<lambda>w. v1_check_owner w sender))
   (rbind (gets (\<lambda>w. v1_validator_exists w a)) (\<lambda>present.
    rseq (ensure present (vc1_error VcValidatorNotFound))
         (v1_set_active a act)))"

definition v1_change_validator_status_by_index :: "address \<Rightarrow> u64 \<Rightarrow> bool \<Rightarrow> unit M" where
  "v1_change_validator_status_by_index sender index act =
    rseq (rd (\<lambda>w. v1_check_owner w sender))
   (rbind (rd (\<lambda>w. eok_or (sv_get (v1_validators_array (validator_config w)) index) (vc1_error VcValidatorNotFound))) (\<lambda>a.
    v1_set_active a act))"

definition v1_set_next_full_dkg_ceremony :: "address \<Rightarrow> u64 \<Rightarrow> unit M" where
  "v1_set_next_full_dkg_ceremony sender epoch =
    rseq (rd (\<lambda>w. v1_check_owner w sender))
         (upd_v1 (\<lambda>c. c\<lparr>v1_next_dkg_ceremony := epoch\<rparr>))"

section \<open>Calls\<close>

datatype (plugins only: code size) v1_call =
    V1AddValidator address b256 bool string string
  | V1UpdateValidator address b256 string string
  | V1ChangeValidatorStatus address bool
  | V1ChangeValidatorStatusByIndex u64 bool
  | V1ChangeOwner address
  | V1SetNextFullDkgCeremony u64

primrec v1_dispatch :: "address \<Rightarrow> v1_call \<Rightarrow> unit M" where
  "v1_dispatch s (V1AddValidator a key act inbound outbound) = v1_add_validator s a key act inbound outbound"
| "v1_dispatch s (V1UpdateValidator a key inbound outbound) = v1_update_validator s a key inbound outbound"
| "v1_dispatch s (V1ChangeValidatorStatus a act) = v1_change_validator_status s a act"
| "v1_dispatch s (V1ChangeValidatorStatusByIndex i act) =
    rbind (gets spec) (\<lambda>sp.
    rseq (ensure (T1 \<le> sp) UnknownFunctionSelector)
         (v1_change_validator_status_by_index s i act))"
| "v1_dispatch s (V1ChangeOwner a) = v1_change_owner s a"
| "v1_dispatch s (V1SetNextFullDkgCeremony epoch) = v1_set_next_full_dkg_ceremony s epoch"

end
