(* ===== verification/Validator_Config_V2.thy ===== *)
theory Validator_Config_V2
  imports Validator_Config System
begin

text \<open>
  The second validator configuration (\<open>precompiles/src/validator_config_v2/mod.rs\<close> with its dispatch). Its records
  are a vector that only grows. Two maps find a record by address and by public key, a vector lists the positions of
  the active records, and each active record points back into it. Positions in the maps and in the list of active
  records count from 1, with 0 for none. Records come by addition, by rotation of a key, which appends a copy of
  the old record, and by migration from the first configuration.

  Decoding keys and signatures and verifying a signature are arguments of the model. A panic of the code is
  \<open>RustPanic\<close> with the text of the panic; it is no error value of the contract.
\<close>

section \<open>Configuration\<close>

definition VALIDATOR_NS_ADD :: string where
  "VALIDATOR_NS_ADD = ''TEMPO_VALIDATOR_CONFIG_V2_ADD_VALIDATOR''"

definition VALIDATOR_NS_ROTATE :: string where
  "VALIDATOR_NS_ROTATE = ''TEMPO_VALIDATOR_CONFIG_V2_ROTATE_VALIDATOR''"

abbreviation v2 :: "world \<Rightarrow> validator_config_v2_storage" where
  "v2 w \<equiv> validator_config_v2 w"

definition v2_error :: "validator_config_v2_error \<Rightarrow> tempo_error" where
  "v2_error e = ValidatorConfigV2Error e"

definition upd_v2 :: "(validator_config_v2_storage \<Rightarrow> validator_config_v2_storage) \<Rightarrow> unit M" where
  "upd_v2 f = modify (\<lambda>w. w\<lparr>validator_config_v2 := f (validator_config_v2 w)\<rparr>)"

definition emit_v2 :: "validator_config_v2_event \<Rightarrow> unit M" where
  "emit_v2 e = emit_event VALIDATOR_CONFIG_V2_ADDRESS (ValidatorConfigV2Event e)"

text \<open>Subtraction of 64-bit words wraps around.\<close>

definition sub64 :: "u64 \<Rightarrow> u64 \<Rightarrow> u64" where
  "sub64 a b = (a + 2 ^ 64 - b) mod 2 ^ 64"

definition new_config :: "address \<Rightarrow> bool \<Rightarrow> u64 \<Rightarrow> v2_config" where
  "new_config own init height =
    \<lparr>cfg_owner = own, cfg_is_init = init, cfg_init_at_height = height, cfg_migration_skipped_count = 0,
     cfg_v1_validator_count = 0\<rparr>"

definition require_init :: "v2_config \<Rightarrow> v2_config R" where
  "require_init c = (if cfg_is_init c then Inr c else Inl (v2_error NotInitialized))"

definition require_not_init :: "v2_config \<Rightarrow> v2_config R" where
  "require_not_init c = (if cfg_is_init c then Inl (v2_error AlreadyInitialized) else Inr c)"

definition require_owner :: "v2_config \<Rightarrow> address \<Rightarrow> v2_config R" where
  "require_owner c caller = (if cfg_owner c \<noteq> caller then Inl (v2_error V2Unauthorized) else Inr c)"

definition require_owner_or_validator :: "v2_config \<Rightarrow> address \<Rightarrow> address \<Rightarrow> v2_config R" where
  "require_owner_or_validator c caller validator =
    (if caller \<noteq> validator \<and> cfg_owner c \<noteq> caller then Inl (v2_error V2Unauthorized) else Inr c)"

definition v2_initialize :: "address \<Rightarrow> unit M" where
  "v2_initialize own =
    rbind (gets block_number) (\<lambda>height.
    upd_v2 (\<lambda>c. c\<lparr>vc_config := new_config own True height\<rparr>))"

section \<open>Lookup\<close>

definition v2_validator_count :: "world \<Rightarrow> u64" where
  "v2_validator_count w = sv_len (vc_validators (v2 w))"

definition get_active_validator :: "world \<Rightarrow> u64 \<Rightarrow> validator_record R" where
  "get_active_validator w idx =
    (if idx \<ge> sv_len (vc_validators (v2 w)) then Inl (v2_error ValidatorNotFound)
     else let v = sv_at (vc_validators (v2 w)) idx in
       if vr_deactivated_at_height v \<noteq> 0 then Inl (v2_error ValidatorAlreadyDeactivated) else Inr v)"

definition read_validator_at :: "world \<Rightarrow> u64 \<Rightarrow> validator_record" where
  "read_validator_at w index = sv_at (vc_validators (v2 w)) index"

definition validator_by_index :: "world \<Rightarrow> u64 \<Rightarrow> validator_record R" where
  "validator_by_index w index =
    (if index \<ge> v2_validator_count w then Inl (v2_error ValidatorNotFound) else Inr (read_validator_at w index))"

definition validator_by_address :: "world \<Rightarrow> address \<Rightarrow> validator_record R" where
  "validator_by_address w a =
    (let idx1 = address_to_index (v2 w) a in
     if idx1 = 0 then Inl (v2_error ValidatorNotFound) else Inr (read_validator_at w (sub64 idx1 1)))"

definition validator_by_public_key :: "world \<Rightarrow> b256 \<Rightarrow> validator_record R" where
  "validator_by_public_key w pubkey =
    (let idx1 = pubkey_to_index (v2 w) pubkey in
     if idx1 = 0 then Inl (v2_error ValidatorNotFound) else Inr (read_validator_at w (sub64 idx1 1)))"

definition get_active_validators :: "world \<Rightarrow> validator_record list" where
  "get_active_validators w =
    map (\<lambda>i. read_validator_at w (sub64 (sv_at (active_indices (v2 w)) i) 1)) [0..<sv_len (active_indices (v2 w))]"

section \<open>Endpoints\<close>

definition validate_endpoints :: "string \<Rightarrow> string \<Rightarrow> unit R" where
  "validate_endpoints ingress egress =
    (if \<not> ensure_address_is_ip_port ingress then Inl (v2_error (NotIpPort ingress ip_port_error))
     else if \<not> ensure_address_is_ip egress then Inl (v2_error (NotIp egress ip_error))
     else Inr ())"

definition ingress_key :: "world \<Rightarrow> string \<Rightarrow> b256 R" where
  "ingress_key w ingress =
    (case parse_socket_addr ingress of
       None \<Rightarrow> Inl (v2_error (NotIpPort ingress ip_port_error))
     | Some (SocketV4 octets port) \<Rightarrow> Inr (keccak256 w (IngressV4 octets port))
     | Some (SocketV6 segments scope_id port) \<Rightarrow> Inr (keccak256 w (IngressV6 (v6_octets segments) scope_id port)))"

definition require_unique_ingress :: "world \<Rightarrow> string \<Rightarrow> b256 R" where
  "require_unique_ingress w ingress =
    ebind (ingress_key w ingress) (\<lambda>h.
    if active_ingress_ips (v2 w) h then Inl (v2_error (IngressAlreadyExists ingress)) else Inr h)"

definition set_ingress :: "b256 \<Rightarrow> bool \<Rightarrow> unit M" where
  "set_ingress h b = upd_v2 (\<lambda>c. c\<lparr>active_ingress_ips := (active_ingress_ips c)(h := b)\<rparr>)"

definition update_ingress_ip_tracking :: "string \<Rightarrow> string \<Rightarrow> unit M" where
  "update_ingress_ip_tracking old_ingress new_ingress =
    rbind (rd (\<lambda>w. ingress_key w old_ingress)) (\<lambda>old_hash.
    rbind (rd (\<lambda>w. ingress_key w new_ingress)) (\<lambda>new_hash.
    only_if (old_hash \<noteq> new_hash)
      (rbind (gets (\<lambda>w. active_ingress_ips (v2 w) new_hash)) (\<lambda>taken.
       rseq (ensure (\<not> taken) (v2_error (IngressAlreadyExists new_ingress)))
      (rseq (set_ingress old_hash False)
            (set_ingress new_hash True))))))"

section \<open>Records\<close>

definition set_validator :: "u64 \<Rightarrow> validator_record \<Rightarrow> unit M" where
  "set_validator i v = upd_v2 (\<lambda>c. c\<lparr>vc_validators := sv_set i v (vc_validators c)\<rparr>)"

definition upd_validator :: "u64 \<Rightarrow> (validator_record \<Rightarrow> validator_record) \<Rightarrow> unit M" where
  "upd_validator i f = upd_v2 (\<lambda>c. c\<lparr>vc_validators := sv_set i (f (sv_at (vc_validators c) i)) (vc_validators c)\<rparr>)"

text \<open>A record takes six slots, and four positions share a slot.\<close>

definition push_validator :: "validator_record \<Rightarrow> unit M" where
  "push_validator v =
    rbind (gets (\<lambda>w. vc_validators (v2 w))) (\<lambda>vs.
    rbind (ok_or (sv_push ((2 ^ 32 - 1) div 6) v vs) (Fatal ''Vec is at max capacity'')) (\<lambda>vs.
    upd_v2 (\<lambda>c. c\<lparr>vc_validators := vs\<rparr>)))"

definition push_active :: "u64 \<Rightarrow> unit M" where
  "push_active i =
    rbind (gets (\<lambda>w. active_indices (v2 w))) (\<lambda>is.
    rbind (ok_or (sv_push ((2 ^ 32 - 1) div 8) i is) (Fatal ''Vec is at max capacity'')) (\<lambda>is.
    upd_v2 (\<lambda>c. c\<lparr>active_indices := is\<rparr>)))"

definition set_pubkey_index :: "b256 \<Rightarrow> u64 \<Rightarrow> unit M" where
  "set_pubkey_index k i = upd_v2 (\<lambda>c. c\<lparr>pubkey_to_index := (pubkey_to_index c)(k := i)\<rparr>)"

definition set_address_index :: "address \<Rightarrow> u64 \<Rightarrow> unit M" where
  "set_address_index a i = upd_v2 (\<lambda>c. c\<lparr>address_to_index := (address_to_index c)(a := i)\<rparr>)"

definition append_validator ::
  "address \<Rightarrow> b256 \<Rightarrow> string \<Rightarrow> string \<Rightarrow> address \<Rightarrow> u64 \<Rightarrow> u64 \<Rightarrow> u64 M" where
  "append_validator a pubkey ingress egress fee_recipient added_at_height deactivated_at_height =
    rbind (gets v2_validator_count) (\<lambda>count.
    rbind (if deactivated_at_height = 0 then
             rseq (push_active (count + 1))
                  (gets (\<lambda>w. sv_len (active_indices (v2 w))))
           else ok 0) (\<lambda>active_idx.
    rseq (push_validator \<lparr>vr_public_key = pubkey, vr_validator_address = a, vr_ingress = ingress, vr_egress = egress,
            vr_fee_recipient = fee_recipient, vr_index = count, vr_active_idx = active_idx,
            vr_added_at_height = added_at_height, vr_deactivated_at_height = deactivated_at_height\<rparr>)
   (rseq (set_pubkey_index pubkey (count + 1))
   (rseq (set_address_index a (count + 1))
         (ok count)))))"

definition require_new_address :: "world \<Rightarrow> address \<Rightarrow> unit R" where
  "require_new_address w a =
    (if a = 0 then Inl (v2_error InvalidValidatorAddress)
     else let idx1 = address_to_index (v2 w) a in
       if idx1 \<noteq> 0 \<and> vr_deactivated_at_height (sv_at (vc_validators (v2 w)) (sub64 idx1 1)) = 0
       then Inl (v2_error AddressAlreadyHasValidator) else Inr ())"

definition require_new_pubkey :: "world \<Rightarrow> b256 \<Rightarrow> unit R" where
  "require_new_pubkey w pubkey =
    (if pubkey = 0 then Inl (v2_error InvalidPublicKey)
     else if pubkey_to_index (v2 w) pubkey \<noteq> 0 then Inl (v2_error PublicKeyAlreadyExists)
     else Inr ())"

section \<open>Signatures\<close>

text \<open>The kind of a signature: the addition of a validator, with the recipient of its fees, or a rotation.\<close>

datatype (plugins only: code size) signature_kind = SignAdd address | SignRotate

definition validator_message :: "world \<Rightarrow> signature_kind \<Rightarrow> address \<Rightarrow> string \<Rightarrow> string \<Rightarrow> b256" where
  "validator_message w kind a ingress egress =
    keccak256 w (ValidatorMessage (chain_id w) VALIDATOR_CONFIG_V2_ADDRESS a ingress egress
      (case kind of SignAdd fee_recipient \<Rightarrow> Some fee_recipient | SignRotate \<Rightarrow> None))"

definition signature_namespace :: "signature_kind \<Rightarrow> string" where
  "signature_namespace kind = (case kind of SignAdd fee_recipient \<Rightarrow> VALIDATOR_NS_ADD | SignRotate \<Rightarrow> VALIDATOR_NS_ROTATE)"

definition verify_validator_signature ::
  "world \<Rightarrow> signature_kind \<Rightarrow> b256 \<Rightarrow> string \<Rightarrow> address \<Rightarrow> string \<Rightarrow> string \<Rightarrow> unit R" where
  "verify_validator_signature w kind pubkey sig a ingress egress =
    (if \<not> ed25519_signature w sig then Inl (v2_error InvalidSignatureFormat)
     else if length ingress > 255 then Inl (RustPanic ''validator ingress length must fit in uint8'')
     else if length egress > 255 then Inl (RustPanic ''validator egress length must fit in uint8'')
     else if \<not> ed25519_key w pubkey then Inl (v2_error InvalidPublicKey)
     else if \<not> ed25519_verify w pubkey (signature_namespace kind) (validator_message w kind a ingress egress) sig
     then Inl (v2_error V2InvalidSignature)
     else Inr ())"

section \<open>Operations of the owner\<close>

definition add_validator ::
  "address \<Rightarrow> address \<Rightarrow> b256 \<Rightarrow> string \<Rightarrow> string \<Rightarrow> address \<Rightarrow> string \<Rightarrow> u64 M" where
  "add_validator sender a pubkey ingress egress fee_recipient sig =
    rbind (rd (\<lambda>w. ebind (require_init (vc_config (v2 w))) (\<lambda>c. require_owner c sender))) (\<lambda>_.
    rseq (rd (\<lambda>w. require_new_pubkey w pubkey))
   (rseq (rd (\<lambda>w. require_new_address w a))
   (rseq (rd (\<lambda>_. validate_endpoints ingress egress))
   (rbind (rd (\<lambda>w. require_unique_ingress w ingress)) (\<lambda>ingress_hash.
    rseq (rd (\<lambda>w. verify_validator_signature w (SignAdd fee_recipient) pubkey sig a ingress egress))
   (rbind (gets block_number) (\<lambda>block_height.
    rseq (set_ingress ingress_hash True)
   (rbind (append_validator a pubkey ingress egress fee_recipient block_height 0) (\<lambda>index.
    rseq (emit_v2 (ValidatorAdded index a pubkey ingress egress fee_recipient))
         (ok index))))))))))"

definition swap_and_pop :: "validator_record \<Rightarrow> unit M" where
  "swap_and_pop v =
    (let active_index = sub64 (vr_active_idx v) 1 in
     rbind (gets (\<lambda>w. sub64 (sv_len (active_indices (v2 w))) 1)) (\<lambda>last_pos.
     rseq (only_if (active_index \<noteq> last_pos)
            (rbind (gets (\<lambda>w. sv_at (active_indices (v2 w)) last_pos)) (\<lambda>moved_val.
             rseq (upd_v2 (\<lambda>c. c\<lparr>active_indices := sv_set active_index moved_val (active_indices c)\<rparr>))
                  (upd_validator (sub64 moved_val 1) (\<lambda>m. m\<lparr>vr_active_idx := active_index + 1\<rparr>)))))
          (upd_v2 (\<lambda>c. c\<lparr>active_indices := snd (sv_pop 0 (active_indices c))\<rparr>))))"

definition deactivate_validator :: "address \<Rightarrow> u64 \<Rightarrow> unit M" where
  "deactivate_validator sender idx =
    rbind (rd (\<lambda>w. get_active_validator w idx)) (\<lambda>v.
    rbind (rd (\<lambda>w. require_owner_or_validator (vc_config (v2 w)) sender (vr_validator_address v))) (\<lambda>_.
    rbind (rd (\<lambda>w. ingress_key w (vr_ingress v))) (\<lambda>h.
    rseq (set_ingress h False)
   (rbind (gets block_number) (\<lambda>block_height.
    rseq (upd_validator idx (\<lambda>v. v\<lparr>vr_deactivated_at_height := block_height\<rparr>))
   (rseq (swap_and_pop v)
   (rseq (upd_validator idx (\<lambda>v. v\<lparr>vr_active_idx := 0\<rparr>))
         (emit_v2 (ValidatorDeactivated idx (vr_validator_address v))))))))))"

definition transfer_ownership :: "address \<Rightarrow> address \<Rightarrow> unit M" where
  "transfer_ownership sender new_owner =
    rseq (ensure (new_owner \<noteq> 0) (v2_error InvalidOwner))
   (rbind (rd (\<lambda>w. ebind (require_init (vc_config (v2 w))) (\<lambda>c. require_owner c sender))) (\<lambda>config.
    rseq (upd_v2 (\<lambda>c. c\<lparr>vc_config := config\<lparr>cfg_owner := new_owner\<rparr>\<rparr>))
         (emit_v2 (OwnershipTransferred (cfg_owner config) new_owner))))"

definition set_network_identity_rotation_epoch :: "address \<Rightarrow> u64 \<Rightarrow> unit M" where
  "set_network_identity_rotation_epoch sender epoch =
    rbind (rd (\<lambda>w. ebind (require_init (vc_config (v2 w))) (\<lambda>c. require_owner c sender))) (\<lambda>_.
    rbind (gets (\<lambda>w. next_network_identity_rotation_epoch (v2 w))) (\<lambda>previous_epoch.
    rseq (upd_v2 (\<lambda>c. c\<lparr>next_network_identity_rotation_epoch := epoch\<rparr>))
         (emit_v2 (NetworkIdentityRotationEpochSet previous_epoch epoch))))"

section \<open>Operations of the owner or the validator\<close>

text \<open>The checks that these operations start with: the record must be active and the caller its validator or the
  owner of an initialized contract.\<close>

definition authorized_record :: "address \<Rightarrow> u64 \<Rightarrow> validator_record M" where
  "authorized_record sender idx =
    rbind (rd (\<lambda>w. get_active_validator w idx)) (\<lambda>v.
    rbind (rd (\<lambda>w. ebind (require_init (vc_config (v2 w))) (\<lambda>c. require_owner_or_validator c sender (vr_validator_address v)))) (\<lambda>_.
    ok v))"

definition rotate_validator :: "address \<Rightarrow> u64 \<Rightarrow> b256 \<Rightarrow> string \<Rightarrow> string \<Rightarrow> string \<Rightarrow> unit M" where
  "rotate_validator sender idx pubkey ingress egress sig =
    rbind (authorized_record sender idx) (\<lambda>v.
    rseq (rd (\<lambda>w. require_new_pubkey w pubkey))
   (rseq (rd (\<lambda>_. validate_endpoints ingress egress))
   (rbind (rd (\<lambda>w. require_unique_ingress w ingress)) (\<lambda>_.
    rseq (rd (\<lambda>w. verify_validator_signature w SignRotate pubkey sig (vr_validator_address v) ingress egress))
   (rbind (gets block_number) (\<lambda>block_height.
    rseq (update_ingress_ip_tracking (vr_ingress v) ingress)
   (rbind (gets v2_validator_count) (\<lambda>appended_idx.
    rseq (push_validator (v\<lparr>vr_index := appended_idx, vr_active_idx := 0, vr_deactivated_at_height := block_height\<rparr>))
   (rseq (set_pubkey_index (vr_public_key v) (appended_idx + 1))
   (rseq (upd_validator idx (\<lambda>v. v\<lparr>vr_public_key := pubkey, vr_ingress := ingress, vr_egress := egress,
            vr_added_at_height := block_height\<rparr>))
   (rseq (set_pubkey_index pubkey (idx + 1))
         (emit_v2 (ValidatorRotated idx appended_idx (vr_validator_address v) (vr_public_key v) pubkey ingress egress sender)))))))))))))"

definition set_fee_recipient :: "address \<Rightarrow> u64 \<Rightarrow> address \<Rightarrow> unit M" where
  "set_fee_recipient sender idx fee_recipient =
    rbind (authorized_record sender idx) (\<lambda>v.
    rseq (set_validator idx (v\<lparr>vr_fee_recipient := fee_recipient\<rparr>))
         (emit_v2 (FeeRecipientUpdated idx fee_recipient sender)))"

definition set_ip_addresses :: "address \<Rightarrow> u64 \<Rightarrow> string \<Rightarrow> string \<Rightarrow> unit M" where
  "set_ip_addresses sender idx ingress egress =
    rbind (authorized_record sender idx) (\<lambda>v.
    rseq (rd (\<lambda>_. validate_endpoints ingress egress))
   (rseq (update_ingress_ip_tracking (vr_ingress v) ingress)
   (rseq (set_validator idx (v\<lparr>vr_ingress := ingress, vr_egress := egress\<rparr>))
         (emit_v2 (IpAddressesUpdated idx ingress egress sender)))))"

definition transfer_validator_ownership :: "address \<Rightarrow> u64 \<Rightarrow> address \<Rightarrow> unit M" where
  "transfer_validator_ownership sender idx new_address =
    rbind (authorized_record sender idx) (\<lambda>v.
    rseq (rd (\<lambda>w. require_new_address w new_address))
   (rseq (set_validator idx (v\<lparr>vr_validator_address := new_address\<rparr>))
   (rseq (set_address_index (vr_validator_address v) 0)
   (rseq (set_address_index new_address (idx + 1))
         (emit_v2 (ValidatorOwnershipTransferred idx (vr_validator_address v) new_address sender))))))"

section \<open>Migration\<close>

text \<open>The first call copies the owner and the number of validators, as an 8-bit word, from the first configuration.\<close>

definition require_migration_owner :: "address \<Rightarrow> v2_config M" where
  "require_migration_owner caller =
    rbind (rd (\<lambda>w. require_not_init (vc_config (v2 w)))) (\<lambda>config.
    rbind (if cfg_owner config = 0 then
             rbind (gets (\<lambda>w. v1_owner (validator_config w))) (\<lambda>own.
             rbind (gets v1_validator_count) (\<lambda>v1_count.
             rseq (ensure (v1_count \<noteq> 0) (v2_error EmptyV1ValidatorSet))
            (rseq (upd_v2 (\<lambda>c. c\<lparr>vc_config := (new_config own False 0)\<lparr>cfg_v1_validator_count := v1_count mod 256\<rparr>\<rparr>))
                  (ok (config\<lparr>cfg_owner := own, cfg_v1_validator_count := v1_count mod 256\<rparr>)))))
           else ok config) (\<lambda>config.
    rd (\<lambda>_. require_owner config caller)))"

definition skip_migration :: "u64 \<Rightarrow> v1_validator \<Rightarrow> u8 \<Rightarrow> unit M" where
  "skip_migration idx v1_val skipped =
    rseq (emit_v2 (SkippedValidatorMigration idx (v1_validator_address v1_val) (v1_public_key v1_val)))
         (upd_v2 (\<lambda>c. c\<lparr>vc_config := (vc_config c)\<lparr>cfg_migration_skipped_count := saturating_add 8 skipped 1\<rparr>\<rparr>))"

definition migrate_record :: "u64 \<Rightarrow> v1_validator \<Rightarrow> u8 \<Rightarrow> u64 \<Rightarrow> string \<Rightarrow> unit M" where
  "migrate_record idx v1_val skipped block_height egress =
    rbind (gets (\<lambda>w. address_to_index (v2 w) (v1_validator_address v1_val))) (\<lambda>addr_idx.
    rbind (gets (\<lambda>w. vr_deactivated_at_height (sv_at (vc_validators (v2 w)) (sub64 addr_idx 1)))) (\<lambda>deactivated.
    rseq (ensure (\<not> (addr_idx \<noteq> 0 \<and> deactivated = 0)) (v2_error AddressAlreadyHasValidator))
   (let now_active = v1_active v1_val in
    rbind (rd (\<lambda>w. ingress_key w (v1_inbound_address v1_val))) (\<lambda>ingress_hash.
    rbind (gets (\<lambda>w. active_ingress_ips (v2 w) ingress_hash)) (\<lambda>taken.
    if now_active \<and> taken then skip_migration idx v1_val skipped
    else
      rbind (append_validator (v1_validator_address v1_val) (v1_public_key v1_val) (v1_inbound_address v1_val) egress 0
               block_height (if now_active then 0 else block_height)) (\<lambda>migrated_idx.
      rseq (only_if now_active (set_ingress ingress_hash True))
           (emit_v2 (ValidatorMigrated migrated_idx (v1_validator_address v1_val) (v1_public_key v1_val)))))))))"

definition migrate_validator :: "address \<Rightarrow> u64 \<Rightarrow> unit M" where
  "migrate_validator sender idx =
    rbind (require_migration_owner sender) (\<lambda>config.
    rbind (gets block_number) (\<lambda>block_height.
    rbind (gets v2_validator_count) (\<lambda>migrated.
    let v1_count = cfg_v1_validator_count config;
        skipped = cfg_migration_skipped_count config;
        total_processed = migrated + skipped in
    rseq (ensure (\<not> (total_processed \<ge> v1_count \<or> idx \<noteq> v1_count - total_processed - 1)) (v2_error InvalidMigrationIndex))
   (rbind (rd (\<lambda>w. ebind (v1_array_at w idx) (\<lambda>a. Inr (v1_validators (validator_config w) a)))) (\<lambda>v1_val.
    rbind (gets (\<lambda>w. ed25519_key w (v1_public_key v1_val))) (\<lambda>decoded.
    if \<not> decoded then skip_migration idx v1_val skipped
    else
      (case parse_socket_addr (v1_outbound_address v1_val) of
         None \<Rightarrow> skip_migration idx v1_val skipped
       | Some sa \<Rightarrow>
           rbind (gets (\<lambda>w. pubkey_to_index (v2 w) (v1_public_key v1_val))) (\<lambda>known.
           if known \<noteq> 0 then skip_migration idx v1_val skipped
           else migrate_record idx v1_val skipped block_height (show_ip_addr (socket_ip sa))))))))))"

definition initialize_if_migrated :: "address \<Rightarrow> unit M" where
  "initialize_if_migrated sender =
    rbind (require_migration_owner sender) (\<lambda>config.
    rbind (gets v2_validator_count) (\<lambda>count.
    rseq (ensure (\<not> (cfg_v1_validator_count config = 0
             \<or> count + cfg_migration_skipped_count config < cfg_v1_validator_count config)) (v2_error MigrationNotComplete))
   (rbind (gets (\<lambda>w. v1_next_dkg_ceremony (validator_config w))) (\<lambda>v1_next_dkg.
    rseq (upd_v2 (\<lambda>c. c\<lparr>next_network_identity_rotation_epoch := v1_next_dkg\<rparr>))
   (rbind (gets block_number) (\<lambda>height.
    rseq (upd_v2 (\<lambda>c. c\<lparr>vc_config := config\<lparr>cfg_init_at_height := height, cfg_is_init := True\<rparr>\<rparr>))
         (emit_v2 (Initialized height))))))))"

section \<open>Calls\<close>

datatype (plugins only: code size) v2_call =
    AddValidator address b256 string string address string
  | DeactivateValidator u64
  | RotateValidator u64 b256 string string string
  | SetFeeRecipient u64 address
  | SetIpAddresses u64 string string
  | TransferValidatorOwnership u64 address
  | TransferOwnership address
  | SetNetworkIdentityRotationEpoch u64
  | MigrateValidator u64
  | InitializeIfMigrated

primrec v2_handle :: "address \<Rightarrow> v2_call \<Rightarrow> unit M" where
  "v2_handle s (AddValidator a key ingress egress fee_recipient sig) = void (add_validator s a key ingress egress fee_recipient sig)"
| "v2_handle s (DeactivateValidator i) = deactivate_validator s i"
| "v2_handle s (RotateValidator i key ingress egress sig) = rotate_validator s i key ingress egress sig"
| "v2_handle s (SetFeeRecipient i a) = set_fee_recipient s i a"
| "v2_handle s (SetIpAddresses i ingress egress) = set_ip_addresses s i ingress egress"
| "v2_handle s (TransferValidatorOwnership i a) = transfer_validator_ownership s i a"
| "v2_handle s (TransferOwnership a) = transfer_ownership s a"
| "v2_handle s (SetNetworkIdentityRotationEpoch epoch) = set_network_identity_rotation_epoch s epoch"
| "v2_handle s (MigrateValidator i) = migrate_validator s i"
| "v2_handle s InitializeIfMigrated = initialize_if_migrated s"

text \<open>Before T2 the contract is empty: a call succeeds and does nothing.\<close>

definition v2_dispatch :: "address \<Rightarrow> v2_call \<Rightarrow> unit M" where
  "v2_dispatch s c = rbind (gets spec) (\<lambda>sp. if \<not> T2 \<le> sp then ok () else v2_handle s c)"

end
