(* ===== verification/Validator_Index.thy ===== *)
theory Validator_Index
  imports Validator_Config_V2 Tip20_Frames
begin

text \<open>
  The index structure of the second validator configuration. What each operation does to the storage is stated by a
  function on the storage; the invariant is kept by these functions. It says that every record is found by its
  public key, that the list of active positions and the back pointers of the records agree, that an active record is
  found by its address and that the marked ingress keys are those of the active records.
\<close>

section \<open>The invariant\<close>

abbreviation record_at :: "validator_config_v2_storage \<Rightarrow> nat \<Rightarrow> validator_record" where
  "record_at c i \<equiv> sv_at (vc_validators c) i"

abbreviation records :: "validator_config_v2_storage \<Rightarrow> nat" where
  "records c \<equiv> sv_len (vc_validators c)"

definition live_record :: "validator_config_v2_storage \<Rightarrow> nat \<Rightarrow> bool" where
  "live_record c i \<longleftrightarrow> i < records c \<and> vr_deactivated_at_height (record_at c i) = 0"

definition keys_ok :: "validator_config_v2_storage \<Rightarrow> bool" where
  "keys_ok c \<longleftrightarrow> (\<forall>i<records c. vr_index (record_at c i) = i \<and> pubkey_to_index c (vr_public_key (record_at c i)) = i + 1)
    \<and> (\<forall>k. pubkey_to_index c k \<noteq> 0 \<longrightarrow> pubkey_to_index c k \<le> records c \<and> vr_public_key (record_at c (pubkey_to_index c k - 1)) = k)"

definition active_ok :: "validator_config_v2_storage \<Rightarrow> bool" where
  "active_ok c \<longleftrightarrow> records c < 2 ^ 32 \<and> sv_len (active_indices c) < 2 ^ 32
    \<and> (\<forall>i. live_record c i \<longrightarrow> vr_active_idx (record_at c i) \<noteq> 0 \<and> vr_active_idx (record_at c i) \<le> sv_len (active_indices c)
          \<and> sv_at (active_indices c) (vr_active_idx (record_at c i) - 1) = i + 1)
    \<and> (\<forall>i<records c. \<not> live_record c i \<longrightarrow> vr_active_idx (record_at c i) = 0)
    \<and> (\<forall>p < sv_len (active_indices c). \<exists>i. sv_at (active_indices c) p = i + 1 \<and> live_record c i \<and> vr_active_idx (record_at c i) = p + 1)"

definition addresses_ok :: "validator_config_v2_storage \<Rightarrow> bool" where
  "addresses_ok c \<longleftrightarrow> (\<forall>i. live_record c i \<longrightarrow> address_to_index c (vr_validator_address (record_at c i)) = i + 1)"

text \<open>The keys of ingress addresses are given by \<open>K\<close>, which has no value for a text that does not parse.\<close>

definition ingress_ok :: "(string \<Rightarrow> b256 option) \<Rightarrow> validator_config_v2_storage \<Rightarrow> bool" where
  "ingress_ok K c \<longleftrightarrow> (\<forall>h. active_ingress_ips c h \<longleftrightarrow> (\<exists>i. live_record c i \<and> K (vr_ingress (record_at c i)) = Some h))
    \<and> (\<forall>i j. live_record c i \<longrightarrow> live_record c j \<longrightarrow> K (vr_ingress (record_at c i)) = K (vr_ingress (record_at c j)) \<longrightarrow> i = j)"

definition endpoints_ok :: "validator_config_v2_storage \<Rightarrow> bool" where
  "endpoints_ok c \<longleftrightarrow> (\<forall>i<records c. ensure_address_is_ip_port (vr_ingress (record_at c i)) \<and> ensure_address_is_ip (vr_egress (record_at c i)))"

definition key_of :: "world \<Rightarrow> string \<Rightarrow> b256 option" where
  "key_of w s = (case ingress_key w s of Inl e \<Rightarrow> None | Inr h \<Rightarrow> Some h)"

definition index_ok :: "(string \<Rightarrow> b256 option) \<Rightarrow> validator_config_v2_storage \<Rightarrow> bool" where
  "index_ok K c \<longleftrightarrow> keys_ok c \<and> active_ok c \<and> addresses_ok c \<and> ingress_ok K c \<and> endpoints_ok c"

section \<open>Appending a record\<close>

definition appended_record where
  "appended_record c a k ing eg fr h d =
    \<lparr>vr_public_key = k, vr_validator_address = a, vr_ingress = ing, vr_egress = eg, vr_fee_recipient = fr, vr_index = records c,
     vr_active_idx = (if d = 0 then sv_len (active_indices c) + 1 else 0), vr_added_at_height = h, vr_deactivated_at_height = d\<rparr>"

definition push_on :: "'a \<Rightarrow> 'a svec \<Rightarrow> 'a svec" where
  "push_on x v = v\<lparr>sv_at := (sv_at v)(sv_len v := x), sv_len := sv_len v + 1\<rparr>"

lemma push_on_sel [simp]: "sv_len (push_on x v) = sv_len v + 1" "sv_at (push_on x v) = (sv_at v)(sv_len v := x)"
  by (simp_all add: push_on_def)

definition with_record where
  "with_record c a k ing eg fr h d = c\<lparr>vc_validators := push_on (appended_record c a k ing eg fr h d) (vc_validators c),
     active_indices := (if d = 0 then push_on (records c + 1) (active_indices c) else active_indices c),
     pubkey_to_index := (pubkey_to_index c)(k := records c + 1), address_to_index := (address_to_index c)(a := records c + 1)\<rparr>"

lemma sv_push_on: "sv_push m x v = Some v' \<longleftrightarrow> sv_len v < m \<and> v' = push_on x v"
  by (auto simp: sv_push_def push_on_def)

lemma append_run:
  assumes "append_validator a k ing eg fr h d w = Inr (i, w')"
  shows "w' = w\<lparr>validator_config_v2 := with_record (v2 w) a k ing eg fr h d\<rparr>" "i = records (v2 w)"
    "records (v2 w) < (2 ^ 32 - 1) div 6" "d = 0 \<Longrightarrow> sv_len (active_indices (v2 w)) < (2 ^ 32 - 1) div 8"
  using assms
  by (auto simp: append_validator_def push_active_def push_validator_def set_pubkey_index_def set_address_index_def upd_v2_def
      v2_validator_count_def runs sv_push_on with_record_def appended_record_def split: if_splits)

lemma live_with_record:
  "live_record (with_record c a k ing eg fr h d) i \<longleftrightarrow> live_record c i \<or> i = records c \<and> d = 0"
  by (auto simp: live_record_def with_record_def appended_record_def)

lemma with_record_sel [simp]:
  "records (with_record c a k ing eg fr h d) = records c + 1"
  "record_at (with_record c a k ing eg fr h d) i = (if i = records c then appended_record c a k ing eg fr h d else record_at c i)"
  "address_to_index (with_record c a k ing eg fr h d) = (address_to_index c)(a := records c + 1)"
  "pubkey_to_index (with_record c a k ing eg fr h d) = (pubkey_to_index c)(k := records c + 1)"
  "active_ingress_ips (with_record c a k ing eg fr h d) = active_ingress_ips c"
  "active_indices (with_record c a k ing eg fr h d) = (if d = 0 then push_on (records c + 1) (active_indices c) else active_indices c)"
  by (simp_all add: with_record_def)

lemma appended_record_sel [simp]:
  "vr_public_key (appended_record c a k ing eg fr h d) = k" "vr_validator_address (appended_record c a k ing eg fr h d) = a"
  "vr_ingress (appended_record c a k ing eg fr h d) = ing" "vr_egress (appended_record c a k ing eg fr h d) = eg"
  "vr_index (appended_record c a k ing eg fr h d) = records c" "vr_deactivated_at_height (appended_record c a k ing eg fr h d) = d"
  "vr_active_idx (appended_record c a k ing eg fr h d) = (if d = 0 then sv_len (active_indices c) + 1 else 0)"
  by (simp_all add: appended_record_def)

lemma not_live [simp]: "\<not> live_record c (records c)"
  by (simp add: live_record_def)

lemma live_less: "live_record c i \<Longrightarrow> i < records c"
  by (simp add: live_record_def)

lemma keys_append: "keys_ok c \<Longrightarrow> pubkey_to_index c k = 0 \<Longrightarrow> keys_ok (with_record c a k ing eg fr h d)"
  by (auto simp: keys_ok_def less_Suc_eq intro: le_SucI)

lemma active_append:
  assumes ok: "active_ok c" and "records c + 1 < 2 ^ 32" "d = 0 \<Longrightarrow> sv_len (active_indices c) + 1 < 2 ^ 32"
  shows "active_ok (with_record c a k ing eg fr h d)"
  unfolding active_ok_def
proof (intro conjI allI impI)
  let ?c = "with_record c a k ing eg fr h d"
  fix p assume p: "p < sv_len (active_indices ?c)"
  show "\<exists>i. sv_at (active_indices ?c) p = i + 1 \<and> live_record ?c i \<and> vr_active_idx (record_at ?c i) = p + 1"
  proof (cases "p < sv_len (active_indices c)")
    case True
    then obtain i where "sv_at (active_indices c) p = i + 1" "live_record c i" "vr_active_idx (record_at c i) = p + 1"
      using ok unfolding active_ok_def by blast
    then show ?thesis
      using True live_less [of c i] by (intro exI [of _ i]) (simp add: live_with_record)
  next
    case False
    then show ?thesis
      using p by (intro exI [of _ "records c"]) (simp add: live_with_record split: if_splits)
  qed
qed (use assms live_less [of c] in \<open>auto simp: active_ok_def live_with_record less_Suc_eq split: if_splits\<close>)

lemma addresses_append:
  assumes "addresses_ok c" "\<And>i. live_record c i \<Longrightarrow> vr_validator_address (record_at c i) \<noteq> a"
  shows "addresses_ok (with_record c a k ing eg fr h d)"
  using assms live_less [of c] by (auto simp: addresses_ok_def live_with_record)

lemma endpoints_append:
  "endpoints_ok c \<Longrightarrow> ensure_address_is_ip_port ing \<Longrightarrow> ensure_address_is_ip eg \<Longrightarrow> endpoints_ok (with_record c a k ing eg fr h d)"
  by (auto simp: endpoints_ok_def less_Suc_eq)

lemma ips_sel [simp]:
  "live_record (c\<lparr>active_ingress_ips := f\<rparr>) = live_record c" "keys_ok (c\<lparr>active_ingress_ips := f\<rparr>) = keys_ok c"
  "active_ok (c\<lparr>active_ingress_ips := f\<rparr>) = active_ok c" "addresses_ok (c\<lparr>active_ingress_ips := f\<rparr>) = addresses_ok c"
  "endpoints_ok (c\<lparr>active_ingress_ips := f\<rparr>) = endpoints_ok c"
  by (simp_all add: live_record_def keys_ok_def active_ok_def addresses_ok_def endpoints_ok_def fun_eq_iff)

lemma with_record_ips: "with_record (c\<lparr>active_ingress_ips := f\<rparr>) a k ing eg fr h d = (with_record c a k ing eg fr h d)\<lparr>active_ingress_ips := f\<rparr>"
  by (simp add: with_record_def appended_record_def)

lemma ingress_marked: "ingress_ok K c \<Longrightarrow> live_record c i \<Longrightarrow> K (vr_ingress (record_at c i)) = Some h \<Longrightarrow> active_ingress_ips c h"
  unfolding ingress_ok_def by blast

lemma ingress_append:
  assumes ok: "ingress_ok K c" and "K ing = Some h" "\<not> active_ingress_ips c h"
  shows "ingress_ok K ((with_record c a k ing eg fr n 0)\<lparr>active_ingress_ips := (active_ingress_ips c)(h := True)\<rparr>)"
proof -
  let ?c = "with_record c a k ing eg fr n 0"
  have new: "K (vr_ingress (record_at c i)) \<noteq> Some h" if "live_record c i" for i
    using ingress_marked [OF ok that] assms(3) by blast
  have at: "live_record ?c i \<and> K (vr_ingress (record_at ?c i)) = Some x \<longleftrightarrow>
      live_record c i \<and> K (vr_ingress (record_at c i)) = Some x \<or> i = records c \<and> x = h" for i x
    using live_less [of c i] assms(2) by (auto simp: live_with_record)
  have "((active_ingress_ips c)(h := True)) x \<longleftrightarrow> (\<exists>i. live_record ?c i \<and> K (vr_ingress (record_at ?c i)) = Some x)" for x
    unfolding at using ok by (auto simp: ingress_ok_def)
  moreover have "i = j" if "live_record ?c i" "live_record ?c j" "K (vr_ingress (record_at ?c i)) = K (vr_ingress (record_at ?c j))" for i j
    using that new [of i] new [of j] live_less [of c i] live_less [of c j] assms(2) ok
    by (auto simp: live_with_record ingress_ok_def)
  ultimately show ?thesis
    by (simp add: ingress_ok_def)
qed

lemma ingress_append_inactive:
  assumes "ingress_ok K c" "d \<noteq> 0"
  shows "ingress_ok K (with_record c a k ing eg fr n d)"
proof -
  let ?c = "with_record c a k ing eg fr n d"
  have "live_record ?c i \<longleftrightarrow> live_record c i" "live_record c i \<Longrightarrow> record_at ?c i = record_at c i" for i
    using assms(2) live_less [of c i] by (auto simp: live_with_record)
  then show ?thesis
    using assms(1) unfolding ingress_ok_def by (simp cong: conj_cong)
qed

section \<open>Deactivating a record\<close>

definition deactivated :: "validator_config_v2_storage \<Rightarrow> nat \<Rightarrow> u64 \<Rightarrow> b256 \<Rightarrow> validator_config_v2_storage" where
  "deactivated c i height h =
    (let p = vr_active_idx (record_at c i) - 1; q = sv_len (active_indices c) - 1; m = sv_at (active_indices c) q - 1 in
     c\<lparr>active_ingress_ips := (active_ingress_ips c)(h := False),
       active_indices := (active_indices c)\<lparr>sv_len := q, sv_at := (sv_at (active_indices c))(p := m + 1, q := 0)\<rparr>,
       vc_validators := (vc_validators c)\<lparr>sv_at := (sv_at (vc_validators c))
         (m := (record_at c m)\<lparr>vr_active_idx := p + 1\<rparr>,
          i := (record_at c i)\<lparr>vr_active_idx := 0, vr_deactivated_at_height := height\<rparr>)\<rparr>\<rparr>)"

lemma sub64_le: "b \<le> a \<Longrightarrow> a < 2 ^ 64 \<Longrightarrow> sub64 a b = a - b"
proof -
  assume "b \<le> a" "a < 2 ^ 64"
  then have "a + 2 ^ 64 - b = a - b + 2 ^ 64"
    by simp
  then show ?thesis
    using \<open>a < 2 ^ 64\<close> by (simp only: sub64_def mod_add_self2) simp
qed

text \<open>An active record has its place in the list, and the last place belongs to an active record.\<close>

lemma active_place:
  assumes "active_ok c" "live_record c i"
  obtains m where "vr_active_idx (record_at c i) \<noteq> 0" "vr_active_idx (record_at c i) \<le> sv_len (active_indices c)"
    "sv_at (active_indices c) (vr_active_idx (record_at c i) - 1) = i + 1"
    "sv_at (active_indices c) (sv_len (active_indices c) - 1) = m + 1" "live_record c m" "vr_active_idx (record_at c m) = sv_len (active_indices c)"
proof -
  have a: "vr_active_idx (record_at c i) \<noteq> 0" "vr_active_idx (record_at c i) \<le> sv_len (active_indices c)"
    "sv_at (active_indices c) (vr_active_idx (record_at c i) - 1) = i + 1"
    using assms live_less [OF assms(2)] by (auto simp: active_ok_def)
  then have "sv_len (active_indices c) - 1 < sv_len (active_indices c)"
    by simp
  then obtain m where "sv_at (active_indices c) (sv_len (active_indices c) - 1) = m + 1" "live_record c m"
      "vr_active_idx (record_at c m) = sv_len (active_indices c) - 1 + 1"
    using assms(1) unfolding active_ok_def by blast
  then show ?thesis
    using that a by simp
qed

lemma live_deactivated:
  assumes "active_ok c" "live_record c i" "height \<noteq> 0"
  shows "live_record (deactivated c i height h) j \<longleftrightarrow> live_record c j \<and> j \<noteq> i"
  using assms by (auto simp: live_record_def deactivated_def Let_def)

lemma active_deactivated:
  assumes ok: "active_ok c" and i: "live_record c i" and "height \<noteq> 0"
  shows "active_ok (deactivated c i height h)"
proof -
  let ?c = "deactivated c i height h" and ?n = "sv_len (active_indices c)" and ?p = "vr_active_idx (record_at c i) - 1"
  obtain m where p: "vr_active_idx (record_at c i) \<noteq> 0" "vr_active_idx (record_at c i) \<le> ?n" "sv_at (active_indices c) ?p = i + 1"
    and m: "sv_at (active_indices c) (?n - 1) = m + 1" "live_record c m" "vr_active_idx (record_at c m) = ?n"
    using active_place [OF ok i] by blast
  have at: "sv_at (active_indices ?c) = (sv_at (active_indices c))(?p := m + 1, ?n - 1 := 0)" "sv_len (active_indices ?c) = ?n - 1"
    "records ?c = records c" "record_at ?c j = (if j = i then (record_at c i)\<lparr>vr_active_idx := 0, vr_deactivated_at_height := height\<rparr>
      else if j = m then (record_at c m)\<lparr>vr_active_idx := ?p + 1\<rparr> else record_at c j)" for j
    using m(1) by (simp_all add: deactivated_def Let_def)
  note live = live_deactivated [OF ok i assms(3)]
  have place: "vr_active_idx (record_at c j) \<noteq> 0" "vr_active_idx (record_at c j) \<le> ?n"
      "sv_at (active_indices c) (vr_active_idx (record_at c j) - 1) = j + 1" if "live_record c j" for j
    using ok that live_less [OF that] by (auto simp: active_ok_def)
  have inj: "j = k" if "live_record c j" "live_record c k" "vr_active_idx (record_at c j) = vr_active_idx (record_at c k)" for j k
    using place [OF that(1)] place [OF that(2)] that(3) by simp
  have last: "m = i" if "?p = ?n - 1"
    using inj [OF m(2) i] m(3) p that by simp
  show ?thesis
    unfolding active_ok_def
  proof (intro conjI allI impI)
    fix j assume "live_record ?c j"
    then have j: "live_record c j" "j \<noteq> i"
      by (simp_all add: live)
    then have "vr_active_idx (record_at c j) \<noteq> vr_active_idx (record_at c i)" "j \<noteq> m \<Longrightarrow> vr_active_idx (record_at c j) \<noteq> ?n"
      using inj i m by auto
    moreover have "j = m \<Longrightarrow> ?p \<noteq> ?n - 1"
      using last j(2) by auto
    ultimately show "vr_active_idx (record_at ?c j) \<noteq> 0" "vr_active_idx (record_at ?c j) \<le> sv_len (active_indices ?c)"
        "sv_at (active_indices ?c) (vr_active_idx (record_at ?c j) - 1) = j + 1"
      using j place [OF j(1)] p by (auto simp: at)
  next
    fix q assume q: "q < sv_len (active_indices ?c)"
    then have "q < ?n"
      by (simp add: at)
    then obtain j where j: "sv_at (active_indices c) q = j + 1" "live_record c j" "vr_active_idx (record_at c j) = q + 1"
      using ok unfolding active_ok_def by blast
    show "\<exists>j. sv_at (active_indices ?c) q = j + 1 \<and> live_record ?c j \<and> vr_active_idx (record_at ?c j) = q + 1"
    proof (cases "q = ?p")
      case True
      then have "m \<noteq> i"
        using q m(3) p by (auto simp: at)
      then show ?thesis
        using True q m p by (intro exI [of _ m]) (simp add: at live)
    next
      case False
      then have "j \<noteq> i" "j \<noteq> m"
        using q m(3) p j by (auto simp: at)
      then show ?thesis
        using False q j by (intro exI [of _ j]) (simp add: at live)
    qed
  qed (use ok m(2) in \<open>auto simp: at live active_ok_def\<close>)
qed

lemma deactivated_fields [simp]:
  "records (deactivated c i height h) = records c"
  "vr_public_key (record_at (deactivated c i height h) j) = vr_public_key (record_at c j)"
  "vr_validator_address (record_at (deactivated c i height h) j) = vr_validator_address (record_at c j)"
  "vr_ingress (record_at (deactivated c i height h) j) = vr_ingress (record_at c j)"
  "vr_egress (record_at (deactivated c i height h) j) = vr_egress (record_at c j)"
  "vr_index (record_at (deactivated c i height h) j) = vr_index (record_at c j)"
  "pubkey_to_index (deactivated c i height h) = pubkey_to_index c"
  "address_to_index (deactivated c i height h) = address_to_index c"
  "active_ingress_ips (deactivated c i height h) = (active_ingress_ips c)(h := False)"
  by (simp_all add: deactivated_def Let_def)

lemma index_deactivated:
  assumes ok: "index_ok K c" and i: "live_record c i" "height \<noteq> 0" "K (vr_ingress (record_at c i)) = Some h"
  shows "index_ok K (deactivated c i height h)"
proof -
  let ?c = "deactivated c i height h"
  have oks: "keys_ok c" "active_ok c" "addresses_ok c" "ingress_ok K c" "endpoints_ok c"
    using ok by (simp_all add: index_ok_def)
  note live = live_deactivated [OF oks(2) i(1,2)]
  have "ingress_ok K ?c"
  proof -
    have "K (vr_ingress (record_at c j)) \<noteq> Some h" if "live_record c j" "j \<noteq> i" for j
      using oks(4) i(1,3) that unfolding ingress_ok_def by metis
    then show ?thesis
      using oks(4) i(3) unfolding ingress_ok_def live by auto
  qed
  then show ?thesis
    using oks active_deactivated [OF oks(2) i(1,2)] by (simp add: index_ok_def keys_ok_def addresses_ok_def endpoints_ok_def live)
qed

section \<open>Changing a record\<close>

definition changed :: "validator_config_v2_storage \<Rightarrow> nat \<Rightarrow> validator_record \<Rightarrow> validator_config_v2_storage" where
  "changed c i r = c\<lparr>vc_validators := sv_set i r (vc_validators c)\<rparr>"

lemma changed_sel [simp]:
  "records (changed c i r) = records c" "record_at (changed c i r) j = (if j = i then r else record_at c j)"
  "pubkey_to_index (changed c i r) = pubkey_to_index c" "address_to_index (changed c i r) = address_to_index c"
  "active_ingress_ips (changed c i r) = active_ingress_ips c" "active_indices (changed c i r) = active_indices c"
  by (simp_all add: changed_def sv_set_def)

definition same_activity :: "validator_record \<Rightarrow> validator_record \<Rightarrow> bool" where
  "same_activity r r' \<longleftrightarrow> vr_active_idx r' = vr_active_idx r \<and> vr_deactivated_at_height r' = vr_deactivated_at_height r"

lemma live_changed: "same_activity (record_at c i) r \<Longrightarrow> live_record (changed c i r) = live_record c"
  by (auto simp: live_record_def same_activity_def fun_eq_iff)

lemma active_cong:
  assumes "active_ok c" "live_record c' = live_record c" "active_indices c' = active_indices c" "records c' < 2 ^ 32"
    "\<And>j. live_record c j \<Longrightarrow> vr_active_idx (record_at c' j) = vr_active_idx (record_at c j)"
    "\<And>j. j < records c' \<Longrightarrow> \<not> live_record c j \<Longrightarrow> vr_active_idx (record_at c' j) = 0"
  shows "active_ok c'"
proof -
  have "live_record c j \<and> vr_active_idx (record_at c' j) = x \<longleftrightarrow> live_record c j \<and> vr_active_idx (record_at c j) = x" for j x
    using assms(5) by auto
  then show ?thesis
    using assms unfolding active_ok_def by simp
qed

lemma active_dead: "active_ok c \<Longrightarrow> j < records c \<Longrightarrow> \<not> live_record c j \<Longrightarrow> vr_active_idx (record_at c j) = 0"
  by (simp add: active_ok_def)

lemma active_small: "active_ok c \<Longrightarrow> records c < 2 ^ 32"
  by (simp add: active_ok_def)

lemma index_okD:
  assumes "index_ok K c"
  shows "keys_ok c" "active_ok c" "addresses_ok c" "ingress_ok K c" "endpoints_ok c"
  using assms by (simp_all add: index_ok_def)

lemma active_changed: "active_ok c \<Longrightarrow> same_activity (record_at c i) r \<Longrightarrow> active_ok (changed c i r)"
  by (rule active_cong) (auto simp: live_changed same_activity_def active_ok_def)

lemma keys_changed:
  "keys_ok c \<Longrightarrow> vr_public_key r = vr_public_key (record_at c i) \<Longrightarrow> vr_index r = vr_index (record_at c i) \<Longrightarrow> keys_ok (changed c i r)"
  by (auto simp: keys_ok_def)

lemma endpoints_changed:
  "endpoints_ok c \<Longrightarrow> ensure_address_is_ip_port (vr_ingress r) \<Longrightarrow> ensure_address_is_ip (vr_egress r) \<Longrightarrow> endpoints_ok (changed c i r)"
  by (auto simp: endpoints_ok_def)

lemma addresses_changed:
  "addresses_ok c \<Longrightarrow> same_activity (record_at c i) r \<Longrightarrow> vr_validator_address r = vr_validator_address (record_at c i) \<Longrightarrow>
    addresses_ok (changed c i r)"
  by (auto simp: addresses_ok_def live_changed)

text \<open>The marks follow the ingress of one active record.\<close>

definition moved_mark :: "b256 \<Rightarrow> b256 \<Rightarrow> (b256 \<Rightarrow> bool) \<Rightarrow> b256 \<Rightarrow> bool" where
  "moved_mark old new f = (if old = new then f else f(old := False, new := True))"

lemma ingress_moved:
  assumes ok: "ingress_ok K c" and i: "live_record c i" "K (vr_ingress (record_at c i)) = Some old"
    and new: "K ing = Some new" "new \<noteq> old \<Longrightarrow> \<not> active_ingress_ips c new"
    and c': "live_record c' = live_record c" "vr_ingress (record_at c' i) = ing"
      "\<And>j. live_record c j \<Longrightarrow> j \<noteq> i \<Longrightarrow> vr_ingress (record_at c' j) = vr_ingress (record_at c j)"
      "active_ingress_ips c' = moved_mark old new (active_ingress_ips c)"
  shows "ingress_ok K c'"
proof -
  have other: "K (vr_ingress (record_at c j)) \<noteq> Some old" "K (vr_ingress (record_at c j)) \<noteq> Some new" if "live_record c j" "j \<noteq> i" for j
  proof -
    show 1: "K (vr_ingress (record_at c j)) \<noteq> Some old"
      using ok i that unfolding ingress_ok_def by metis
    show "K (vr_ingress (record_at c j)) \<noteq> Some new"
      using 1 new(2) ingress_marked [OF ok that(1)] by blast
  qed
  have at: "live_record c' j \<and> K (vr_ingress (record_at c' j)) = Some x \<longleftrightarrow>
      j = i \<and> x = new \<or> j \<noteq> i \<and> live_record c j \<and> K (vr_ingress (record_at c j)) = Some x" for j x
    using c' i(1) new(1) by (cases "j = i") auto
  have "active_ingress_ips c' x \<longleftrightarrow> (\<exists>j. live_record c' j \<and> K (vr_ingress (record_at c' j)) = Some x)" for x
  proof -
    have "active_ingress_ips c x \<longleftrightarrow> x = old \<or> (\<exists>j. j \<noteq> i \<and> live_record c j \<and> K (vr_ingress (record_at c j)) = Some x)"
      using ok i unfolding ingress_ok_def by (metis option.inject)
    then show ?thesis
      unfolding at c'(4) moved_mark_def using other by auto
  qed
  moreover have "j = k" if "live_record c' j" "live_record c' k" "K (vr_ingress (record_at c' j)) = K (vr_ingress (record_at c' k))" for j k
    using that other [of j] other [of k] c'(1-3) new(1) ok unfolding ingress_ok_def by (cases "j = i"; cases "k = i") auto
  ultimately show ?thesis
    by (simp add: ingress_ok_def)
qed

lemma ingress_cong:
  assumes "ingress_ok K c" "live_record c' = live_record c" "active_ingress_ips c' = active_ingress_ips c"
    "\<And>j. vr_ingress (record_at c' j) = vr_ingress (record_at c j)"
  shows "ingress_ok K c'"
  using assms(1) unfolding ingress_ok_def assms(2-4) .

lemma index_endpoints:
  assumes ok: "index_ok K c" and i: "live_record c i" "K (vr_ingress (record_at c i)) = Some old"
    and new: "K ing = Some new" "new \<noteq> old \<Longrightarrow> \<not> active_ingress_ips c new" "ensure_address_is_ip_port ing" "ensure_address_is_ip eg"
  shows "index_ok K ((changed c i ((record_at c i)\<lparr>vr_ingress := ing, vr_egress := eg\<rparr>))\<lparr>active_ingress_ips := moved_mark old new (active_ingress_ips c)\<rparr>)"
proof -
  let ?r = "(record_at c i)\<lparr>vr_ingress := ing, vr_egress := eg\<rparr>"
  have same: "same_activity (record_at c i) ?r"
    by (simp add: same_activity_def)
  have "ingress_ok K ((changed c i ?r)\<lparr>active_ingress_ips := moved_mark old new (active_ingress_ips c)\<rparr>)"
    by (rule ingress_moved [OF _ i new(1,2)]) (use ok in \<open>simp_all add: index_ok_def live_changed [OF same]\<close>)
  then show ?thesis
    using ok new(3,4) same by (simp add: index_ok_def active_changed keys_changed addresses_changed endpoints_changed)
qed

lemma index_fee:
  assumes "index_ok K c" "i < records c"
  shows "index_ok K (changed c i ((record_at c i)\<lparr>vr_fee_recipient := a\<rparr>))"
proof -
  let ?r = "(record_at c i)\<lparr>vr_fee_recipient := a\<rparr>"
  have same: "same_activity (record_at c i) ?r"
    by (simp add: same_activity_def)
  moreover have "ingress_ok K (changed c i ?r)"
    by (rule ingress_cong [OF index_okD(4) [OF assms(1)] live_changed [OF same]]) simp_all
  ultimately show ?thesis
    using assms by (simp add: index_ok_def active_changed keys_changed addresses_changed endpoints_changed endpoints_ok_def)
qed

definition transferred :: "validator_config_v2_storage \<Rightarrow> nat \<Rightarrow> address \<Rightarrow> validator_config_v2_storage" where
  "transferred c i a = (changed c i ((record_at c i)\<lparr>vr_validator_address := a\<rparr>))
    \<lparr>address_to_index := (address_to_index c)(vr_validator_address (record_at c i) := 0, a := i + 1)\<rparr>"

lemma transferred_sel [simp]:
  "records (transferred c i a) = records c"
  "record_at (transferred c i a) j = (if j = i then (record_at c i)\<lparr>vr_validator_address := a\<rparr> else record_at c j)"
  "pubkey_to_index (transferred c i a) = pubkey_to_index c"
  "address_to_index (transferred c i a) = (address_to_index c)(vr_validator_address (record_at c i) := 0, a := i + 1)"
  "active_ingress_ips (transferred c i a) = active_ingress_ips c" "active_indices (transferred c i a) = active_indices c"
  by (simp_all add: transferred_def)

lemma index_transferred:
  assumes ok: "index_ok K c" and i: "live_record c i"
    and new: "\<And>j. live_record c j \<Longrightarrow> vr_validator_address (record_at c j) \<noteq> a"
  shows "index_ok K (transferred c i a)"
proof -
  let ?c = "transferred c i a"
  have live: "live_record ?c = live_record c"
    by (auto simp: live_record_def fun_eq_iff)
  have at: "address_to_index c (vr_validator_address (record_at c j)) = j + 1" if "live_record c j" for j
    using ok that by (simp add: index_ok_def addresses_ok_def)
  have found: "address_to_index ?c (vr_validator_address (record_at ?c j)) = j + 1" if j: "live_record c j" for j
  proof (cases "j = i")
    case False
    then have "vr_validator_address (record_at c j) \<noteq> vr_validator_address (record_at c i)"
      using at [OF j] at [OF i] by auto
    then show ?thesis
      using False at [OF j] new [OF j] by simp
  qed simp
  have "addresses_ok ?c"
    unfolding addresses_ok_def live by (intro allI impI found)
  moreover have "active_ok ?c"
    using active_small [OF index_okD(2) [OF ok]] active_dead [OF index_okD(2) [OF ok]]
    by (intro active_cong [OF index_okD(2) [OF ok] live]) auto
  moreover have "ingress_ok K ?c"
    by (rule ingress_cong [OF index_okD(4) [OF ok] live]) simp_all
  moreover have "keys_ok ?c" "endpoints_ok ?c"
    using index_okD(1,5) [OF ok] by (auto simp: keys_ok_def endpoints_ok_def)
  ultimately show ?thesis
    unfolding index_ok_def by (intro conjI)
qed

section \<open>Rotating a record\<close>

definition rotated :: "validator_config_v2_storage \<Rightarrow> nat \<Rightarrow> b256 \<Rightarrow> string \<Rightarrow> string \<Rightarrow> u64 \<Rightarrow> validator_config_v2_storage" where
  "rotated c i k ing eg height = c\<lparr>vc_validators :=
      push_on ((record_at c i)\<lparr>vr_index := records c, vr_active_idx := 0, vr_deactivated_at_height := height\<rparr>)
        (sv_set i ((record_at c i)\<lparr>vr_public_key := k, vr_ingress := ing, vr_egress := eg, vr_added_at_height := height\<rparr>) (vc_validators c)),
     pubkey_to_index := (pubkey_to_index c)(vr_public_key (record_at c i) := records c + 1, k := i + 1)\<rparr>"

lemma rotated_sel [simp]:
  "records (rotated c i k ing eg height) = records c + 1"
  "record_at (rotated c i k ing eg height) j =
    (if j = records c then (record_at c i)\<lparr>vr_index := records c, vr_active_idx := 0, vr_deactivated_at_height := height\<rparr>
     else if j = i then (record_at c i)\<lparr>vr_public_key := k, vr_ingress := ing, vr_egress := eg, vr_added_at_height := height\<rparr>
     else record_at c j)"
  "pubkey_to_index (rotated c i k ing eg height) = (pubkey_to_index c)(vr_public_key (record_at c i) := records c + 1, k := i + 1)"
  "address_to_index (rotated c i k ing eg height) = address_to_index c"
  "active_ingress_ips (rotated c i k ing eg height) = active_ingress_ips c" "active_indices (rotated c i k ing eg height) = active_indices c"
  by (simp_all add: rotated_def sv_set_def)

lemma live_rotated: "i < records c \<Longrightarrow> height \<noteq> 0 \<Longrightarrow> live_record (rotated c i k ing eg height) = live_record c"
  by (auto simp: live_record_def fun_eq_iff)

lemma keys_rotated:
  assumes ok: "keys_ok c" and i: "i < records c" and k: "pubkey_to_index c k = 0"
  shows "keys_ok (rotated c i k ing eg height)"
proof -
  let ?old = "vr_public_key (record_at c i)"
  have at: "pubkey_to_index c (vr_public_key (record_at c j)) = j + 1" "vr_index (record_at c j) = j" if "j < records c" for j
    using ok that by (simp_all add: keys_ok_def)
  have ne: "vr_public_key (record_at c j) \<noteq> k" "j \<noteq> i \<Longrightarrow> vr_public_key (record_at c j) \<noteq> ?old" if "j < records c" for j
    using at(1) [OF that] at(1) [OF i] k by auto
  have named: "pubkey_to_index c x \<le> records c \<and> vr_public_key (record_at c (pubkey_to_index c x - 1)) = x" if "pubkey_to_index c x \<noteq> 0" for x
    using ok that by (simp add: keys_ok_def)
  show ?thesis
    unfolding keys_ok_def
  proof (intro conjI allI impI)
    fix x assume x: "pubkey_to_index (rotated c i k ing eg height) x \<noteq> 0"
    show "pubkey_to_index (rotated c i k ing eg height) x \<le> records (rotated c i k ing eg height)"
      using x i named [of x] by (auto split: if_splits)
    show "vr_public_key (record_at (rotated c i k ing eg height) (pubkey_to_index (rotated c i k ing eg height) x - 1)) = x"
      using x i named [of x] ne(1) [OF i] by (auto split: if_splits)
  qed (use at ne i in \<open>auto simp: less_Suc_eq\<close>)
qed

lemma index_rotated:
  assumes ok: "index_ok K c" and i: "live_record c i" "K (vr_ingress (record_at c i)) = Some old" and h: "height \<noteq> 0" "records c + 1 < 2 ^ 32"
    and new: "K ing = Some new" "\<not> active_ingress_ips c new" "ensure_address_is_ip_port ing" "ensure_address_is_ip eg" "pubkey_to_index c k = 0"
  shows "index_ok K ((rotated c i k ing eg height)\<lparr>active_ingress_ips := moved_mark old new (active_ingress_ips c)\<rparr>)"
proof -
  let ?c = "rotated c i k ing eg height"
  note less = live_less [OF i(1)] live_less [of c]
  note live = live_rotated [OF less(1) h(1)]
  have "ingress_ok K (?c\<lparr>active_ingress_ips := moved_mark old new (active_ingress_ips c)\<rparr>)"
    by (rule ingress_moved [OF index_okD(4) [OF ok] i new(1)]) (use new(2) less in \<open>auto simp: live\<close>)
  moreover have "active_ok ?c"
    using h(2) less i(1) active_dead [OF index_okD(2) [OF ok]]
    by (intro active_cong [OF index_okD(2) [OF ok] live]) (auto simp: less_Suc_eq)
  moreover have "addresses_ok ?c"
    using index_okD(3) [OF ok] less(2) unfolding addresses_ok_def live by auto
  moreover have "endpoints_ok ?c"
    using index_okD(5) [OF ok] new(3,4) less(1) by (auto simp: endpoints_ok_def less_Suc_eq)
  ultimately show ?thesis
    using keys_rotated [OF index_okD(1) [OF ok] less(1) new(5)] by (simp add: index_ok_def)
qed

end
