(* ===== verification/Validator_Safety.thy ===== *)
theory Validator_Safety
  imports Validator_Index
begin

text \<open>
  Properties of the second validator configuration over all histories. Every call makes a few steps of the relation
  \<open>index_step\<close> on the storage, each with the authority it needs. The invariant of the index and what a history
  keeps are proved by induction over these steps.
\<close>

section \<open>Steps of the storage\<close>

abbreviation owner_of :: "world \<Rightarrow> address" where
  "owner_of w \<equiv> cfg_owner (vc_config (v2 w))"

text \<open>A call that carries a signature of the key, for the addition or for the rotation of a record.\<close>

definition signed_key :: "world \<Rightarrow> v2_call \<Rightarrow> b256 \<Rightarrow> bool" where
  "signed_key w q k =
    (case q of
       AddValidator a k' ing eg fr sig \<Rightarrow> k' = k \<and> ed25519_verify w k VALIDATOR_NS_ADD (validator_message w (SignAdd fr) a ing eg) sig
     | RotateValidator i k' ing eg sig \<Rightarrow> k' = k \<and> ed25519_verify w k VALIDATOR_NS_ROTATE
         (validator_message w SignRotate (vr_validator_address (read_validator_at w i)) ing eg) sig
     | _ \<Rightarrow> False)"

text \<open>During the migration the owner is the one of the first configuration, until it is copied.\<close>

definition migrates :: "world \<Rightarrow> address \<Rightarrow> v2_call \<Rightarrow> bool" where
  "migrates w s q \<longleftrightarrow> (case q of MigrateValidator i \<Rightarrow> True | _ \<Rightarrow> False) \<and> \<not> cfg_is_init (vc_config (v2 w))
    \<and> s = (if owner_of w = 0 then v1_owner (validator_config w) else owner_of w)"

inductive index_step :: "world \<Rightarrow> address \<Rightarrow> v2_call \<Rightarrow> validator_config_v2_storage \<Rightarrow> validator_config_v2_storage \<Rightarrow> bool" for w s q where
  config: "index_step w s q c (c\<lparr>vc_config := g, next_network_identity_rotation_epoch := e\<rparr>)"
| add: "pubkey_to_index c k = 0 \<Longrightarrow> (\<And>j. live_record c j \<Longrightarrow> vr_validator_address (record_at c j) \<noteq> a) \<Longrightarrow>
    ensure_address_is_ip_port ing \<Longrightarrow> ensure_address_is_ip eg \<Longrightarrow> key_of w ing = Some h \<Longrightarrow> \<not> active_ingress_ips c h \<Longrightarrow>
    records c + 1 < 2 ^ 32 \<Longrightarrow> sv_len (active_indices c) + 1 < 2 ^ 32 \<Longrightarrow> signed_key w q k \<and> s = owner_of w \<or> migrates w s q \<Longrightarrow>
    index_step w s q c ((with_record c a k ing eg fr height 0)\<lparr>active_ingress_ips := (active_ingress_ips c)(h := True)\<rparr>)"
| keep: "pubkey_to_index c k = 0 \<Longrightarrow> (\<And>j. live_record c j \<Longrightarrow> vr_validator_address (record_at c j) \<noteq> a) \<Longrightarrow>
    ensure_address_is_ip_port ing \<Longrightarrow> ensure_address_is_ip eg \<Longrightarrow> records c + 1 < 2 ^ 32 \<Longrightarrow> migrates w s q \<Longrightarrow>
    d \<noteq> 0 \<Longrightarrow> index_step w s q c (with_record c a k ing eg fr height d)"
| deactivate: "live_record c i \<Longrightarrow> key_of w (vr_ingress (record_at c i)) = Some h \<Longrightarrow>
    s = owner_of w \<or> s = vr_validator_address (record_at c i) \<Longrightarrow> index_step w s q c (deactivated c i (block_number w) h)"
| endpoints: "live_record c i \<Longrightarrow> key_of w (vr_ingress (record_at c i)) = Some old \<Longrightarrow> key_of w ing = Some new \<Longrightarrow>
    (new \<noteq> old \<Longrightarrow> \<not> active_ingress_ips c new) \<Longrightarrow> ensure_address_is_ip_port ing \<Longrightarrow> ensure_address_is_ip eg \<Longrightarrow>
    s = owner_of w \<or> s = vr_validator_address (record_at c i) \<Longrightarrow>
    index_step w s q c ((changed c i ((record_at c i)\<lparr>vr_ingress := ing, vr_egress := eg\<rparr>))
      \<lparr>active_ingress_ips := moved_mark old new (active_ingress_ips c)\<rparr>)"
| fee: "live_record c i \<Longrightarrow> s = owner_of w \<or> s = vr_validator_address (record_at c i) \<Longrightarrow>
    index_step w s q c (changed c i ((record_at c i)\<lparr>vr_fee_recipient := a\<rparr>))"
| transfer: "live_record c i \<Longrightarrow> (\<And>j. live_record c j \<Longrightarrow> vr_validator_address (record_at c j) \<noteq> a) \<Longrightarrow>
    s = owner_of w \<or> s = vr_validator_address (record_at c i) \<Longrightarrow> index_step w s q c (transferred c i a)"
| rotate: "live_record c i \<Longrightarrow> key_of w (vr_ingress (record_at c i)) = Some old \<Longrightarrow> records c + 1 < 2 ^ 32 \<Longrightarrow>
    key_of w ing = Some new \<Longrightarrow> \<not> active_ingress_ips c new \<Longrightarrow> ensure_address_is_ip_port ing \<Longrightarrow> ensure_address_is_ip eg \<Longrightarrow>
    pubkey_to_index c k = 0 \<Longrightarrow> signed_key w q k \<Longrightarrow> s = owner_of w \<or> s = vr_validator_address (record_at c i) \<Longrightarrow>
    index_step w s q c ((rotated c i k ing eg (block_number w))\<lparr>active_ingress_ips := moved_mark old new (active_ingress_ips c)\<rparr>)"

lemma config_index_ok [simp]:
  "index_ok K (c\<lparr>vc_config := g, next_network_identity_rotation_epoch := e\<rparr>) = index_ok K c"
proof -
  have "live_record (c\<lparr>vc_config := g, next_network_identity_rotation_epoch := e\<rparr>) = live_record c"
    by (simp add: live_record_def fun_eq_iff)
  then show ?thesis
    by (simp add: index_ok_def keys_ok_def active_ok_def addresses_ok_def ingress_ok_def endpoints_ok_def)
qed

lemma step_index_ok:
  assumes "index_step w s q c c'" "0 < block_number w" "index_ok (key_of w) c"
  shows "index_ok (key_of w) c'"
  using assms
proof (induction rule: index_step.induct)
  case (add c k a ing eg h fr height)
  note ok = index_okD [OF add(11)]
  have "active_ok (with_record c a k ing eg fr height 0)"
    using ok(2) add(7,8) by (intro active_append) auto
  moreover have "addresses_ok (with_record c a k ing eg fr height 0)"
    using ok(3) add(2) by (rule addresses_append)
  ultimately show ?case
    using keys_append [OF ok(1) add(1)] ingress_append [OF ok(4) add(5,6)] endpoints_append [OF ok(5) add(3,4)]
    by (simp add: index_ok_def)
next
  case (keep c k a ing eg d fr height)
  note ok = index_okD [OF keep(9)]
  have "active_ok (with_record c a k ing eg fr height d)"
    using ok(2) keep(5,7) by (intro active_append) auto
  moreover have "addresses_ok (with_record c a k ing eg fr height d)"
    using ok(3) keep(2) by (rule addresses_append)
  ultimately show ?case
    using keys_append [OF ok(1) keep(1)] ingress_append_inactive [OF ok(4) keep(7)] endpoints_append [OF ok(5) keep(3,4)]
    by (simp add: index_ok_def)
next
  case (deactivate c i h)
  then show ?case
    by (intro index_deactivated) simp_all
next
  case (endpoints c i old ing new eg)
  then show ?case
    by (intro index_endpoints) simp_all
next
  case (fee c i a)
  then show ?case
    using live_less [of c i] by (intro index_fee) simp_all
next
  case (transfer c i a)
  then show ?case
    by (intro index_transferred) simp_all
next
  case (rotate c i old ing new eg k)
  then show ?case
    by (intro index_rotated) simp_all
qed simp

section \<open>What the calls do\<close>

abbreviation index_steps :: "world \<Rightarrow> address \<Rightarrow> v2_call \<Rightarrow> validator_config_v2_storage \<Rightarrow> validator_config_v2_storage \<Rightarrow> bool" where
  "index_steps w s q \<equiv> (index_step w s q)\<^sup>*\<^sup>*"

text \<open>A call changes the storage of the contract by steps, and otherwise only appends to the log.\<close>

definition evolves :: "address \<Rightarrow> v2_call \<Rightarrow> world \<Rightarrow> world \<Rightarrow> bool" where
  "evolves s q w w' \<longleftrightarrow> (\<exists>c l. index_steps w s q (v2 w) c \<and> w' = w\<lparr>validator_config_v2 := c, logs := l\<rparr>)"

lemma evolvesI: "index_steps w s q (v2 w) c \<Longrightarrow> w' = w\<lparr>validator_config_v2 := c, logs := l\<rparr> \<Longrightarrow> evolves s q w w'"
  by (auto simp: evolves_def)

lemma evolvesE:
  assumes "evolves s q w w'"
  obtains c l where "index_steps w s q (v2 w) c" "w' = w\<lparr>validator_config_v2 := c, logs := l\<rparr>"
  using assms unfolding evolves_def by (elim exE conjE) (rule that)

lemma evolves_config: "w' = w\<lparr>validator_config_v2 := (v2 w)\<lparr>vc_config := g, next_network_identity_rotation_epoch := e\<rparr>, logs := l\<rparr> \<Longrightarrow> evolves s q w w'"
  using index_step.config by (rule evolvesI [OF r_into_rtranclp])

lemma get_active_run: "get_active_validator w i = Inr v \<longleftrightarrow> live_record (v2 w) i \<and> v = record_at (v2 w) i"
  by (auto simp: get_active_validator_def live_record_def Let_def)

lemma ingress_key_run: "ingress_key w t = Inr h \<longleftrightarrow> key_of w t = Some h"
  by (auto simp: key_of_def split: sum.splits)

lemma key_of_parses: "key_of w t = Some h \<Longrightarrow> ensure_address_is_ip_port t"
  by (auto simp: key_of_def ingress_key_def ensure_address_is_ip_port_def split: sum.splits option.splits)

lemma require_init_run: "require_init c = Inr c' \<longleftrightarrow> cfg_is_init c \<and> c' = c"
  by (auto simp: require_init_def)

lemma require_owner_run: "require_owner c s = Inr c' \<longleftrightarrow> s = cfg_owner c \<and> c' = c"
  by (auto simp: require_owner_def)

lemma require_either_run: "require_owner_or_validator c s a = Inr c' \<longleftrightarrow> (s = cfg_owner c \<or> s = a) \<and> c' = c"
  by (auto simp: require_owner_or_validator_def)

lemma unique_ingress_run: "require_unique_ingress w t = Inr h \<longleftrightarrow> key_of w t = Some h \<and> \<not> active_ingress_ips (v2 w) h"
  by (auto simp: require_unique_ingress_def ebind_eq_Inr ingress_key_run)

lemma endpoints_run: "validate_endpoints ing eg = Inr x \<longleftrightarrow> ensure_address_is_ip_port ing \<and> ensure_address_is_ip eg"
  by (auto simp: validate_endpoints_def)

lemma new_pubkey_run: "require_new_pubkey w k = Inr x \<longleftrightarrow> k \<noteq> 0 \<and> pubkey_to_index (v2 w) k = 0"
  by (auto simp: require_new_pubkey_def)

lemma signature_run:
  "verify_validator_signature w (SignAdd fr) k sig a ing eg = Inr x \<Longrightarrow> signed_key w (AddValidator a k ing eg fr sig) k"
  "verify_validator_signature w SignRotate k sig (vr_validator_address (record_at (v2 w) i)) ing eg = Inr x \<Longrightarrow>
    signed_key w (RotateValidator i k ing eg sig) k"
  unfolding verify_validator_signature_def signed_key_def by (simp_all add: signature_namespace_def read_validator_at_def split: if_splits)

lemma no_live_address:
  assumes "index_ok K c" "address_to_index c a \<noteq> 0 \<Longrightarrow> vr_deactivated_at_height (record_at c (sub64 (address_to_index c a) 1)) \<noteq> 0"
    "live_record c j"
  shows "vr_validator_address (record_at c j) \<noteq> a"
proof
  assume "vr_validator_address (record_at c j) = a"
  then have a: "address_to_index c a = j + 1"
    using index_okD(3) [OF assms(1)] assms(3) by (auto simp: addresses_ok_def)
  moreover have "sub64 (j + 1) 1 = j"
    using live_less [OF assms(3)] active_small [OF index_okD(2) [OF assms(1)]] by (subst sub64_le) simp_all
  ultimately show False
    using assms(2,3) by (simp add: live_record_def)
qed

lemma new_address_run:
  assumes "require_new_address w a = Inr x" "index_ok K (v2 w)" "live_record (v2 w) j"
  shows "vr_validator_address (record_at (v2 w) j) \<noteq> a"
  by (rule no_live_address [OF assms(2) _ assms(3)]) (use assms(1) in \<open>auto simp: require_new_address_def Let_def split: if_splits\<close>)

lemma authorized_run:
  "authorized_record s i w = Inr (v, w') \<longleftrightarrow> w' = w \<and> v = record_at (v2 w) i \<and> live_record (v2 w) i \<and> cfg_is_init (vc_config (v2 w))
    \<and> (s = owner_of w \<or> s = vr_validator_address v)"
  by (auto simp: authorized_record_def runs get_active_run require_init_run require_either_run)

lemma set_ingress_run: "set_ingress h b w = Inr (x, w') \<longleftrightarrow> w' = w\<lparr>validator_config_v2 := (v2 w)\<lparr>active_ingress_ips := (active_ingress_ips (v2 w))(h := b)\<rparr>\<rparr>"
  by (auto simp: set_ingress_def upd_v2_def)

lemma emit_v2_run: "emit_v2 e w = Inr (x, w') \<longleftrightarrow> w' = w\<lparr>logs := logs w @ [(VALIDATOR_CONFIG_V2_ADDRESS, ValidatorConfigV2Event e)]\<rparr>"
  by (auto simp: emit_v2_def emit_event_def)

lemma set_validator_run: "set_validator i r w = Inr (x, w') \<longleftrightarrow> w' = w\<lparr>validator_config_v2 := changed (v2 w) i r\<rparr>"
  by (auto simp: set_validator_def upd_v2_def changed_def)

lemma key_of_keccak: "keccak256 w' = keccak256 w \<Longrightarrow> key_of w' = key_of w"
  by (rule ext) (simp add: key_of_def ingress_key_def split: option.split socket_addr.split)

lemma key_of_v2 [simp]: "key_of (w\<lparr>validator_config_v2 := c\<rparr>) = key_of w" "key_of (w\<lparr>logs := l\<rparr>) = key_of w"
  by (rule key_of_keccak, simp)+

lemma tracking_run:
  assumes run: "update_ingress_ip_tracking t t' w = Inr (x, w')"
  obtains old new where "key_of w t = Some old" "key_of w t' = Some new" "new \<noteq> old \<Longrightarrow> \<not> active_ingress_ips (v2 w) new"
    "w' = w\<lparr>validator_config_v2 := (v2 w)\<lparr>active_ingress_ips := moved_mark old new (active_ingress_ips (v2 w))\<rparr>\<rparr>"
proof -
  obtain old new where keys: "key_of w t = Some old" "key_of w t' = Some new"
    and rest: "only_if (old \<noteq> new)
      (rbind (gets (\<lambda>w. active_ingress_ips (v2 w) new)) (\<lambda>taken.
       rseq (ensure (\<not> taken) (v2_error (IngressAlreadyExists t')))
      (rseq (set_ingress old False) (set_ingress new True)))) w = Inr (x, w')"
    using run unfolding update_ingress_ip_tracking_def rbind_eq_Inr rd_eq_Inr ingress_key_run by auto
  show ?thesis
  proof (cases "old = new")
    case True
    then show ?thesis
      using that [OF keys] rest by (simp add: moved_mark_def)
  next
    case False
    then show ?thesis
      using that [OF keys] rest by (simp add: moved_mark_def runs set_ingress_run)
  qed
qed

lemma append_small: "append_validator a k ing eg fr h d w = Inr (i, w') \<Longrightarrow> records (v2 w) + 1 < 2 ^ 32"
  "append_validator a k ing eg fr h 0 w = Inr (i, w') \<Longrightarrow> sv_len (active_indices (v2 w)) + 1 < 2 ^ 32"
  by (drule append_run(3), simp) (drule append_run(4), simp_all)

lemma add_run:
  assumes run: "add_validator s a k ing eg fr sig w = Inr (x, w')" and ok: "index_ok (key_of w) (v2 w)"
  shows "evolves s (AddValidator a k ing eg fr sig) w w'"
proof -
  let ?c = "v2 w" and ?w1 = "\<lambda>h. w\<lparr>validator_config_v2 := (v2 w)\<lparr>active_ingress_ips := (active_ingress_ips (v2 w))(h := True)\<rparr>\<rparr>"
  obtain h w2 where checks: "require_new_pubkey w k = Inr ()" "require_new_address w a = Inr ()" "validate_endpoints ing eg = Inr ()"
      "require_unique_ingress w ing = Inr h" "verify_validator_signature w (SignAdd fr) k sig a ing eg = Inr ()" "s = owner_of w"
    and w2: "append_validator a k ing eg fr (block_number w) 0 (?w1 h) = Inr (x, w2)"
    and w': "emit_v2 (ValidatorAdded x a k ing eg fr) w2 = Inr ((), w')"
    using run unfolding add_validator_def by (auto simp: runs set_ingress_run require_init_run require_owner_run)
  have key: "key_of w ing = Some h" "\<not> active_ingress_ips ?c h" "pubkey_to_index ?c k = 0"
    using checks by (simp_all add: unique_ingress_run new_pubkey_run)
  have "index_step w s (AddValidator a k ing eg fr sig) ?c ((with_record ?c a k ing eg fr (block_number w) 0)\<lparr>active_ingress_ips := (active_ingress_ips ?c)(h := True)\<rparr>)"
    using checks(3,5,6) key new_address_run [OF checks(2) ok] append_small [OF w2] signature_run
    by (intro index_step.add) (auto simp: endpoints_run)
  moreover obtain l where "w' = w\<lparr>validator_config_v2 := (with_record ?c a k ing eg fr (block_number w) 0)
      \<lparr>active_ingress_ips := (active_ingress_ips ?c)(h := True)\<rparr>, logs := l\<rparr>"
    using w' append_run(1) [OF w2] by (auto simp: emit_v2_run with_record_ips)
  ultimately show ?thesis
    by (rule evolvesI [OF r_into_rtranclp])
qed

lemma fee_run:
  assumes "set_fee_recipient s i a w = Inr (x, w')"
  shows "evolves s q w w'"
proof -
  have "live_record (v2 w) i" "s = owner_of w \<or> s = vr_validator_address (record_at (v2 w) i)"
    using assms unfolding set_fee_recipient_def by (auto simp: runs authorized_run)
  then have "index_step w s q (v2 w) (changed (v2 w) i ((record_at (v2 w) i)\<lparr>vr_fee_recipient := a\<rparr>))"
    by (rule index_step.fee)
  moreover obtain l where "w' = w\<lparr>validator_config_v2 := changed (v2 w) i ((record_at (v2 w) i)\<lparr>vr_fee_recipient := a\<rparr>), logs := l\<rparr>"
    using assms unfolding set_fee_recipient_def by (auto simp: runs authorized_run set_validator_run emit_v2_run)
  ultimately show ?thesis
    by (rule evolvesI [OF r_into_rtranclp])
qed

text \<open>The marks are a field of their own.\<close>

lemma ips_apart:
  "changed (c\<lparr>active_ingress_ips := f\<rparr>) i r = (changed c i r)\<lparr>active_ingress_ips := f\<rparr>"
  "rotated (c\<lparr>active_ingress_ips := f\<rparr>) i k ing eg h = (rotated c i k ing eg h)\<lparr>active_ingress_ips := f\<rparr>"
  by (simp_all add: changed_def rotated_def)

lemma endpoints_changed_run:
  assumes "set_ip_addresses s i ing eg w = Inr (x, w')"
  shows "evolves s q w w'"
proof -
  let ?c = "v2 w"
  obtain w1 w2 where w1: "update_ingress_ip_tracking (vr_ingress (record_at ?c i)) ing w = Inr ((), w1)"
    and w2: "set_validator i ((record_at ?c i)\<lparr>vr_ingress := ing, vr_egress := eg\<rparr>) w1 = Inr ((), w2)"
    and w': "emit_v2 (IpAddressesUpdated i ing eg s) w2 = Inr ((), w')" and checks: "validate_endpoints ing eg = Inr ()" "live_record ?c i"
      "s = owner_of w \<or> s = vr_validator_address (record_at ?c i)"
    using assms unfolding set_ip_addresses_def by (auto simp: runs authorized_run)
  from w1 obtain old new where keys: "key_of w (vr_ingress (record_at ?c i)) = Some old" "key_of w ing = Some new"
      "new \<noteq> old \<Longrightarrow> \<not> active_ingress_ips ?c new"
    and w1: "w1 = w\<lparr>validator_config_v2 := ?c\<lparr>active_ingress_ips := moved_mark old new (active_ingress_ips ?c)\<rparr>\<rparr>"
    by (rule tracking_run) blast
  have "index_step w s q ?c ((changed ?c i ((record_at ?c i)\<lparr>vr_ingress := ing, vr_egress := eg\<rparr>))
      \<lparr>active_ingress_ips := moved_mark old new (active_ingress_ips ?c)\<rparr>)"
    using checks keys by (intro index_step.endpoints) (simp_all add: endpoints_run)
  moreover obtain l where "w' = w\<lparr>validator_config_v2 := (changed ?c i ((record_at ?c i)\<lparr>vr_ingress := ing, vr_egress := eg\<rparr>))
      \<lparr>active_ingress_ips := moved_mark old new (active_ingress_ips ?c)\<rparr>, logs := l\<rparr>"
    using w1 w2 w' by (auto simp: set_validator_run emit_v2_run ips_apart)
  ultimately show ?thesis
    by (rule evolvesI [OF r_into_rtranclp])
qed

lemma transfer_validator_run:
  assumes "transfer_validator_ownership s i a w = Inr (x, w')" and ok: "index_ok (key_of w) (v2 w)"
  shows "evolves s q w w'"
proof -
  have checks: "require_new_address w a = Inr ()" "live_record (v2 w) i" "s = owner_of w \<or> s = vr_validator_address (record_at (v2 w) i)"
    using assms(1) unfolding transfer_validator_ownership_def by (auto simp: runs authorized_run)
  obtain l where "w' = w\<lparr>validator_config_v2 := transferred (v2 w) i a, logs := l\<rparr>"
    using assms(1) unfolding transfer_validator_ownership_def
    by (auto simp: runs authorized_run set_validator_run emit_v2_run set_address_index_def upd_v2_def transferred_def)
  moreover have "index_step w s q (v2 w) (transferred (v2 w) i a)"
    using checks new_address_run [OF checks(1) ok] by (intro index_step.transfer) simp_all
  ultimately show ?thesis
    using evolvesI [OF r_into_rtranclp] by blast
qed

lemma push_validator_run:
  "push_validator r w = Inr (x, w') \<longleftrightarrow> records (v2 w) < (2 ^ 32 - 1) div 6
    \<and> w' = w\<lparr>validator_config_v2 := (v2 w)\<lparr>vc_validators := push_on r (vc_validators (v2 w))\<rparr>\<rparr>"
  by (auto simp: push_validator_def upd_v2_def runs sv_push_on)

lemma sv_set_push: "i < sv_len v \<Longrightarrow> sv_set i r (push_on x v) = push_on x (sv_set i r v)"
  by (simp add: push_on_def sv_set_def fun_upd_twist)

lemma rotate_run:
  assumes "rotate_validator s i k ing eg sig w = Inr (x, w')"
  shows "evolves s (RotateValidator i k ing eg sig) w w'"
proof -
  let ?c = "v2 w" and ?v = "record_at (v2 w) i"
  obtain h w1 w2 where checks: "require_new_pubkey w k = Inr ()" "validate_endpoints ing eg = Inr ()"
      "require_unique_ingress w ing = Inr h" "verify_validator_signature w SignRotate k sig (vr_validator_address ?v) ing eg = Inr ()"
      "live_record ?c i" "s = owner_of w \<or> s = vr_validator_address ?v"
    and w1: "update_ingress_ip_tracking (vr_ingress ?v) ing w = Inr ((), w1)"
    and w2: "push_validator (?v\<lparr>vr_index := v2_validator_count w1, vr_active_idx := 0, vr_deactivated_at_height := block_number w\<rparr>) w1 = Inr ((), w2)"
    and w': "rseq (set_pubkey_index (vr_public_key ?v) (v2_validator_count w1 + 1))
     (rseq (upd_validator i (\<lambda>v. v\<lparr>vr_public_key := k, vr_ingress := ing, vr_egress := eg, vr_added_at_height := block_number w\<rparr>))
     (rseq (set_pubkey_index k (i + 1))
           (emit_v2 (ValidatorRotated i (v2_validator_count w1) (vr_validator_address ?v) (vr_public_key ?v) k ing eg s)))) w2 = Inr ((), w')"
    using assms unfolding rotate_validator_def rbind_eq_Inr rseq_eq_Inr rd_eq_Inr authorized_run by auto
  from w1 obtain old new where keys: "key_of w (vr_ingress ?v) = Some old" "key_of w ing = Some new"
    and w1: "w1 = w\<lparr>validator_config_v2 := ?c\<lparr>active_ingress_ips := moved_mark old new (active_ingress_ips ?c)\<rparr>\<rparr>"
    by (rule tracking_run) blast
  have i: "i < records ?c"
    using checks(5) by (rule live_less)
  have "index_step w s (RotateValidator i k ing eg sig) ?c ((rotated ?c i k ing eg (block_number w))\<lparr>active_ingress_ips := moved_mark old new (active_ingress_ips ?c)\<rparr>)"
    using checks keys w1 w2 signature_run
    by (intro index_step.rotate) (auto simp: endpoints_run new_pubkey_run unique_ingress_run push_validator_run)
  moreover obtain l where "w' = w\<lparr>validator_config_v2 := (rotated ?c i k ing eg (block_number w))
      \<lparr>active_ingress_ips := moved_mark old new (active_ingress_ips ?c)\<rparr>, logs := l\<rparr>"
    using w1 w2 w' i unfolding ips_apart(2) [symmetric]
    by (auto simp: runs push_validator_run set_pubkey_index_def upd_validator_def upd_v2_def emit_v2_run rotated_def v2_validator_count_def sv_set_push)
  ultimately show ?thesis
    by (rule evolvesI [OF r_into_rtranclp])
qed

lemma upd_validator_run:
  "upd_validator i f w = Inr (x, w') \<longleftrightarrow> w' = w\<lparr>validator_config_v2 := changed (v2 w) i (f (record_at (v2 w) i))\<rparr>"
  by (auto simp: upd_validator_def upd_v2_def changed_def)

definition swapped :: "validator_config_v2_storage \<Rightarrow> nat \<Rightarrow> nat \<Rightarrow> validator_config_v2_storage" where
  "swapped c p m = (let d = (if p = sv_len (active_indices c) - 1 then c
      else changed (c\<lparr>active_indices := sv_set p (m + 1) (active_indices c)\<rparr>) m ((record_at c m)\<lparr>vr_active_idx := p + 1\<rparr>)) in
    d\<lparr>active_indices := snd (sv_pop 0 (active_indices d))\<rparr>)"

lemma swap_run:
  assumes v: "vr_active_idx v = p + 1" "p < sv_len (active_indices (v2 w))"
    and m: "sv_at (active_indices (v2 w)) (sv_len (active_indices (v2 w)) - 1) = m + 1" "m < 2 ^ 32"
    and small: "sv_len (active_indices (v2 w)) < 2 ^ 32"
  shows "swap_and_pop v w = Inr ((), w\<lparr>validator_config_v2 := swapped (v2 w) p m\<rparr>)"
proof -
  let ?n = "sv_len (active_indices (v2 w))"
  have sub: "sub64 (vr_active_idx v) 1 = p" "sub64 ?n 1 = ?n - 1" "sub64 (m + 1) 1 = m"
    using v m(2) small by (subst sub64_le; simp)+
  show ?thesis
    using m(1) unfolding swap_and_pop_def Let_def sub swapped_def
    by (cases "p = ?n - 1")
      (simp_all add: upd_v2_def upd_validator_def changed_def sub run_defs Let_def del: One_nat_def)
qed

lemma swapped_deactivated:
  assumes p: "vr_active_idx (record_at c i) = p + 1" "sv_at (active_indices c) p = i + 1" "0 < sv_len (active_indices c)"
    and m: "sv_at (active_indices c) (sv_len (active_indices c) - 1) = m + 1" "vr_active_idx (record_at c m) = sv_len (active_indices c)"
    and d: "d = changed (c\<lparr>active_ingress_ips := (active_ingress_ips c)(h := False)\<rparr>) i ((record_at c i)\<lparr>vr_deactivated_at_height := height\<rparr>)"
  shows "changed (swapped d p m) i ((record_at (swapped d p m) i)\<lparr>vr_active_idx := 0\<rparr>) = deactivated c i height h"
proof -
  have "m = i" if "p = sv_len (active_indices c) - 1"
    using that p(2) m(1) by simp
  moreover have "m \<noteq> i" if "p \<noteq> sv_len (active_indices c) - 1"
    using that p(1) m(2) by auto
  ultimately show ?thesis
    using p m
    by (cases "p = sv_len (active_indices c) - 1")
      (auto simp: d swapped_def deactivated_def changed_def sv_set_def sv_pop_def Let_def fun_upd_twist
        intro!: validator_config_v2_storage.equality svec.equality)
qed

lemma deactivate_run:
  assumes run: "deactivate_validator s i w = Inr (x, w')" and ok: "active_ok (v2 w)"
  shows "evolves s q w w'"
proof -
  let ?c = "v2 w" and ?v = "record_at (v2 w) i"
  obtain h where live: "live_record ?c i" and key: "key_of w (vr_ingress ?v) = Some h"
    and s: "s = owner_of w \<or> s = vr_validator_address ?v"
    and rest: "rseq (set_ingress h False) (rseq (upd_validator i (\<lambda>v. v\<lparr>vr_deactivated_at_height := block_number w\<rparr>))
      (rseq (swap_and_pop ?v) (rseq (upd_validator i (\<lambda>v. v\<lparr>vr_active_idx := 0\<rparr>))
        (emit_v2 (ValidatorDeactivated i (vr_validator_address ?v)))))) w = Inr ((), w')"
    using run unfolding deactivate_validator_def
    by (auto simp: runs get_active_run ingress_key_run require_either_run set_ingress_run)
  obtain m where place: "vr_active_idx ?v \<noteq> 0" "vr_active_idx ?v \<le> sv_len (active_indices ?c)"
      "sv_at (active_indices ?c) (vr_active_idx ?v - 1) = i + 1"
    and m: "sv_at (active_indices ?c) (sv_len (active_indices ?c) - 1) = m + 1" "live_record ?c m" "vr_active_idx (record_at ?c m) = sv_len (active_indices ?c)"
    using active_place [OF ok live] by blast
  define p where "p = vr_active_idx ?v - 1"
  have p: "vr_active_idx ?v = p + 1" "p < sv_len (active_indices ?c)" "sv_at (active_indices ?c) p = i + 1"
    using place by (simp_all add: p_def)
  define d where "d = changed (?c\<lparr>active_ingress_ips := (active_ingress_ips ?c)(h := False)\<rparr>) i (?v\<lparr>vr_deactivated_at_height := block_number w\<rparr>)"
  have "m < 2 ^ 32" "sv_len (active_indices ?c) < 2 ^ 32"
    using live_less [OF m(2)] ok by (simp_all add: active_ok_def)
  then have swap: "swap_and_pop ?v (w\<lparr>validator_config_v2 := d\<rparr>) = Inr ((), w\<lparr>validator_config_v2 := swapped d p m\<rparr>)"
    using swap_run [of ?v p "w\<lparr>validator_config_v2 := d\<rparr>" m] p m by (simp add: d_def)
  have "w' = w\<lparr>validator_config_v2 := changed (swapped d p m) i ((record_at (swapped d p m) i)\<lparr>vr_active_idx := 0\<rparr>),
      logs := logs w @ [(VALIDATOR_CONFIG_V2_ADDRESS, ValidatorConfigV2Event (ValidatorDeactivated i (vr_validator_address ?v)))]\<rparr>"
    using rest swap by (auto simp: rseq_eq_Inr set_ingress_run upd_validator_run emit_v2_run d_def)
  moreover have "changed (swapped d p m) i ((record_at (swapped d p m) i)\<lparr>vr_active_idx := 0\<rparr>) = deactivated ?c i (block_number w) h"
    by (rule swapped_deactivated [OF p(1,3) _ m(1,3) d_def]) (use p(2) in simp)
  ultimately show ?thesis
    using evolvesI [OF r_into_rtranclp [of "index_step w s q", OF index_step.deactivate [OF live key s]]] by simp
qed

lemma config_runs:
  "transfer_ownership s a w = Inr (x, w') \<Longrightarrow> evolves s q w w'"
  "set_network_identity_rotation_epoch s e w = Inr (x, w') \<Longrightarrow> evolves s q w w'"
proof -
  assume "transfer_ownership s a w = Inr (x, w')"
  then obtain g l where "w' = w\<lparr>validator_config_v2 := (v2 w)\<lparr>vc_config := g\<rparr>, logs := l\<rparr>"
    unfolding transfer_ownership_def by (auto simp: runs upd_v2_def emit_v2_run)
  then show "evolves s q w w'"
    by (intro evolves_config [where g = g and e = "next_network_identity_rotation_epoch (v2 w)" and l = l]) simp
next
  assume "set_network_identity_rotation_epoch s e w = Inr (x, w')"
  then obtain l where "w' = w\<lparr>validator_config_v2 := (v2 w)\<lparr>next_network_identity_rotation_epoch := e\<rparr>, logs := l\<rparr>"
    unfolding set_network_identity_rotation_epoch_def by (auto simp: runs upd_v2_def emit_v2_run)
  then show "evolves s q w w'"
    by (intro evolves_config [where g = "vc_config (v2 w)" and e = e and l = l]) simp
qed

lemma migration_owner_run:
  assumes "require_migration_owner s w = Inr (config, w1)"
  shows "\<exists>g. w1 = w\<lparr>validator_config_v2 := (v2 w)\<lparr>vc_config := g\<rparr>\<rparr> \<and> cfg_owner g = s" "migrates w s (MigrateValidator i)"
proof -
  show "migrates w s (MigrateValidator i)"
    unfolding migrates_def
    using assms by (auto simp: require_migration_owner_def runs require_not_init_def require_owner_run upd_v2_def split: if_splits)
  show "\<exists>g. w1 = w\<lparr>validator_config_v2 := (v2 w)\<lparr>vc_config := g\<rparr>\<rparr> \<and> cfg_owner g = s"
  proof (cases "owner_of w = 0")
    case True
    then show ?thesis
      using assms by (auto simp: require_migration_owner_def runs require_not_init_def require_owner_run upd_v2_def new_config_def split: if_splits)
  next
    case False
    then show ?thesis
      using assms by (intro exI [of _ "vc_config (v2 w)"])
        (auto simp: require_migration_owner_def runs require_not_init_def require_owner_run split: if_splits)
  qed
qed

lemma skip_run: "skip_migration i v n w = Inr (x, w') \<Longrightarrow> \<exists>g l. w' = w\<lparr>validator_config_v2 := (v2 w)\<lparr>vc_config := g\<rparr>, logs := l\<rparr>"
proof -
  have last: "w\<lparr>logs := l, validator_config_v2 := c\<rparr> = w\<lparr>validator_config_v2 := c, logs := l\<rparr>" for w :: world and l c
    by (rule world.equality) simp_all
  assume "skip_migration i v n w = Inr (x, w')"
  then show ?thesis
    by (auto simp: skip_migration_def runs emit_v2_run upd_v2_def last)
qed

lemma config_only: "index_step w s q c (c\<lparr>vc_config := g\<rparr>)"
  using index_step.config [where c = c and g = g and e = "next_network_identity_rotation_epoch c"] by simp

lemma skip_step:
  assumes "skip_migration i v n w1 = Inr (x, w')"
  shows "\<exists>c l. index_step w s q (v2 w1) c \<and> w' = w1\<lparr>validator_config_v2 := c, logs := l\<rparr>"
proof -
  obtain g l where "w' = w1\<lparr>validator_config_v2 := (v2 w1)\<lparr>vc_config := g\<rparr>, logs := l\<rparr>"
    using skip_run [OF assms] by blast
  then show ?thesis
    using config_only by blast
qed

lemma egress_parses: "parse_socket_addr t = Some a \<Longrightarrow> ensure_address_is_ip (show_ip_addr (socket_ip a))"
  using ip_addr_roundtrip [OF socket_ip_wf] by (simp add: ensure_address_is_ip_def)

text \<open>A migrated record is appended, active or not, or the validator is skipped.\<close>

lemma migrate_record_run:
  assumes run: "migrate_record i v n height eg w1 = Inr (x, w')" and ok: "index_ok (key_of w) (v2 w1)" and key: "key_of w1 = key_of w"
    and new: "pubkey_to_index (v2 w1) (v1_public_key v) = 0" "ensure_address_is_ip eg" "height \<noteq> 0" "migrates w s q"
  shows "\<exists>c l. index_step w s q (v2 w1) c \<and> w' = w1\<lparr>validator_config_v2 := c, logs := l\<rparr>"
proof -
  let ?c = "v2 w1" and ?a = "v1_validator_address v" and ?ing = "v1_inbound_address v"
  obtain h where free: "address_to_index ?c ?a \<noteq> 0 \<Longrightarrow> vr_deactivated_at_height (record_at ?c (sub64 (address_to_index ?c ?a) 1)) \<noteq> 0"
    and h: "key_of w ?ing = Some h"
    and rest: "(if v1_active v \<and> active_ingress_ips ?c h then skip_migration i v n
      else rbind (append_validator ?a (v1_public_key v) ?ing eg 0 height (if v1_active v then 0 else height)) (\<lambda>migrated_idx.
        rseq (only_if (v1_active v) (set_ingress h True)) (emit_v2 (ValidatorMigrated migrated_idx ?a (v1_public_key v))))) w1 = Inr ((), w')"
    using run unfolding migrate_record_def Let_def key [symmetric]
    by (auto simp: rbind_eq_Inr rseq_eq_Inr rd_eq_Inr ensure_eq_Inr ingress_key_run)
  note addr = no_live_address [OF ok free]
  show ?thesis
  proof (cases "v1_active v")
    case True
    show ?thesis
    proof (cases "active_ingress_ips ?c h")
      case taken: True
      then show ?thesis
        using rest True skip_step by simp
    next
      case False
      then obtain j w2 where w2: "append_validator ?a (v1_public_key v) ?ing eg 0 height 0 w1 = Inr (j, w2)"
        and w': "rseq (set_ingress h True) (emit_v2 (ValidatorMigrated j ?a (v1_public_key v))) w2 = Inr ((), w')"
        using rest True by (auto simp: rbind_eq_Inr)
      have "index_step w s q ?c ((with_record ?c ?a (v1_public_key v) ?ing eg 0 height 0)\<lparr>active_ingress_ips := (active_ingress_ips ?c)(h := True)\<rparr>)"
        using new addr h False append_small [OF w2] key_of_parses [OF h] by (intro index_step.add) simp_all
      moreover have "\<exists>l. w' = w1\<lparr>validator_config_v2 := (with_record ?c ?a (v1_public_key v) ?ing eg 0 height 0)
          \<lparr>active_ingress_ips := (active_ingress_ips ?c)(h := True)\<rparr>, logs := l\<rparr>"
        using w' append_run(1) [OF w2] by (auto simp: runs set_ingress_run emit_v2_run)
      ultimately show ?thesis
        by blast
    qed
  next
    case False
    then obtain j w2 where w2: "append_validator ?a (v1_public_key v) ?ing eg 0 height height w1 = Inr (j, w2)"
      and w': "emit_v2 (ValidatorMigrated j ?a (v1_public_key v)) w2 = Inr ((), w')"
      using rest by (auto simp: runs)
    have "index_step w s q ?c (with_record ?c ?a (v1_public_key v) ?ing eg 0 height height)"
      using new addr append_small(1) [OF w2] key_of_parses [OF h] by (intro index_step.keep) simp_all
    moreover have "\<exists>l. w' = w1\<lparr>validator_config_v2 := with_record ?c ?a (v1_public_key v) ?ing eg 0 height height, logs := l\<rparr>"
      using w' append_run(1) [OF w2] by (auto simp: emit_v2_run)
    ultimately show ?thesis
      by blast
  qed
qed

lemma migrate_run:
  assumes run: "migrate_validator s i w = Inr (x, w')" and ok: "index_ok (key_of w) (v2 w)" and "0 < block_number w"
  shows "evolves s (MigrateValidator i) w w'"
proof -
  obtain config w1 v where own: "require_migration_owner s w = Inr (config, w1)"
    and rest: "rbind (gets (\<lambda>w. ed25519_key w (v1_public_key v))) (\<lambda>decoded.
      if \<not> decoded then skip_migration i v (cfg_migration_skipped_count config)
      else case parse_socket_addr (v1_outbound_address v) of
         None \<Rightarrow> skip_migration i v (cfg_migration_skipped_count config)
       | Some sa \<Rightarrow> rbind (gets (\<lambda>w. pubkey_to_index (v2 w) (v1_public_key v))) (\<lambda>known.
           if known \<noteq> 0 then skip_migration i v (cfg_migration_skipped_count config)
           else migrate_record i v (cfg_migration_skipped_count config) (block_number w1) (show_ip_addr (socket_ip sa)))) w1 = Inr ((), w')"
    using run unfolding migrate_validator_def Let_def rbind_eq_Inr rseq_eq_Inr rd_eq_Inr ebind_eq_Inr ensure_eq_Inr gets_run by auto
  obtain g where w1: "w1 = w\<lparr>validator_config_v2 := (v2 w)\<lparr>vc_config := g\<rparr>\<rparr>"
    using migration_owner_run(1) [OF own] by blast
  have first: "index_step w s (MigrateValidator i) (v2 w) (v2 w1)"
    using config_only w1 by simp
  have ok1: "index_ok (key_of w) (v2 w1)"
    using step_index_ok [OF first assms(3) ok] .
  have "\<exists>c l. index_step w s (MigrateValidator i) (v2 w1) c \<and> w' = w1\<lparr>validator_config_v2 := c, logs := l\<rparr>"
  proof -
    from rest consider (skip) "skip_migration i v (cfg_migration_skipped_count config) w1 = Inr ((), w')"
      | (migrated) sa where "parse_socket_addr (v1_outbound_address v) = Some sa" "pubkey_to_index (v2 w1) (v1_public_key v) = 0"
        "migrate_record i v (cfg_migration_skipped_count config) (block_number w1) (show_ip_addr (socket_ip sa)) w1 = Inr ((), w')"
      by (auto simp: rbind_eq_Inr split: option.splits if_splits)
    then show ?thesis
    proof cases
      case skip
      then show ?thesis
        by (rule skip_step)
    next
      case (migrated sa)
      show ?thesis
        by (rule migrate_record_run [OF migrated(3) ok1 _ migrated(2) egress_parses [OF migrated(1)] _ migration_owner_run(2) [OF own]])
          (use assms(3) in \<open>simp_all add: w1\<close>)
    qed
  qed
  then obtain c l where "index_step w s (MigrateValidator i) (v2 w1) c" "w' = w\<lparr>validator_config_v2 := c, logs := l\<rparr>"
    using w1 by auto
  then show ?thesis
    using first by (intro evolvesI) (auto intro: rtranclp_trans)
qed

lemma initialize_run:
  assumes "initialize_if_migrated s w = Inr (x, w')"
  shows "evolves s q w w'"
proof -
  obtain config w1 where own: "require_migration_owner s w = Inr (config, w1)"
    and w': "w' = w1\<lparr>validator_config_v2 := (v2 w1)\<lparr>next_network_identity_rotation_epoch := v1_next_dkg_ceremony (validator_config w1),
        vc_config := config\<lparr>cfg_init_at_height := block_number w1, cfg_is_init := True\<rparr>\<rparr>,
      logs := logs w1 @ [(VALIDATOR_CONFIG_V2_ADDRESS, ValidatorConfigV2Event (Initialized (block_number w1)))]\<rparr>"
    using assms unfolding initialize_if_migrated_def by (auto simp: runs upd_v2_def emit_v2_run)
  have order: "c\<lparr>vc_config := g0, next_network_identity_rotation_epoch := e, vc_config := g\<rparr>
      = c\<lparr>vc_config := g, next_network_identity_rotation_epoch := e\<rparr>" for c :: validator_config_v2_storage and g0 g e
    by (rule validator_config_v2_storage.equality) simp_all
  obtain g0 where "w1 = w\<lparr>validator_config_v2 := (v2 w)\<lparr>vc_config := g0\<rparr>\<rparr>"
    using migration_owner_run(1) [OF own] by blast
  then have "w' = w\<lparr>validator_config_v2 := (v2 w)\<lparr>vc_config := config\<lparr>cfg_init_at_height := block_number w, cfg_is_init := True\<rparr>,
        next_network_identity_rotation_epoch := v1_next_dkg_ceremony (validator_config w)\<rparr>,
      logs := logs w @ [(VALIDATOR_CONFIG_V2_ADDRESS, ValidatorConfigV2Event (Initialized (block_number w)))]\<rparr>"
    using w' by (simp add: order)
  then show ?thesis
    by (rule evolves_config)
qed

lemma dispatch_evolves:
  assumes run: "v2_dispatch s c w = Inr (x, w')" and ok: "index_ok (key_of w) (v2 w)" and pos: "0 < block_number w"
  shows "evolves s c w w'"
proof (cases "T2 \<le> spec w")
  case False
  then have "w' = w\<lparr>validator_config_v2 := v2 w, logs := logs w\<rparr>"
    using run by (simp add: v2_dispatch_def)
  then show ?thesis
    by (rule evolvesI [OF rtranclp.rtrancl_refl])
next
  case True
  then have h: "v2_handle s c w = Inr (x, w')"
    using run by (simp add: v2_dispatch_def)
  show ?thesis
  proof (cases c)
    case (AddValidator a k ing eg fr sig)
    then show ?thesis
      using h add_run [OF _ ok] by (auto simp: void_def runs)
  next
    case (DeactivateValidator i)
    then show ?thesis
      using h deactivate_run [OF _ index_okD(2) [OF ok]] by simp
  next
    case (TransferValidatorOwnership i a)
    then show ?thesis
      using h transfer_validator_run [OF _ ok] by simp
  next
    case (MigrateValidator i)
    then show ?thesis
      using h migrate_run [OF _ ok pos] by simp
  qed (use h rotate_run fee_run endpoints_changed_run config_runs initialize_run in simp_all)
qed

end
