(* ===== verification/Validator_History.thy ===== *)
theory Validator_History
  imports Validator_Safety
begin

text \<open>
  Histories of the validator configurations: calls of both contracts, the other calls of the system and new
  blocks in any order. The properties of the second configuration hold in all of them.
\<close>

section \<open>Histories\<close>

inductive config_move :: "world \<Rightarrow> world \<Rightarrow> bool" where
  first_config: "v1_dispatch s c w = Inr ((), w') \<Longrightarrow> config_move w w'"
| second_config: "v2_dispatch s c w = Inr ((), w') \<Longrightarrow> config_move w w'"
| first_genesis: "v1_initialize own w = Inr ((), w') \<Longrightarrow> config_move w w'"
| genesis: "v2_initialize own w = Inr ((), w') \<Longrightarrow> config_move w w'"
| system: "system_exec c w = Inr ((), w') \<Longrightarrow> config_move w w'"
| block: "0 < h \<Longrightarrow> config_move w (w\<lparr>block_number := h, timestamp := t\<rparr>)"

abbreviation config_history :: "world \<Rightarrow> world \<Rightarrow> bool" where
  "config_history \<equiv> config_move\<^sup>*\<^sup>*"

lemma v1_frame:
  assumes "\<And>w c. f (w\<lparr>validator_config := c\<rparr>) = f w"
  shows "preserves f (v1_dispatch s c)"
proof -
  have "preserves f (upd_v1 g)" for g
    unfolding upd_v1_def by (rule preserves_modify) (rule assms)
  then show ?thesis
    by (cases c) (simp_all add: v1_add_validator_def v1_update_validator_def v1_change_validator_status_def v1_push_address_def
        v1_change_validator_status_by_index_def v1_change_owner_def v1_set_next_full_dkg_ceremony_def v1_set_active_def
        write_v1_validator_def, (intro frame | assumption)+)
qed

text \<open>What a history can change of the second configuration: nothing, or what a call of it does.\<close>

lemma move_cases:
  assumes "config_move w w'"
  obtains (call) s c where "v2_dispatch s c w = Inr ((), w')"
    | (other) g where "v2 w' = (v2 w)\<lparr>vc_config := g\<rparr>" "keccak256 w' = keccak256 w" "0 < block_number w \<Longrightarrow> 0 < block_number w'"
  using assms
proof cases
  case (first_config s c)
  have "preserves (\<lambda>w. (v2 w, keccak256 w, block_number w)) (v1_dispatch s c)"
    by (rule v1_frame) simp
  then show ?thesis
    using first_config other [of "vc_config (v2 w)"] by (auto dest: preservesD)
next
  case (system c)
  have "preserves (\<lambda>w. (v2 w, keccak256 w, block_number w)) (system_exec c)"
    by (rule outer_exec) (simp_all add: outer_obs_def)
  then show ?thesis
    using system other [of "vc_config (v2 w)"] by (auto dest: preservesD)
next
  case (first_genesis own)
  then show ?thesis
    using other [of "vc_config (v2 w)"] by (auto simp: v1_initialize_def upd_v1_def runs)
next
  case (genesis own)
  then show ?thesis
    using other by (auto simp: v2_initialize_def upd_v2_def runs)
next
  case (second_config s c)
  then show ?thesis
    by (rule call)
next
  case (block h t)
  then show ?thesis
    using other [of "vc_config (v2 w)"] by simp
qed

section \<open>The invariant in every history\<close>

definition config_inv :: "world \<Rightarrow> bool" where
  "config_inv w \<longleftrightarrow> index_ok (key_of w) (v2 w) \<and> 0 < block_number w"

lemma steps_index_ok: "index_steps w s q c c' \<Longrightarrow> 0 < block_number w \<Longrightarrow> index_ok (key_of w) c \<Longrightarrow> index_ok (key_of w) c'"
  by (induction rule: rtranclp_induct) (auto intro: step_index_ok)

lemma config_index_only: "index_ok K (c\<lparr>vc_config := g\<rparr>) = index_ok K c"
  using config_index_ok [where c = c and g = g and e = "next_network_identity_rotation_epoch c"] by simp

lemma move_inv:
  assumes "config_move w w'" "config_inv w"
  shows "config_inv w'"
  using assms(1)
proof (cases rule: move_cases)
  case (call s q)
  have "evolves s q w w'"
    using dispatch_evolves [OF call] assms(2) by (simp add: config_inv_def)
  then obtain c l where c: "index_steps w s q (v2 w) c" and w': "w' = w\<lparr>validator_config_v2 := c, logs := l\<rparr>"
    by (rule evolvesE)
  then have "index_ok (key_of w) c"
    using steps_index_ok [OF c] assms(2) by (simp add: config_inv_def)
  then show ?thesis
    using assms(2) by (simp add: w' config_inv_def)
next
  case (other g)
  then show ?thesis
    using assms(2) key_of_keccak [OF other(2)] by (simp add: config_inv_def config_index_only)
qed

lemma history_inv: "config_history w w' \<Longrightarrow> config_inv w \<Longrightarrow> config_inv w'"
  by (induction rule: rtranclp_induct) (auto intro: move_inv)

lemma start_inv: "v2 w = empty_validator_config_v2 \<Longrightarrow> 0 < block_number w \<Longrightarrow> config_inv w"
  by (simp add: config_inv_def index_ok_def keys_ok_def active_ok_def addresses_ok_def ingress_ok_def endpoints_ok_def
      live_record_def empty_validator_config_v2_def)

text \<open>What the list of active validators contains.\<close>

lemma active_position:
  assumes "active_ok (v2 w)" "p < sv_len (active_indices (v2 w))"
  obtains i where "sub64 (sv_at (active_indices (v2 w)) p) 1 = i" "live_record (v2 w) i" "vr_active_idx (record_at (v2 w) i) = p + 1"
proof -
  obtain i where i: "sv_at (active_indices (v2 w)) p = i + 1" "live_record (v2 w) i" "vr_active_idx (record_at (v2 w) i) = p + 1"
    using assms unfolding active_ok_def by blast
  then have "sub64 (sv_at (active_indices (v2 w)) p) 1 = i"
    using live_less [OF i(2)] active_small [OF assms(1)] by (subst sub64_le) simp_all
  then show ?thesis
    using that i by blast
qed

lemma active_list:
  assumes ok: "active_ok (v2 w)"
  shows "distinct (get_active_validators w)" "set (get_active_validators w) = {record_at (v2 w) i |i. live_record (v2 w) i}"
proof -
  let ?n = "sv_len (active_indices (v2 w))" and ?r = "\<lambda>p. record_at (v2 w) (sub64 (sv_at (active_indices (v2 w)) p) 1)"
  have list: "get_active_validators w = map ?r [0..<?n]"
    by (simp add: get_active_validators_def read_validator_at_def)
  have at: "vr_active_idx (?r p) = p + 1" "\<exists>i. ?r p = record_at (v2 w) i \<and> live_record (v2 w) i" if "p < ?n" for p
    using active_position [OF ok that] by metis+
  have "inj_on ?r {0..<?n}"
    using at(1) by (intro inj_onI) (metis add_right_cancel atLeastLessThan_iff)
  then show "distinct (get_active_validators w)"
    by (simp add: list distinct_map)
  have "\<exists>p<?n. record_at (v2 w) i = ?r p" if i: "live_record (v2 w) i" for i
  proof -
    let ?p = "vr_active_idx (record_at (v2 w) i) - 1"
    have "?p < ?n" "sv_at (active_indices (v2 w)) ?p = i + 1"
      using ok i by (auto simp: active_ok_def)
    moreover have "sub64 (i + 1) 1 = i"
      using live_less [OF i] active_small [OF ok] by (subst sub64_le) simp_all
    ultimately show ?thesis
      by metis
  qed
  then show "set (get_active_validators w) = {record_at (v2 w) i |i. live_record (v2 w) i}"
    unfolding list using at(2) by fastforce
qed

lemma found_by_key:
  assumes "config_inv w" "i < records (v2 w)"
  shows "validator_by_public_key w (vr_public_key (record_at (v2 w) i)) = Inr (record_at (v2 w) i)"
proof -
  have "pubkey_to_index (v2 w) (vr_public_key (record_at (v2 w) i)) = i + 1"
    using assms index_okD(1) by (auto simp: config_inv_def keys_ok_def)
  moreover have "records (v2 w) < 2 ^ 32"
    using assms(1) index_okD(2) active_small by (auto simp: config_inv_def)
  then have "sub64 (i + 1) 1 = i"
    using assms(2) by (subst sub64_le) simp_all
  ultimately show ?thesis
    by (simp add: validator_by_public_key_def read_validator_at_def)
qed

lemma found_by_address:
  assumes "config_inv w" "live_record (v2 w) i"
  shows "validator_by_address w (vr_validator_address (record_at (v2 w) i)) = Inr (record_at (v2 w) i)"
proof -
  have "address_to_index (v2 w) (vr_validator_address (record_at (v2 w) i)) = i + 1"
    using assms index_okD(3) by (auto simp: config_inv_def addresses_ok_def)
  moreover have "records (v2 w) < 2 ^ 32"
    using assms(1) index_okD(2) active_small by (auto simp: config_inv_def)
  then have "sub64 (i + 1) 1 = i"
    using live_less [OF assms(2)] by (subst sub64_le) simp_all
  ultimately show ?thesis
    by (simp add: validator_by_address_def read_validator_at_def)
qed

lemma ingress_apart:
  assumes "config_inv w" "live_record (v2 w) i" "live_record (v2 w) j"
    "parse_socket_addr (vr_ingress (record_at (v2 w) i)) = parse_socket_addr (vr_ingress (record_at (v2 w) j))"
  shows "i = j"
proof -
  have "ensure_address_is_ip_port (vr_ingress (record_at (v2 w) i))"
    using assms(1,2) index_okD(5) live_less by (auto simp: config_inv_def endpoints_ok_def)
  then have "key_of w (vr_ingress (record_at (v2 w) i)) = key_of w (vr_ingress (record_at (v2 w) j))"
    using assms(4) by (auto simp: key_of_def ingress_key_def ensure_address_is_ip_port_def split: socket_addr.split)
  then show ?thesis
    using assms(1-3) index_okD(4) by (auto simp: config_inv_def ingress_ok_def)
qed

text \<open>C35: in every history from empty storage the index structures of the second configuration agree with its records.
  The list of active validators has each record that is not deactivated exactly once; every record is found
  by its public key and every active one by its address; two active validators never share an ingress socket
  address; and every stored ingress and egress address parses.\<close>

theorem validator_index_consistent:
  assumes "v2 w0 = empty_validator_config_v2" "0 < block_number w0" "config_history w0 w"
  shows "distinct (get_active_validators w)
    \<and> set (get_active_validators w) = {read_validator_at w i |i. i < v2_validator_count w \<and> vr_deactivated_at_height (read_validator_at w i) = 0}
    \<and> (\<forall>i<v2_validator_count w. validator_by_public_key w (vr_public_key (read_validator_at w i)) = Inr (read_validator_at w i)
        \<and> ensure_address_is_ip_port (vr_ingress (read_validator_at w i)) \<and> ensure_address_is_ip (vr_egress (read_validator_at w i)))
    \<and> (\<forall>v\<in>set (get_active_validators w). validator_by_address w (vr_validator_address v) = Inr v
        \<and> (\<forall>v'\<in>set (get_active_validators w). parse_socket_addr (vr_ingress v) = parse_socket_addr (vr_ingress v') \<longrightarrow> v = v'))"
proof -
  have inv: "config_inv w"
    using history_inv [OF assms(3) start_inv [OF assms(1,2)]] .
  then have ok: "active_ok (v2 w)" "endpoints_ok (v2 w)"
    using index_okD by (auto simp: config_inv_def)
  have active: "set (get_active_validators w) = {record_at (v2 w) i |i. live_record (v2 w) i}"
    by (rule active_list [OF ok(1)])
  show ?thesis
  proof (intro conjI ballI impI allI)
    show "distinct (get_active_validators w)"
      by (rule active_list [OF ok(1)])
    show "set (get_active_validators w) = {read_validator_at w i |i. i < v2_validator_count w \<and> vr_deactivated_at_height (read_validator_at w i) = 0}"
      by (simp add: active live_record_def read_validator_at_def v2_validator_count_def)
    fix v assume "v \<in> set (get_active_validators w)"
    then obtain i where v: "v = record_at (v2 w) i" "live_record (v2 w) i"
      by (auto simp: active)
    then show "validator_by_address w (vr_validator_address v) = Inr v"
      using found_by_address [OF inv] by simp
    fix v' assume "v' \<in> set (get_active_validators w)" "parse_socket_addr (vr_ingress v) = parse_socket_addr (vr_ingress v')"
    moreover from this obtain j where "v' = record_at (v2 w) j" "live_record (v2 w) j"
      by (auto simp: active)
    ultimately show "v = v'"
      using v ingress_apart [OF inv v(2), of j] by simp
  qed (use ok(2) found_by_key [OF inv] in \<open>auto simp: endpoints_ok_def read_validator_at_def v2_validator_count_def\<close>)
qed

section \<open>What a history keeps\<close>

definition extends :: "validator_config_v2_storage \<Rightarrow> validator_config_v2_storage \<Rightarrow> bool" where
  "extends c c' \<longleftrightarrow> records c \<le> records c' \<and> (\<forall>i<records c. \<not> live_record c i \<longrightarrow> record_at c' i = record_at c i)
    \<and> (\<forall>k. pubkey_to_index c k \<noteq> 0 \<longrightarrow> pubkey_to_index c' k \<noteq> 0)"

lemma extends_refl: "extends c c"
  by (simp add: extends_def)

lemma extends_trans: "extends c c1 \<Longrightarrow> extends c1 c2 \<Longrightarrow> extends c c2"
  by (auto simp: extends_def live_record_def)

lemma deactivated_record:
  assumes "active_ok c" "live_record c i" "\<not> live_record c j"
  shows "record_at (deactivated c i height h) j = record_at c j"
proof -
  obtain m where "sv_at (active_indices c) (sv_len (active_indices c) - 1) = m + 1" "live_record c m"
    using active_place [OF assms(1,2)] by blast
  then show ?thesis
    using assms(2,3) by (auto simp: deactivated_def Let_def)
qed

lemma step_extends: "index_step w s q c c' \<Longrightarrow> active_ok c \<Longrightarrow> extends c c'"
proof (induction rule: index_step.induct)
  case (deactivate c i h)
  then show ?case
    using deactivated_record by (simp add: extends_def)
qed (auto simp: extends_def dest: live_less)

lemma steps_extend: "index_steps w s q c c' \<Longrightarrow> 0 < block_number w \<Longrightarrow> index_ok (key_of w) c \<Longrightarrow> extends c c'"
proof (induction rule: rtranclp_induct)
  case (step c1 c2)
  then show ?case
    using step_extends [OF step(2)] index_okD(2) [OF steps_index_ok [OF step(1)]] extends_trans by blast
qed (rule extends_refl)

lemma move_extends: "config_move w w' \<Longrightarrow> config_inv w \<Longrightarrow> extends (v2 w) (v2 w')"
proof (erule move_cases)
  fix s q assume "config_inv w" "v2_dispatch s q w = Inr ((), w')"
  then have "evolves s q w w'"
    using dispatch_evolves by (auto simp: config_inv_def)
  then show ?thesis
    using \<open>config_inv w\<close> by (elim evolvesE) (simp add: steps_extend config_inv_def)
next
  fix g assume "v2 w' = (v2 w)\<lparr>vc_config := g\<rparr>"
  then show ?thesis
    by (simp add: extends_def live_record_def)
qed

lemma history_extends: "config_history w w' \<Longrightarrow> config_inv w \<Longrightarrow> extends (v2 w) (v2 w')"
proof (induction rule: rtranclp_induct)
  case (step w1 w2)
  then show ?case
    using move_extends [OF step(2)] history_inv [OF step(1)] extends_trans by blast
qed (rule extends_refl)

text \<open>C36: the records are a permanent log. Once a validator is deactivated its record never changes and never becomes
  active again, and a public key that was ever registered is rejected for good.\<close>

theorem deactivated_records_frozen:
  assumes "v2 w0 = empty_validator_config_v2" "0 < block_number w0" "config_history w0 w" "config_history w w'"
  shows "(\<forall>i v. validator_by_index w i = Inr v \<and> vr_deactivated_at_height v \<noteq> 0 \<longrightarrow>
        validator_by_index w' i = Inr v \<and> get_active_validator w' i = Inl (v2_error ValidatorAlreadyDeactivated))
    \<and> (\<forall>k v. k \<noteq> 0 \<and> validator_by_public_key w k = Inr v \<longrightarrow> require_new_pubkey w' k = Inl (v2_error PublicKeyAlreadyExists))"
proof -
  have "config_inv w"
    using history_inv [OF assms(3) start_inv [OF assms(1,2)]] .
  then have e: "extends (v2 w) (v2 w')"
    by (rule history_extends [OF assms(4)])
  show ?thesis
  proof (intro conjI allI impI)
    fix i v assume v: "validator_by_index w i = Inr v \<and> vr_deactivated_at_height v \<noteq> 0"
    then have "i < records (v2 w)" "record_at (v2 w) i = v" "\<not> live_record (v2 w) i"
      by (auto simp: validator_by_index_def v2_validator_count_def read_validator_at_def live_record_def split: if_splits)
    then have "i < records (v2 w')" "record_at (v2 w') i = v"
      using e by (auto simp: extends_def)
    then show "validator_by_index w' i = Inr v" "get_active_validator w' i = Inl (v2_error ValidatorAlreadyDeactivated)"
      using v by (auto simp: validator_by_index_def v2_validator_count_def read_validator_at_def get_active_validator_def)
  next
    fix k v assume "k \<noteq> 0 \<and> validator_by_public_key w k = Inr v"
    then show "require_new_pubkey w' k = Inl (v2_error PublicKeyAlreadyExists)"
      using e by (auto simp: extends_def validator_by_public_key_def require_new_pubkey_def Let_def split: if_splits)
  qed
qed

section \<open>Authority\<close>

text \<open>A record without the place in the list of active records.\<close>

abbreviation content :: "validator_record \<Rightarrow> validator_record" where
  "content r \<equiv> r\<lparr>vr_active_idx := 0\<rparr>"

lemma deactivated_content: "j \<noteq> i \<Longrightarrow> content (record_at (deactivated c i height h) j) = content (record_at c j)"
  by (simp add: deactivated_def Let_def)

lemma step_authority:
  assumes "index_step w s q c c'" "i < records c" "content (record_at c' i) \<noteq> content (record_at c i)"
  shows "s = owner_of w \<or> s = vr_validator_address (record_at c i)"
  using assms
proof (induction rule: index_step.induct)
  case (deactivate c j h)
  then show ?case
    using deactivated_content [of i j c] by (cases "i = j") auto
qed (auto split: if_splits)

lemma step_key:
  assumes "index_step w s q c c'" "keys_ok c" "pubkey_to_index c k = 0" "pubkey_to_index c' k \<noteq> 0"
  shows "signed_key w q k \<or> migrates w s q"
  using assms
proof (induction rule: index_step.induct)
  case (rotate c i old ing new eg k')
  then have "pubkey_to_index c (vr_public_key (record_at c i)) \<noteq> 0"
    using live_less [OF rotate(1)] by (simp add: keys_ok_def)
  then show ?case
    using rotate by (auto split: if_splits)
qed (auto split: if_splits)

lemma steps_authority:
  assumes "index_steps w s q c c'" "index_ok (key_of w) c" "0 < block_number w"
  shows "(\<forall>i<records c. content (record_at c' i) \<noteq> content (record_at c i) \<longrightarrow> s = owner_of w \<or> s = vr_validator_address (record_at c i))
    \<and> (\<forall>k. pubkey_to_index c k = 0 \<and> pubkey_to_index c' k \<noteq> 0 \<longrightarrow> signed_key w q k \<or> migrates w s q)"
  using assms(1)
proof (induction rule: rtranclp_induct)
  case (step c1 c2)
  have ok: "index_ok (key_of w) c1" and more: "records c \<le> records c1"
    using steps_index_ok [OF step(1) assms(3,2)] steps_extend [OF step(1) assms(3,2)] by (simp_all add: extends_def)
  have "s = owner_of w \<or> s = vr_validator_address (record_at c i)" if i: "i < records c" "content (record_at c2 i) \<noteq> content (record_at c i)" for i
  proof (cases "content (record_at c1 i) = content (record_at c i)")
    case True
    then have "vr_validator_address (record_at c1 i) = vr_validator_address (record_at c i)"
      by (metis validator_record.ext_inject validator_record.surjective validator_record.update_convs(7))
    then show ?thesis
      using step_authority [OF step(2), of i] True i more by simp
  qed (use step(3) i in blast)
  moreover have "signed_key w q k \<or> migrates w s q" if "pubkey_to_index c k = 0" "pubkey_to_index c2 k \<noteq> 0" for k
    using step_key [OF step(2) index_okD(1) [OF ok], of k] step(3) that by blast
  ultimately show ?case
    by blast
qed auto

text \<open>C37: what a call to the second configuration needs. It changes an existing record, but for its place in the list of active
  records, only if the caller is the owner or the validator of that record; and it registers a new public key only
  if it is an addition or a rotation for that key with a valid signature of the key over the arguments of the call, or a
  step of the migration by the owner.\<close>

theorem validator_change_authorized:
  assumes "v2 w0 = empty_validator_config_v2" "0 < block_number w0" "config_history w0 w" "v2_dispatch s c w = Inr ((), w')"
  shows "(\<forall>i<v2_validator_count w. content (read_validator_at w' i) \<noteq> content (read_validator_at w i) \<longrightarrow>
        s = owner_of w \<or> s = vr_validator_address (read_validator_at w i))
    \<and> (\<forall>k. pubkey_to_index (v2 w) k = 0 \<and> pubkey_to_index (v2 w') k \<noteq> 0 \<longrightarrow> signed_key w c k \<or> migrates w s c)"
proof -
  have inv: "index_ok (key_of w) (v2 w)" "0 < block_number w"
    using history_inv [OF assms(3) start_inv [OF assms(1,2)]] by (simp_all add: config_inv_def)
  obtain d l where "index_steps w s c (v2 w) d" "w' = w\<lparr>validator_config_v2 := d, logs := l\<rparr>"
    using dispatch_evolves [OF assms(4) inv] by (rule evolvesE)
  then show ?thesis
    using steps_authority [of w s c "v2 w" d] inv by (simp add: read_validator_at_def v2_validator_count_def)
qed

section \<open>The list of the first configuration\<close>

definition v1_ok :: "validator_config_storage \<Rightarrow> bool" where
  "v1_ok c \<longleftrightarrow>
    (\<forall>i < sv_len (v1_validators_array c). let v = v1_validators c (sv_at (v1_validators_array c) i) in
       v1_public_key v \<noteq> 0 \<and> v1_index v = i \<and> ensure_address_is_ip_port (v1_inbound_address v) \<and> ensure_address_is_ip_port (v1_outbound_address v))
    \<and> (\<forall>a. v1_public_key (v1_validators c a) \<noteq> 0 \<longrightarrow>
       v1_index (v1_validators c a) < sv_len (v1_validators_array c) \<and> sv_at (v1_validators_array c) (v1_index (v1_validators c a)) = a)"

lemma v1_add_ok:
  assumes "v1_ok c" "v1_public_key (v1_validators c a) = 0" "v1_public_key v \<noteq> 0" "v1_index v = sv_len (v1_validators_array c)"
    "ensure_address_is_ip_port (v1_inbound_address v)" "ensure_address_is_ip_port (v1_outbound_address v)"
    "sv_push m a (v1_validators_array c) = Some vec"
  shows "v1_ok (c\<lparr>v1_validators := (v1_validators c)(a := v), v1_validators_array := vec\<rparr>)"
  using assms by (auto simp: v1_ok_def Let_def sv_push_def less_Suc_eq split: if_splits)

lemma v1_index_inj:
  assumes "v1_ok c" "v1_public_key (v1_validators c a) \<noteq> 0" "b \<noteq> a" "v1_index (v1_validators c b) = v1_index (v1_validators c a)"
  shows "v1_public_key (v1_validators c b) = 0"
  using assms unfolding v1_ok_def by metis

lemma v1_move_ok:
  assumes "v1_ok c" "v1_public_key (v1_validators c a) \<noteq> 0" "v1_public_key (v1_validators c b) = 0" "v1_public_key v \<noteq> 0"
    "v1_index v = v1_index (v1_validators c a)" "ensure_address_is_ip_port (v1_inbound_address v)" "ensure_address_is_ip_port (v1_outbound_address v)"
  shows "v1_ok (c\<lparr>v1_validators_array := sv_set (v1_index v) b (v1_validators_array c),
      v1_validators := (v1_validators c)(a := no_v1_validator, b := v)\<rparr>)"
  using assms v1_index_inj [OF assms(1,2)] by (auto simp: v1_ok_def Let_def sv_set_def no_v1_validator_def)

lemma v1_write_ok:
  assumes "v1_ok c" "v1_public_key (v1_validators c a) \<noteq> 0" "v1_public_key v \<noteq> 0" "v1_index v = v1_index (v1_validators c a)"
    "ensure_address_is_ip_port (v1_inbound_address v)" "ensure_address_is_ip_port (v1_outbound_address v)"
  shows "v1_ok (c\<lparr>v1_validators := (v1_validators c)(a := v)\<rparr>)"
  using assms by (auto simp: v1_ok_def Let_def)

lemma v1_active_ok: "v1_ok (c\<lparr>v1_validators := (v1_validators c)(a := (v1_validators c a)\<lparr>v1_active := b\<rparr>)\<rparr>) = v1_ok c"
proof -
  have "v1_public_key (((v1_validators c)(a := (v1_validators c a)\<lparr>v1_active := b\<rparr>)) x) = v1_public_key (v1_validators c x)"
    "v1_index (((v1_validators c)(a := (v1_validators c a)\<lparr>v1_active := b\<rparr>)) x) = v1_index (v1_validators c x)"
    "v1_inbound_address (((v1_validators c)(a := (v1_validators c a)\<lparr>v1_active := b\<rparr>)) x) = v1_inbound_address (v1_validators c x)"
    "v1_outbound_address (((v1_validators c)(a := (v1_validators c a)\<lparr>v1_active := b\<rparr>)) x) = v1_outbound_address (v1_validators c x)" for x
    by simp_all
  then show ?thesis
    unfolding v1_ok_def Let_def by (simp del: fun_upd_apply)
qed

lemma v1_other_ok: "v1_ok (c\<lparr>v1_owner := own\<rparr>) = v1_ok c" "v1_ok (c\<lparr>v1_next_dkg_ceremony := e\<rparr>) = v1_ok c"
  by (simp_all add: v1_ok_def)

lemma v1_addresses_run: "v1_check_addresses w a b = Inr x \<longleftrightarrow> ensure_address_is_ip_port a \<and> ensure_address_is_ip_port b"
  by (auto simp: v1_check_addresses_def Let_def)

lemma v1_dispatch_ok:
  assumes run: "v1_dispatch s c w = Inr ((), w')" and ok: "v1_ok (validator_config w)"
  shows "v1_ok (validator_config w')"
proof (cases c)
  case (V1AddValidator a k act ing eg)
  then show ?thesis
    using run v1_add_ok [OF ok]
    by (auto simp: v1_add_validator_def runs v1_addresses_run v1_validator_exists_def v1_validator_count_def write_v1_validator_def
        v1_push_address_def upd_v1_def)
next
  case (V1UpdateValidator a k ing eg)
  then show ?thesis
    using run v1_move_ok [OF ok, of s a] v1_write_ok [OF ok, of s]
    by (cases "a = s") (auto simp: v1_update_validator_def runs v1_addresses_run v1_validator_exists_def write_v1_validator_def upd_v1_def)
qed (use run ok in \<open>auto simp: runs v1_change_validator_status_def v1_change_validator_status_by_index_def v1_set_active_def
    v1_validator_exists_def write_v1_validator_def upd_v1_def v1_change_owner_def v1_set_next_full_dkg_ceremony_def v1_active_ok v1_other_ok\<close>)

lemma v1_move_keeps:
  assumes "config_move w w'" "config_inv w" "v1_ok (validator_config w)"
  shows "v1_ok (validator_config w')"
  using assms(1)
proof cases
  case (first_config s c)
  then show ?thesis
    using v1_dispatch_ok assms(3) by blast
next
  case (second_config s c)
  then have "evolves s c w w'"
    using dispatch_evolves assms(2) by (simp add: config_inv_def)
  then show ?thesis
    using assms(3) by (elim evolvesE) simp
next
  case (first_genesis own)
  then show ?thesis
    using assms(3) by (auto simp: v1_initialize_def upd_v1_def runs v1_other_ok)
next
  case (genesis own)
  then show ?thesis
    using assms(3) by (auto simp: v2_initialize_def upd_v2_def runs)
next
  case (system c)
  have "preserves validator_config (system_exec c)"
    by (rule outer_exec) (simp_all add: outer_obs_def)
  then show ?thesis
    using system assms(3) by (auto dest: preservesD)
qed (use assms(3) in simp)

lemma v1_history_ok: "config_history w w' \<Longrightarrow> config_inv w \<Longrightarrow> v1_ok (validator_config w) \<Longrightarrow> v1_ok (validator_config w')"
  by (induction rule: rtranclp_induct) (auto intro: v1_move_keeps history_inv)

text \<open>C38: the list of the first configuration. After any history from the empty storage the list of all validators is in the
  order of their indices, no address is listed twice, the listed addresses are those that are registered, and the inbound
  and outbound addresses of all listed validators parse.\<close>

theorem v1_list_consistent:
  assumes "v2 w0 = empty_validator_config_v2" "validator_config w0 = empty_validator_config" "0 < block_number w0" "config_history w0 w"
  shows "map v1_index (v1_get_validators w) = [0..<v1_validator_count w] \<and> distinct (map v1_validator_address (v1_get_validators w))
    \<and> (\<forall>a. v1_validator_exists w a \<longleftrightarrow> a \<in> set (map v1_validator_address (v1_get_validators w)))
    \<and> (\<forall>v\<in>set (v1_get_validators w). ensure_address_is_ip_port (v1_inbound_address v) \<and> ensure_address_is_ip_port (v1_outbound_address v))"
proof -
  let ?c = "validator_config w"
  have "v1_ok (validator_config w0)"
    by (simp add: assms(2) v1_ok_def empty_validator_config_def no_v1_validator_def)
  then have ok: "v1_ok ?c"
    by (rule v1_history_ok [OF assms(4) start_inv [OF assms(1,3)]])
  let ?at = "sv_at (v1_validators_array ?c)" and ?n = "sv_len (v1_validators_array ?c)"
  have index: "v1_index (v1_validators ?c (?at i)) = i" if "i < ?n" for i
    using ok that by (simp add: v1_ok_def Let_def)
  have addresses: "map v1_validator_address (v1_get_validators w) = map ?at [0..<?n]"
    by (simp add: v1_get_validators_def Let_def)
  have "map v1_index (v1_get_validators w) = [0..<v1_validator_count w]"
    by (auto simp: v1_get_validators_def v1_validator_count_def Let_def index intro!: nth_equalityI)
  moreover have "inj_on ?at (set [0..<?n])"
    by (rule inj_on_inverseI [where g = "\<lambda>a. v1_index (v1_validators ?c a)"]) (simp add: index)
  then have "distinct (map v1_validator_address (v1_get_validators w))"
    by (simp add: addresses distinct_map)
  moreover have "v1_validator_exists w a \<longleftrightarrow> a \<in> set (map v1_validator_address (v1_get_validators w))" for a
  proof
    assume "v1_validator_exists w a"
    then have "v1_index (v1_validators ?c a) < ?n" "a = ?at (v1_index (v1_validators ?c a))"
      using ok by (simp_all add: v1_ok_def v1_validator_exists_def)
    then show "a \<in> set (map v1_validator_address (v1_get_validators w))"
      by (simp add: addresses)
  next
    assume "a \<in> set (map v1_validator_address (v1_get_validators w))"
    then show "v1_validator_exists w a"
      using ok by (auto simp: addresses v1_ok_def v1_validator_exists_def Let_def)
  qed
  moreover have "\<forall>v\<in>set (v1_get_validators w). ensure_address_is_ip_port (v1_inbound_address v) \<and> ensure_address_is_ip_port (v1_outbound_address v)"
    using ok by (auto simp: v1_get_validators_def v1_ok_def Let_def)
  ultimately show ?thesis
    by blast
qed

section \<open>Long addresses\<close>

definition long_ingress :: "nat \<Rightarrow> string" where
  "long_ingress k = show_ipv4 [127, 0, 0, 1] @ CHR '':'' # replicate k CHR ''0'' @ show_number 10 80"

lemma long_ingress_parses: "parse_socket_addr (long_ingress k) = Some (SocketV4 [127, 0, 0, 1] 80)"
  unfolding long_ingress_def by (rule socket_leading_zeros) simp_all

lemma long_ingress_length: "k \<le> length (long_ingress k)"
  by (simp add: long_ingress_def)

text \<open>C39: the check of the endpoints accepts socket addresses of any length, because a port may have leading zeros, but the
  message to sign has one byte for the length. So a rotation with an ingress of more than 255 characters that passes every
  check before the signature (an active record and its owner or validator as the caller, a new key, a valid and unused ingress,
  a valid egress, a signature of the right format) panics, whether or not the signature is valid. And such addresses
  exist for every length bound: \<open>long_ingress\<close> is accepted for every number of zeros.\<close>

theorem long_ingress_panics:
  assumes "authorized_record s i w = Inr (v, w)" "require_new_pubkey w k = Inr ()" "ensure_address_is_ip_port ing" "ensure_address_is_ip eg"
    "require_unique_ingress w ing = Inr h" "ed25519_signature w sig" "255 < length ing"
  shows "rotate_validator s i k ing eg sig w = Inl (RustPanic ''validator ingress length must fit in uint8'')
    \<and> (\<forall>n. ensure_address_is_ip_port (long_ingress n) \<and> n \<le> length (long_ingress n))"
proof -
  have "validate_endpoints ing eg = Inr ()"
    using assms(3,4) by (simp add: validate_endpoints_def)
  moreover have "verify_validator_signature w SignRotate k sig a ing eg = Inl (RustPanic ''validator ingress length must fit in uint8'')" for a
    using assms(6,7) by (simp add: verify_validator_signature_def)
  ultimately have "rotate_validator s i k ing eg sig w = Inl (RustPanic ''validator ingress length must fit in uint8'')"
    using assms(1,2,5) by (simp add: rotate_validator_def)
  then show ?thesis
    using long_ingress_length by (simp add: ensure_address_is_ip_port_def long_ingress_parses)
qed

section \<open>A sample history\<close>

definition sample_ingress :: string where
  "sample_ingress = show_ipv4 [10, 0, 0, 7] @ CHR '':'' # show_number 10 8000"

definition sample_egress :: string where
  "sample_egress = show_ip_addr (V4 [10, 0, 0, 7])"

definition sample_validator_world :: world where
  "sample_validator_world = (empty_world T2)\<lparr>keccak256 := \<lambda>p. (case p of IngressV4 octets port \<Rightarrow> of_nat port | _ \<Rightarrow> 0),
     ed25519_key := \<lambda>_. True, ed25519_signature := \<lambda>_. True, ed25519_verify := \<lambda>_ _ _ _. True\<rparr>"

lemma sample_parses: "parse_socket_addr sample_ingress = Some (SocketV4 [10, 0, 0, 7] 8000)" "ensure_address_is_ip sample_egress"
  using socket_leading_zeros [of 8000 "[10, 0, 0, 7]" 0] ip_addr_roundtrip [of "V4 [10, 0, 0, 7]"]
  by (simp_all add: sample_ingress_def sample_egress_def ip_wf_def ensure_address_is_ip_def)

lemma sample_lengths: "length sample_ingress = 13" "length sample_egress = 8"
  by (simp_all add: sample_ingress_def sample_egress_def show_ip_addr_def show_ipv4_def show_number_def digits_of.simps)

definition sample_started :: world where
  "sample_started = sample_validator_world\<lparr>validator_config_v2 := empty_validator_config_v2\<lparr>vc_config := new_config 0x111 True 1\<rparr>\<rparr>"

definition sample_record :: validator_record where
  "sample_record = \<lparr>vr_public_key = 7, vr_validator_address = 0x222, vr_ingress = sample_ingress, vr_egress = sample_egress,
     vr_fee_recipient = 0, vr_index = 0, vr_active_idx = 1, vr_added_at_height = 1, vr_deactivated_at_height = 0\<rparr>"

definition sample_added :: world where
  "sample_added = sample_started\<lparr>validator_config_v2 := (v2 sample_started)\<lparr>active_ingress_ips := (\<lambda>_. False)(8000 := True),
       active_indices := \<lparr>sv_len = 1, sv_at = (\<lambda>_. 0)(0 := 1)\<rparr>,
       vc_validators := \<lparr>sv_len = 1, sv_at = (\<lambda>_. no_validator)(0 := sample_record)\<rparr>,
       pubkey_to_index := (\<lambda>_. 0)(7 := 1), address_to_index := (\<lambda>_. 0)(0x222 := 1)\<rparr>,
     logs := [(VALIDATOR_CONFIG_V2_ADDRESS, ValidatorConfigV2Event (ValidatorAdded 0 0x222 7 sample_ingress sample_egress 0))]\<rparr>"

lemma sample_validator_world_sel [simp]:
  "spec sample_validator_world = T2" "block_number sample_validator_world = 1" "v2 sample_validator_world = empty_validator_config_v2"
  "ed25519_key sample_validator_world = (\<lambda>_. True)" "ed25519_signature sample_validator_world = (\<lambda>_. True)"
  "ed25519_verify sample_validator_world = (\<lambda>_ _ _ _. True)" "logs sample_validator_world = []"
  "keccak256 sample_validator_world (IngressV4 octets port) = of_nat port"
  by (simp_all add: sample_validator_world_def empty_world_def)

lemma sample_genesis: "config_move sample_validator_world sample_started"
  by (rule config_move.genesis [where own = "0x111"]) (simp add: v2_initialize_def upd_v2_def sample_started_def run_defs)

lemma sample_started_sel [simp]:
  "spec sample_started = T2" "block_number sample_started = 1" "v2 sample_started = empty_validator_config_v2\<lparr>vc_config := new_config 0x111 True 1\<rparr>"
  "ed25519_key sample_started = (\<lambda>_. True)" "ed25519_signature sample_started = (\<lambda>_. True)"
  "ed25519_verify sample_started = (\<lambda>_ _ _ _. True)" "logs sample_started = []"
  "keccak256 sample_started (IngressV4 octets port) = of_nat port"
  by (simp_all add: sample_started_def)

lemma sample_add: "v2_dispatch 0x111 (AddValidator 0x222 7 sample_ingress sample_egress 0 sig) sample_started = Inr ((), sample_added)"
  by (simp add: v2_dispatch_def add_validator_def void_def run_defs require_init_def require_owner_def new_config_def
      require_new_pubkey_def require_new_address_def validate_endpoints_def ensure_address_is_ip_port_def require_unique_ingress_def
      ingress_key_def verify_validator_signature_def sample_parses sample_lengths set_ingress_def append_validator_def
      push_active_def push_validator_def set_pubkey_index_def set_address_index_def upd_v2_def emit_v2_def emit_event_def
      v2_validator_count_def sv_push_def sv_empty_def sample_added_def sample_record_def empty_validator_config_v2_def ebind_def)

lemma sample_added_sel [simp]:
  "spec sample_added = T2" "block_number sample_added = 1" "ed25519_signature sample_added = (\<lambda>_. True)"
  "keccak256 sample_added (IngressV4 octets port) = of_nat port"
  "vc_validators (v2 sample_added) = \<lparr>sv_len = 1, sv_at = (\<lambda>_. no_validator)(0 := sample_record)\<rparr>"
  "active_indices (v2 sample_added) = \<lparr>sv_len = 1, sv_at = (\<lambda>_. 0)(0 := 1)\<rparr>"
  "active_ingress_ips (v2 sample_added) = (\<lambda>_. False)(8000 := True)" "pubkey_to_index (v2 sample_added) = (\<lambda>_. 0)(7 := 1)"
  "vc_config (v2 sample_added) = new_config 0x111 True 1"
  by (simp_all add: sample_added_def)

lemma sample_history: "config_history sample_validator_world sample_started" "config_history sample_validator_world sample_added"
proof -
  show "config_history sample_validator_world sample_started"
    by (rule r_into_rtranclp) (rule sample_genesis)
  then show "config_history sample_validator_world sample_added"
    by (rule rtranclp.rtrancl_into_rtrancl) (rule second_config [OF sample_add])
qed

lemma sample_validator_authorized: "authorized_record 0x222 0 sample_added = Inr (sample_record, sample_added)"
  by (simp add: authorized_record_def get_active_validator_def require_init_def require_owner_or_validator_def new_config_def
      sample_record_def run_defs ebind_def)

text \<open>The validator deactivates itself.\<close>

definition sample_gone :: world where
  "sample_gone = sample_added\<lparr>validator_config_v2 := (v2 sample_added)\<lparr>active_ingress_ips := \<lambda>_. False,
       active_indices := \<lparr>sv_len = 0, sv_at = \<lambda>_. 0\<rparr>,
       vc_validators := \<lparr>sv_len = 1, sv_at = (\<lambda>_. no_validator)(0 := sample_record\<lparr>vr_active_idx := 0, vr_deactivated_at_height := 1\<rparr>)\<rparr>\<rparr>,
     logs := logs sample_added @ [(VALIDATOR_CONFIG_V2_ADDRESS, ValidatorConfigV2Event (ValidatorDeactivated 0 0x222))]\<rparr>"

lemma sample_deactivate: "v2_dispatch 0x222 (DeactivateValidator 0) sample_added = Inr ((), sample_gone)"
  by (simp add: v2_dispatch_def deactivate_validator_def get_active_validator_def require_owner_or_validator_def ingress_key_def
      sample_record_def sample_parses set_ingress_def upd_v2_def upd_validator_def swap_and_pop_def sub64_def sv_set_def sv_pop_def
      emit_v2_def emit_event_def run_defs Let_def new_config_def) (simp add: sample_gone_def sample_record_def fun_upd_idem)

lemma sample_end: "config_history sample_validator_world sample_gone"
  using sample_history(2) by (rule rtranclp.rtrancl_into_rtrancl) (rule second_config [OF sample_deactivate])

section \<open>Witnesses\<close>

theorem validator_index_consistent_witness:
  "config_history sample_validator_world sample_added \<and> get_active_validators sample_added = [sample_record]
    \<and> validator_by_public_key sample_added 7 = Inr sample_record \<and> validator_by_address sample_added 0x222 = Inr sample_record"
  using validator_index_consistent [OF sample_validator_world_sel(3) _ sample_history(2)] sample_history(2)
  by (simp add: get_active_validators_def read_validator_at_def v2_validator_count_def sub64_def) (simp add: sample_record_def)

theorem deactivated_records_frozen_witness:
  "config_history sample_validator_world sample_added \<and> v2_dispatch 0x222 (DeactivateValidator 0) sample_added = Inr ((), sample_gone)
    \<and> get_active_validator (sample_gone\<lparr>block_number := 2, timestamp := 2000\<rparr>) 0 = Inl (v2_error ValidatorAlreadyDeactivated)
    \<and> require_new_pubkey (sample_gone\<lparr>block_number := 2, timestamp := 2000\<rparr>) 7 = Inl (v2_error PublicKeyAlreadyExists)"
proof -
  have "config_history sample_gone (sample_gone\<lparr>block_number := 2, timestamp := 2000\<rparr>)"
    by (rule r_into_rtranclp) (rule config_move.block, simp)
  note frozen = deactivated_records_frozen [OF sample_validator_world_sel(3) _ sample_end this]
  let ?r = "sample_record\<lparr>vr_active_idx := 0, vr_deactivated_at_height := 1\<rparr>"
  have "validator_by_index sample_gone 0 = Inr ?r" "validator_by_public_key sample_gone 7 = Inr ?r"
    by (simp_all add: validator_by_index_def validator_by_public_key_def v2_validator_count_def read_validator_at_def sample_gone_def sub64_def)
  then show ?thesis
    using conjunct1 [OF frozen, rule_format, of 0 ?r] conjunct2 [OF frozen, rule_format, of 7 ?r] sample_history(2) sample_deactivate
    by simp
qed

theorem validator_change_authorized_witness:
  "config_history sample_validator_world sample_added \<and> v2_dispatch 0x222 (DeactivateValidator 0) sample_added = Inr ((), sample_gone)
    \<and> content (read_validator_at sample_gone 0) \<noteq> content (read_validator_at sample_added 0)
    \<and> (0x222 = owner_of sample_added \<or> 0x222 = vr_validator_address (read_validator_at sample_added 0))
    \<and> signed_key sample_started (AddValidator 0x222 7 sample_ingress sample_egress 0 []) 7"
proof -
  have "content (read_validator_at sample_gone 0) \<noteq> content (read_validator_at sample_added 0)"
    by (simp add: read_validator_at_def sample_gone_def sample_record_def)
  moreover have "\<not> migrates sample_started 0x111 (AddValidator 0x222 7 sample_ingress sample_egress 0 [])"
    by (simp add: migrates_def)
  ultimately show ?thesis
    using validator_change_authorized [OF sample_validator_world_sel(3) _ sample_history(2) sample_deactivate]
      validator_change_authorized [OF sample_validator_world_sel(3) _ sample_history(1) sample_add [of "[]"]]
      sample_history(2) sample_deactivate
    by (simp add: v2_validator_count_def) (simp add: empty_validator_config_v2_def)
qed

theorem long_ingress_panics_witness:
  "config_history sample_validator_world sample_added
    \<and> rotate_validator 0x222 0 8 (long_ingress 300) sample_egress [] sample_added
        = Inl (RustPanic ''validator ingress length must fit in uint8'')"
proof -
  have "require_unique_ingress sample_added (long_ingress 300) = Inr 80"
    by (simp add: require_unique_ingress_def ingress_key_def long_ingress_parses ebind_def)
  moreover have "require_new_pubkey sample_added 8 = Inr ()"
    by (simp add: require_new_pubkey_def)
  moreover have "ensure_address_is_ip_port (long_ingress 300)" "255 < length (long_ingress 300)"
    using long_ingress_length [of 300] by (simp_all add: ensure_address_is_ip_port_def long_ingress_parses)
  ultimately show ?thesis
    using long_ingress_panics [OF sample_validator_authorized _ _ sample_parses(2)] sample_history(2) by simp
qed

definition sample_first :: world where
  "sample_first = sample_validator_world\<lparr>validator_config := empty_validator_config\<lparr>v1_owner := 0x111\<rparr>\<rparr>"

definition sample_listed :: world where
  "sample_listed = sample_first\<lparr>validator_config := (validator_config sample_first)\<lparr>v1_validators := (\<lambda>_. no_v1_validator)(0x222 :=
       \<lparr>v1_public_key = 7, v1_active = True, v1_index = 0, v1_validator_address = 0x222, v1_inbound_address = sample_ingress,
        v1_outbound_address = sample_ingress\<rparr>), v1_validators_array := \<lparr>sv_len = 1, sv_at = (\<lambda>_. 0)(0 := 0x222)\<rparr>\<rparr>\<rparr>"

lemma sample_listed_history: "config_history sample_validator_world sample_listed"
proof -
  have "validator_config sample_validator_world = empty_validator_config"
    by (simp add: sample_validator_world_def)
  then have "config_move sample_validator_world sample_first"
    by (intro config_move.first_genesis [where own = "0x111"]) (simp add: v1_initialize_def upd_v1_def sample_first_def run_defs)
  moreover have "v1_dispatch 0x111 (V1AddValidator 0x222 7 True sample_ingress sample_ingress) sample_first = Inr ((), sample_listed)"
    by (simp add: v1_add_validator_def run_defs v1_check_owner_def v1_validator_exists_def v1_check_addresses_def v1_validator_count_def
        ensure_address_is_ip_port_def sample_parses write_v1_validator_def v1_push_address_def upd_v1_def sv_push_def sv_empty_def
        sample_first_def sample_listed_def empty_validator_config_def no_v1_validator_def)
  ultimately show ?thesis
    using config_move.first_config by (blast intro: rtranclp.intros)
qed

theorem v1_list_consistent_witness:
  "config_history sample_validator_world sample_listed \<and> v1_validator_count sample_listed = 1
    \<and> map v1_index (v1_get_validators sample_listed) = [0] \<and> v1_validator_exists sample_listed 0x222"
proof -
  have start: "validator_config sample_validator_world = empty_validator_config"
    by (simp add: sample_validator_world_def)
  have "v1_validator_count sample_listed = 1"
    by (simp add: v1_validator_count_def sample_listed_def)
  moreover have "map v1_validator_address (v1_get_validators sample_listed) = [0x222]"
    by (simp add: v1_get_validators_def sample_listed_def Let_def)
  ultimately show ?thesis
    using v1_list_consistent [OF sample_validator_world_sel(3) start _ sample_listed_history] sample_listed_history by simp
qed

end
