(* ===== verification/Spec2Isabelle.thy ===== *)
theory Spec2Isabelle
  imports Nonce_Manager Keychain_Scopes Fee_Settlement Dex_Layout Dex_Inv Channel_Payments Validator_History
begin

text \<open>
  \<^bold>\<open>A verification library for the Tempo precompiles.\<close>

  Tempo is an EVM chain whose protocol functions are precompiled contracts: tokens, transfer
  policies, fees, nonces, access keys, payment channels, an exchange and the registry of the
  validators. The library models these contracts from the Rust sources under \<open>src/crates\<close>, mostly
  \<open>precompiles/src\<close>, and proves the properties that make them correct.

  \<^bold>\<open>How code becomes definitions.\<close> A method \<open>fn f(&mut self, ..) -> Result<T>\<close> is a function into
  \<open>'a M\<close>: a state transformer on the record \<open>world\<close> that returns an error or a value with the new
  state. An error carries no state, because a reverted call leaves no trace; a panic of the code (\<open>expect\<close>)
  is the error \<open>RustPanic\<close>. \<open>rbind\<close> and \<open>rseq\<close> are the
  sequencing with \<open>?\<close>, \<open>ensure\<close> is an early return, and \<open>rd\<close> runs a method on \<open>&self\<close>, which is a plain
  function from the world to \<open>'a R\<close>. The contracts share one world with a record per storage struct;
  a storage mapping is a function with the zero value as default. Unsigned machine integers are
  natural numbers. The checked, saturating and wrapping operations of the source are definitions with
  the width written out (\<open>Prelude\<close>). The hardfork is a field of the world and every branch on it is kept.

  \<^bold>\<open>Parameters.\<close> Code of other packages is a field of the world that no operation changes: the hash
  \<open>keccak256\<close> on structured preimages, the recovery of signers, the Ed25519 functions, and the table of
  addresses with code. A property that needs a collision-free hash says so for the hashes it uses.

  \<^bold>\<open>The theories.\<close> Models of code are in the first group of each item, proofs about them after it.
  \<^item> \<open>Prelude\<close>: the computations, integers, rule collections (\<open>runs\<close> for the outcome of a computation,
    \<open>frame\<close> for what it leaves alone, \<open>keeping\<close>, \<open>touching\<close>, \<open>debiting\<close>) and the locales
    \<open>step_relation\<close> (a relation that sequencing keeps) and \<open>invariant_machine\<close> (operations that keep an
    invariant, hence every history does). \<open>Storage_Set\<close> and \<open>Storage_Vec\<close>: the enumerable set and the
    vector of \<open>storage/types\<close>; the set refines a mathematical set (locale \<open>stored_set\<close>).
  \<^item> \<open>Chain\<close> and \<open>World\<close>: hardforks (\<open>hardfork/src/lib.rs\<close>), address formats
    (\<open>primitives/src/address.rs\<close>), errors, events and storage structs (\<open>contracts/src/precompiles\<close>).
  \<^item> \<open>Nonce_Manager\<close> (\<open>nonce/mod.rs\<close>): the ring of expiring nonces admits no replay and stays in bounds.
  \<^item> \<open>Address_Registry\<close> (\<open>address_registry/mod.rs\<close>): virtual addresses resolve to the same account for good.
  \<^item> \<open>Policy_Registry\<close> (\<open>tip403_registry/mod.rs\<close>): the registry invariant, authority over policies, the
    soundness of the cached receive policies, and that the migration of token bindings changes no policy.
  \<^item> \<open>Keychain\<close> (\<open>account_keychain/mod.rs\<close>), with \<open>Keychain_Limits\<close> (spending per period),
    \<open>Keychain_Keys\<close> (life cycle of keys) and \<open>Keychain_Scopes\<close> (the stored tree decides calls as the
    configured list of scopes).
  \<^item> \<open>Receipts\<close>, \<open>Tip20_Ledger\<close>, \<open>Tip20\<close>, \<open>Receive_Guard\<close>, \<open>Factory\<close> and \<open>System\<close>: the tokens
    (\<open>tip20/mod.rs\<close>, \<open>roles.rs\<close>, \<open>rewards.rs\<close>, \<open>dispatch.rs\<close>), the guard for diverted funds
    (\<open>receive_policy_guard/mod.rs\<close>), the factory (\<open>tip20_factory/mod.rs\<close>), and all their calls as one
    machine \<open>system_exec\<close>. \<open>Tip20_Runs\<close> and \<open>Tip20_Frames\<close> say what the operations do and leave alone;
    \<open>Tip20_Supply\<close> proves conservation, \<open>Tip20_Authority\<close> who can take funds, \<open>Tip20_Pause\<close> what a pause
    stops, \<open>Tip20_Transfers\<close> the outcome of a transfer and of a fee refund, \<open>Tip20_Quotes\<close> that the walk
    over quote tokens ends.
  \<^item> \<open>Fee_Amm\<close> and \<open>Fee_Manager\<close> (\<open>tip_fee_manager\<close>), with \<open>Fee_Pools\<close> (value and backing of the shares)
    and \<open>Fee_Settlement\<close> (a collected fee can be settled, whatever happens in the transaction).
  \<^item> \<open>Dex_Prices\<close>, \<open>Dex_Book\<close>, \<open>Dex_Orders\<close>, \<open>Dex_Swaps\<close> (\<open>stablecoin_dex\<close>): prices, order records,
    bitmaps, placing, cancelling, swaps and quotes. Conversions are inverse and the search finds the nearest
    tick. \<open>Dex_Layout\<close> (\<open>order/storage.rs\<close>, \<open>storage/packing.rs\<close>) has the packed slots of an order in its
    three layouts; an order reads back from them under every later fork, and they implement the records.
    \<open>Dex_Queue\<close> and \<open>Dex_Inv\<close> hold the queue of a level and the invariant of a book with the lemmas on
    appending, filling and unlinking an order.
  \<^item> \<open>Channel_Reserve\<close> (\<open>tip20_channel_reserve\<close>), with \<open>Channel_Ledger\<close> (what a call does to a channel and
    to the funds of the reserve), \<open>Channel_Safety\<close> (in all histories the records are well typed, withdrawals
    wait for the grace period, and the reserve is solvent) and \<open>Channel_Payments\<close> (a ledger of what each
    channel paid, all of it covered by vouchers that were presented).
  \<^item> \<open>Net_Addr\<close>: parsing and printing of IP and socket addresses as in the Rust standard library, with
    the round trip. \<open>Validator_Config\<close> (\<open>validator_config\<close>, \<open>ip_validation.rs\<close>) and \<open>Validator_Config_V2\<close>
    (\<open>validator_config_v2\<close>): both registries of validators with the migration. \<open>Validator_Index\<close> holds
    the invariant of the index structure, \<open>Validator_Safety\<close> that every call makes authorized steps of
    \<open>index_step\<close>, and \<open>Validator_History\<close> the properties of all histories, among them that the endpoint
    check lets addresses through on which the signature check panics.

  \<^bold>\<open>Loops and bounds.\<close> No definition uses fuel. Loops over lists and bitmap words are structural or
  have a termination proof. The four loops that the source does not bound are partial functions into
  \<open>option\<close>, in which \<open>None\<close> is non-termination: \<open>walk_quotes\<close>, \<open>walk_from\<close>, \<open>quote_ticks\<close> and
  \<open>find_path_to_root\<close>. For \<open>walk_quotes\<close> it is proved that it returns in every reachable state; for the
  three loops of the exchange there is no such theorem. Histories are finite sequences of calls of any
  length, senders and arguments.

  \<^bold>\<open>What is not modelled.\<close> Gas metering and storage credits change only costs, and the packing of
  slots only the layout; it is modelled for the orders of the exchange, whose layout depends on the fork. ABI decoding is generated by macros; a call is a constructor with its arguments, and views
  that only return a field have no definition. The current committee, the zone contracts, the transaction
  handler and pool are not covered yet. Signature envelopes, block assembly, consensus, networking and
  RPC are I/O or thin layers over third-party packages.
\<close>

end
